(* ===== verification/Prelude.thy ===== *)
theory Prelude
  imports Main "HOL-Library.Word" "HOL-Library.Monad_Syntax"
begin

unbundle bit_operations_syntax

text \<open>
  What every component of the development shares: the machine types of the C sources, the
  return codes of \<^verbatim>\<open>qcloud_iot_export_error.h\<close>, and byte buffers whose accesses are
  checked.

  A C function that touches memory is a HOL function into \<open>option\<close>: \<open>None\<close> stands for
  undefined behaviour (a read or write outside the object, a NULL dereference, an invalid free)
  or, for loops defined by \<^theory_text>\<open>partial_function\<close>, for not returning. A result
  \<open>Some r\<close> is a return. Where a C function reports errors through its return code and its
  results through out-parameters, \<open>r\<close> is a sum: \<open>Inl rc\<close> is the error return,
  \<open>Inr x\<close> is \<^verbatim>\<open>QCLOUD_RET_SUCCESS\<close> with the out-parameters \<open>x\<close>. Pointers into
  a buffer are offsets (\<open>nat\<close>) from its start; \<^verbatim>\<open>size_t\<close> is the 64-bit type of the
  Linux build, and is written as a \<open>nat\<close> wherever no wrap-around can occur.
\<close>

section \<open>Machine types\<close>

type_synonym byte = "8 word"
type_synonym u16 = "16 word"
type_synonym u32 = "32 word"
type_synonym size_t = "64 word"

text \<open>C strings are modelled by their bytes before the terminating NUL.\<close>

type_synonym cstr = "byte list"

text \<open>Error code or result.\<close>

type_synonym 'a cres = "int + 'a"

section \<open>Return codes\<close>

text \<open>The codes of \<^verbatim>\<open>IoT_Return_Code\<close> that the modelled sources use.\<close>

abbreviation (input) QCLOUD_RET_MQTT_ALREADY_CONNECTED :: int where
  "QCLOUD_RET_MQTT_ALREADY_CONNECTED \<equiv> 4"
abbreviation (input) QCLOUD_RET_MQTT_CONNACK_CONNECTION_ACCEPTED :: int where
  "QCLOUD_RET_MQTT_CONNACK_CONNECTION_ACCEPTED \<equiv> 3"
abbreviation (input) QCLOUD_RET_MQTT_MANUALLY_DISCONNECTED :: int where
  "QCLOUD_RET_MQTT_MANUALLY_DISCONNECTED \<equiv> 2"
abbreviation (input) QCLOUD_RET_MQTT_RECONNECTED :: int where
  "QCLOUD_RET_MQTT_RECONNECTED \<equiv> 1"
abbreviation (input) QCLOUD_RET_SUCCESS :: int where
  "QCLOUD_RET_SUCCESS \<equiv> 0"
abbreviation (input) QCLOUD_ERR_FAILURE :: int where
  "QCLOUD_ERR_FAILURE \<equiv> - 1001"
abbreviation (input) QCLOUD_ERR_INVAL :: int where
  "QCLOUD_ERR_INVAL \<equiv> - 1002"
abbreviation (input) QCLOUD_ERR_MALLOC :: int where
  "QCLOUD_ERR_MALLOC \<equiv> - 1004"
abbreviation (input) QCLOUD_ERR_MQTT_PUSH_TO_LIST_FAILED :: int where
  "QCLOUD_ERR_MQTT_PUSH_TO_LIST_FAILED \<equiv> - 102"
abbreviation (input) QCLOUD_ERR_MQTT_NO_CONN :: int where
  "QCLOUD_ERR_MQTT_NO_CONN \<equiv> - 103"
abbreviation (input) QCLOUD_ERR_MQTT_UNKNOWN :: int where
  "QCLOUD_ERR_MQTT_UNKNOWN \<equiv> - 104"
abbreviation (input) QCLOUD_ERR_MQTT_ATTEMPTING_RECONNECT :: int where
  "QCLOUD_ERR_MQTT_ATTEMPTING_RECONNECT \<equiv> - 105"
abbreviation (input) QCLOUD_ERR_MQTT_RECONNECT_TIMEOUT :: int where
  "QCLOUD_ERR_MQTT_RECONNECT_TIMEOUT \<equiv> - 106"
abbreviation (input) QCLOUD_ERR_MQTT_MAX_SUBSCRIPTIONS :: int where
  "QCLOUD_ERR_MQTT_MAX_SUBSCRIPTIONS \<equiv> - 107"
abbreviation (input) QCLOUD_ERR_MQTT_SUB :: int where
  "QCLOUD_ERR_MQTT_SUB \<equiv> - 108"
abbreviation (input) QCLOUD_ERR_MQTT_NOTHING_TO_READ :: int where
  "QCLOUD_ERR_MQTT_NOTHING_TO_READ \<equiv> - 109"
abbreviation (input) QCLOUD_ERR_MQTT_PACKET_READ :: int where
  "QCLOUD_ERR_MQTT_PACKET_READ \<equiv> - 110"
abbreviation (input) QCLOUD_ERR_MQTT_REQUEST_TIMEOUT :: int where
  "QCLOUD_ERR_MQTT_REQUEST_TIMEOUT \<equiv> - 111"
abbreviation (input) QCLOUD_ERR_MQTT_CONNACK_UNKNOWN :: int where
  "QCLOUD_ERR_MQTT_CONNACK_UNKNOWN \<equiv> - 112"
abbreviation (input) QCLOUD_ERR_MQTT_CONNACK_UNACCEPTABLE_PROTOCOL_VERSION :: int where
  "QCLOUD_ERR_MQTT_CONNACK_UNACCEPTABLE_PROTOCOL_VERSION \<equiv> - 113"
abbreviation (input) QCLOUD_ERR_MQTT_CONNACK_IDENTIFIER_REJECTED :: int where
  "QCLOUD_ERR_MQTT_CONNACK_IDENTIFIER_REJECTED \<equiv> - 114"
abbreviation (input) QCLOUD_ERR_MQTT_CONNACK_SERVER_UNAVAILABLE :: int where
  "QCLOUD_ERR_MQTT_CONNACK_SERVER_UNAVAILABLE \<equiv> - 115"
abbreviation (input) QCLOUD_ERR_MQTT_CONNACK_BAD_USERDATA :: int where
  "QCLOUD_ERR_MQTT_CONNACK_BAD_USERDATA \<equiv> - 116"
abbreviation (input) QCLOUD_ERR_MQTT_CONNACK_NOT_AUTHORIZED :: int where
  "QCLOUD_ERR_MQTT_CONNACK_NOT_AUTHORIZED \<equiv> - 117"
abbreviation (input) QCLOUD_ERR_RX_MESSAGE_INVAL :: int where
  "QCLOUD_ERR_RX_MESSAGE_INVAL \<equiv> - 118"
abbreviation (input) QCLOUD_ERR_BUF_TOO_SHORT :: int where
  "QCLOUD_ERR_BUF_TOO_SHORT \<equiv> - 119"
abbreviation (input) QCLOUD_ERR_MQTT_QOS_NOT_SUPPORT :: int where
  "QCLOUD_ERR_MQTT_QOS_NOT_SUPPORT \<equiv> - 120"
abbreviation (input) QCLOUD_ERR_MQTT_UNSUB_FAIL :: int where
  "QCLOUD_ERR_MQTT_UNSUB_FAIL \<equiv> - 121"
abbreviation (input) QCLOUD_ERR_MAX_TOPIC_LENGTH :: int where
  "QCLOUD_ERR_MAX_TOPIC_LENGTH \<equiv> - 138"
abbreviation (input) QCLOUD_ERR_COAP_DATA_SIZE :: int where
  "QCLOUD_ERR_COAP_DATA_SIZE \<equiv> - 151"
abbreviation (input) QCLOUD_ERR_COAP_INTERNAL :: int where
  "QCLOUD_ERR_COAP_INTERNAL \<equiv> - 152"
abbreviation (input) QCLOUD_ERR_COAP_BADMSG :: int where
  "QCLOUD_ERR_COAP_BADMSG \<equiv> - 153"
abbreviation (input) QCLOUD_ERR_TCP_READ_FAIL :: int where
  "QCLOUD_ERR_TCP_READ_FAIL \<equiv> - 606"
abbreviation (input) QCLOUD_ERR_TCP_PEER_SHUTDOWN :: int where
  "QCLOUD_ERR_TCP_PEER_SHUTDOWN \<equiv> - 608"
abbreviation (input) QCLOUD_ERR_TCP_NOTHING_TO_READ :: int where
  "QCLOUD_ERR_TCP_NOTHING_TO_READ \<equiv> - 609"
abbreviation (input) QCLOUD_ERR_SSL_READ_TIMEOUT :: int where
  "QCLOUD_ERR_SSL_READ_TIMEOUT \<equiv> - 707"
abbreviation (input) QCLOUD_ERR_SSL_READ :: int where
  "QCLOUD_ERR_SSL_READ \<equiv> - 708"
abbreviation (input) QCLOUD_ERR_SSL_NOTHING_TO_READ :: int where
  "QCLOUD_ERR_SSL_NOTHING_TO_READ \<equiv> - 709"

section \<open>Checked byte buffers\<close>

named_theorems buf_simps \<open>symbolic execution of buffer reads and writes\<close>

definition rd :: "'a list \<Rightarrow> nat \<Rightarrow> 'a option" where
  "rd b i = (if i < length b then Some (b ! i) else None)"

definition wr :: "'a list \<Rightarrow> nat \<Rightarrow> 'a \<Rightarrow> 'a list option" where
  "wr b i v = (if i < length b then Some (b[i := v]) else None)"

text \<open>\<^verbatim>\<open>memcpy\<close> out of and into a buffer.\<close>

definition rd_bytes :: "'a list \<Rightarrow> nat \<Rightarrow> nat \<Rightarrow> 'a list option" where
  "rd_bytes b i n = (if i + n \<le> length b then Some (take n (drop i b)) else None)"

definition wr_bytes :: "'a list \<Rightarrow> nat \<Rightarrow> 'a list \<Rightarrow> 'a list option" where
  "wr_bytes b i vs =
     (if i + length vs \<le> length b then Some (take i b @ vs @ drop (i + length vs) b) else None)"

text \<open>The C string at the start of a buffer: \<open>None\<close> when it has no terminating NUL.\<close>

fun buf_str :: "byte list \<Rightarrow> cstr option" where
  "buf_str [] = None"
| "buf_str (c # cs) = (if c = 0 then Some [] else map_option ((#) c) (buf_str cs))"

lemma rd_append [buf_simps]:
  "length xs = i \<Longrightarrow> rd (xs @ y # ys) i = Some y"
  by (auto simp: rd_def)

lemma rd_Cons_0 [buf_simps]: "rd (y # ys) 0 = Some y"
  by (simp add: rd_def)

lemma rd_Cons_Suc [buf_simps]: "rd (y # ys) (Suc i) = rd ys i"
  by (simp add: rd_def)

lemma rd_Nil [buf_simps]: "rd [] i = None"
  by (simp add: rd_def)

lemma rd_Some_iff: "rd b i = Some v \<longleftrightarrow> i < length b \<and> v = b ! i"
  by (auto simp: rd_def)

lemma rd_in_range: "i < length b \<Longrightarrow> rd b i = Some (b ! i)"
  by (simp add: rd_def)

lemma wr_as_wr_bytes: "wr b i v = wr_bytes b i [v]"
  by (auto simp: wr_def wr_bytes_def upd_conv_take_nth_drop)

text \<open>
  Sequential writing: a buffer whose first \<open>i\<close> bytes are known, extended at \<open>i\<close>.
\<close>

lemma wr_bytes_append [buf_simps]:
  "length xs = i \<Longrightarrow>
     wr_bytes (xs @ ys) i vs =
       (if length vs \<le> length ys then Some ((xs @ vs) @ drop (length vs) ys) else None)"
  by (auto simp: wr_bytes_def)

lemma wr_append [buf_simps]:
  "length xs = i \<Longrightarrow>
     wr (xs @ ys) i v = (if ys \<noteq> [] then Some ((xs @ [v]) @ drop 1 ys) else None)"
  by (cases ys) (auto simp: wr_def)

lemma wr_bytes_0: "wr_bytes b 0 vs = (if length vs \<le> length b then Some (vs @ drop (length vs) b) else None)"
  by (simp add: wr_bytes_def)

lemma wr_bytes_length: "wr_bytes b i vs = Some b' \<Longrightarrow> length b' = length b"
  by (auto simp: wr_bytes_def split: if_splits)

lemma wr_length: "wr b i v = Some b' \<Longrightarrow> length b' = length b"
  by (auto simp: wr_def split: if_splits)

lemma wr_bytes_Nil [simp]: "i \<le> length b \<Longrightarrow> wr_bytes b i [] = Some b"
  by (simp add: wr_bytes_def)

lemma wr_bytes_wr_bytes:
  "j = i + length vs \<Longrightarrow>
     Option.bind (wr_bytes b i vs) (\<lambda>b. wr_bytes b j ws) = wr_bytes b i (vs @ ws)"
  by (auto simp: wr_bytes_def ac_simps)

lemma rd_bytes_append [buf_simps]:
  "length xs = i \<Longrightarrow> length ys = n \<Longrightarrow> rd_bytes (xs @ ys @ zs) i n = Some ys"
  by (simp add: rd_bytes_def)

lemma rd_bytes_length: "rd_bytes b i n = Some vs \<Longrightarrow> length vs = n"
  by (auto simp: rd_bytes_def split: if_splits)

lemma buf_str_append: "0 \<notin> set s \<Longrightarrow> buf_str (s @ 0 # rest) = Some s"
  by (induction s) auto

lemma buf_str_total: "0 \<in> set b \<Longrightarrow> buf_str b \<noteq> None"
  by (induction b) auto

section \<open>Option and list facts\<close>

lemma bind_Some_iff: "Option.bind m f = Some y \<longleftrightarrow> (\<exists>x. m = Some x \<and> f x = Some y)"
  by (cases m) auto

lemma bind_None_iff: "Option.bind m f = None \<longleftrightarrow> m = None \<or> (\<exists>x. m = Some x \<and> f x = None)"
  by (cases m) auto

text \<open>
  Weakest preconditions: \<open>ok m Q\<close> says that the computation \<open>m\<close> is defined and its result
  satisfies \<open>Q\<close>.
\<close>

definition ok :: "'a option \<Rightarrow> ('a \<Rightarrow> bool) \<Rightarrow> bool" where
  "ok m Q = (case m of None \<Rightarrow> False | Some x \<Rightarrow> Q x)"

lemma ok_Some [simp]: "ok (Some x) Q = Q x"
  by (simp add: ok_def)

lemma ok_None [simp]: "\<not> ok None Q"
  by (simp add: ok_def)

lemma ok_bind: "ok (Option.bind m f) Q = ok m (\<lambda>x. ok (f x) Q)"
  by (cases m) simp_all

lemma ok_if: "ok (if b then m else m') Q = (if b then ok m Q else ok m' Q)"
  by simp

lemma ok_mono: "ok m P \<Longrightarrow> (\<And>x. P x \<Longrightarrow> Q x) \<Longrightarrow> ok m Q"
  by (cases m) simp_all

lemma ok_D: "ok m Q \<Longrightarrow> \<exists>x. m = Some x \<and> Q x"
  by (cases m) simp_all

lemma ok_conjI: "ok m P \<Longrightarrow> ok m Q \<Longrightarrow> ok m (\<lambda>x. P x \<and> Q x)"
  by (cases m) simp_all

section \<open>Words\<close>

lemma unat_u32_less [simp]: "unat (w :: u32) < 4294967296"
  using unsigned_less [of w, where 'a = nat] by simp

lemma unat_u16_less [simp]: "unat (w :: u16) < 65536"
  using unsigned_less [of w, where 'a = nat] by simp

lemma unat_byte_less [simp]: "unat (w :: byte) < 256"
  using unsigned_less [of w, where 'a = nat] by simp

lemma unat_div_word: "unat (a div b) = unat a div unat b"
  by (simp add: unat_div)

lemma unat_mod_word: "unat (a mod b) = unat a mod unat b"
  by (simp add: unat_mod)

lemma ucast_of_nat_byte: "x < 256 \<Longrightarrow> (ucast (of_nat x :: byte) :: 'a :: len word) = of_nat x"
  by (simp add: unsigned_of_nat take_bit_nat_eq_self)

subsection \<open>The top bit of a byte\<close>

lemma byte_and_128: "c AND 128 = (0 :: byte) \<longleftrightarrow> \<not> bit c 7"
  using and_exp_eq_0_iff_not_bit [of c 7] by simp

lemma bit7_of_nat: "bit (of_nat x :: byte) 7 \<longleftrightarrow> odd (x div 128)"
  by (simp only: bit_of_nat_iff) (simp add: bit_iff_odd)

lemma byte_and_127: "(of_nat x :: byte) AND 127 = of_nat (x mod 128)"
proof -
  have m: "(127 :: byte) = mask 7"
    by (simp add: mask_eq_exp_minus_1)
  show ?thesis
    by (simp only: m take_bit_eq_mask [symmetric] take_bit_of_nat) (simp add: take_bit_eq_mod)
qed

lemma byte_7bit_last:
  "x < 128 \<Longrightarrow> (of_nat x :: byte) AND 128 = 0 \<and> (of_nat x :: byte) AND 127 = of_nat x"
  by (simp add: byte_and_128 bit7_of_nat byte_and_127)

lemma byte_7bit_more:
  "x < 128 \<Longrightarrow> (of_nat (x + 128) :: byte) AND 128 \<noteq> 0 \<and> (of_nat (x + 128) :: byte) AND 127 = of_nat x"
proof -
  assume "x < 128"
  then have "(x + 128) div 128 = 1" and "(x + 128) mod 128 = x"
    by simp_all
  then show ?thesis
    by (simp only: byte_and_128 bit7_of_nat byte_and_127 not_not odd_one simp_thms)
qed

lemma byte_7bit_or: "x < 128 \<Longrightarrow> (of_nat x :: byte) OR 0x80 = of_nat (x + 128)"
  using disjunctive_add_eq_or [of "of_nat x :: byte" 128] byte_7bit_last [of x] by simp

lemma byte_and_1: "d AND 1 = 0 \<or> d AND 1 = (1 :: byte)"
  by (simp add: and_one_eq mod2_eq_if)

subsection \<open>Big-endian 16-bit numbers\<close>

definition u16_bytes :: "u16 \<Rightarrow> byte list" where
  "u16_bytes x = [ucast (x div 256), ucast (x mod 256)]"

lemma u16_bytes_join: "ucast (ucast (x mod 256) :: byte) + 256 * ucast (ucast (x div 256) :: byte) = (x :: u16)"
proof -
  have 1: "unat (ucast (ucast (x mod 256) :: byte) :: u16) = unat x mod 256"
    by (simp add: unsigned_ucast_eq unat_mod_word unsigned_take_bit_eq take_bit_nat_eq_self)
  have 2: "unat (ucast (ucast (x div 256) :: byte) :: u16) = unat x div 256"
    using unat_u16_less [of x]
    by (simp add: unsigned_ucast_eq unat_div_word unsigned_take_bit_eq take_bit_nat_eq_self
        div_less_iff_less_mult)
  have 3: "256 * (unat x div 256) < 65536"
    using unat_u16_less [of x] div_times_less_eq_dividend [of "unat x" 256] by linarith
  show ?thesis
    by (rule word_unat_eq_iff [THEN iffD2]) (simp add: unat_word_ariths 1 2 mod_less [OF 3])
qed

lemma length_u16_bytes [simp]: "length (u16_bytes x) = 2"
  by (simp add: u16_bytes_def)

section \<open>Writing a packet from the start of a buffer\<close>

text \<open>
  \<open>put buf xs\<close> is the buffer after \<open>xs\<close> has been written at its start. Every serializer
  extends such a prefix step by step.
\<close>

definition put :: "'a list \<Rightarrow> 'a list \<Rightarrow> 'a list" where
  "put buf xs = xs @ drop (length xs) buf"

lemma length_put [simp]: "length xs \<le> length buf \<Longrightarrow> length (put buf xs) = length buf"
  by (simp add: put_def)

lemma put_Nil: "put buf [] = buf"
  by (simp add: put_def)

lemma wr_bytes_put:
  "p = length xs \<Longrightarrow> p + length ys \<le> length buf \<Longrightarrow> wr_bytes (put buf xs) p ys = Some (put buf (xs @ ys))"
  by (simp add: put_def wr_bytes_append ac_simps)

lemma wr_put:
  "p = length xs \<Longrightarrow> p < length buf \<Longrightarrow> wr (put buf xs) p y = Some (put buf (xs @ [y]))"
  by (simp add: wr_as_wr_bytes wr_bytes_put)

lemma rd_bytes_0_length: "n = length xs \<Longrightarrow> rd_bytes xs 0 n = Some xs"
  by (simp add: rd_bytes_def)

lemma bind_wr_bytes_cons:
  "Option.bind (wr b i v) (\<lambda>b. wr_bytes b (i + 1) vs) = wr_bytes b i (v # vs)"
  using wr_bytes_wr_bytes [of "i + 1" i "[v]" b vs] by (simp add: wr_as_wr_bytes)

lemma rd_drop: "drop p buf = x # t \<Longrightarrow> rd buf p = Some x"
  by (simp add: rd_def) (metis drop_eq_Nil linorder_not_less list.distinct(1) nth_via_drop)

end
