(* ===== verification/Ring_Buffer.thy ===== *)
theory Ring_Buffer
  imports Prelude
begin

text \<open>
  The ring buffer of \<^verbatim>\<open>utils_ringbuff.c\<close>, through which the AT module's interrupt handler
  passes bytes to the parser. A buffer of size \<open>n\<close> holds at most \<open>n - 1\<close> bytes. The
  interface \<open>fifo\<close> states the contract of a bounded byte queue; the ring buffer is shown to
  implement it, so that bytes leave in the order they came and none is lost while no push reports
  \<^verbatim>\<open>RINGBUFF_FULL\<close>.
\<close>

section \<open>The buffer and its operations\<close>

abbreviation (input) RINGBUFF_OK :: int where "RINGBUFF_OK \<equiv> 0"
abbreviation (input) RINGBUFF_FULL :: int where "RINGBUFF_FULL \<equiv> - 4"
abbreviation (input) RINGBUFF_TOO_SHORT :: int where "RINGBUFF_TOO_SHORT \<equiv> - 5"

record sRingbuff =
  rb_size :: u32
  rb_readpoint :: u32
  rb_writepoint :: u32
  rb_buffer :: "byte list"
  rb_full :: bool

text \<open>\<^verbatim>\<open>memset(buffer, 0, size)\<close> needs an array of at least \<open>size\<close> bytes.\<close>

definition ring_memset :: "sRingbuff \<Rightarrow> sRingbuff option" where
  "ring_memset r = do {
     b \<leftarrow> wr_bytes (rb_buffer r) 0 (replicate (unat (rb_size r)) 0);
     Some (r\<lparr>rb_buffer := b\<rparr>)
   }"

definition ring_buff_init :: "byte list \<Rightarrow> u32 \<Rightarrow> (int \<times> sRingbuff) option" where
  "ring_buff_init buff sz = do {
     r \<leftarrow> ring_memset \<lparr>rb_size = sz, rb_readpoint = 0, rb_writepoint = 0, rb_buffer = buff, rb_full = False\<rparr>;
     Some (RINGBUFF_OK, r)
   }"

definition ring_buff_flush :: "sRingbuff \<Rightarrow> (int \<times> sRingbuff) option" where
  "ring_buff_flush r = do {
     r \<leftarrow> ring_memset (r\<lparr>rb_readpoint := 0, rb_writepoint := 0\<rparr>);
     Some (RINGBUFF_OK, r\<lparr>rb_full := False\<rparr>)
   }"

text \<open>The loop of \<^verbatim>\<open>ring_buff_push_data\<close>: \<open>n\<close> iterations are left, \<open>i\<close> indexes \<^verbatim>\<open>pData\<close>.\<close>

fun ring_push_loop :: "nat \<Rightarrow> nat \<Rightarrow> byte list \<Rightarrow> sRingbuff \<Rightarrow> (int \<times> sRingbuff) option" where
  "ring_push_loop 0 i pData r = Some (RINGBUFF_OK, r)"
| "ring_push_loop (Suc n) i pData r =
     (if rb_size r = 0 then None
      else if (rb_writepoint r + 1) mod rb_size r = rb_readpoint r
      then Some (RINGBUFF_FULL, r\<lparr>rb_full := True\<rparr>)
      else do {
        let r = (if rb_writepoint r < rb_size r - 1 then r\<lparr>rb_writepoint := rb_writepoint r + 1\<rparr>
                 else r\<lparr>rb_writepoint := 0\<rparr>);
        d \<leftarrow> rd pData i;
        b \<leftarrow> wr (rb_buffer r) (unat (rb_writepoint r)) d;
        ring_push_loop n (i + 1) pData (r\<lparr>rb_buffer := b\<rparr>)
      })"

text \<open>\<open>len\<close> is an \<^verbatim>\<open>int\<close>; its comparison with the unsigned size is unsigned.\<close>

definition ring_buff_push_data :: "sRingbuff \<Rightarrow> byte list \<Rightarrow> 32 word \<Rightarrow> (int \<times> sRingbuff) option" where
  "ring_buff_push_data r pData len =
     (if len > rb_size r then Some (RINGBUFF_TOO_SHORT, r)
      else ring_push_loop (nat (sint len)) 0 pData r)"

text \<open>The loop of \<^verbatim>\<open>ring_buff_pop_data\<close> returns \<open>i\<close>, the number of bytes popped.\<close>

fun ring_pop_loop :: "nat \<Rightarrow> nat \<Rightarrow> byte list \<Rightarrow> sRingbuff \<Rightarrow> (int \<times> byte list \<times> sRingbuff) option" where
  "ring_pop_loop 0 i pData r = Some (int i, pData, r)"
| "ring_pop_loop (Suc n) i pData r =
     (if rb_writepoint r = rb_readpoint r then Some (int i, pData, r)
      else do {
        let r = (if rb_readpoint r = rb_size r - 1 then r\<lparr>rb_readpoint := 0\<rparr>
                 else r\<lparr>rb_readpoint := rb_readpoint r + 1\<rparr>);
        d \<leftarrow> rd (rb_buffer r) (unat (rb_readpoint r));
        pData \<leftarrow> wr pData i d;
        ring_pop_loop n (i + 1) pData r
      })"

definition ring_buff_pop_data :: "sRingbuff \<Rightarrow> byte list \<Rightarrow> 32 word \<Rightarrow> (int \<times> byte list \<times> sRingbuff) option" where
  "ring_buff_pop_data r pData len =
     (if len > rb_size r then Some (RINGBUFF_TOO_SHORT, pData, r)
      else ring_pop_loop (nat (sint len)) 0 pData r)"

section \<open>The contract of a bounded queue\<close>

datatype 'a fifo_op = Push "'a list" | Pop nat

text \<open>A run of queue operations: what was popped, and the final state.\<close>

fun fifo_run :: "('a list \<Rightarrow> 's \<Rightarrow> (bool \<times> 's) option) \<Rightarrow> (nat \<Rightarrow> 's \<Rightarrow> ('a list \<times> 's) option) \<Rightarrow>
    'a fifo_op list \<Rightarrow> 's \<Rightarrow> ('a list \<times> bool \<times> 's) option" where
  "fifo_run push pop [] s = Some ([], True, s)"
| "fifo_run push pop (Push xs # ops) s = do {
     (ok, s) \<leftarrow> push xs s;
     (out, oks, s) \<leftarrow> fifo_run push pop ops s;
     Some (out, ok \<and> oks, s)
   }"
| "fifo_run push pop (Pop n # ops) s = do {
     (ys, s) \<leftarrow> pop n s;
     (out, oks, s) \<leftarrow> fifo_run push pop ops s;
     Some (ys @ out, oks, s)
   }"

fun pushed :: "'a fifo_op list \<Rightarrow> 'a list" where
  "pushed [] = []"
| "pushed (Push xs # ops) = xs @ pushed ops"
| "pushed (Pop n # ops) = pushed ops"

fun op_size :: "'a fifo_op \<Rightarrow> nat" where
  "op_size (Push xs) = length xs"
| "op_size (Pop n) = n"

locale fifo =
  fixes inv :: "'s \<Rightarrow> bool" and contents :: "'s \<Rightarrow> 'a list" and capacity :: "'s \<Rightarrow> nat"
    and push :: "'a list \<Rightarrow> 's \<Rightarrow> (bool \<times> 's) option" and pop :: "nat \<Rightarrow> 's \<Rightarrow> ('a list \<times> 's) option"
  assumes contents_bound: "inv s \<Longrightarrow> length (contents s) \<le> capacity s"
    and push_law: "inv s \<Longrightarrow> length xs \<le> capacity s \<Longrightarrow>
      \<exists>s'. push xs s = Some (length (contents s) + length xs \<le> capacity s, s') \<and> inv s' \<and>
        capacity s' = capacity s \<and> contents s' = contents s @ take (capacity s - length (contents s)) xs"
    and pop_law: "inv s \<Longrightarrow> n \<le> capacity s \<Longrightarrow>
      \<exists>s'. pop n s = Some (take n (contents s), s') \<and> inv s' \<and> capacity s' = capacity s \<and>
        contents s' = drop n (contents s)"
begin

text \<open>
  Any run of operations succeeds and keeps the invariant; as long as no push was refused, what was
  popped followed by what is left is exactly what was there and what was pushed.
\<close>

lemma run_total:
  "inv s \<Longrightarrow> \<forall>op \<in> set ops. op_size op \<le> capacity s \<Longrightarrow>
     \<exists>out ok s'. fifo_run push pop ops s = Some (out, ok, s') \<and> inv s' \<and> capacity s' = capacity s \<and>
       (ok \<longrightarrow> out @ contents s' = contents s @ pushed ops)"
proof (induction ops arbitrary: s)
  case Nil
  then show ?case by auto
next
  case (Cons op ops)
  show ?case
  proof (cases op)
    case (Push xs)
    then obtain s1 where s1: "push xs s = Some (length (contents s) + length xs \<le> capacity s, s1)"
        "inv s1" "capacity s1 = capacity s" "contents s1 = contents s @ take (capacity s - length (contents s)) xs"
      using push_law [of s xs] Cons.prems by auto
    then obtain out ok s' where "fifo_run push pop ops s1 = Some (out, ok, s')" "inv s'" "capacity s' = capacity s"
        "ok \<longrightarrow> out @ contents s' = contents s1 @ pushed ops"
      using Cons.IH [of s1] Cons.prems by auto
    with s1 Push show ?thesis
      by auto
  next
    case (Pop n)
    then obtain s1 where s1: "pop n s = Some (take n (contents s), s1)"
        "inv s1" "capacity s1 = capacity s" "contents s1 = drop n (contents s)"
      using pop_law [of s n] Cons.prems by auto
    then obtain out ok s' where "fifo_run push pop ops s1 = Some (out, ok, s')" "inv s'" "capacity s' = capacity s"
        "ok \<longrightarrow> out @ contents s' = drop n (contents s) @ pushed ops"
      using Cons.IH [of s1] Cons.prems by auto
    with s1 Pop show ?thesis
      by auto
  qed
qed

end

section \<open>The ring buffer implements the contract\<close>

definition ring_inv :: "sRingbuff \<Rightarrow> bool" where
  "ring_inv r \<longleftrightarrow> 0 < unat (rb_size r) \<and> unat (rb_size r) < 2 ^ 31 \<and> unat (rb_size r) \<le> length (rb_buffer r) \<and>
     unat (rb_readpoint r) < unat (rb_size r) \<and> unat (rb_writepoint r) < unat (rb_size r)"

definition ring_count :: "sRingbuff \<Rightarrow> nat" where
  "ring_count r =
     (unat (rb_writepoint r) + unat (rb_size r) - unat (rb_readpoint r)) mod unat (rb_size r)"

definition ring_nth :: "sRingbuff \<Rightarrow> nat \<Rightarrow> byte" where
  "ring_nth r k = rb_buffer r ! ((unat (rb_readpoint r) + 1 + k) mod unat (rb_size r))"

definition ring_contents :: "sRingbuff \<Rightarrow> byte list" where
  "ring_contents r = map (ring_nth r) [0..<ring_count r]"

definition ring_capacity :: "sRingbuff \<Rightarrow> nat" where
  "ring_capacity r = unat (rb_size r) - 1"

text \<open>Circular distances.\<close>

lemma mod_dist:
  fixes n :: nat
  assumes "r < n" and "w < n" and "c = (w + n - r) mod n"
  shows "c < n" and "w = (r + c) mod n" and "(w + 1) mod n = r \<longleftrightarrow> c = n - 1" and "w = r \<longleftrightarrow> c = 0"
    and "c \<noteq> n - 1 \<Longrightarrow> ((w + 1) mod n + n - r) mod n = c + 1"
    and "c \<noteq> 0 \<Longrightarrow> (w + n - (r + 1) mod n) mod n = c - 1"
proof -
  have c: "c = (if r \<le> w then w - r else w + n - r)"
    using assms by (auto simp: mod_if)
  have w1: "Suc w mod n = (if Suc w = n then 0 else Suc w)" and r1: "Suc r mod n = (if Suc r = n then 0 else Suc r)"
    using assms by auto
  show "c < n" "w = (r + c) mod n"
    using assms(1,2) by (auto simp: c mod_if)
  show "(w + 1) mod n = r \<longleftrightarrow> c = n - 1" "w = r \<longleftrightarrow> c = 0"
    using assms(1,2) by (auto simp: c w1)
  show "((w + 1) mod n + n - r) mod n = c + 1" if "c \<noteq> n - 1"
    using that assms(1,2) by (auto simp: c w1 mod_if)
  show "(w + n - (r + 1) mod n) mod n = c - 1" if "c \<noteq> 0"
    using that assms(1,2) by (auto simp: c r1 mod_if)
qed

lemma mod_shift_neq:
  fixes n :: nat
  assumes "k < c" and "c < n"
  shows "(r + 1 + k) mod n \<noteq> (r + 1 + c) mod n"
proof
  assume "(r + 1 + k) mod n = (r + 1 + c) mod n"
  then have "n dvd (r + 1 + c) - (r + 1 + k)"
    using assms(1) mod_eq_dvd_iff_nat [of "r + 1 + k" "r + 1 + c" n] by simp
  with assms show False
    by (auto dest: dvd_imp_le)
qed

lemma ring_dist:
  assumes "ring_inv r"
  shows "ring_count r \<le> ring_capacity r" and "length (ring_contents r) = ring_count r"
    and "unat (rb_writepoint r) = (unat (rb_readpoint r) + ring_count r) mod unat (rb_size r)"
    and "rb_writepoint r = rb_readpoint r \<longleftrightarrow> ring_count r = 0"
    and "(rb_writepoint r + 1) mod rb_size r = rb_readpoint r \<longleftrightarrow> ring_count r = ring_capacity r"
proof -
  note d = mod_dist [of "unat (rb_readpoint r)" "unat (rb_size r)" "unat (rb_writepoint r)" "ring_count r"]
  have lt: "unat (rb_writepoint r) + 1 < 4294967296"
    using assms by (simp add: ring_inv_def)
  show "ring_count r \<le> ring_capacity r"
    using assms d(1) unfolding ring_inv_def ring_count_def ring_capacity_def by linarith
  show "length (ring_contents r) = ring_count r"
    "unat (rb_writepoint r) = (unat (rb_readpoint r) + ring_count r) mod unat (rb_size r)"
    "rb_writepoint r = rb_readpoint r \<longleftrightarrow> ring_count r = 0"
    using assms d(2,4) by (auto simp: ring_inv_def ring_count_def ring_contents_def ring_capacity_def word_unat_eq_iff)
  show "(rb_writepoint r + 1) mod rb_size r = rb_readpoint r \<longleftrightarrow> ring_count r = ring_capacity r"
    using assms d(3) lt
    by (simp add: word_unat_eq_iff unat_mod_word unat_word_ariths(1) ring_inv_def ring_count_def ring_capacity_def)
qed

text \<open>One iteration of the push loop that does not find the buffer full.\<close>

definition ring_put :: "byte \<Rightarrow> sRingbuff \<Rightarrow> sRingbuff" where
  "ring_put d r =
     (let w = (if rb_writepoint r < rb_size r - 1 then rb_writepoint r + 1 else 0)
      in r\<lparr>rb_writepoint := w, rb_buffer := (rb_buffer r)[unat w := d]\<rparr>)"

lemma ring_put_writepoint:
  assumes "ring_inv r"
  shows "unat (rb_writepoint (ring_put d r)) = (unat (rb_writepoint r) + 1) mod unat (rb_size r)"
proof -
  have s: "unat (rb_size r - 1) = unat (rb_size r) - 1"
    using assms by (simp add: ring_inv_def unat_sub word_le_nat_alt)
  have lt: "unat (rb_writepoint r) + 1 < 4294967296"
    using assms by (simp add: ring_inv_def)
  have "Suc (unat (rb_writepoint r)) = unat (rb_size r)"
    if "\<not> unat (rb_writepoint r) < unat (rb_size r) - Suc 0"
    using that assms unfolding ring_inv_def by linarith
  then show ?thesis
    using assms s lt
    by (auto simp: ring_put_def Let_def word_less_nat_alt unat_word_ariths(1) ring_inv_def)
qed

lemma ring_put_correct:
  assumes I: "ring_inv r" and nf: "ring_count r \<noteq> ring_capacity r"
  shows "ring_inv (ring_put d r)" and "ring_count (ring_put d r) = ring_count r + 1"
    and "ring_contents (ring_put d r) = ring_contents r @ [d]" and "ring_capacity (ring_put d r) = ring_capacity r"
proof -
  let ?n = "unat (rb_size r)" and ?rp = "unat (rb_readpoint r)" and ?c = "ring_count r"
  let ?w = "(unat (rb_writepoint r) + 1) mod ?n"
  note d = mod_dist [of ?rp ?n "unat (rb_writepoint r)" ?c]
  have flds: "rb_size (ring_put d r) = rb_size r" "rb_readpoint (ring_put d r) = rb_readpoint r"
    "rb_buffer (ring_put d r) = (rb_buffer r)[?w := d]"
    using ring_put_writepoint [OF I, of d] by (simp_all add: ring_put_def Let_def split: if_splits)
  have n: "0 < ?n" "?n \<le> length (rb_buffer r)"
    using I by (simp_all add: ring_inv_def)
  show "ring_inv (ring_put d r)"
    using I n by (simp add: ring_inv_def flds ring_put_writepoint)
  show c: "ring_count (ring_put d r) = ?c + 1"
    using d(5) I nf by (simp add: ring_count_def flds ring_put_writepoint ring_inv_def ring_capacity_def)
  have w: "?w = (?rp + 1 + ?c) mod ?n"
    using ring_dist(3) [OF I] by (simp add: mod_Suc_eq)
  have c_lt: "?c < ?n"
    using ring_dist(1) [OF I] n by (simp add: ring_capacity_def)
  have old: "ring_nth (ring_put d r) k = ring_nth r k" if "k < ?c" for k
    unfolding ring_nth_def flds w using mod_shift_neq [OF that c_lt, of ?rp] by simp
  have new: "ring_nth (ring_put d r) ?c = d"
    unfolding ring_nth_def flds w using n by (simp add: less_le_trans [OF mod_less_divisor])
  show "ring_contents (ring_put d r) = ring_contents r @ [d]"
    by (simp add: ring_contents_def c old new)
  show "ring_capacity (ring_put d r) = ring_capacity r"
    by (simp add: ring_capacity_def flds)
qed

lemma ring_push_loop_correct:
  "ring_inv r \<Longrightarrow> i + n \<le> length pData \<Longrightarrow>
     \<exists>r'. ring_push_loop n i pData r =
         Some (if ring_count r + n \<le> ring_capacity r then RINGBUFF_OK else RINGBUFF_FULL, r') \<and>
       ring_inv r' \<and> ring_capacity r' = ring_capacity r \<and>
       ring_contents r' = ring_contents r @ take (ring_capacity r - ring_count r) (take n (drop i pData))"
proof (induction n arbitrary: i r)
  case 0
  then show ?case
    using ring_dist(1) by simp
next
  case (Suc n)
  have nz: "rb_size r \<noteq> 0"
    using Suc.prems(1) by (auto simp: ring_inv_def)
  show ?case
  proof (cases "ring_count r = ring_capacity r")
    case True
    then have "(rb_writepoint r + 1) mod rb_size r = rb_readpoint r"
      using ring_dist(5) [OF Suc.prems(1)] by simp
    moreover have "ring_inv (r\<lparr>rb_full := True\<rparr>)" "ring_capacity (r\<lparr>rb_full := True\<rparr>) = ring_capacity r"
      "ring_contents (r\<lparr>rb_full := True\<rparr>) = ring_contents r"
      using Suc.prems(1)
      by (simp_all add: ring_inv_def ring_capacity_def ring_contents_def ring_nth_def ring_count_def fun_eq_iff)
    ultimately show ?thesis
      using True nz by simp
  next
    case False
    let ?d = "pData ! i"
    note put = ring_put_correct [OF Suc.prems(1) False, of ?d]
    have le: "ring_count r < ring_capacity r"
      using False ring_dist(1) [OF Suc.prems(1)] by simp
    have "unat (rb_writepoint (ring_put ?d r)) < length (rb_buffer r)"
      using put(1) by (simp add: ring_inv_def ring_put_def Let_def)
    then have "ring_push_loop (Suc n) i pData r = ring_push_loop n (i + 1) pData (ring_put ?d r)"
      using nz False ring_dist(5) [OF Suc.prems(1)] Suc.prems(2)
      by (simp add: rd_def wr_def ring_put_def Let_def split: if_splits)
    moreover have "take (ring_capacity r - ring_count r) (take (Suc n) (drop i pData)) =
        ?d # take (ring_capacity r - (ring_count r + 1)) (take n (drop (i + 1) pData))"
      using le Suc.prems(2)
      by (simp add: Cons_nth_drop_Suc [symmetric] take_Suc_Cons Suc_diff_Suc [symmetric] del: take_take)
    ultimately show ?thesis
      using Suc.IH [OF put(1), of "i + 1"] Suc.prems(2) put by simp
  qed
qed


text \<open>One iteration of the pop loop that does not find the buffer empty.\<close>

definition ring_get :: "sRingbuff \<Rightarrow> sRingbuff" where
  "ring_get r = r\<lparr>rb_readpoint := (if rb_readpoint r = rb_size r - 1 then 0 else rb_readpoint r + 1)\<rparr>"

lemma ring_get_readpoint:
  assumes "ring_inv r"
  shows "unat (rb_readpoint (ring_get r)) = (unat (rb_readpoint r) + 1) mod unat (rb_size r)"
proof -
  have s: "unat (rb_size r - 1) = unat (rb_size r) - 1"
    using assms by (simp add: ring_inv_def unat_sub word_le_nat_alt)
  have lt: "unat (rb_readpoint r) + 1 < 4294967296" "Suc (unat (rb_size r) - Suc 0) = unat (rb_size r)"
    using assms by (simp_all add: ring_inv_def)
  have "Suc (unat (rb_readpoint r)) < unat (rb_size r)"
    if "unat (rb_readpoint r) \<noteq> unat (rb_size r) - Suc 0"
    using that assms unfolding ring_inv_def by linarith
  then show ?thesis
    using assms s lt
    by (auto simp: ring_get_def word_unat_eq_iff unat_word_ariths(1))
qed

lemma ring_get_correct:
  assumes I: "ring_inv r" and ne: "ring_count r \<noteq> 0"
  shows "ring_inv (ring_get r)" and "ring_count (ring_get r) = ring_count r - 1"
    and "ring_contents r = rb_buffer r ! unat (rb_readpoint (ring_get r)) # ring_contents (ring_get r)"
    and "ring_capacity (ring_get r) = ring_capacity r"
proof -
  let ?n = "unat (rb_size r)" and ?rp = "unat (rb_readpoint r)"
  note d = mod_dist [of ?rp ?n "unat (rb_writepoint r)" "ring_count r"]
  have flds: "rb_size (ring_get r) = rb_size r" "rb_writepoint (ring_get r) = rb_writepoint r"
    "rb_buffer (ring_get r) = rb_buffer r"
    by (simp_all add: ring_get_def)
  show "ring_inv (ring_get r)" "ring_capacity (ring_get r) = ring_capacity r"
    using I by (simp_all add: ring_inv_def ring_capacity_def flds ring_get_readpoint)
  show c: "ring_count (ring_get r) = ring_count r - 1"
    using d(6) I ne by (simp add: ring_count_def flds ring_get_readpoint ring_inv_def)
  have nth: "ring_nth (ring_get r) k = ring_nth r (Suc k)" for k
    unfolding ring_nth_def flds ring_get_readpoint [OF I]
    using mod_add_left_eq [of "?rp + 1" ?n "1 + k"] by simp
  have "[0..<ring_count r] = 0 # map Suc [0..<ring_count r - 1]"
    using ne by (simp add: map_Suc_upt upt_conv_Cons)
  then show "ring_contents r = rb_buffer r ! unat (rb_readpoint (ring_get r)) # ring_contents (ring_get r)"
    unfolding ring_contents_def c
    by (simp add: nth ring_get_readpoint [OF I]) (simp add: ring_nth_def)
qed

lemma ring_pop_loop_correct:
  "ring_inv r \<Longrightarrow> i + n \<le> length pData \<Longrightarrow>
     \<exists>r'. ring_pop_loop n i pData r =
         Some (int (i + min n (ring_count r)),
               take i pData @ take n (ring_contents r) @ drop (i + min n (ring_count r)) pData, r') \<and>
       ring_inv r' \<and> ring_capacity r' = ring_capacity r \<and> ring_contents r' = drop n (ring_contents r)"
proof (induction n arbitrary: i r pData)
  case 0
  then show ?case by simp
next
  case (Suc n)
  note dist = ring_dist [OF Suc.prems(1)]
  show ?case
  proof (cases "ring_count r = 0")
    case True
    with dist Suc.prems show ?thesis
      by simp
  next
    case False
    let ?r = "ring_get r" and ?d = "rb_buffer r ! unat (rb_readpoint (ring_get r))"
    note get = ring_get_correct [OF Suc.prems(1) False]
    have "unat (rb_readpoint ?r) < length (rb_buffer r)"
      using get(1) by (simp add: ring_inv_def ring_get_def)
    then have "ring_pop_loop (Suc n) i pData r = ring_pop_loop n (i + 1) (pData[i := ?d]) ?r"
      using False dist(4) Suc.prems(2)
      by (simp add: rd_def wr_def ring_get_def Let_def split: if_splits)
    moreover have "take (i + 1) (pData[i := ?d]) = take i pData @ [?d]"
      using Suc.prems(2) by (simp add: take_Suc_conv_app_nth)
    moreover have "min (Suc n) (ring_count r) = Suc (min n (ring_count r - 1))"
      using False by simp
    moreover obtain r' where "ring_pop_loop n (i + 1) (pData[i := ?d]) ?r =
         Some (int (i + 1 + min n (ring_count ?r)), take (i + 1) (pData[i := ?d]) @
           take n (ring_contents ?r) @ drop (i + 1 + min n (ring_count ?r)) (pData[i := ?d]), r')"
        "ring_inv r'" "ring_capacity r' = ring_capacity ?r" "ring_contents r' = drop n (ring_contents ?r)"
      using Suc.IH [OF get(1), of "i + 1" "pData[i := ?d]"] Suc.prems(2) by auto
    ultimately show ?thesis
      using get by simp
  qed
qed

subsection \<open>Interpretation\<close>

definition ring_push :: "byte list \<Rightarrow> sRingbuff \<Rightarrow> (bool \<times> sRingbuff) option" where
  "ring_push xs r = map_option (\<lambda>(rc, r). (rc = RINGBUFF_OK, r)) (ring_buff_push_data r xs (of_nat (length xs)))"

definition ring_pop :: "nat \<Rightarrow> sRingbuff \<Rightarrow> (byte list \<times> sRingbuff) option" where
  "ring_pop n r =
     map_option (\<lambda>(k, d, r). (take (nat k) d, r)) (ring_buff_pop_data r (replicate n 0) (of_nat n))"

lemma int_len:
  assumes "ring_inv r" and "n \<le> ring_capacity r"
  shows "\<not> (of_nat n :: u32) > rb_size r" and "nat (sint (of_nat n :: u32)) = n"
proof -
  have n: "n \<le> unat (rb_size r)" "n < 2147483648"
    using assms by (auto simp: ring_inv_def ring_capacity_def)
  then have u: "unat (of_nat n :: u32) = n"
    by (simp add: unat_of_nat)
  show "\<not> (of_nat n :: u32) > rb_size r"
    using n u by (simp add: word_less_nat_alt)
  show "nat (sint (of_nat n :: u32)) = n"
    using n by (simp add: signed_of_nat signed_take_bit_int_eq_self)
qed

interpretation ring: fifo ring_inv ring_contents ring_capacity ring_push ring_pop
proof unfold_locales
  show "length (ring_contents r) \<le> ring_capacity r" if "ring_inv r" for r
    using ring_dist(1,2) [OF that] by simp
  show "\<exists>r'. ring_push xs r = Some (length (ring_contents r) + length xs \<le> ring_capacity r, r') \<and>
      ring_inv r' \<and> ring_capacity r' = ring_capacity r \<and>
      ring_contents r' = ring_contents r @ take (ring_capacity r - length (ring_contents r)) xs"
    if "ring_inv r" "length xs \<le> ring_capacity r" for r xs
    using ring_push_loop_correct [OF that(1), of 0 "length xs" xs] int_len [OF that] ring_dist(2) [OF that(1)]
    by (auto simp: ring_push_def ring_buff_push_data_def)
  show "\<exists>r'. ring_pop n r = Some (take n (ring_contents r), r') \<and> ring_inv r' \<and>
      ring_capacity r' = ring_capacity r \<and> ring_contents r' = drop n (ring_contents r)"
    if "ring_inv r" "n \<le> ring_capacity r" for r n
    using ring_pop_loop_correct [OF that(1), of 0 n "replicate n 0"] int_len [OF that] ring_dist(2) [OF that(1)]
    by (auto simp: ring_pop_def ring_buff_pop_data_def min_def)
qed

section \<open>Properties\<close>

lemma ring_buff_init_correct:
  assumes "0 < unat sz" and "unat sz < 2 ^ 31" and "unat sz \<le> length buff"
  shows "\<exists>r. ring_buff_init buff sz = Some (RINGBUFF_OK, r) \<and> ring_inv r \<and> ring_contents r = [] \<and>
    ring_capacity r = unat sz - 1"
  using assms
  by (simp add: ring_buff_init_def ring_memset_def wr_bytes_def ring_inv_def ring_contents_def
      ring_count_def ring_capacity_def)

text \<open>
  C20: A ring buffer of size \<open>n\<close> (positive, below \<open>2 ^ 31\<close>) is a FIFO queue of capacity
  \<open>n - 1\<close>: from initialisation on, every sequence of pushes and pops of at most that many bytes
  stays inside the buffer, and if no push reported \<^verbatim>\<open>RINGBUFF_FULL\<close>, the bytes popped followed by
  the bytes still stored are exactly the bytes pushed, in order.
\<close>

theorem ring_buffer_fifo:
  assumes "0 < unat sz" and "unat sz < 2 ^ 31" and "unat sz \<le> length buff"
    and "\<forall>op \<in> set ops. op_size op \<le> unat sz - 1"
  shows "\<exists>r out ok r'. ring_buff_init buff sz = Some (RINGBUFF_OK, r) \<and>
    fifo_run ring_push ring_pop ops r = Some (out, ok, r') \<and> ring_inv r' \<and>
    length (ring_contents r') \<le> unat sz - 1 \<and> (ok \<longrightarrow> out @ ring_contents r' = pushed ops)"
proof -
  obtain r where r: "ring_buff_init buff sz = Some (RINGBUFF_OK, r)" "ring_inv r" "ring_contents r = []"
      "ring_capacity r = unat sz - 1"
    using ring_buff_init_correct [OF assms(1-3)] by blast
  obtain out ok r' where "fifo_run ring_push ring_pop ops r = Some (out, ok, r')" "ring_inv r'"
      "ring_capacity r' = ring_capacity r" "ok \<longrightarrow> out @ ring_contents r' = ring_contents r @ pushed ops"
    using ring.run_total [OF r(2), of ops] assms(4) r(4) by auto
  with r ring.contents_bound [of r'] show ?thesis
    by auto
qed

theorem ring_buffer_fifo_witness:
  "\<exists>r out ok r'. ring_buff_init [0, 0, 0, 0] 4 = Some (RINGBUFF_OK, r) \<and>
    fifo_run ring_push ring_pop [Push [1, 2, 3], Pop 2, Push [4, 5], Pop 1] r = Some (out, ok, r') \<and> ring_inv r' \<and>
    length (ring_contents r') \<le> unat (4 :: u32) - 1 \<and>
    (ok \<longrightarrow> out @ ring_contents r' = pushed [Push [1, 2, 3], Pop 2, Push [4, 5], Pop 1])"
  by (rule ring_buffer_fifo) simp_all

text \<open>
  A push stores as many bytes as fit and reports \<^verbatim>\<open>RINGBUFF_FULL\<close> exactly when some did not;
  flushing empties the buffer.
\<close>

theorem ring_buffer_push_flush:
  assumes "ring_inv r" and "length xs \<le> ring_capacity r"
  shows "(\<exists>rc r'. ring_buff_push_data r xs (of_nat (length xs)) = Some (rc, r') \<and> ring_inv r' \<and>
      ring_contents r' = ring_contents r @ take (ring_capacity r - length (ring_contents r)) xs \<and>
      (rc = RINGBUFF_FULL \<longleftrightarrow> ring_capacity r < length (ring_contents r) + length xs) \<and>
      (rc = RINGBUFF_OK \<longleftrightarrow> length (ring_contents r) + length xs \<le> ring_capacity r)) \<and>
    (\<exists>r'. ring_buff_flush r = Some (RINGBUFF_OK, r') \<and> ring_inv r' \<and> ring_contents r' = [])"
proof
  show "\<exists>rc r'. ring_buff_push_data r xs (of_nat (length xs)) = Some (rc, r') \<and> ring_inv r' \<and>
      ring_contents r' = ring_contents r @ take (ring_capacity r - length (ring_contents r)) xs \<and>
      (rc = RINGBUFF_FULL \<longleftrightarrow> ring_capacity r < length (ring_contents r) + length xs) \<and>
      (rc = RINGBUFF_OK \<longleftrightarrow> length (ring_contents r) + length xs \<le> ring_capacity r)"
    using ring_push_loop_correct [OF assms(1), of 0 "length xs" xs] int_len [OF assms] ring_dist(2) [OF assms(1)]
    by (auto simp: ring_buff_push_data_def)
  show "\<exists>r'. ring_buff_flush r = Some (RINGBUFF_OK, r') \<and> ring_inv r' \<and> ring_contents r' = []"
    using assms(1)
    by (simp add: ring_buff_flush_def ring_memset_def wr_bytes_def ring_inv_def ring_contents_def ring_count_def)
qed


definition ring_example :: sRingbuff where
  "ring_example = \<lparr>rb_size = 4, rb_readpoint = 2, rb_writepoint = 3, rb_buffer = [0, 0, 0, 9], rb_full = False\<rparr>"

theorem ring_buffer_push_flush_witness:
  "(\<exists>rc r'. ring_buff_push_data ring_example [1, 2, 3] (of_nat (length [1, 2, 3 :: byte])) = Some (rc, r') \<and> ring_inv r' \<and>
      ring_contents r' = ring_contents ring_example @
        take (ring_capacity ring_example - length (ring_contents ring_example)) [1, 2, 3] \<and>
      (rc = RINGBUFF_FULL \<longleftrightarrow> ring_capacity ring_example < length (ring_contents ring_example) + length [1, 2, 3 :: byte]) \<and>
      (rc = RINGBUFF_OK \<longleftrightarrow> length (ring_contents ring_example) + length [1, 2, 3 :: byte] \<le> ring_capacity ring_example)) \<and>
    (\<exists>r'. ring_buff_flush ring_example = Some (RINGBUFF_OK, r') \<and> ring_inv r' \<and> ring_contents r' = [])"
  by (rule ring_buffer_push_flush) (simp_all add: ring_example_def ring_inv_def ring_capacity_def)

end
