(* ===== verification/Utils_Digest.thy ===== *)
theory Utils_Digest
  imports Prelude
begin

text \<open>
  What \<^verbatim>\<open>utils/utils_md5.c\<close> and \<^verbatim>\<open>utils/utils_sha1.c\<close> have in common: the context with its 64-byte buffer, the \<open>update\<close>
  routine, which is the same text in both files but for the name of the block function \<open>process\<close>, and the padding.  The
  block function is therefore an argument of \<open>buffer_update\<close>; the theories Utils_Md5 and Utils_Sha1 apply it to their
  own.  \<open>holds_message\<close> relates a context to the message it has absorbed, and the locale \<open>block_hash\<close> shows that an update appends to that
  message, however the message is cut into pieces.  Lengths of single updates are below 2 to the 32 where a theorem says so: the
  code adds only the low 32 bits of a length to the byte count.
\<close>

section \<open>The context and its buffering\<close>

record 's digest_context =
  total :: "u32 \<times> u32"
  dg_state :: 's
  dg_buffer :: "byte list"

text \<open>
  \<^verbatim>\<open>while (ilen >= 64)\<close>: the full blocks of the input from \<open>input\<close> on are processed in place.
\<close>

function process_blocks ::
  "('s digest_context \<Rightarrow> byte list \<Rightarrow> 's digest_context option) \<Rightarrow> 's digest_context \<Rightarrow> byte list \<Rightarrow> nat \<Rightarrow> nat \<Rightarrow>
     ('s digest_context \<times> nat \<times> nat) option" where
  "process_blocks process ctx data input ilen =
     (if ilen \<ge> 64 then do {
        ctx \<leftarrow> process ctx (drop input data);
        process_blocks process ctx data (input + 64) (ilen - 64)
      } else Some (ctx, input, ilen))"
  by pat_completeness auto
termination
  by (relation "measure (\<lambda>(process, ctx, data, input, ilen). ilen)") auto

declare process_blocks.simps [simp del]

text \<open>The rest of an update, from the loop on: what does not fill a block is kept in the buffer from \<open>left\<close> on.\<close>

definition update_rest ::
  "('s digest_context \<Rightarrow> byte list \<Rightarrow> 's digest_context option) \<Rightarrow> 's digest_context \<Rightarrow> byte list \<Rightarrow> nat \<Rightarrow> nat \<Rightarrow> nat \<Rightarrow> 's digest_context option" where
  "update_rest process ctx data input ilen left = do {
     (ctx, input, ilen) \<leftarrow> process_blocks process ctx data input ilen;
     if ilen > 0 then do {
       bs \<leftarrow> rd_bytes data input ilen;
       b \<leftarrow> wr_bytes (dg_buffer ctx) left bs;
       Some (ctx\<lparr>dg_buffer := b\<rparr>)
     } else Some ctx
   }"

definition buffer_update ::
  "('s digest_context \<Rightarrow> byte list \<Rightarrow> 's digest_context option) \<Rightarrow> 's digest_context \<Rightarrow> byte list \<Rightarrow> nat \<Rightarrow> 's digest_context option" where
  "buffer_update process ctx data ilen =
     (if ilen = 0 then Some ctx
      else do {
        let left = unat (fst (total ctx) AND 0x3F);
        let fill = 64 - left;
        let total0 = (fst (total ctx) + of_nat ilen) AND 0xFFFFFFFF;
        let total1 = (if total0 < of_nat ilen then snd (total ctx) + 1 else snd (total ctx));
        let ctx = ctx\<lparr>total := (total0, total1)\<rparr>;
        if left \<noteq> 0 \<and> ilen \<ge> fill then do {
          bs \<leftarrow> rd_bytes data 0 fill;
          b \<leftarrow> wr_bytes (dg_buffer ctx) left bs;
          ctx \<leftarrow> process (ctx\<lparr>dg_buffer := b\<rparr>) b;
          update_rest process ctx data fill (ilen - fill) 0
        } else update_rest process ctx data 0 ilen left
      })"

text \<open>The rotation macro \<^verbatim>\<open>S\<close> of both files.\<close>

definition rotate_left :: "u32 \<Rightarrow> nat \<Rightarrow> u32" where
  "rotate_left x n = push_bit n x OR drop_bit (32 - n) (x AND 0xFFFFFFFF)"

definition digest_padding :: "byte list" where
  "digest_padding = 0x80 # replicate 63 0"

definition pad_length :: "nat \<Rightarrow> nat" where
  "pad_length left = (if left < 56 then 56 - left else 120 - left)"

section \<open>The message a context stands for\<close>

function compress_all :: "('s \<Rightarrow> byte list \<Rightarrow> 's) \<Rightarrow> 's \<Rightarrow> byte list \<Rightarrow> 's" where
  "compress_all f s m = (if length m < 64 then s else compress_all f (f s (take 64 m)) (drop 64 m))"
  by pat_completeness auto
termination
  by (relation "measure (\<lambda>(f, s, m). length m)") auto

declare compress_all.simps [simp del]

definition rest_of :: "byte list \<Rightarrow> byte list" where
  "rest_of m = drop (length m - length m mod 64) m"

lemma length_rest_of [simp]: "length (rest_of m) = length m mod 64"
  by (simp add: rest_of_def)

lemma rest_of_short: "length m < 64 \<Longrightarrow> rest_of m = m"
  by (simp add: rest_of_def)

lemma rest_of_block: "length y = 64 \<Longrightarrow> rest_of (y @ m) = rest_of m"
proof -
  assume y: "length y = 64"
  have "length m mod 64 \<le> length m" by simp
  then have "64 + length m - length m mod 64 = 64 + (length m - length m mod 64)" by linarith
  then show ?thesis using y by (simp add: rest_of_def)
qed

lemma compress_all_short: "length m < 64 \<Longrightarrow> compress_all f s m = s"
  by (subst compress_all.simps) simp

lemma compress_all_block: "length y = 64 \<Longrightarrow> compress_all f s (y @ m) = compress_all f (f s y) m"
  by (subst compress_all.simps) simp

lemma compress_all_append: "compress_all f s (m @ x) = compress_all f (compress_all f s m) (rest_of m @ x)"
proof (induction f s m rule: compress_all.induct)
  case (1 f s m)
  show ?case
  proof (cases "length m < 64")
    case True
    then show ?thesis by (simp add: rest_of_short compress_all_short)
  next
    case False
    then have m: "m = take 64 m @ drop 64 m" "length (take 64 m) = 64" by simp_all
    have "compress_all f s (m @ x) = compress_all f s (take 64 m @ drop 64 m @ x)"
      by (simp flip: append_assoc)
    also have "\<dots> = compress_all f (f s (take 64 m)) (drop 64 m @ x)"
      by (rule compress_all_block [OF m(2)])
    also have "\<dots> = compress_all f (compress_all f (f s (take 64 m)) (drop 64 m)) (rest_of (drop 64 m) @ x)"
      by (rule 1 [OF False])
    also have "compress_all f (f s (take 64 m)) (drop 64 m) = compress_all f s m"
      using compress_all_block [OF m(2), of f s "drop 64 m"] m(1) by simp
    also have "rest_of (drop 64 m) = rest_of m"
      using rest_of_block [OF m(2), of "drop 64 m"] m(1) by simp
    finally show ?thesis .
  qed
qed

lemma rest_of_append: "rest_of (m @ x) = rest_of (rest_of m @ x)"
proof -
  have "rest_of (take (64 * k) m @ y) = rest_of y" if "64 * k \<le> length m" for k y
    using that
  proof (induction k arbitrary: y)
    case 0
    show ?case by simp
  next
    case (Suc k)
    have s: "take (64 * Suc k) m = take (64 * k) m @ take 64 (drop (64 * k) m)"
      by (simp add: take_add [symmetric] add.commute)
    have "length (take 64 (drop (64 * k) m)) = 64" using Suc.prems by simp
    then have "rest_of (take 64 (drop (64 * k) m) @ y) = rest_of y"
      by (rule rest_of_block)
    then show ?case
      using Suc.IH [of "take 64 (drop (64 * k) m) @ y"] Suc.prems unfolding s by simp
  qed
  from this [of "length m div 64" "rest_of m @ x"] show ?thesis
    by (simp add: rest_of_def minus_mod_eq_mult_div [symmetric] flip: append_assoc)
qed

text \<open>The context holds the message \<open>m\<close>, started from \<open>s0\<close>.\<close>

definition total_is :: "u32 \<times> u32 \<Rightarrow> nat \<Rightarrow> bool" where
  "total_is t n \<longleftrightarrow> unat (fst t) + 2 ^ 32 * unat (snd t) = n mod 2 ^ 64"

definition holds_message :: "('s \<Rightarrow> byte list \<Rightarrow> 's) \<Rightarrow> 's \<Rightarrow> 's digest_context \<Rightarrow> byte list \<Rightarrow> bool" where
  "holds_message f s0 ctx m \<longleftrightarrow>
     total_is (total ctx) (length m) \<and> dg_state ctx = compress_all f s0 m \<and>
     length (dg_buffer ctx) = 64 \<and> take (length m mod 64) (dg_buffer ctx) = rest_of m"

lemma total_is_left: "total_is t n \<Longrightarrow> unat (fst t AND 0x3F) = n mod 64"
proof -
  assume "total_is t n"
  then have "(unat (fst t) + 2 ^ 32 * unat (snd t)) mod 64 = n mod 2 ^ 64 mod 64"
    unfolding total_is_def by simp
  also have "(unat (fst t) + 2 ^ 32 * unat (snd t)) mod 64 = unat (fst t) mod 64"
    by (simp add: mod_simps mod_add_right_eq [symmetric] mod_mult_left_eq [symmetric])
  also have "n mod 2 ^ 64 mod 64 = n mod 64"
    by (rule mod_mod_cancel) simp
  finally have "unat (fst t) mod 64 = n mod 64" .
  moreover have m: "(0x3F :: u32) = mask 6"
    by (simp add: mask_eq_exp_minus_1)
  ultimately show ?thesis
    unfolding m take_bit_eq_mask [symmetric] by (simp add: take_bit_eq_mod unat_mod_word)
qed


lemma and_all_ones [simp]: "(w :: u32) AND 0xFFFFFFFF = w"
proof -
  have "(0xFFFFFFFF :: u32) = mask 32"
    by (simp add: mask_eq_exp_minus_1)
  then show ?thesis
    by (simp only: take_bit_eq_mask [symmetric]) (simp add: take_bit_word_eq_self)
qed

lemma rotate_left_rotl: "0 < n \<Longrightarrow> n < 32 \<Longrightarrow> rotate_left x n = word_rotl n x"
  unfolding rotate_left_def and_all_ones
proof (rule bit_word_eqI)
  fix k assume n: "0 < n" "n < 32" and "k < LENGTH(32)"
  then have k: "k < 32" by simp
  have m: "(k + 32 - n) mod 32 = (if n \<le> k then k - n else k + 32 - n)"
    using n k by (auto simp: mod_if)
  have h: "\<not> bit x (k + 32 - n)" if "n \<le> k"
    using that bit_imp_le_length [of x "k + 32 - n"] by auto
  show "bit (push_bit n x OR drop_bit (32 - n) x) k = bit (word_rotl n x) k"
  proof -
    have "32 - n + k = k + 32 - n" using n by linarith
    then have d: "bit (drop_bit (32 - n) x) k = bit x (k + 32 - n)"
      by (simp add: bit_drop_bit_eq)
    have "bit (word_rotl n x) k = bit x ((k + 32 - n) mod 32)"
      using n k by (simp add: bit_word_rotl_iff)
    then show ?thesis
      unfolding bit_or_iff d m using k h by (auto simp: bit_push_bit_iff)
  qed
qed

lemma total_is_update:
  assumes "total_is t n" and "k < 2 ^ 32"
  shows "total_is (fst t + of_nat k, if fst t + of_nat k < of_nat k then snd t + 1 else snd t) (n + k)"
proof -
  have k: "unat (of_nat k :: u32) = k"
    using assms(2) by (simp add: unat_of_nat take_bit_nat_eq_self)
  define a b where "a = unat (fst t)" and "b = unat (snd t)"
  have ab: "a < 2 ^ 32" "b < 2 ^ 32"
    by (simp_all add: a_def b_def)
  have n: "a + 2 ^ 32 * b = n mod 2 ^ 64"
    using assms(1) by (simp add: total_is_def a_def b_def)
  have r: "(n + k) mod 2 ^ 64 = (a + 2 ^ 32 * b + k) mod 2 ^ 64"
    unfolding n by (simp add: mod_simps)
  have s: "unat (fst t + of_nat k) = (a + k) mod 2 ^ 32" "unat (snd t + 1) = (b + 1) mod 2 ^ 32"
    by (simp_all add: unat_word_ariths a_def b_def k)
  have c: "fst t + of_nat k < of_nat k \<longleftrightarrow> a + k \<ge> 2 ^ 32"
    unfolding word_less_nat_alt s k using ab assms(2) by (auto simp: mod_if)
  show ?thesis
  proof (cases "a + k \<ge> 2 ^ 32")
    case True
    then have "(a + k) mod 2 ^ 32 = a + k - 2 ^ 32"
      using ab assms(2) by (simp add: mod_if)
    moreover have "(a + 2 ^ 32 * b + k) mod 2 ^ 64 = a + k - 2 ^ 32 + 2 ^ 32 * ((b + 1) mod 2 ^ 32)"
      using ab assms(2) True by (cases "b + 1 = 2 ^ 32") (simp_all add: mod_if)
    ultimately show ?thesis
      unfolding total_is_def r using True c s by simp
  next
    case False
    then show ?thesis
      unfolding total_is_def r using c s ab by (simp add: b_def [symmetric])
  qed
qed


lemma pad_length_le: "n < 64 \<Longrightarrow> pad_length n \<le> 64"
  unfolding pad_length_def by (split if_split) linarith

lemma length_digest_padding [simp]: "length digest_padding = 64"
  by (simp add: digest_padding_def)

section \<open>Updating\<close>

locale block_hash =
  fixes process :: "'s digest_context \<Rightarrow> byte list \<Rightarrow> 's digest_context option"
    and compress :: "'s \<Rightarrow> byte list \<Rightarrow> 's"
  assumes process: "64 \<le> length data \<Longrightarrow> process ctx data = Some (ctx\<lparr>dg_state := compress (dg_state ctx) (take 64 data)\<rparr>)"
begin

lemma process_blocks_all:
  "input + ilen \<le> length data \<Longrightarrow>
     process_blocks process ctx data input ilen =
       Some (ctx\<lparr>dg_state := compress_all compress (dg_state ctx) (take ilen (drop input data))\<rparr>, input + (ilen - ilen mod 64), ilen mod 64)"
proof (induction ilen arbitrary: ctx input rule: less_induct)
  case (less ilen)
  show ?case
  proof (cases "ilen \<ge> 64")
    case False
    then show ?thesis
      by (subst process_blocks.simps) (simp add: compress_all_short)
  next
    case True
    then obtain k where k: "ilen = 64 + k"
      using le_Suc_ex by blast
    have "64 \<le> length (drop input data)"
      using less.prems True by simp
    from process [OF this] have "process_blocks process ctx data input ilen =
        process_blocks process (ctx\<lparr>dg_state := compress (dg_state ctx) (take 64 (drop input data))\<rparr>) data (input + 64) k"
      using True by (subst process_blocks.simps) (simp add: k)
    also have "\<dots> = Some (ctx\<lparr>dg_state := compress_all compress (compress (dg_state ctx) (take 64 (drop input data)))
        (take k (drop (input + 64) data))\<rparr>, input + 64 + (k - k mod 64), k mod 64)"
      using less.IH [of k "input + 64"] less.prems k by simp
    also have "compress_all compress (compress (dg_state ctx) (take 64 (drop input data))) (take k (drop (input + 64) data)) =
        compress_all compress (dg_state ctx) (take ilen (drop input data))"
      unfolding k take_add using less.prems k by (simp add: compress_all_block add.commute)
    finally show ?thesis
      unfolding k by simp
  qed
qed

text \<open>The second half of an update: the block-aligned input and the bytes that stay in the buffer.\<close>

lemma update_rest_appends:
  assumes "length (dg_buffer ctx) = 64" and "input + ilen \<le> length data" and "left = 0 \<or> left + ilen < 64"
  obtains ctx' where "update_rest process ctx data input ilen left = Some ctx'"
    and "total ctx' = total ctx" and "length (dg_buffer ctx') = 64"
    and "dg_state ctx' = compress_all compress (dg_state ctx) (take left (dg_buffer ctx) @ take ilen (drop input data))"
    and "take ((left + ilen) mod 64) (dg_buffer ctx') = rest_of (take left (dg_buffer ctx) @ take ilen (drop input data))"
proof (cases "left = 0")
  case True
  have le: "ilen mod 64 \<le> ilen" by simp
  have d: "take (ilen mod 64) (drop (input + (ilen - ilen mod 64)) data) = rest_of (take ilen (drop input data))"
    using assms(2) le by (simp add: rest_of_def drop_take add.commute)
  have "ilen mod 64 < 64" by simp
  then show ?thesis
    using process_blocks_all [OF assms(2), of ctx] assms(1,2) le True d
    by (cases "ilen mod 64 = 0") (simp_all add: that update_rest_def rd_bytes_def wr_bytes_def)
next
  case False
  then have "left + ilen < 64" using assms(3) by simp
  then show ?thesis
    using process_blocks_all [OF assms(2), of ctx] assms(1,2) False
    by (cases "ilen = 0") (simp_all add: that update_rest_def rd_bytes_def wr_bytes_def compress_all_short rest_of_short)
qed

lemma buffer_update_message:
  assumes "holds_message compress s0 ctx m" and "n \<le> length data" and "n < 2 ^ 32"
  shows "\<exists>ctx'. buffer_update process ctx data n = Some ctx' \<and> holds_message compress s0 ctx' (m @ take n data)"
proof (cases "n = 0")
  case True
  then show ?thesis
    using assms(1) by (simp add: buffer_update_def)
next
  case False
  define left where "left = length m mod 64"
  have l: "left < 64" by (simp add: left_def)
  note h = assms(1) [unfolded holds_message_def, folded left_def]
  define ctx1 where "ctx1 = ctx\<lparr>total := (fst (total ctx) + of_nat n, if fst (total ctx) + of_nat n < of_nat n then snd (total ctx) + 1 else snd (total ctx))\<rparr>"
  have t: "total_is (total ctx1) (length m + n)"
    using total_is_update [OF conjunct1 [OF h] assms(3)] by (simp add: ctx1_def)
  have lf: "unat (fst (total ctx) AND 0x3F) = left"
    using total_is_left [OF conjunct1 [OF h]] by (simp add: left_def)
  have c1: "dg_state ctx1 = compress_all compress s0 m" "length (dg_buffer ctx1) = 64" "take left (dg_buffer ctx1) = rest_of m"
    using h by (simp_all add: ctx1_def)
  have goal: ?thesis
    if "buffer_update process ctx data n = Some ctx'" "total ctx' = total ctx1" "length (dg_buffer ctx') = 64"
      "dg_state ctx' = compress_all compress (compress_all compress s0 m) (rest_of m @ take n data)"
      "take ((length m + n) mod 64) (dg_buffer ctx') = rest_of (rest_of m @ take n data)" for ctx'
    using that t assms(2)
    by (intro exI [of _ ctx']) (simp add: holds_message_def compress_all_append [symmetric] rest_of_append [symmetric])
  show ?thesis
  proof (cases "left \<noteq> 0 \<and> 64 - left \<le> n")
    case True
    define fill where "fill = 64 - left"
    obtain k where k: "n = fill + k"
      using True le_Suc_ex unfolding fill_def by blast
    have f: "left + fill = 64"
      using l by (simp add: fill_def)
    define ctx2 where "ctx2 = ctx1\<lparr>dg_buffer := rest_of m @ take fill data,
      dg_state := compress (dg_state ctx1) (rest_of m @ take fill data)\<rparr>"
    have r: "length (rest_of m) = left" by (simp add: left_def)
    have b: "wr_bytes (dg_buffer ctx1) left (take fill data) = Some (rest_of m @ take fill data)"
      using c1(2,3) f k assms(2) by (simp add: wr_bytes_def)
    have p: "process (ctx1\<lparr>dg_buffer := rest_of m @ take fill data\<rparr>) (rest_of m @ take fill data) = Some ctx2"
      using r f k assms(2) by (subst process) (simp_all add: ctx2_def fill_def [symmetric])
    have d: "rest_of m @ take n data = (rest_of m @ take fill data) @ take k (drop fill data)"
      by (simp add: k take_add)
    have len: "length (rest_of m @ take fill data) = 64"
      using r f k assms(2) by simp
    have m: "(length m + n) mod 64 = k mod 64"
    proof -
      have "(length m + n) mod 64 = (left + n) mod 64"
        by (simp add: left_def mod_simps)
      also have "left + n = k + 64"
        using f k by linarith
      finally show ?thesis by simp
    qed
    obtain ctx' where c: "update_rest process ctx2 data fill k 0 = Some ctx'"
        "total ctx' = total ctx2" "length (dg_buffer ctx') = 64"
        "dg_state ctx' = compress_all compress (dg_state ctx2) (take k (drop fill data))"
        "take (k mod 64) (dg_buffer ctx') = rest_of (take k (drop fill data))"
    proof (rule update_rest_appends [of ctx2 fill k data 0])
    qed (use k assms(2) len in \<open>simp_all add: ctx2_def\<close>)
    show ?thesis
    proof (rule goal [of ctx'])
      have "rd_bytes data 0 fill = Some (take fill data)"
        using k assms(2) by (simp add: rd_bytes_def)
      then show "buffer_update process ctx data n = Some ctx'"
        unfolding buffer_update_def Let_def lf and_all_ones ctx1_def [symmetric] fill_def [symmetric]
        using True \<open>n \<noteq> 0\<close> k by (auto simp: b p c(1) fill_def [symmetric])
    qed (use c len c1(1) m in \<open>simp_all add: ctx2_def d compress_all_block rest_of_block del: append_assoc\<close>)
  next
    case False
    then have lr: "left = 0 \<or> left + n < 64" using l by linarith
    have m: "(length m + n) mod 64 = (left + n) mod 64"
      by (simp add: left_def mod_simps)
    obtain ctx' where c: "update_rest process ctx1 data 0 n left = Some ctx'"
        "total ctx' = total ctx1" "length (dg_buffer ctx') = 64"
        "dg_state ctx' = compress_all compress (dg_state ctx1) (rest_of m @ take n data)"
        "take ((left + n) mod 64) (dg_buffer ctx') = rest_of (rest_of m @ take n data)"
      using update_rest_appends [of ctx1 0 n data left] c1(2,3) lr assms(2) by auto
    show ?thesis
    proof (rule goal [of ctx'])
      show "buffer_update process ctx data n = Some ctx'"
        using False c(1) \<open>n \<noteq> 0\<close> unfolding buffer_update_def Let_def lf and_all_ones ctx1_def [symmetric] by auto
    qed (use c c1(1) m in simp_all)
  qed
qed

text \<open>The padding of a message: both updates of a \<open>finish\<close> together.\<close>

lemma padding_updates:
  assumes "holds_message compress s0 ctx m" and "length msglen = 8"
  obtains ctx1 ctx2 where
    "buffer_update process ctx digest_padding (pad_length (unat (fst (total ctx) AND 0x3F))) = Some ctx1"
    and "buffer_update process ctx1 msglen 8 = Some ctx2"
    and "dg_state ctx2 = compress_all compress s0 (m @ take (pad_length (length m mod 64)) digest_padding @ msglen)"
proof -
  let ?p = "take (pad_length (length m mod 64)) digest_padding"
  have l: "unat (fst (total ctx) AND 0x3F) = length m mod 64"
    using assms(1) total_is_left by (auto simp: holds_message_def)
  obtain ctx1 where 1: "buffer_update process ctx digest_padding (pad_length (length m mod 64)) = Some ctx1"
      "holds_message compress s0 ctx1 (m @ ?p)"
    using buffer_update_message [OF assms(1), of "pad_length (length m mod 64)" digest_padding] pad_length_le [of "length m mod 64"]
    by auto
  obtain ctx2 where 2: "buffer_update process ctx1 msglen 8 = Some ctx2" "holds_message compress s0 ctx2 ((m @ ?p) @ msglen)"
    using buffer_update_message [OF 1(2), of 8 msglen] assms(2) by auto
  from 2(2) have "dg_state ctx2 = compress_all compress s0 (m @ ?p @ msglen)"
    by (simp add: holds_message_def)
  with 1(1) 2(1) show ?thesis
    by (intro that) (simp_all add: l)
qed

end

section \<open>Bit lengths and byte orders\<close>

lemma shifted_total_high: "unat (drop_bit 29 (fst t) OR push_bit 3 (snd t)) = (unat (fst t) div 2 ^ 29 + 8 * unat (snd t)) mod 2 ^ 32"
  for t :: "u32 \<times> u32"
proof -
  have "drop_bit 29 (fst t) AND push_bit 3 (snd t) = 0"
    by (rule bit_word_eqI) (auto simp: bit_simps dest: bit_imp_le_length)
  then have "drop_bit 29 (fst t) OR push_bit 3 (snd t) = drop_bit 29 (fst t) + push_bit 3 (snd t)"
    by (rule disjunctive_add_eq_or [symmetric])
  moreover have "unat (push_bit 3 (snd t)) = 8 * unat (snd t) mod 2 ^ 32"
    by (simp add: push_bit_eq_mult unat_word_ariths mult.commute)
  moreover have "unat (drop_bit 29 (fst t)) = unat (fst t) div 2 ^ 29"
    by (simp add: drop_bit_eq_div unat_div_word)
  ultimately show ?thesis
    by (simp add: unat_word_ariths mod_simps)
qed

lemma bit_length_words:
  assumes "total_is t n"
  shows "unat (drop_bit 29 (fst t) OR push_bit 3 (snd t)) = 8 * n div 2 ^ 32 mod 2 ^ 32"
    and "unat (push_bit 3 (fst t)) = 8 * n mod 2 ^ 32"
proof -
  define a b where "a = unat (fst t)" and "b = unat (snd t)"
  define q where "q = n div 2 ^ 64"
  have n: "n = a + 2 ^ 32 * b + 2 ^ 64 * q"
    using assms mult_div_mod_eq [of "2 ^ 64" n] unfolding total_is_def a_def b_def q_def by linarith
  have "8 * n = 8 * a + 2 ^ 32 * (8 * b + 2 ^ 35 * q)"
    unfolding n by simp
  then have "8 * n div 2 ^ 32 = a div 2 ^ 29 + (8 * b + 2 ^ 35 * q)"
    using div_mult_mult1 [of 8 a "2 ^ 29"] by simp
  also have "\<dots> mod 2 ^ 32 = (a div 2 ^ 29 + 8 * b) mod 2 ^ 32"
  proof -
    have "a div 2 ^ 29 + (8 * b + 2 ^ 35 * q) = (a div 2 ^ 29 + 8 * b) + 2 ^ 32 * (8 * q)"
      by simp
    then show ?thesis by (simp only: mod_mult_self2)
  qed
  finally show "unat (drop_bit 29 (fst t) OR push_bit 3 (snd t)) = 8 * n div 2 ^ 32 mod 2 ^ 32"
    unfolding shifted_total_high a_def b_def by simp
  have "8 * n mod 2 ^ 32 = 8 * a mod 2 ^ 32"
  proof -
    have "8 * n = 8 * a + 2 ^ 32 * (8 * b + 2 ^ 35 * q)"
      unfolding n by simp
    then show ?thesis by (simp only: mod_mult_self2)
  qed
  then show "unat (push_bit 3 (fst t)) = 8 * n mod 2 ^ 32"
    by (simp add: push_bit_eq_mult unat_word_ariths mult.commute a_def)
qed


lemma bit_length_high: "total_is t n \<Longrightarrow> drop_bit 29 (fst t) OR push_bit 3 (snd t) = of_nat (drop_bit 32 (8 * n))"
  by (rule word_unat_eq_iff [THEN iffD2])
    (simp only: bit_length_words unat_of_nat drop_bit_eq_div [of 32 "8 * n"] take_bit_eq_mod, simp)

lemma bit_length_low: "total_is t n \<Longrightarrow> push_bit 3 (fst t) = of_nat (8 * n)"
  by (rule word_unat_eq_iff [THEN iffD2]) (simp only: bit_length_words unat_of_nat take_bit_eq_mod, simp)

lemma padding_bytes: "n < 64 \<Longrightarrow> take (pad_length n) digest_padding = 0x80 # replicate ((119 - n) mod 64) 0"
proof -
  assume n: "n < 64"
  have "pad_length n = Suc ((119 - n) mod 64)"
  proof (cases "n < 56")
    case True
    then have "119 - n = (55 - n) + 64" by linarith
    then have "(119 - n) mod 64 = 55 - n" by (simp only: mod_add_self2) simp
    then show ?thesis using True by (simp add: pad_length_def)
  next
    case False
    then show ?thesis using n by (simp add: pad_length_def)
  qed
  then show ?thesis by (simp add: digest_padding_def)
qed

lemma those_map_Some: "(\<And>i. i \<in> set xs \<Longrightarrow> f i = Some (g i)) \<Longrightarrow> those (map f xs) = Some (map g xs)"
  by (induction xs) auto

section \<open>Hash functions as streams\<close>

text \<open>
  What the users of a hash function rely on: a started context holds the empty message, an update appends to the
  message, and finishing writes the digest of the whole message to the start of the output.
\<close>

locale hash_stream =
  fixes starts :: 'c
    and update :: "'c \<Rightarrow> byte list \<Rightarrow> nat \<Rightarrow> 'c option"
    and finish :: "'c \<Rightarrow> byte list \<Rightarrow> ('c \<times> byte list) option"
    and holds :: "'c \<Rightarrow> byte list \<Rightarrow> bool"
    and digest :: "byte list \<Rightarrow> byte list"
    and digest_size :: nat
  assumes starts_holds: "holds starts []"
    and update_holds: "holds c m \<Longrightarrow> n \<le> length xs \<Longrightarrow> n < 2 ^ 32 \<Longrightarrow> \<exists>c'. update c xs n = Some c' \<and> holds c' (m @ take n xs)"
    and finish_digest: "holds c m \<Longrightarrow> digest_size \<le> length out \<Longrightarrow> \<exists>c'. finish c out = Some (c', put out (digest m))"
    and length_digest: "length (digest m) = digest_size"
begin

lemma update_all_holds:
  assumes "holds c m" and "list_all (\<lambda>x. length x < 2 ^ 32) xs"
  shows "\<exists>c'. fold (\<lambda>x c. Option.bind c (\<lambda>c. update c x (length x))) xs (Some c) = Some c' \<and> holds c' (m @ concat xs)"
  using assms
proof (induction xs arbitrary: c m)
  case Nil
  then show ?case by simp
next
  case (Cons x xs)
  obtain c1 where "update c x (length x) = Some c1" "holds c1 (m @ x)"
    using update_holds [OF Cons.prems(1), of "length x" x] Cons.prems(2) by auto
  then show ?case
    using Cons.IH [of c1 "m @ x"] Cons.prems(2) by simp
qed

text \<open>Two updates and a finish, as the passes of an HMAC make them.\<close>

lemma two_updates_finish:
  assumes "n \<le> length xs" and "n < 2 ^ 32" and "k \<le> length ys" and "k < 2 ^ 32" and "digest_size \<le> length out"
  shows "\<exists>c'. Option.bind (update starts xs n) (\<lambda>c. Option.bind (update c ys k) (\<lambda>c. finish c out)) =
    Some (c', put out (digest (take n xs @ take k ys)))"
proof -
  obtain c1 where 1: "update starts xs n = Some c1" "holds c1 (take n xs)"
    using update_holds [OF starts_holds assms(1,2)] by auto
  obtain c2 where 2: "update c1 ys k = Some c2" "holds c2 (take n xs @ take k ys)"
    using update_holds [OF 1(2) assms(3,4)] by auto
  show ?thesis
    using finish_digest [OF 2(2) assms(5)] 1(1) 2(1) by simp
qed

end

end
