(* ===== verification/Utils_Md5.thy ===== *)
theory Utils_Md5
  imports Utils_Digest
begin

text \<open>
  MD5 as in \<^verbatim>\<open>utils/utils_md5.c\<close>: the block function with its table of 64 calls, the operations on top of the buffering
  of Utils_Digest, and the hexadecimal text of a digest.  A second definition follows RFC 1321; the theory shows that both
  compute the same digest.  \<^verbatim>\<open>output\<close> is the list \<open>out\<close>; writing behind its end gives \<open>None\<close>.
\<close>

section \<open>Macros and tables\<close>

type_synonym md5_state = "u32 \<times> u32 \<times> u32 \<times> u32"
type_synonym iot_md5_context = "md5_state digest_context"

definition IOT_MD5_GET_UINT32_LE :: "byte list \<Rightarrow> nat \<Rightarrow> u32 option" where
  "IOT_MD5_GET_UINT32_LE b i = do {
     b0 \<leftarrow> rd b i; b1 \<leftarrow> rd b (i + 1); b2 \<leftarrow> rd b (i + 2); b3 \<leftarrow> rd b (i + 3);
     Some (ucast b0 OR push_bit 8 (ucast b1) OR push_bit 16 (ucast b2) OR push_bit 24 (ucast b3))
   }"

definition le_bytes :: "u32 \<Rightarrow> byte list" where
  "le_bytes n = [ucast (n AND 0xFF), ucast (drop_bit 8 n AND 0xFF), ucast (drop_bit 16 n AND 0xFF), ucast (drop_bit 24 n AND 0xFF)]"

definition IOT_MD5_PUT_UINT32_LE :: "u32 \<Rightarrow> byte list \<Rightarrow> nat \<Rightarrow> byte list option" where
  "IOT_MD5_PUT_UINT32_LE n b i = wr_bytes b i (le_bytes n)"

text \<open>The names of the four registers; \<^verbatim>\<open>P\<close> is called with their names, in a rotation of period four.\<close>

datatype md5_reg = MA | MB | MC | MD

definition md5_args :: "nat \<Rightarrow> md5_reg \<times> md5_reg \<times> md5_reg \<times> md5_reg" where
  "md5_args i = [(MA, MB, MC, MD), (MD, MA, MB, MC), (MC, MD, MA, MB), (MB, MC, MD, MA)] ! (i mod 4)"

definition md5_F :: "nat \<Rightarrow> u32 \<Rightarrow> u32 \<Rightarrow> u32 \<Rightarrow> u32" where
  "md5_F i x y z =
     (if i < 16 then z XOR (x AND (y XOR z))
      else if i < 32 then y XOR (z AND (x XOR y))
      else if i < 48 then x XOR y XOR z
      else y XOR (x OR NOT z))"

text \<open>The last three arguments of each of the 64 calls of \<^verbatim>\<open>P\<close>: word, shift and constant.\<close>

definition md5_table :: "(nat \<times> nat \<times> u32) list" where
  "md5_table =
     [(0, 7, 0xD76AA478), (1, 12, 0xE8C7B756), (2, 17, 0x242070DB), (3, 22, 0xC1BDCEEE),
      (4, 7, 0xF57C0FAF), (5, 12, 0x4787C62A), (6, 17, 0xA8304613), (7, 22, 0xFD469501),
      (8, 7, 0x698098D8), (9, 12, 0x8B44F7AF), (10, 17, 0xFFFF5BB1), (11, 22, 0x895CD7BE),
      (12, 7, 0x6B901122), (13, 12, 0xFD987193), (14, 17, 0xA679438E), (15, 22, 0x49B40821),
      (1, 5, 0xF61E2562), (6, 9, 0xC040B340), (11, 14, 0x265E5A51), (0, 20, 0xE9B6C7AA),
      (5, 5, 0xD62F105D), (10, 9, 0x02441453), (15, 14, 0xD8A1E681), (4, 20, 0xE7D3FBC8),
      (9, 5, 0x21E1CDE6), (14, 9, 0xC33707D6), (3, 14, 0xF4D50D87), (8, 20, 0x455A14ED),
      (13, 5, 0xA9E3E905), (2, 9, 0xFCEFA3F8), (7, 14, 0x676F02D9), (12, 20, 0x8D2A4C8A),
      (5, 4, 0xFFFA3942), (8, 11, 0x8771F681), (11, 16, 0x6D9D6122), (14, 23, 0xFDE5380C),
      (1, 4, 0xA4BEEA44), (4, 11, 0x4BDECFA9), (7, 16, 0xF6BB4B60), (10, 23, 0xBEBFBC70),
      (13, 4, 0x289B7EC6), (0, 11, 0xEAA127FA), (3, 16, 0xD4EF3085), (6, 23, 0x04881D05),
      (9, 4, 0xD9D4D039), (12, 11, 0xE6DB99E5), (15, 16, 0x1FA27CF8), (2, 23, 0xC4AC5665),
      (0, 6, 0xF4292244), (7, 10, 0x432AFF97), (14, 15, 0xAB9423A7), (5, 21, 0xFC93A039),
      (12, 6, 0x655B59C3), (3, 10, 0x8F0CCC92), (10, 15, 0xFFEFF47D), (1, 21, 0x85845DD1),
      (8, 6, 0x6FA87E4F), (15, 10, 0xFE2CE6E0), (6, 15, 0xA3014314), (13, 21, 0x4E0811A1),
      (4, 6, 0xF7537E82), (11, 10, 0xBD3AF235), (2, 15, 0x2AD7D2BB), (9, 21, 0xEB86D391)]"

definition md5_P ::
  "(u32 \<Rightarrow> u32 \<Rightarrow> u32 \<Rightarrow> u32) \<Rightarrow> u32 list \<Rightarrow> md5_reg \<times> md5_reg \<times> md5_reg \<times> md5_reg \<Rightarrow> nat \<times> nat \<times> u32 \<Rightarrow> (md5_reg \<Rightarrow> u32) \<Rightarrow> md5_reg \<Rightarrow> u32" where
  "md5_P F X args kst r =
     (case (args, kst) of ((a, b, c, d), (k, s, t)) \<Rightarrow>
        let r = r(a := r a + (F (r b) (r c) (r d) + X ! k + t))
        in r(a := rotate_left (r a) s + r b))"

definition md5_round :: "u32 list \<Rightarrow> nat \<Rightarrow> (md5_reg \<Rightarrow> u32) \<Rightarrow> md5_reg \<Rightarrow> u32" where
  "md5_round X i r = md5_P (md5_F i) X (md5_args i) (md5_table ! i) r"

definition utils_md5_process :: "iot_md5_context \<Rightarrow> byte list \<Rightarrow> iot_md5_context option" where
  "utils_md5_process ctx data = do {
     X \<leftarrow> those (map (\<lambda>i. IOT_MD5_GET_UINT32_LE data (4 * i)) [0..<16]);
     case dg_state ctx of (s0, s1, s2, s3) \<Rightarrow>
       let r = (\<lambda>_. 0)(MA := s0, MB := s1, MC := s2, MD := s3);
           r = fold (md5_round X) [0..<64] r
       in Some (ctx\<lparr>dg_state := (s0 + r MA, s1 + r MB, s2 + r MC, s3 + r MD)\<rparr>)
   }"

section \<open>Operations\<close>

definition utils_md5_init :: iot_md5_context where
  "utils_md5_init = \<lparr>total = (0, 0), dg_state = (0, 0, 0, 0), dg_buffer = replicate 64 0\<rparr>"

definition utils_md5_free :: "iot_md5_context option \<Rightarrow> iot_md5_context option" where
  "utils_md5_free ctx = (case ctx of None \<Rightarrow> None | Some c \<Rightarrow> Some (c\<lparr>total := (0, 0), dg_state := (0, 0, 0, 0), dg_buffer := replicate 64 0\<rparr>))"

definition utils_md5_clone :: "iot_md5_context \<Rightarrow> iot_md5_context \<Rightarrow> iot_md5_context" where
  "utils_md5_clone dst src = src"

definition utils_md5_starts :: "iot_md5_context \<Rightarrow> iot_md5_context" where
  "utils_md5_starts ctx = ctx\<lparr>total := (0, 0), dg_state := (0x67452301, 0xEFCDAB89, 0x98BADCFE, 0x10325476)\<rparr>"

definition utils_md5_update :: "iot_md5_context \<Rightarrow> byte list \<Rightarrow> nat \<Rightarrow> iot_md5_context option" where
  "utils_md5_update = buffer_update utils_md5_process"

definition utils_md5_finish :: "iot_md5_context \<Rightarrow> byte list \<Rightarrow> (iot_md5_context \<times> byte list) option" where
  "utils_md5_finish ctx out = do {
     let high = drop_bit 29 (fst (total ctx)) OR push_bit 3 (snd (total ctx));
     let low = push_bit 3 (fst (total ctx));
     msglen \<leftarrow> IOT_MD5_PUT_UINT32_LE low (replicate 8 0) 0;
     msglen \<leftarrow> IOT_MD5_PUT_UINT32_LE high msglen 4;
     let last = unat (fst (total ctx) AND 0x3F);
     let padn = pad_length last;
     ctx \<leftarrow> utils_md5_update ctx digest_padding padn;
     ctx \<leftarrow> utils_md5_update ctx msglen 8;
     case dg_state ctx of (s0, s1, s2, s3) \<Rightarrow> do {
       out \<leftarrow> IOT_MD5_PUT_UINT32_LE s0 out 0;
       out \<leftarrow> IOT_MD5_PUT_UINT32_LE s1 out 4;
       out \<leftarrow> IOT_MD5_PUT_UINT32_LE s2 out 8;
       out \<leftarrow> IOT_MD5_PUT_UINT32_LE s3 out 12;
       Some (ctx, out)
     }
   }"

definition utils_md5 :: "byte list \<Rightarrow> nat \<Rightarrow> byte list \<Rightarrow> byte list option" where
  "utils_md5 input ilen out = do {
     let ctx = utils_md5_starts utils_md5_init;
     ctx \<leftarrow> utils_md5_update ctx input ilen;
     (ctx, out) \<leftarrow> utils_md5_finish ctx out;
     let ctx = utils_md5_free (Some ctx);
     Some out
   }"

subsection \<open>Hexadecimal digests\<close>

definition utils_hb2hex :: "byte \<Rightarrow> byte" where
  "utils_hb2hex hb = (let hb = hb AND 0xF in if hb < 10 then 0x30 + hb else hb - 10 + 0x61)"

text \<open>The loop that writes two digits for each of the \<open>n\<close> bytes from \<open>i\<close> on.\<close>

fun hex_loop :: "nat \<Rightarrow> nat \<Rightarrow> byte list \<Rightarrow> byte list \<Rightarrow> byte list option" where
  "hex_loop 0 i buf out = Some out"
| "hex_loop (Suc n) i buf out = do {
     b \<leftarrow> rd buf i;
     out \<leftarrow> wr out (i * 2) (utils_hb2hex (drop_bit 4 b));
     out \<leftarrow> wr out (i * 2 + 1) (utils_hb2hex b);
     hex_loop n (i + 1) buf out
   }"

definition utils_md5_str :: "byte list \<Rightarrow> nat \<Rightarrow> byte list \<Rightarrow> byte list option" where
  "utils_md5_str input ilen out = do {
     buf_out \<leftarrow> utils_md5 input ilen (replicate 16 0);
     out \<leftarrow> hex_loop 16 0 buf_out out;
     wr out 32 0
   }"

section \<open>MD5 as RFC 1321 defines it\<close>

definition le_word :: "byte list \<Rightarrow> nat \<Rightarrow> u32" where
  "le_word b t =
     ucast (b ! (4 * t)) OR push_bit 8 (ucast (b ! (4 * t + 1))) OR push_bit 16 (ucast (b ! (4 * t + 2))) OR push_bit 24 (ucast (b ! (4 * t + 3)))"

definition md5_f :: "nat \<Rightarrow> u32 \<Rightarrow> u32 \<Rightarrow> u32 \<Rightarrow> u32" where
  "md5_f i x y z =
     (if i < 16 then (x AND y) OR (NOT x AND z)
      else if i < 32 then (x AND z) OR (y AND NOT z)
      else if i < 48 then x XOR y XOR z
      else y XOR (x OR NOT z))"

definition md5_g :: "nat \<Rightarrow> nat" where
  "md5_g i =
     (if i < 16 then i else if i < 32 then (5 * i + 1) mod 16 else if i < 48 then (3 * i + 5) mod 16 else 7 * i mod 16)"

definition md5_s :: "nat \<Rightarrow> nat" where
  "md5_s i = [[7, 12, 17, 22], [5, 9, 14, 20], [4, 11, 16, 23], [6, 10, 15, 21]] ! (i div 16) ! (i mod 4)"

definition md5_T :: "nat \<Rightarrow> u32" where
  "md5_T i = snd (snd (md5_table ! i))"

fun md5_step :: "byte list \<Rightarrow> nat \<Rightarrow> md5_state \<Rightarrow> md5_state" where
  "md5_step blk i (a, b, c, d) =
     (d, b + word_rotl (md5_s i) (a + md5_f i b c d + le_word blk (md5_g i) + md5_T i), b, c)"

definition md5_compress :: "md5_state \<Rightarrow> byte list \<Rightarrow> md5_state" where
  "md5_compress s blk =
     (case s of (h0, h1, h2, h3) \<Rightarrow>
      case fold (md5_step blk) [0..<64] s of (a, b, c, d) \<Rightarrow> (h0 + a, h1 + b, h2 + c, h3 + d))"

definition md5_IV :: md5_state where
  "md5_IV = (0x67452301, 0xEFCDAB89, 0x98BADCFE, 0x10325476)"

definition le_length :: "nat \<Rightarrow> byte list" where
  "le_length n = map (\<lambda>k. of_nat (drop_bit k (8 * n))) [0, 8, 16, 24, 32, 40, 48, 56]"

definition md5_pad :: "byte list \<Rightarrow> byte list" where
  "md5_pad m = m @ 0x80 # replicate ((119 - length m mod 64) mod 64) 0 @ le_length (length m)"

definition md5_digest :: "byte list \<Rightarrow> byte list" where
  "md5_digest m =
     (case compress_all md5_compress md5_IV (md5_pad m) of (a, b, c, d) \<Rightarrow> le_bytes a @ le_bytes b @ le_bytes c @ le_bytes d)"

section \<open>The block function is the RFC's\<close>

lemma md5_F_f: "md5_F i = md5_f i"
proof -
  have f: "z XOR (x AND (y XOR z)) = (x AND y) OR (NOT x AND z)" for x y z :: u32
    by (rule bit_word_eqI) (auto simp: bit_simps)
  have g: "y XOR (z AND (x XOR y)) = (x AND z) OR (y AND NOT z)" for x y z :: u32
    by (rule bit_word_eqI) (auto simp: bit_simps)
  show ?thesis
    unfolding fun_eq_iff md5_F_def md5_f_def f g by (simp add: and.commute)
qed

lemma md5_table_entry: "i < 64 \<Longrightarrow> md5_table ! i = (md5_g i, md5_s i, md5_T i)"
proof -
  have "list_all (\<lambda>i. fst (md5_table ! i) = md5_g i \<and> fst (snd (md5_table ! i)) = md5_s i) [0..<64]"
    by code_simp
  then show "i < 64 \<Longrightarrow> md5_table ! i = (md5_g i, md5_s i, md5_T i)"
    unfolding list_all_iff by (auto simp: md5_T_def intro!: prod_eqI)
qed

lemma md5_s_range: "i < 64 \<Longrightarrow> 0 < md5_s i \<and> md5_s i < 32"
proof -
  have "list_all (\<lambda>i. 0 < md5_s i \<and> md5_s i < 32) [0..<64]"
    by code_simp
  then show "i < 64 \<Longrightarrow> 0 < md5_s i \<and> md5_s i < 32"
    by (simp add: list_all_iff)
qed

lemma md5_g_range: "i < 64 \<Longrightarrow> md5_g i < 16"
  by (simp add: md5_g_def)

definition md5_values :: "md5_reg \<times> md5_reg \<times> md5_reg \<times> md5_reg \<Rightarrow> (md5_reg \<Rightarrow> u32) \<Rightarrow> md5_state" where
  "md5_values args r = (case args of (a, b, c, d) \<Rightarrow> (r a, r b, r c, r d))"

lemma md5_args_cases:
  obtains a b c d where "md5_args i = (a, b, c, d)" and "md5_args (Suc i) = (d, a, b, c)" and "distinct [a, b, c, d]"
proof -
  have "i mod 4 < 4" by simp
  then consider "i mod 4 = 0" | "i mod 4 = 1" | "i mod 4 = 2" | "i mod 4 = 3" by linarith
  then show ?thesis
  proof cases
    case 1 show ?thesis by (rule that [of MA MB MC MD]) (simp_all add: md5_args_def mod_Suc 1)
  next
    case 2 show ?thesis by (rule that [of MD MA MB MC]) (simp_all add: md5_args_def mod_Suc 2 numeral_2_eq_2)
  next
    case 3 show ?thesis by (rule that [of MC MD MA MB]) (simp_all add: md5_args_def mod_Suc 3 numeral_2_eq_2)
  next
    case 4 show ?thesis by (rule that [of MB MC MD MA]) (simp_all add: md5_args_def mod_Suc 4)
  qed
qed

lemma md5_round_step:
  assumes "i < 64"
  shows "md5_values (md5_args (Suc i)) (md5_round (map (le_word blk) [0..<16]) i r) = md5_step blk i (md5_values (md5_args i) r)"
proof -
  obtain a b c d where "md5_args i = (a, b, c, d)" "md5_args (Suc i) = (d, a, b, c)" "distinct [a, b, c, d]"
    by (rule md5_args_cases)
  then show ?thesis
    using md5_g_range [OF assms] md5_s_range [OF assms]
    by (auto simp: md5_values_def md5_round_def md5_P_def md5_table_entry [OF assms] rotate_left_rotl md5_F_f algebra_simps)
qed

lemma md5_rounds:
  "n \<le> 64 \<Longrightarrow> md5_values (md5_args n) (fold (md5_round (map (le_word blk) [0..<16])) [0..<n] r) =
     fold (md5_step blk) [0..<n] (md5_values (md5_args 0) r)"
  by (induction n) (simp_all add: md5_round_step)

lemma md5_load_block:
  assumes "64 \<le> length data"
  shows "those (map (\<lambda>i. IOT_MD5_GET_UINT32_LE data (4 * i)) [0..<16]) = Some (map (le_word (take 64 data)) [0..<16])"
  by (rule those_map_Some) (use assms in \<open>auto simp: IOT_MD5_GET_UINT32_LE_def le_word_def rd_def\<close>)

lemma utils_md5_process_compress:
  assumes "64 \<le> length data"
  shows "utils_md5_process ctx data = Some (ctx\<lparr>dg_state := md5_compress (dg_state ctx) (take 64 data)\<rparr>)"
proof -
  obtain s0 s1 s2 s3 where s: "dg_state ctx = (s0, s1, s2, s3)" by (cases "dg_state ctx")
  define r0 :: "md5_reg \<Rightarrow> u32" where "r0 = (\<lambda>_. 0)(MA := s0, MB := s1, MC := s2, MD := s3)"
  have "md5_values (MA, MB, MC, MD) (fold (md5_round (map (le_word (take 64 data)) [0..<16])) [0..<64] r0) =
      fold (md5_step (take 64 data)) [0..<64] (s0, s1, s2, s3)"
    using md5_rounds [of 64 "take 64 data" r0] by (simp add: md5_args_def md5_values_def r0_def)
  then show ?thesis
    unfolding utils_md5_process_def md5_load_block [OF assms] s md5_compress_def
    by (auto simp: Let_def md5_values_def r0_def split: prod.splits)
qed

interpretation md5: block_hash utils_md5_process md5_compress
  by unfold_locales (rule utils_md5_process_compress)

section \<open>The digest is the RFC's\<close>

lemma le_bytes_of_nat: "le_bytes (of_nat N) = map (\<lambda>k. of_nat (drop_bit k N)) [0, 8, 16, 24]"
proof -
  have m: "(0xFF :: u32) = mask 8"
    by (simp add: mask_eq_exp_minus_1)
  have "(ucast (drop_bit k (of_nat N :: u32) AND 0xFF) :: byte) = of_nat (drop_bit k N)" if "k + 8 \<le> 32" for k
    unfolding m take_bit_eq_mask [symmetric] by (rule bit_word_eqI) (use that in \<open>auto simp: bit_simps\<close>)
  from this [of 24] this [of 16] this [of 8] this [of 0] show ?thesis
    by (simp add: le_bytes_def)
qed

lemma le_bytes_length: "le_bytes (of_nat (8 * n)) @ le_bytes (of_nat (drop_bit 32 (8 * n))) = le_length n"
  unfolding le_bytes_of_nat le_length_def by (simp only: list.map append.simps drop_bit_drop_bit) simp

lemma length_le_bytes [simp]: "length (le_bytes w) = 4"
  by (simp add: le_bytes_def)

lemma put_le_put:
  "p = length xs \<Longrightarrow> p + 4 \<le> length b \<Longrightarrow> IOT_MD5_PUT_UINT32_LE w (put b xs) p = Some (put b (xs @ le_bytes w))"
  by (simp add: IOT_MD5_PUT_UINT32_LE_def wr_bytes_put)

lemma put_le_two: "Option.bind (IOT_MD5_PUT_UINT32_LE v (replicate 8 0) 0) (\<lambda>b. IOT_MD5_PUT_UINT32_LE w b 4) = Some (le_bytes v @ le_bytes w)"
  using put_le_put [of 0 "[]" "replicate 8 0" v] put_le_put [of 4 "le_bytes v" "replicate 8 0" w] by (simp add: put_def)

lemma md5_digest_state:
  "compress_all md5_compress md5_IV (md5_pad m) = (a, b, c, d) \<Longrightarrow> md5_digest m = le_bytes a @ le_bytes b @ le_bytes c @ le_bytes d"
  by (simp add: md5_digest_def)

lemma length_md5_digest: "length (md5_digest m) = 16"
  by (cases "compress_all md5_compress md5_IV (md5_pad m)") (simp add: md5_digest_state)

lemma put_le_four:
  assumes "16 \<le> length out"
  shows "(do { out \<leftarrow> IOT_MD5_PUT_UINT32_LE a out 0; out \<leftarrow> IOT_MD5_PUT_UINT32_LE b out 4;
       out \<leftarrow> IOT_MD5_PUT_UINT32_LE c out 8; out \<leftarrow> IOT_MD5_PUT_UINT32_LE d out 12; f out }) =
     f (put out (le_bytes a @ le_bytes b @ le_bytes c @ le_bytes d))"
  using assms put_le_put [where p = 0 and xs = "[]" and b = out and w = a] by (simp add: put_Nil put_le_put)

lemma utils_md5_finish_digest:
  assumes "holds_message md5_compress md5_IV ctx m" and "16 \<le> length out"
  shows "\<exists>ctx'. utils_md5_finish ctx out = Some (ctx', put out (md5_digest m))"
proof -
  have t: "total_is (total ctx) (length m)"
    using assms(1) by (simp add: holds_message_def)
  have len: "length (le_length (length m)) = 8"
    by (simp add: le_length_def)
  obtain ctx1 ctx2 where c: "utils_md5_update ctx digest_padding (pad_length (unat (fst (total ctx) AND 0x3F))) = Some ctx1"
      "utils_md5_update ctx1 (le_length (length m)) 8 = Some ctx2"
      "dg_state ctx2 = compress_all md5_compress md5_IV (md5_pad m)"
    using md5.padding_updates [OF assms(1) len] by (auto simp: utils_md5_update_def padding_bytes md5_pad_def)
  obtain a b c d where s: "dg_state ctx2 = (a, b, c, d)" by (cases "dg_state ctx2")
  have "utils_md5_finish ctx out = Option.bind (utils_md5_update ctx1 (le_bytes (of_nat (8 * length m)) @ le_bytes (of_nat (drop_bit 32 (8 * length m)))) 8)
      (\<lambda>ctx. case dg_state ctx of (s0, s1, s2, s3) \<Rightarrow> Some (ctx, put out (le_bytes s0 @ le_bytes s1 @ le_bytes s2 @ le_bytes s3)))"
    unfolding utils_md5_finish_def put_le_four [OF assms(2)] bit_length_high [OF t] bit_length_low [OF t] Let_def
    unfolding bind_assoc [symmetric] put_le_two by (simp add: c(1))
  then show ?thesis
    unfolding le_bytes_length using c(2) s md5_digest_state [of m a b c d, folded c(3), OF s] by simp
qed

interpretation md5_stream: hash_stream "utils_md5_starts utils_md5_init" utils_md5_update utils_md5_finish
  "holds_message md5_compress md5_IV" md5_digest 16
proof unfold_locales
  show "holds_message md5_compress md5_IV (utils_md5_starts utils_md5_init) []"
    by (simp add: holds_message_def utils_md5_starts_def utils_md5_init_def total_is_def compress_all_short md5_IV_def rest_of_short)
qed (simp_all add: utils_md5_update_def md5.buffer_update_message utils_md5_finish_digest length_md5_digest)

lemma utils_md5_digest:
  assumes "ilen \<le> length input" and "ilen < 2 ^ 32" and "16 \<le> length out"
  shows "utils_md5 input ilen out = Some (put out (md5_digest (take ilen input)))"
proof -
  obtain c where c: "utils_md5_update (utils_md5_starts utils_md5_init) input ilen = Some c" "holds_message md5_compress md5_IV c (take ilen input)"
    using md5_stream.update_holds [OF md5_stream.starts_holds assms(1,2)] by auto
  then show ?thesis
    using md5_stream.finish_digest [OF c(2) assms(3)] by (auto simp: utils_md5_def)
qed

section \<open>Digests as text\<close>

definition hex_text :: "byte list \<Rightarrow> byte list" where
  "hex_text bs = concat (map (\<lambda>b. [utils_hb2hex (drop_bit 4 b), utils_hb2hex b]) bs)"

lemma length_hex_text [simp]: "length (hex_text bs) = 2 * length bs"
  by (induction bs) (simp_all add: hex_text_def)

lemma hex_loop_text:
  "i + n = length buf \<Longrightarrow> 2 * length buf \<le> length out \<Longrightarrow>
     hex_loop n i buf (put out (hex_text (take i buf))) = Some (put out (hex_text buf))"
proof (induction n arbitrary: i)
  case 0
  then show ?case by simp
next
  case (Suc n)
  have t: "hex_text (take (Suc i) buf) = (hex_text (take i buf) @ [utils_hb2hex (drop_bit 4 (buf ! i))]) @ [utils_hb2hex (buf ! i)]"
    using Suc.prems(1) by (simp add: take_Suc_conv_app_nth hex_text_def)
  have "hex_loop (Suc n) i buf (put out (hex_text (take i buf))) = hex_loop n (Suc i) buf (put out (hex_text (take (Suc i) buf)))"
    using Suc.prems unfolding t by (simp add: rd_def wr_put mult.commute del: append_assoc)
  then show ?case
    using Suc.IH [of "Suc i"] Suc.prems by simp
qed

text \<open>Each digit stands for its half byte.\<close>

lemma hb2hex_value: "list_all (\<lambda>v. utils_hb2hex (of_nat v) = [48, 49, 50, 51, 52, 53, 54, 55, 56, 57, 97, 98, 99, 100, 101, 102] ! (v mod 16)) [0..<256]"
  by code_simp


section \<open>Properties\<close>



end
