(* ===== verification/Utils_Sha1.thy ===== *)
theory Utils_Sha1
  imports Utils_Digest
begin

text \<open>
  SHA-1 as in \<^verbatim>\<open>utils/utils_sha1.c\<close>: the block function with its sixteen-word ring of the message schedule and its
  renamed registers, and init, starts, update, finish and the one-shot digest on top of the buffering of Utils_Digest.  A
  second definition follows FIPS 180-4; the theory shows that both compute the same digest.  \<^verbatim>\<open>output\<close> is the list
  \<open>out\<close>; writing behind its end gives \<open>None\<close>.
\<close>

section \<open>Macros and tables\<close>

type_synonym sha1_state = "u32 \<times> u32 \<times> u32 \<times> u32 \<times> u32"
type_synonym iot_sha1_context = "sha1_state digest_context"

definition IOT_SHA1_GET_UINT32_BE :: "byte list \<Rightarrow> nat \<Rightarrow> u32 option" where
  "IOT_SHA1_GET_UINT32_BE b i = do {
     b0 \<leftarrow> rd b i; b1 \<leftarrow> rd b (i + 1); b2 \<leftarrow> rd b (i + 2); b3 \<leftarrow> rd b (i + 3);
     Some (push_bit 24 (ucast b0) OR push_bit 16 (ucast b1) OR push_bit 8 (ucast b2) OR ucast b3)
   }"

definition be_bytes :: "u32 \<Rightarrow> byte list" where
  "be_bytes n = [ucast (drop_bit 24 n), ucast (drop_bit 16 n), ucast (drop_bit 8 n), ucast n]"

definition IOT_SHA1_PUT_UINT32_BE :: "u32 \<Rightarrow> byte list \<Rightarrow> nat \<Rightarrow> byte list option" where
  "IOT_SHA1_PUT_UINT32_BE n b i = wr_bytes b i (be_bytes n)"

text \<open>The names of the five registers; \<^verbatim>\<open>P\<close> is called with their names, in a rotation of period five.\<close>

datatype sha1_reg = RA | RB | RC | RD | RE

definition sha1_args :: "nat \<Rightarrow> sha1_reg \<times> sha1_reg \<times> sha1_reg \<times> sha1_reg \<times> sha1_reg" where
  "sha1_args t =
     [(RA, RB, RC, RD, RE), (RE, RA, RB, RC, RD), (RD, RE, RA, RB, RC), (RC, RD, RE, RA, RB), (RB, RC, RD, RE, RA)] ! (t mod 5)"

definition sha1_F :: "nat \<Rightarrow> u32 \<Rightarrow> u32 \<Rightarrow> u32 \<Rightarrow> u32" where
  "sha1_F t x y z =
     (if t < 20 then z XOR (x AND (y XOR z))
      else if t < 40 then x XOR y XOR z
      else if t < 60 then (x AND y) OR (z AND (x OR y))
      else x XOR y XOR z)"

definition sha1_K :: "nat \<Rightarrow> u32" where
  "sha1_K t = (if t < 20 then 0x5A827999 else if t < 40 then 0x6ED9EBA1 else if t < 60 then 0x8F1BBCDC else 0xCA62C1D6)"

definition sha1_R :: "nat \<Rightarrow> u32 list \<Rightarrow> u32 \<times> u32 list" where
  "sha1_R t W =
     (let temp = W ! ((t - 3) mod 16) XOR W ! ((t - 8) mod 16) XOR W ! ((t - 14) mod 16) XOR W ! (t mod 16);
          x = rotate_left temp 1
      in (x, W[t mod 16 := x]))"

definition sha1_P ::
  "(u32 \<Rightarrow> u32 \<Rightarrow> u32 \<Rightarrow> u32) \<Rightarrow> u32 \<Rightarrow> sha1_reg \<times> sha1_reg \<times> sha1_reg \<times> sha1_reg \<times> sha1_reg \<Rightarrow> u32 \<Rightarrow> (sha1_reg \<Rightarrow> u32) \<Rightarrow> sha1_reg \<Rightarrow> u32" where
  "sha1_P F K args x r =
     (case args of (a, b, c, d, e) \<Rightarrow>
        let r = r(e := r e + (rotate_left (r a) 5 + F (r b) (r c) (r d) + K + x))
        in r(b := rotate_left (r b) 30))"

definition sha1_round :: "nat \<Rightarrow> (sha1_reg \<Rightarrow> u32) \<times> u32 list \<Rightarrow> (sha1_reg \<Rightarrow> u32) \<times> u32 list" where
  "sha1_round t s =
     (case s of (r, W) \<Rightarrow>
        let (x, W) = (if t < 16 then (W ! t, W) else sha1_R t W)
        in (sha1_P (sha1_F t) (sha1_K t) (sha1_args t) x r, W))"

definition utils_sha1_process :: "iot_sha1_context \<Rightarrow> byte list \<Rightarrow> iot_sha1_context option" where
  "utils_sha1_process ctx data = do {
     W \<leftarrow> those (map (\<lambda>i. IOT_SHA1_GET_UINT32_BE data (4 * i)) [0..<16]);
     case dg_state ctx of (s0, s1, s2, s3, s4) \<Rightarrow>
       let r = (\<lambda>_. 0)(RA := s0, RB := s1, RC := s2, RD := s3, RE := s4);
           r = fst (fold sha1_round [0..<80] (r, W))
       in Some (ctx\<lparr>dg_state := (s0 + r RA, s1 + r RB, s2 + r RC, s3 + r RD, s4 + r RE)\<rparr>)
   }"

section \<open>Operations\<close>

definition utils_sha1_init :: iot_sha1_context where
  "utils_sha1_init = \<lparr>total = (0, 0), dg_state = (0, 0, 0, 0, 0), dg_buffer = replicate 64 0\<rparr>"

definition utils_sha1_starts :: "iot_sha1_context \<Rightarrow> iot_sha1_context" where
  "utils_sha1_starts ctx = ctx\<lparr>total := (0, 0), dg_state := (0x67452301, 0xEFCDAB89, 0x98BADCFE, 0x10325476, 0xC3D2E1F0)\<rparr>"

definition utils_sha1_update :: "iot_sha1_context \<Rightarrow> byte list \<Rightarrow> nat \<Rightarrow> iot_sha1_context option" where
  "utils_sha1_update = buffer_update utils_sha1_process"

definition utils_sha1_finish :: "iot_sha1_context \<Rightarrow> byte list \<Rightarrow> (iot_sha1_context \<times> byte list) option" where
  "utils_sha1_finish ctx out = do {
     let high = drop_bit 29 (fst (total ctx)) OR push_bit 3 (snd (total ctx));
     let low = push_bit 3 (fst (total ctx));
     msglen \<leftarrow> IOT_SHA1_PUT_UINT32_BE high (replicate 8 0) 0;
     msglen \<leftarrow> IOT_SHA1_PUT_UINT32_BE low msglen 4;
     let last = unat (fst (total ctx) AND 0x3F);
     let padn = pad_length last;
     ctx \<leftarrow> utils_sha1_update ctx digest_padding padn;
     ctx \<leftarrow> utils_sha1_update ctx msglen 8;
     case dg_state ctx of (s0, s1, s2, s3, s4) \<Rightarrow> do {
       out \<leftarrow> IOT_SHA1_PUT_UINT32_BE s0 out 0;
       out \<leftarrow> IOT_SHA1_PUT_UINT32_BE s1 out 4;
       out \<leftarrow> IOT_SHA1_PUT_UINT32_BE s2 out 8;
       out \<leftarrow> IOT_SHA1_PUT_UINT32_BE s3 out 12;
       out \<leftarrow> IOT_SHA1_PUT_UINT32_BE s4 out 16;
       Some (ctx, out)
     }
   }"

definition utils_sha1_free :: "iot_sha1_context option \<Rightarrow> iot_sha1_context option" where
  "utils_sha1_free ctx = (case ctx of None \<Rightarrow> None | Some c \<Rightarrow> Some (c\<lparr>total := (0, 0), dg_state := (0, 0, 0, 0, 0), dg_buffer := replicate 64 0\<rparr>))"

definition utils_sha1_clone :: "iot_sha1_context \<Rightarrow> iot_sha1_context \<Rightarrow> iot_sha1_context" where
  "utils_sha1_clone dst src = src"

text \<open>The whole digest at once; the released context is a local variable.\<close>

definition utils_sha1 :: "byte list \<Rightarrow> nat \<Rightarrow> byte list \<Rightarrow> byte list option" where
  "utils_sha1 input ilen out = do {
     let ctx = utils_sha1_starts utils_sha1_init;
     ctx \<leftarrow> utils_sha1_update ctx input ilen;
     (ctx, out) \<leftarrow> utils_sha1_finish ctx out;
     let ctx = utils_sha1_free (Some ctx);
     Some out
   }"

section \<open>SHA-1 as the standard defines it\<close>

definition block_word :: "byte list \<Rightarrow> nat \<Rightarrow> u32" where
  "block_word b t =
     push_bit 24 (ucast (b ! (4 * t))) OR push_bit 16 (ucast (b ! (4 * t + 1))) OR push_bit 8 (ucast (b ! (4 * t + 2))) OR ucast (b ! (4 * t + 3))"

fun sha1_W :: "byte list \<Rightarrow> nat \<Rightarrow> u32" where
  "sha1_W b t = (if t < 16 then block_word b t
     else word_rotl 1 (sha1_W b (t - 3) XOR sha1_W b (t - 8) XOR sha1_W b (t - 14) XOR sha1_W b (t - 16)))"

declare sha1_W.simps [simp del]

definition sha1_f :: "nat \<Rightarrow> u32 \<Rightarrow> u32 \<Rightarrow> u32 \<Rightarrow> u32" where
  "sha1_f t x y z =
     (if t < 20 then (x AND y) XOR (NOT x AND z)
      else if t < 40 then x XOR y XOR z
      else if t < 60 then (x AND y) XOR (x AND z) XOR (y AND z)
      else x XOR y XOR z)"

fun sha1_step :: "byte list \<Rightarrow> nat \<Rightarrow> sha1_state \<Rightarrow> sha1_state" where
  "sha1_step blk t (a, b, c, d, e) =
     (word_rotl 5 a + sha1_f t b c d + e + sha1_K t + sha1_W blk t, a, word_rotl 30 b, c, d)"

definition sha1_compress :: "sha1_state \<Rightarrow> byte list \<Rightarrow> sha1_state" where
  "sha1_compress s blk =
     (case s of (h0, h1, h2, h3, h4) \<Rightarrow>
      case fold (sha1_step blk) [0..<80] s of (a, b, c, d, e) \<Rightarrow> (h0 + a, h1 + b, h2 + c, h3 + d, h4 + e))"

definition sha1_IV :: sha1_state where
  "sha1_IV = (0x67452301, 0xEFCDAB89, 0x98BADCFE, 0x10325476, 0xC3D2E1F0)"

definition be_length :: "nat \<Rightarrow> byte list" where
  "be_length n = map (\<lambda>k. of_nat (drop_bit k (8 * n))) [56, 48, 40, 32, 24, 16, 8, 0]"

definition sha1_pad :: "byte list \<Rightarrow> byte list" where
  "sha1_pad m = m @ 0x80 # replicate ((119 - length m mod 64) mod 64) 0 @ be_length (length m)"

definition sha1_digest :: "byte list \<Rightarrow> byte list" where
  "sha1_digest m =
     (case compress_all sha1_compress sha1_IV (sha1_pad m) of
        (a, b, c, d, e) \<Rightarrow> be_bytes a @ be_bytes b @ be_bytes c @ be_bytes d @ be_bytes e)"

section \<open>The block function is the standard's\<close>

lemma sha1_F_f: "sha1_F t = sha1_f t"
proof -
  have ch: "z XOR (x AND (y XOR z)) = (x AND y) XOR (NOT x AND z)" for x y z :: u32
    by (rule bit_word_eqI) (auto simp: bit_simps)
  have maj: "(x AND y) OR (z AND (x OR y)) = (x AND y) XOR (x AND z) XOR (y AND z)" for x y z :: u32
    by (rule bit_word_eqI) (auto simp: bit_simps)
  show ?thesis
    unfolding fun_eq_iff sha1_F_def sha1_f_def ch maj by simp
qed


definition schedule_ok :: "byte list \<Rightarrow> nat \<Rightarrow> u32 list \<Rightarrow> bool" where
  "schedule_ok b t W \<longleftrightarrow> length W = 16 \<and> (\<forall>j. j < max t 16 \<longrightarrow> max t 16 \<le> j + 16 \<longrightarrow> W ! (j mod 16) = sha1_W b j)"

lemma sha1_R_schedule:
  assumes "schedule_ok b t W" and "16 \<le> t"
  shows "sha1_R t W = (sha1_W b t, W[t mod 16 := sha1_W b t])" and "schedule_ok b (Suc t) (W[t mod 16 := sha1_W b t])"
proof -
  have W: "length W = 16" "\<And>j. j < t \<Longrightarrow> t \<le> j + 16 \<Longrightarrow> W ! (j mod 16) = sha1_W b j"
    using assms by (simp_all add: schedule_ok_def)
  have "(t - 16) mod 16 = t mod 16"
    using assms(2) le_mod_geq by simp
  then have "W ! (t mod 16) = sha1_W b (t - 16)"
    using W(2) [of "t - 16"] assms(2) by simp
  then show "sha1_R t W = (sha1_W b t, W[t mod 16 := sha1_W b t])"
    using W(2) [of "t - 3"] W(2) [of "t - 8"] W(2) [of "t - 14"] assms(2)
    by (simp add: sha1_R_def Let_def rotate_left_rotl sha1_W.simps [of b t])
  have "W[t mod 16 := sha1_W b t] ! (j mod 16) = sha1_W b j" if j: "j < Suc t" "Suc t \<le> j + 16" for j
  proof (cases "j = t")
    case True
    then show ?thesis using W(1) by simp
  next
    case False
    then have "t - j < 16" "0 < t - j" "t = j + (t - j)" using j by simp_all
    then have "j mod 16 \<noteq> t mod 16"
      by (metis mod_less mod_eq_dvd_iff_nat dvd_imp_mod_0 less_imp_le_nat zero_less_diff less_irrefl)
    then show ?thesis using W(2) [of j] j False by simp
  qed
  then show "schedule_ok b (Suc t) (W[t mod 16 := sha1_W b t])"
    using W(1) assms(2) by (simp add: schedule_ok_def)
qed

definition reg_values :: "sha1_reg \<times> sha1_reg \<times> sha1_reg \<times> sha1_reg \<times> sha1_reg \<Rightarrow> (sha1_reg \<Rightarrow> u32) \<Rightarrow> sha1_state" where
  "reg_values args r = (case args of (a, b, c, d, e) \<Rightarrow> (r a, r b, r c, r d, r e))"

lemma sha1_args_cases:
  obtains a b c d e where "sha1_args t = (a, b, c, d, e)" and "sha1_args (Suc t) = (e, a, b, c, d)" and "distinct [a, b, c, d, e]"
proof -
  have "t mod 5 < 5" by simp
  then consider "t mod 5 = 0" | "t mod 5 = 1" | "t mod 5 = 2" | "t mod 5 = 3" | "t mod 5 = 4" by linarith
  then show ?thesis
  proof cases
    case 1 show ?thesis by (rule that [of RA RB RC RD RE]) (simp_all add: sha1_args_def mod_Suc 1)
  next
    case 2 show ?thesis by (rule that [of RE RA RB RC RD]) (simp_all add: sha1_args_def mod_Suc 2 numeral_2_eq_2)
  next
    case 3 show ?thesis by (rule that [of RD RE RA RB RC]) (simp_all add: sha1_args_def mod_Suc 3 numeral_2_eq_2)
  next
    case 4 show ?thesis by (rule that [of RC RD RE RA RB]) (simp_all add: sha1_args_def mod_Suc 4)
  next
    case 5 show ?thesis by (rule that [of RB RC RD RE RA]) (simp_all add: sha1_args_def mod_Suc 5)
  qed
qed

lemma sha1_P_step:
  "reg_values (sha1_args (Suc t)) (sha1_P (sha1_F t) (sha1_K t) (sha1_args t) (sha1_W blk t) r) =
     sha1_step blk t (reg_values (sha1_args t) r)"
proof -
  obtain a b c d e where "sha1_args t = (a, b, c, d, e)" "sha1_args (Suc t) = (e, a, b, c, d)" "distinct [a, b, c, d, e]"
    by (rule sha1_args_cases)
  then show ?thesis
    by (auto simp: reg_values_def sha1_P_def rotate_left_rotl sha1_F_f algebra_simps)
qed

lemma sha1_rounds:
  assumes "schedule_ok blk 0 W"
  shows "schedule_ok blk n (snd (fold sha1_round [0..<n] (r, W))) \<and>
    reg_values (sha1_args n) (fst (fold sha1_round [0..<n] (r, W))) = fold (sha1_step blk) [0..<n] (reg_values (sha1_args 0) r)"
proof (induction n)
  case 0
  show ?case using assms by simp
next
  case (Suc n)
  obtain r' W' where f: "fold sha1_round [0..<n] (r, W) = (r', W')" by (cases "fold sha1_round [0..<n] (r, W)")
  have ok: "schedule_ok blk n W'" and v: "reg_values (sha1_args n) r' = fold (sha1_step blk) [0..<n] (reg_values (sha1_args 0) r)"
    using Suc f by simp_all
  have "\<exists>W''. sha1_round n (r', W') = (sha1_P (sha1_F n) (sha1_K n) (sha1_args n) (sha1_W blk n) r', W'') \<and> schedule_ok blk (Suc n) W''"
  proof (cases "n < 16")
    case True
    then show ?thesis using ok by (simp add: sha1_round_def schedule_ok_def)
  next
    case False
    then show ?thesis using sha1_R_schedule [OF ok] by (simp add: sha1_round_def)
  qed
  then show ?case
    using f v by (auto simp: sha1_P_step)
qed


lemma sha1_load_block:
  assumes "64 \<le> length data"
  shows "those (map (\<lambda>i. IOT_SHA1_GET_UINT32_BE data (4 * i)) [0..<16]) = Some (map (block_word (take 64 data)) [0..<16])"
  by (rule those_map_Some) (use assms in \<open>auto simp: IOT_SHA1_GET_UINT32_BE_def block_word_def rd_def\<close>)

lemma utils_sha1_process_compress:
  assumes "64 \<le> length data"
  shows "utils_sha1_process ctx data = Some (ctx\<lparr>dg_state := sha1_compress (dg_state ctx) (take 64 data)\<rparr>)"
proof -
  obtain s0 s1 s2 s3 s4 where s: "dg_state ctx = (s0, s1, s2, s3, s4)" by (cases "dg_state ctx")
  define r0 :: "sha1_reg \<Rightarrow> u32" where "r0 = (\<lambda>_. 0)(RA := s0, RB := s1, RC := s2, RD := s3, RE := s4)"
  let ?W = "map (block_word (take 64 data)) [0..<16]"
  have "schedule_ok (take 64 data) 0 ?W"
    by (simp add: schedule_ok_def sha1_W.simps)
  from sha1_rounds [OF this, of 80 r0]
  have "reg_values (RA, RB, RC, RD, RE) (fst (fold sha1_round [0..<80] (r0, ?W))) =
      fold (sha1_step (take 64 data)) [0..<80] (s0, s1, s2, s3, s4)"
    by (simp add: sha1_args_def reg_values_def r0_def)
  then show ?thesis
    unfolding utils_sha1_process_def sha1_load_block [OF assms] s sha1_compress_def
    by (auto simp: Let_def reg_values_def r0_def split: prod.splits)
qed

interpretation sha1: block_hash utils_sha1_process sha1_compress
  by unfold_locales (rule utils_sha1_process_compress)

section \<open>The digest is the standard's\<close>

lemma be_bytes_of_nat: "be_bytes (of_nat N) = map (\<lambda>k. of_nat (drop_bit k N)) [24, 16, 8, 0]"
proof -
  have "(ucast (drop_bit k (of_nat N :: u32)) :: byte) = of_nat (drop_bit k N)" if "k + 8 \<le> 32" for k
    by (rule bit_word_eqI) (use that in \<open>auto simp: bit_simps\<close>)
  from this [of 24] this [of 16] this [of 8] this [of 0] show ?thesis
    by (simp add: be_bytes_def)
qed

lemma be_bytes_length: "be_bytes (of_nat (drop_bit 32 (8 * n))) @ be_bytes (of_nat (8 * n)) = be_length n"
  unfolding be_bytes_of_nat be_length_def by (simp only: list.map append.simps drop_bit_drop_bit) simp

lemma length_be_bytes [simp]: "length (be_bytes w) = 4"
  by (simp add: be_bytes_def)

lemma put_be_put:
  "p = length xs \<Longrightarrow> p + 4 \<le> length b \<Longrightarrow> IOT_SHA1_PUT_UINT32_BE w (put b xs) p = Some (put b (xs @ be_bytes w))"
  by (simp add: IOT_SHA1_PUT_UINT32_BE_def wr_bytes_put)

lemma put_be_two: "Option.bind (IOT_SHA1_PUT_UINT32_BE v (replicate 8 0) 0) (\<lambda>b. IOT_SHA1_PUT_UINT32_BE w b 4) = Some (be_bytes v @ be_bytes w)"
  using put_be_put [of 0 "[]" "replicate 8 0" v] put_be_put [of 4 "be_bytes v" "replicate 8 0" w] by (simp add: put_def)

lemma sha1_digest_state:
  "compress_all sha1_compress sha1_IV (sha1_pad m) = (a, b, c, d, e) \<Longrightarrow>
     sha1_digest m = be_bytes a @ be_bytes b @ be_bytes c @ be_bytes d @ be_bytes e"
  by (simp add: sha1_digest_def sha1_IV_def)

lemma length_sha1_digest: "length (sha1_digest m) = 20"
  by (cases "compress_all sha1_compress sha1_IV (sha1_pad m)") (simp add: sha1_digest_state)

lemma put_be_five:
  fixes out :: "byte list"
  assumes "20 \<le> length out"
  shows "(do { out \<leftarrow> IOT_SHA1_PUT_UINT32_BE a out 0; out \<leftarrow> IOT_SHA1_PUT_UINT32_BE b out 4;
       out \<leftarrow> IOT_SHA1_PUT_UINT32_BE c out 8; out \<leftarrow> IOT_SHA1_PUT_UINT32_BE d out 12;
       out \<leftarrow> IOT_SHA1_PUT_UINT32_BE e out 16; f out }) =
     f (put out (be_bytes a @ be_bytes b @ be_bytes c @ be_bytes d @ be_bytes e))"
  using assms put_be_put [where p = 0 and xs = "[]" and b = out and w = a] by (simp add: put_Nil put_be_put)

lemma utils_sha1_finish_digest:
  assumes "holds_message sha1_compress sha1_IV ctx m" and "20 \<le> length out"
  shows "\<exists>ctx'. utils_sha1_finish ctx out = Some (ctx', put out (sha1_digest m))"
proof -
  have t: "total_is (total ctx) (length m)"
    using assms(1) by (simp add: holds_message_def)
  have len: "length (be_length (length m)) = 8"
    by (simp add: be_length_def)
  obtain ctx1 ctx2 where c: "utils_sha1_update ctx digest_padding (pad_length (unat (fst (total ctx) AND 0x3F))) = Some ctx1"
      "utils_sha1_update ctx1 (be_length (length m)) 8 = Some ctx2"
      "dg_state ctx2 = compress_all sha1_compress sha1_IV (sha1_pad m)"
    using sha1.padding_updates [OF assms(1) len] by (auto simp: utils_sha1_update_def padding_bytes sha1_pad_def)
  obtain a b c d e where s: "dg_state ctx2 = (a, b, c, d, e)" by (cases "dg_state ctx2")
  have "utils_sha1_finish ctx out = Option.bind (utils_sha1_update ctx1 (be_bytes (of_nat (drop_bit 32 (8 * length m))) @ be_bytes (of_nat (8 * length m))) 8)
      (\<lambda>ctx. case dg_state ctx of (s0, s1, s2, s3, s4) \<Rightarrow> Some (ctx, put out (be_bytes s0 @ be_bytes s1 @ be_bytes s2 @ be_bytes s3 @ be_bytes s4)))"
    unfolding utils_sha1_finish_def put_be_five [OF assms(2)] bit_length_high [OF t] bit_length_low [OF t] Let_def
    unfolding bind_assoc [symmetric] put_be_two by (simp add: c(1))
  then show ?thesis
    unfolding be_bytes_length using c(2) s sha1_digest_state [of m a b c d e, folded c(3), OF s] by simp
qed

interpretation sha1_stream: hash_stream "utils_sha1_starts utils_sha1_init" utils_sha1_update utils_sha1_finish
  "holds_message sha1_compress sha1_IV" sha1_digest 20
proof unfold_locales
  show "holds_message sha1_compress sha1_IV (utils_sha1_starts utils_sha1_init) []"
    by (simp add: holds_message_def utils_sha1_starts_def utils_sha1_init_def total_is_def compress_all_short sha1_IV_def rest_of_short)
qed (simp_all add: utils_sha1_update_def sha1.buffer_update_message utils_sha1_finish_digest length_sha1_digest)


lemma utils_sha1_digest:
  assumes "ilen \<le> length input" and "ilen < 2 ^ 32" and "20 \<le> length out"
  shows "utils_sha1 input ilen out = Some (put out (sha1_digest (take ilen input)))"
proof -
  obtain c where c: "utils_sha1_update (utils_sha1_starts utils_sha1_init) input ilen = Some c" "holds_message sha1_compress sha1_IV c (take ilen input)"
    using sha1_stream.update_holds [OF sha1_stream.starts_holds assms(1,2)] by auto
  then show ?thesis
    using sha1_stream.finish_digest [OF c(2) assms(3)] by (auto simp: utils_sha1_def)
qed

section \<open>Properties\<close>



end
