(* ===== verification/Utils_Hmac.thy ===== *)
theory Utils_Hmac
  imports Utils_Md5 Utils_Sha1
begin

text \<open>
  The keyed hashes of \<^verbatim>\<open>utils/utils_hmac.c\<close>.  The proof that they are HMAC is made once, in the locale of hash streams, and
  applied to MD5 and SHA-1.  Null pointers are \<open>None\<close>; the two text functions return nothing in C and here the digest buffer.
\<close>

section \<open>Sizes\<close>

definition KEY_IOPAD_SIZE :: nat where "KEY_IOPAD_SIZE = 64"
definition MD5_DIGEST_SIZE :: nat where "MD5_DIGEST_SIZE = 16"
definition SHA1_DIGEST_SIZE :: nat where "SHA1_DIGEST_SIZE = 20"

text \<open>An \<^verbatim>\<open>int\<close> argument where the callee takes a \<^verbatim>\<open>size_t\<close>.\<close>

definition int_to_size :: "int \<Rightarrow> nat" where
  "int_to_size n = nat (n mod 2 ^ 64)"

section \<open>The three functions\<close>

text \<open>
  The pads and the two passes, which are the same text in all three functions but for the hash; \<open>starts\<close> is the context after
  init and starts, \<open>dsize\<close> the size of the array \<^verbatim>\<open>out\<close>.
\<close>

definition hmac_passes ::
  "'c \<Rightarrow> ('c \<Rightarrow> byte list \<Rightarrow> nat \<Rightarrow> 'c option) \<Rightarrow> ('c \<Rightarrow> byte list \<Rightarrow> ('c \<times> byte list) option) \<Rightarrow> nat \<Rightarrow>
     byte list \<Rightarrow> int \<Rightarrow> byte list \<Rightarrow> int \<Rightarrow> byte list option" where
  "hmac_passes starts update finish dsize msg msg_len key key_len = do {
     k \<leftarrow> rd_bytes key 0 (int_to_size key_len);
     k_ipad \<leftarrow> wr_bytes (replicate KEY_IOPAD_SIZE 0) 0 k;
     k_opad \<leftarrow> wr_bytes (replicate KEY_IOPAD_SIZE 0) 0 k;
     let k_ipad = map (\<lambda>b. b XOR 0x36) k_ipad;
     let k_opad = map (\<lambda>b. b XOR 0x5C) k_opad;
     context \<leftarrow> update starts k_ipad KEY_IOPAD_SIZE;
     context \<leftarrow> update context msg (int_to_size msg_len);
     (_, out) \<leftarrow> finish context (replicate dsize 0);
     context \<leftarrow> update starts k_opad KEY_IOPAD_SIZE;
     context \<leftarrow> update context out dsize;
     (_, out) \<leftarrow> finish context out;
     Some out
   }"

definition utils_hmac_md5 :: "byte list option \<Rightarrow> int \<Rightarrow> byte list option \<Rightarrow> byte list option \<Rightarrow> int \<Rightarrow> byte list option option" where
  "utils_hmac_md5 msg msg_len digest key key_len =
     (case (msg, digest, key) of
        (Some msg, Some d, Some key) \<Rightarrow>
          if key_len > int KEY_IOPAD_SIZE then Some digest
          else do {
            out \<leftarrow> hmac_passes (utils_md5_starts utils_md5_init) utils_md5_update utils_md5_finish MD5_DIGEST_SIZE msg msg_len key key_len;
            d \<leftarrow> hex_loop MD5_DIGEST_SIZE 0 out d;
            Some (Some d)
          }
      | _ \<Rightarrow> Some digest)"

definition utils_hmac_sha1 :: "byte list option \<Rightarrow> int \<Rightarrow> byte list option \<Rightarrow> byte list option \<Rightarrow> int \<Rightarrow> byte list option option" where
  "utils_hmac_sha1 msg msg_len digest key key_len =
     (case (msg, digest, key) of
        (Some msg, Some d, Some key) \<Rightarrow>
          if key_len > int KEY_IOPAD_SIZE then Some digest
          else do {
            out \<leftarrow> hmac_passes (utils_sha1_starts utils_sha1_init) utils_sha1_update utils_sha1_finish SHA1_DIGEST_SIZE msg msg_len key key_len;
            d \<leftarrow> hex_loop SHA1_DIGEST_SIZE 0 out d;
            Some (Some d)
          }
      | _ \<Rightarrow> Some digest)"

definition utils_hmac_sha1_hex ::
  "byte list option \<Rightarrow> int \<Rightarrow> byte list option \<Rightarrow> byte list option \<Rightarrow> int \<Rightarrow> (int \<times> byte list option) option" where
  "utils_hmac_sha1_hex msg msg_len digest key key_len =
     (case (msg, digest, key) of
        (Some msg, Some d, Some key) \<Rightarrow>
          if key_len > int KEY_IOPAD_SIZE then Some (0, digest)
          else do {
            out \<leftarrow> hmac_passes (utils_sha1_starts utils_sha1_init) utils_sha1_update utils_sha1_finish SHA1_DIGEST_SIZE msg msg_len key key_len;
            d \<leftarrow> wr_bytes d 0 out;
            Some (int SHA1_DIGEST_SIZE, Some d)
          }
      | _ \<Rightarrow> Some (0, digest))"

section \<open>HMAC as RFC 2104 defines it\<close>

definition hmac :: "(byte list \<Rightarrow> byte list) \<Rightarrow> byte list \<Rightarrow> byte list \<Rightarrow> byte list" where
  "hmac H key m =
     (let k = key @ replicate (64 - length key) 0
      in H (map (\<lambda>b. b XOR 0x5C) k @ H (map (\<lambda>b. b XOR 0x36) k @ m)))"

lemma int_to_size_int [simp]: "n < 2 ^ 64 \<Longrightarrow> int_to_size (int n) = n"
  by (simp add: int_to_size_def nat_mod_as_int)

context hash_stream
begin

lemma hmac_passes_hmac:
  assumes "n \<le> length msg" and "n < 2 ^ 31" and "k \<le> length key" and "k \<le> 64" and "digest_size < 2 ^ 32"
  shows "hmac_passes starts update finish digest_size msg (int n) key (int k) = Some (hmac digest (take k key) (take n msg))"
proof -
  define K where "K = take k key @ replicate (64 - length (take k key)) 0"
  have K: "length K = 64" "wr_bytes (replicate KEY_IOPAD_SIZE 0) 0 (take k key) = Some K"
    using assms(3,4) by (simp_all add: K_def wr_bytes_0 KEY_IOPAD_SIZE_def)
  let ?i = "map (\<lambda>b. b XOR 0x36) K" and ?o = "map (\<lambda>b. b XOR 0x5C) K"
  define inner where "inner = digest (?i @ take n msg)"
  have inner: "length inner = digest_size" "put (replicate digest_size 0) inner = inner" "put inner x = x" if "length x = digest_size" for x
    using that by (simp_all add: inner_def length_digest put_def)
  obtain c1 where 1: "Option.bind (update starts ?i 64) (\<lambda>c. Option.bind (update c msg n) (\<lambda>c. finish c (replicate digest_size 0))) = Some (c1, inner)"
    using two_updates_finish [of 64 ?i n msg "replicate digest_size 0"] assms(1,2) K(1) inner(2) [of inner]
    by (auto simp: inner_def length_digest)
  obtain c2 where 2: "Option.bind (update starts ?o 64) (\<lambda>c. Option.bind (update c inner digest_size) (\<lambda>c. finish c inner)) =
      Some (c2, digest (?o @ inner))"
    using two_updates_finish [of 64 ?o digest_size inner inner] assms(5) K(1) inner(1) [of inner] inner(3) by (auto simp: length_digest inner_def)
  have r: "rd_bytes key 0 (int_to_size (int k)) = Some (take k key)"
    using assms(3,4) by (simp add: rd_bytes_def)
  have n: "int_to_size (int n) = n"
    using assms(2) by simp
  from 1 obtain a1 b1 where p1: "update starts ?i 64 = Some a1" "update a1 msg n = Some b1" "finish b1 (replicate digest_size 0) = Some (c1, inner)"
    by (auto simp: bind_Some_iff)
  from 2 obtain a2 b2 where p2: "update starts ?o 64 = Some a2" "update a2 inner digest_size = Some b2" "finish b2 inner = Some (c2, digest (?o @ inner))"
    by (auto simp: bind_Some_iff)
  show ?thesis
    unfolding hmac_passes_def r n hmac_def K_def [symmetric] Let_def
    using K(2) p1 p2 by (simp add: KEY_IOPAD_SIZE_def inner_def)
qed

end


section \<open>Properties\<close>



text \<open>
  Misuse of the keyed hashes is not reported by the two text functions: a key of more than 64 bytes, or a null
  argument, leaves the digest buffer as it was (RFC 2104 hashes such a key first); the binary function then returns 0.
\<close>

lemma hmac_rejects_long_keys:
  assumes "k > 64 \<or> msg = None \<or> key = None"
  shows "utils_hmac_md5 msg n d key k = Some d \<and> utils_hmac_sha1 msg n d key k = Some d \<and> utils_hmac_sha1_hex msg n d key k = Some (0, d)"
  using assms by (auto simp: utils_hmac_md5_def utils_hmac_sha1_def utils_hmac_sha1_hex_def KEY_IOPAD_SIZE_def split: option.splits)

end
