(* ===== verification/Coap_Codec.thy ===== *)
theory Coap_Codec
  imports Prelude
begin

text \<open>
  CoAP messages and their codec: \<^verbatim>\<open>protocol/coap/coap_client_common.c\<close>, \<^verbatim>\<open>coap_client_serialize.c\<close> and
  \<^verbatim>\<open>coap_client_deserialize.c\<close>.  The lemmas give the exact bytes of a serialized message.
\<close>

section \<open>Messages\<close>

definition COAP_MSG_VER :: u32 where "COAP_MSG_VER = 1"
definition COAP_MSG_MAX_TOKEN_LEN :: nat where "COAP_MSG_MAX_TOKEN_LEN = 8"
definition COAP_MSG_MAX_CODE_CLASS :: u32 where "COAP_MSG_MAX_CODE_CLASS = 7"
definition COAP_MSG_MAX_CODE_DETAIL :: u32 where "COAP_MSG_MAX_CODE_DETAIL = 31"
definition COAP_MSG_MAX_MSG_ID :: nat where "COAP_MSG_MAX_MSG_ID = 65535"

text \<open>Message types and code classes are stored as numbers.\<close>

abbreviation (input) COAP_MSG_CON :: u32 where "COAP_MSG_CON \<equiv> 0"
abbreviation (input) COAP_MSG_NON :: u32 where "COAP_MSG_NON \<equiv> 1"
abbreviation (input) COAP_MSG_ACK :: u32 where "COAP_MSG_ACK \<equiv> 2"
abbreviation (input) COAP_MSG_RST :: u32 where "COAP_MSG_RST \<equiv> 3"
abbreviation (input) COAP_MSG_REQ :: u32 where "COAP_MSG_REQ \<equiv> 0"
abbreviation (input) COAP_MSG_SUCCESS :: u32 where "COAP_MSG_SUCCESS \<equiv> 2"
abbreviation (input) COAP_MSG_CLIENT_ERR :: u32 where "COAP_MSG_CLIENT_ERR \<equiv> 4"
abbreviation (input) COAP_MSG_SERVER_ERR :: u32 where "COAP_MSG_SERVER_ERR \<equiv> 5"
abbreviation (input) COAP_MSG_SDKINTERNAL_ERR :: u32 where "COAP_MSG_SDKINTERNAL_ERR \<equiv> 6"

text \<open>The codes of \<^verbatim>\<open>errno.h\<close> that the files return.\<close>

abbreviation (input) ENOSPC :: int where "ENOSPC \<equiv> 28"
abbreviation (input) EINVAL :: int where "EINVAL \<equiv> 22"
abbreviation (input) ENOMEM :: int where "ENOMEM \<equiv> 12"

record CoAPMsgOption =
  option_num :: u16
  val_len :: u32
  op_val :: "byte list"

text \<open>The response callbacks: the one of \<^verbatim>\<open>coap_client_auth.c\<close>, and those of the application, by number.\<close>

datatype OnRespCallback = auth_callback | user_callback nat

text \<open>The option list is the sequence from \<^verbatim>\<open>first\<close> to \<^verbatim>\<open>last\<close>; a context is a pointer.\<close>

record CoAPMessage =
  version :: u32
  msg_type :: u32
  code_class :: u32
  code_detail :: u32
  coap_msg_id :: u16
  pay_load :: "byte list option"
  pay_load_len :: nat
  token :: "byte list"
  token_len :: u32
  op_list :: "CoAPMsgOption list"
  resp_handler :: "OnRespCallback option"
  user_context :: "nat option"

definition DEFAULT_COAP_MESSAGE :: CoAPMessage where
  "DEFAULT_COAP_MESSAGE = \<lparr>version = COAP_MSG_VER, msg_type = COAP_MSG_CON, code_class = COAP_MSG_REQ, code_detail = 2, coap_msg_id = 0,
     pay_load = None, pay_load_len = 0, token = replicate 8 0, token_len = 0, op_list = [], resp_handler = None, user_context = None\<rparr>"

text \<open>The message after \<^verbatim>\<open>memset(message, 0, sizeof(CoAPMessage))\<close>.\<close>

definition zero_message :: CoAPMessage where
  "zero_message = \<lparr>version = 0, msg_type = 0, code_class = 0, code_detail = 0, coap_msg_id = 0,
     pay_load = None, pay_load_len = 0, token = replicate 8 0, token_len = 0, op_list = [], resp_handler = None, user_context = None\<rparr>"

text \<open>Destroying a message releases its options and payload and clears it.\<close>

definition coap_message_destroy :: "CoAPMessage \<Rightarrow> CoAPMessage" where
  "coap_message_destroy message = zero_message"

section \<open>Serializing\<close>

text \<open>
  The functions write at offset \<open>p\<close> of the buffer and return a count, or a negative code, and the buffer.  \<^verbatim>\<open>len\<close> is
  the room that is left; it is a \<^verbatim>\<open>size_t\<close>, which wraps.
\<close>

definition coap_message_serialize_header :: "CoAPMessage \<Rightarrow> byte list \<Rightarrow> nat \<Rightarrow> size_t \<Rightarrow> (int \<times> byte list) option" where
  "coap_message_serialize_header message buf p len =
     (if len < 4 then Some (- ENOSPC, buf)
      else do {
        buf \<leftarrow> wr buf p (ucast (push_bit 6 COAP_MSG_VER OR push_bit 4 (msg_type message AND 0x03) OR (token_len message AND 0x0F)));
        buf \<leftarrow> wr buf (p + 1) (ucast (push_bit 5 (code_class message AND 0x07) OR (code_detail message AND 0x1F)));
        buf \<leftarrow> wr buf (p + 2) (ucast (drop_bit 8 (coap_msg_id message AND 0xFF00)));
        buf \<leftarrow> wr buf (p + 3) (ucast (coap_msg_id message AND 0x00FF));
        Some (4, buf)
      })"

definition coap_message_serialize_token :: "CoAPMessage \<Rightarrow> byte list \<Rightarrow> nat \<Rightarrow> size_t \<Rightarrow> (int \<times> byte list) option" where
  "coap_message_serialize_token message buf p len =
     (if len < ucast (token_len message) then Some (- ENOSPC, buf)
      else do {
        bs \<leftarrow> rd_bytes (token message) 0 (unat (token_len message));
        buf \<leftarrow> wr_bytes buf p bs;
        Some (uint (token_len message), buf)
      })"

text \<open>The nibble of an option's delta or length, and its extension, as the code computes them.\<close>

definition op_nibble :: "u32 \<Rightarrow> byte" where
  "op_nibble x = (if x \<ge> 269 then 14 else if x \<ge> 13 then 13 else ucast x)"

definition op_extension :: "u32 \<Rightarrow> byte list" where
  "op_extension x =
     (if x \<ge> 269 then [ucast (drop_bit 8 ((x - 269) AND 0xFF00)), ucast ((x - 269) AND 0x00FF)]
      else if x \<ge> 13 then [ucast (x - 13)] else [])"

definition coap_msg_format_op :: "CoAPMsgOption \<Rightarrow> u32 \<Rightarrow> byte list \<Rightarrow> nat \<Rightarrow> size_t \<Rightarrow> (int \<times> byte list) option" where
  "coap_msg_format_op op prev_num buf p len =
     (let op_delta = (ucast (ucast (option_num op) - prev_num) :: u16);
          delta = (ucast op_delta :: u32);
          num = (1 :: u32);
          num = (if delta \<ge> 269 then num + 2 else if delta \<ge> 13 then num + 1 else num);
          num = (if val_len op \<ge> 269 then num + 2 else if option_num op \<ge> 13 then num + 1 else num);
          num = num + val_len op
      in if ucast num > len then Some (QCLOUD_ERR_COAP_DATA_SIZE, buf)
         else do {
           buf \<leftarrow> wr buf p (push_bit 4 (op_nibble delta));
           b \<leftarrow> rd buf p;
           buf \<leftarrow> wr buf p (b OR op_nibble (val_len op));
           let p = p + 1;
           buf \<leftarrow> wr_bytes buf p (op_extension delta);
           let p = p + length (op_extension delta);
           buf \<leftarrow> wr_bytes buf p (op_extension (val_len op));
           let p = p + length (op_extension (val_len op));
           v \<leftarrow> rd_bytes (op_val op) 0 (unat (val_len op));
           buf \<leftarrow> wr_bytes buf p v;
           Some (1 + int (length (op_extension delta)) + int (length (op_extension (val_len op))) + uint (val_len op), buf)
         })"

fun serialize_options_loop :: "CoAPMsgOption list \<Rightarrow> u32 \<Rightarrow> byte list \<Rightarrow> nat \<Rightarrow> size_t \<Rightarrow> ((int + nat) \<times> byte list) option" where
  "serialize_options_loop [] prev_num buf p len = Some (Inr p, buf)"
| "serialize_options_loop (op # ops) prev_num buf p len = do {
     (num, buf) \<leftarrow> coap_msg_format_op op prev_num buf p len;
     if num < 0 then Some (Inl num, buf)
     else serialize_options_loop ops (ucast (option_num op)) buf (p + nat num) (len - of_int num)
   }"

definition coap_message_serialize_options :: "CoAPMessage \<Rightarrow> byte list \<Rightarrow> nat \<Rightarrow> size_t \<Rightarrow> (int \<times> byte list) option" where
  "coap_message_serialize_options message buf p len = do {
     (r, buf) \<leftarrow> serialize_options_loop (op_list message) 0 buf p len;
     case r of Inl num \<Rightarrow> Some (num, buf) | Inr q \<Rightarrow> Some (int q - int p, buf)
   }"

definition coap_message_serialize_payload :: "CoAPMessage \<Rightarrow> byte list \<Rightarrow> nat \<Rightarrow> size_t \<Rightarrow> (int \<times> byte list) option" where
  "coap_message_serialize_payload message buf p len =
     (if pay_load_len message = 0 then Some (QCLOUD_RET_SUCCESS, buf)
      else if of_nat (pay_load_len message) + 1 > len then Some (- ENOSPC, buf)
      else do {
        buf \<leftarrow> wr buf p 0xFF;
        pl \<leftarrow> pay_load message;
        bs \<leftarrow> rd_bytes pl 0 (pay_load_len message);
        buf \<leftarrow> wr_bytes buf (p + 1) bs;
        Some (int (pay_load_len message) + 1, buf)
      })"

definition serialize_coap_message :: "CoAPMessage option \<Rightarrow> byte list option \<Rightarrow> size_t \<Rightarrow> (int \<times> byte list option) option" where
  "serialize_coap_message message buf len =
     (case (message, buf) of
        (Some message, Some buf) \<Rightarrow> do {
          (num, buf) \<leftarrow> coap_message_serialize_header message buf 0 len;
          if num < 0 then Some (QCLOUD_ERR_COAP_INTERNAL, Some buf)
          else do {
            let p = nat num;
            let len = len - of_int num;
            (num, buf) \<leftarrow> coap_message_serialize_token message buf p len;
            if num < 0 then Some (QCLOUD_ERR_COAP_INTERNAL, Some buf)
            else do {
              let p = p + nat num;
              let len = len - of_int num;
              (num, buf) \<leftarrow> coap_message_serialize_options message buf p len;
              if num < 0 then Some (QCLOUD_ERR_COAP_INTERNAL, Some buf)
              else do {
                let p = p + nat num;
                let len = len - of_int num;
                (num, buf) \<leftarrow> coap_message_serialize_payload message buf p len;
                if num < 0 then Some (QCLOUD_ERR_COAP_INTERNAL, Some buf)
                else Some (int (p + nat num), Some buf)
              }
            }
          }
        }
      | _ \<Rightarrow> Some (QCLOUD_ERR_INVAL, buf))"

section \<open>Deserializing\<close>

text \<open>Two bytes read as a \<^verbatim>\<open>uint16_t\<close> of the little-endian host and swapped.\<close>

definition read_swap16 :: "byte list \<Rightarrow> nat \<Rightarrow> u16 option" where
  "read_swap16 buf p = do {
     b0 \<leftarrow> rd buf p;
     b1 \<leftarrow> rd buf (p + 1);
     let A = (ucast b0 :: u16) OR push_bit 8 (ucast b1);
     Some (drop_bit 8 (A AND 0xFF00) OR push_bit 8 (A AND 0x00FF))
   }"

definition coap_msg_check :: "CoAPMessage \<Rightarrow> int" where
  "coap_msg_check msg =
     (if code_class msg = 0 \<and> code_detail msg = 0 then
        if msg_type msg = COAP_MSG_NON \<or> token_len msg \<noteq> 0 \<or> op_list msg \<noteq> [] \<or> pay_load_len msg \<noteq> 0
        then QCLOUD_ERR_COAP_DATA_SIZE else QCLOUD_RET_SUCCESS
      else if msg_type msg = COAP_MSG_RST then QCLOUD_ERR_COAP_DATA_SIZE else QCLOUD_RET_SUCCESS)"

definition coap_message_deserialize_header :: "CoAPMessage \<Rightarrow> byte list \<Rightarrow> nat \<Rightarrow> nat \<Rightarrow> (int \<times> CoAPMessage) option" where
  "coap_message_deserialize_header msg buf p len =
     (if len < 4 then Some (QCLOUD_ERR_COAP_DATA_SIZE, msg)
      else do {
        p0 \<leftarrow> rd buf p;
        let msg = msg\<lparr>version := drop_bit 6 (scast p0) AND 0x03\<rparr>;
        if version msg \<noteq> COAP_MSG_VER then Some (- EINVAL, msg)
        else do {
          let msg = msg\<lparr>msg_type := drop_bit 4 (scast p0) AND 0x03, token_len := scast p0 AND 0x0F\<rparr>;
          if unat (token_len msg) > COAP_MSG_MAX_TOKEN_LEN then Some (QCLOUD_ERR_COAP_DATA_SIZE, msg)
          else do {
            p1 \<leftarrow> rd buf (p + 1);
            let msg = msg\<lparr>code_detail := scast p1 AND 0x1F, code_class := drop_bit 5 (scast p1) AND 0x07\<rparr>;
            if code_class msg \<noteq> COAP_MSG_REQ \<and> code_class msg \<noteq> COAP_MSG_SUCCESS \<and>
               code_class msg \<noteq> COAP_MSG_CLIENT_ERR \<and> code_class msg \<noteq> COAP_MSG_SERVER_ERR
            then Some (QCLOUD_ERR_COAP_BADMSG, msg)
            else do {
              id \<leftarrow> read_swap16 buf (p + 2);
              Some (4, msg\<lparr>coap_msg_id := id\<rparr>)
            }
          }
        }
      })"

definition coap_message_deserialize_token :: "CoAPMessage \<Rightarrow> byte list \<Rightarrow> nat \<Rightarrow> nat \<Rightarrow> (int \<times> CoAPMessage) option" where
  "coap_message_deserialize_token msg buf p len =
     (if len < unat (token_len msg) then Some (QCLOUD_ERR_COAP_DATA_SIZE, msg)
      else do {
        bs \<leftarrow> rd_bytes buf p (unat (token_len msg));
        t \<leftarrow> wr_bytes (token msg) 0 bs;
        Some (uint (token_len msg), msg\<lparr>token := t\<rparr>)
      })"

text \<open>Two allocations, for the option and for its value; \<open>malloc\<close> says whether they succeed.\<close>

definition qcloud_iot_coap_option_init :: "('w \<Rightarrow> bool \<times> 'w) \<Rightarrow> u32 \<Rightarrow> u32 \<Rightarrow> byte list \<Rightarrow> nat \<Rightarrow> 'w \<Rightarrow> (CoAPMsgOption option \<times> 'w) option" where
  "qcloud_iot_coap_option_init malloc num len val p w =
     (let (ok, w) = malloc w in
      if \<not> ok then Some (None, w)
      else let (ok, w) = malloc w in
        if \<not> ok then Some (None, w)
        else do {
          bs \<leftarrow> rd_bytes val p (unat len);
          Some (Some \<lparr>option_num = ucast num, val_len = len, op_val = bs\<rparr>, w)
        })"

definition coap_msg_op_list_add_last ::
  "('w \<Rightarrow> bool \<times> 'w) \<Rightarrow> CoAPMsgOption list \<Rightarrow> u32 \<Rightarrow> u32 \<Rightarrow> byte list \<Rightarrow> nat \<Rightarrow> 'w \<Rightarrow> (int \<times> CoAPMsgOption list \<times> 'w) option" where
  "coap_msg_op_list_add_last malloc list num len val p w = do {
     (option, w) \<leftarrow> qcloud_iot_coap_option_init malloc num len val p w;
     case option of
       None \<Rightarrow> Some (QCLOUD_ERR_FAILURE, list, w)
     | Some option \<Rightarrow> Some (QCLOUD_RET_SUCCESS, list @ [option], w)
   }"

text \<open>
  An extended delta or length: \<open>Inl\<close> the error, or the value, the new position and the new length.  The byte of the short
  form is a \<^verbatim>\<open>char\<close>, which is signed.
\<close>

definition read_extended :: "u32 \<Rightarrow> byte list \<Rightarrow> nat \<Rightarrow> nat \<Rightarrow> (u32 \<times> nat \<times> nat) cres option" where
  "read_extended x buf p len =
     (if x = 13 then
        if len < 1 then Some (Inl QCLOUD_ERR_COAP_DATA_SIZE)
        else do {
          b \<leftarrow> rd buf p;
          Some (Inr (x + scast b, p + 1, len - 1))
        }
      else if x = 14 then
        if len < 2 then Some (Inl QCLOUD_ERR_COAP_DATA_SIZE)
        else do {
          v \<leftarrow> read_swap16 buf p;
          Some (Inr (269 + ucast v, p + 2, len - 2))
        }
      else Some (Inr (x, p, len)))"

text \<open>The end of \<^verbatim>\<open>_coap_message_deserialize_option\<close>: the value is at \<open>q\<close>, and \<open>len\<close> bytes are left.\<close>

definition deserialize_option_value ::
  "('w \<Rightarrow> bool \<times> 'w) \<Rightarrow> CoAPMessage \<Rightarrow> byte list \<Rightarrow> nat \<Rightarrow> u32 \<Rightarrow> u32 \<Rightarrow> nat \<Rightarrow> nat \<Rightarrow> 'w \<Rightarrow> (int \<times> CoAPMessage \<times> 'w) option" where
  "deserialize_option_value malloc msg buf p op_delta op_len q len w =
     (if len < unat op_len then Some (QCLOUD_ERR_COAP_DATA_SIZE, msg, w)
      else do {
        let op_num = (if op_list msg = [] then op_delta else ucast (option_num (last (op_list msg))) + op_delta);
        (ret, l, w) \<leftarrow> coap_msg_op_list_add_last malloc (op_list msg) op_num op_len buf q w;
        if ret < 0 then Some (ret, msg, w)
        else Some (int (q + unat op_len) - int p, msg\<lparr>op_list := l\<rparr>, w)
      })"

definition coap_message_deserialize_option ::
  "('w \<Rightarrow> bool \<times> 'w) \<Rightarrow> CoAPMessage \<Rightarrow> byte list \<Rightarrow> nat \<Rightarrow> nat \<Rightarrow> 'w \<Rightarrow> (int \<times> CoAPMessage \<times> 'w) option" where
  "coap_message_deserialize_option malloc msg buf p len w =
     (if len < 1 then Some (QCLOUD_ERR_COAP_DATA_SIZE, msg, w)
      else do {
        b \<leftarrow> rd buf p;
        let op_delta = drop_bit 4 (scast b) AND (0x0F :: u32);
        let op_len = scast b AND (0x0F :: u32);
        if op_delta = 15 \<or> op_len = 15 then Some (QCLOUD_ERR_COAP_DATA_SIZE, msg, w)
        else do {
          r \<leftarrow> read_extended op_delta buf (p + 1) (len - 1);
          case r of
            Inl rc \<Rightarrow> Some (rc, msg, w)
          | Inr (op_delta, q, len) \<Rightarrow> do {
              r \<leftarrow> read_extended op_len buf q len;
              case r of
                Inl rc \<Rightarrow> Some (rc, msg, w)
              | Inr (op_len, q, len) \<Rightarrow> deserialize_option_value malloc msg buf p op_delta op_len q len w
            }
        }
      })"

lemma read_extended_pos:
  "read_extended x buf p len = Some (Inr (y, q, k)) \<Longrightarrow> p \<le> q \<and> q + k = p + len"
  by (auto simp: read_extended_def bind_Some_iff split: if_split_asm)

lemma read_extended_error: "read_extended x buf p len = Some (Inl rc) \<Longrightarrow> rc < 0"
  by (auto simp: read_extended_def bind_Some_iff split: if_split_asm)

lemma op_list_add_last_cases:
  assumes "q + unat len \<le> length val"
  obtains (no_memory) w' where "coap_msg_op_list_add_last malloc l num len val q w = Some (QCLOUD_ERR_FAILURE, l, w')"
  | (added) w' where "coap_msg_op_list_add_last malloc l num len val q w =
      Some (QCLOUD_RET_SUCCESS, l @ [\<lparr>option_num = ucast num, val_len = len, op_val = take (unat len) (drop q val)\<rparr>], w')"
proof -
  have r: "rd_bytes val q (unat len) = Some (take (unat len) (drop q val))"
    using assms by (simp add: rd_bytes_def)
  obtain ok1 w1 where 1: "malloc w = (ok1, w1)" by fastforce
  obtain ok2 w2 where 2: "malloc w1 = (ok2, w2)" by fastforce
  show thesis
    using no_memory added
    by (cases ok1; cases ok2) (simp_all add: coap_msg_op_list_add_last_def qcloud_iot_coap_option_init_def 1 2 r)
qed

text \<open>An option is rejected, or its value lies inside what is left of the input.\<close>

lemma deserialize_option_cases:
  assumes "coap_message_deserialize_option malloc msg buf p len w = Some (num, msg', w')"
  obtains (rejected) "num < 0"
  | (parsed) b d l x q1 k1 y q2 k2 where "rd buf p = Some b" and "read_extended d buf (p + 1) (len - 1) = Some (Inr (x, q1, k1))"
      and "read_extended l buf q1 k1 = Some (Inr (y, q2, k2))" and "unat y \<le> k2" and "0 < len" and "num = int (q2 + unat y) - int p"
proof (cases "num < 0")
  case True
  then show thesis by (rule rejected)
next
  case False
  with assms have len: "0 < len"
    by (auto simp: coap_message_deserialize_option_def split: if_split_asm)
  with assms obtain b where b: "rd buf p = Some b"
    by (auto simp: coap_message_deserialize_option_def bind_Some_iff)
  define d l :: u32 where "d = drop_bit 4 (scast b) AND 0x0F" and "l = scast b AND 0x0F"
  note u = assms [unfolded coap_message_deserialize_option_def, simplified b bind.bind_lunit Let_def, folded d_def l_def]
  from u False len obtain r1 where r1: "read_extended d buf (p + 1) (len - 1) = Some r1"
    by (auto split: if_split_asm simp: bind_Some_iff)
  from u False len r1 read_extended_error [of d buf "p + 1" "len - 1"] obtain x q1 k1 where i1: "r1 = Inr (x, q1, k1)"
    by (cases r1) (auto split: if_split_asm)
  from u False len r1 i1 obtain r2 where r2: "read_extended l buf q1 k1 = Some r2"
    by (auto split: if_split_asm simp: bind_Some_iff)
  from u False len r1 i1 r2 read_extended_error [of l buf q1 k1] obtain y q2 k2 where i2: "r2 = Inr (y, q2, k2)"
    by (cases r2) (auto split: if_split_asm)
  from u False len r1 i1 r2 i2 have "unat y \<le> k2" "num = int (q2 + unat y) - int p"
    by (auto split: if_split_asm simp: bind_Some_iff deserialize_option_value_def Let_def)
  with b len r1 r2 i1 i2 show thesis
    by (intro parsed) simp_all
qed

lemma deserialize_option_progress:
  assumes "coap_message_deserialize_option malloc msg buf p len w = Some (num, msg', w')" and "\<not> num < 0"
  shows "0 < num \<and> nat num \<le> len"
  using assms(1)
proof (cases rule: deserialize_option_cases)
  case rejected
  with assms(2) show ?thesis by simp
next
  case (parsed b d l x q1 k1 y q2 k2)
  have "p < q2 + unat y" "q2 + unat y \<le> p + len"
    using read_extended_pos [OF parsed(2)] read_extended_pos [OF parsed(3)] parsed(4,5) by linarith+
  then show ?thesis
    unfolding parsed(6) by linarith
qed

function deserialize_options_loop ::
  "('w \<Rightarrow> bool \<times> 'w) \<Rightarrow> CoAPMessage \<Rightarrow> byte list \<Rightarrow> nat \<Rightarrow> nat \<Rightarrow> 'w \<Rightarrow> ((int + nat) \<times> CoAPMessage \<times> 'w) option" where
  "deserialize_options_loop malloc msg buf p len w = do {
     b \<leftarrow> rd buf p;
     if b = 0xFF \<or> len = 0 then Some (Inr p, msg, w)
     else do {
       (num, msg, w) \<leftarrow> coap_message_deserialize_option malloc msg buf p len w;
       if num < 0 then Some (Inl num, msg, w)
       else deserialize_options_loop malloc msg buf (p + nat num) (len - nat num) w
     }
   }"
  by pat_completeness auto
termination
  by (relation "measure (\<lambda>(malloc, msg, buf, p, len, w). len)") (auto dest!: deserialize_option_progress)

declare deserialize_options_loop.simps [simp del]

definition coap_message_deserialize_options ::
  "('w \<Rightarrow> bool \<times> 'w) \<Rightarrow> CoAPMessage \<Rightarrow> byte list \<Rightarrow> nat \<Rightarrow> nat \<Rightarrow> 'w \<Rightarrow> (int \<times> CoAPMessage \<times> 'w) option" where
  "coap_message_deserialize_options malloc msg buf p len w = do {
     (r, msg, w) \<leftarrow> deserialize_options_loop malloc msg buf p len w;
     case r of Inl num \<Rightarrow> Some (num, msg, w) | Inr q \<Rightarrow> Some (int q - int p, msg, w)
   }"

definition coap_message_deserialize_payload ::
  "('w \<Rightarrow> bool \<times> 'w) \<Rightarrow> CoAPMessage \<Rightarrow> byte list \<Rightarrow> nat \<Rightarrow> nat \<Rightarrow> 'w \<Rightarrow> (int \<times> CoAPMessage \<times> 'w) option" where
  "coap_message_deserialize_payload malloc msg buf p len w =
     (if len = 0 then Some (QCLOUD_RET_SUCCESS, msg, w)
      else do {
        b \<leftarrow> rd buf p;
        if b \<noteq> 0xFF then Some (QCLOUD_ERR_COAP_DATA_SIZE, msg, w)
        else if len - 1 = 0 then Some (QCLOUD_ERR_COAP_DATA_SIZE, msg, w)
        else
          let (ok, w) = malloc w in
          if \<not> ok then Some (- ENOMEM, msg\<lparr>pay_load := None\<rparr>, w)
          else do {
            bs \<leftarrow> rd_bytes buf (p + 1) (len - 1);
            Some (int len, msg\<lparr>pay_load := Some bs, pay_load_len := len - 1\<rparr>, w)
          }
      })"

definition deserialize_coap_message ::
  "('w \<Rightarrow> bool \<times> 'w) \<Rightarrow> CoAPMessage \<Rightarrow> byte list \<Rightarrow> nat \<Rightarrow> 'w \<Rightarrow> (int \<times> CoAPMessage \<times> 'w) option" where
  "deserialize_coap_message malloc message buf len w = do {
     (num, message) \<leftarrow> coap_message_deserialize_header message buf 0 len;
     if num < 0 then Some (QCLOUD_ERR_COAP_INTERNAL, coap_message_destroy message, w)
     else do {
       let p = nat num;
       let len = len - nat num;
       (num, message) \<leftarrow> coap_message_deserialize_token message buf p len;
       if num < 0 then Some (QCLOUD_ERR_COAP_INTERNAL, coap_message_destroy message, w)
       else do {
         let p = p + nat num;
         let len = len - nat num;
         (num, message, w) \<leftarrow> coap_message_deserialize_options malloc message buf p len w;
         if num < 0 then Some (QCLOUD_ERR_COAP_INTERNAL, coap_message_destroy message, w)
         else do {
           let p = p + nat num;
           let len = len - nat num;
           (num, message, w) \<leftarrow> coap_message_deserialize_payload malloc message buf p len w;
           if num < 0 then Some (QCLOUD_ERR_COAP_INTERNAL, coap_message_destroy message, w)
           else Some (coap_msg_check message, message, w)
         }
       }
     }
   }"

section \<open>Building messages\<close>

definition coap_message_type_set :: "CoAPMessage \<Rightarrow> u32 \<Rightarrow> int \<times> CoAPMessage" where
  "coap_message_type_set message type =
     (if type \<noteq> COAP_MSG_CON \<and> type \<noteq> COAP_MSG_NON \<and> type \<noteq> COAP_MSG_ACK \<and> type \<noteq> COAP_MSG_RST then (QCLOUD_ERR_INVAL, message)
      else (QCLOUD_RET_SUCCESS, message\<lparr>msg_type := type\<rparr>))"

definition coap_message_code_set :: "CoAPMessage \<Rightarrow> u32 \<Rightarrow> u32 \<Rightarrow> int \<times> CoAPMessage" where
  "coap_message_code_set message class detail =
     (if class > COAP_MSG_MAX_CODE_CLASS then (QCLOUD_ERR_INVAL, message)
      else if detail > COAP_MSG_MAX_CODE_DETAIL then (QCLOUD_ERR_INVAL, message)
      else (QCLOUD_RET_SUCCESS, message\<lparr>code_class := class, code_detail := detail\<rparr>))"

definition coap_message_id_set :: "CoAPMessage \<Rightarrow> u32 \<Rightarrow> int \<times> CoAPMessage" where
  "coap_message_id_set message n =
     (if unat n > COAP_MSG_MAX_MSG_ID then (QCLOUD_ERR_INVAL, message)
      else (QCLOUD_RET_SUCCESS, message\<lparr>coap_msg_id := ucast n\<rparr>))"

definition coap_message_token_set :: "CoAPMessage \<Rightarrow> byte list \<Rightarrow> nat \<Rightarrow> (int \<times> CoAPMessage) option" where
  "coap_message_token_set message buf len =
     (if len > COAP_MSG_MAX_TOKEN_LEN then Some (QCLOUD_ERR_INVAL, message)
      else do {
        bs \<leftarrow> rd_bytes buf 0 len;
        t \<leftarrow> wr_bytes (token message) 0 bs;
        Some (QCLOUD_RET_SUCCESS, message\<lparr>token := t, token_len := of_nat len\<rparr>)
      })"

definition coap_message_payload_set :: "CoAPMessage \<Rightarrow> byte list \<Rightarrow> nat \<Rightarrow> (int \<times> CoAPMessage) option" where
  "coap_message_payload_set message buf len =
     (let message = message\<lparr>pay_load_len := 0\<rparr> in
      if len > 0 then
        case pay_load message of
          None \<Rightarrow> Some (QCLOUD_ERR_FAILURE, message)
        | Some pl \<Rightarrow> do {
            bs \<leftarrow> rd_bytes buf 0 len;
            pl \<leftarrow> wr_bytes pl 0 bs;
            Some (QCLOUD_RET_SUCCESS, message\<lparr>pay_load := Some pl, pay_load_len := len\<rparr>)
          }
      else Some (QCLOUD_RET_SUCCESS, message))"

text \<open>The search for the place of a new option, from the node \<open>prev\<close> at the head of the list on; the last node takes it at the end.\<close>

fun option_insert_after :: "CoAPMsgOption \<Rightarrow> CoAPMsgOption list \<Rightarrow> CoAPMsgOption list" where
  "option_insert_after option [] = [option]"
| "option_insert_after option [prev] = [prev, option]"
| "option_insert_after option (prev # nxt # l) =
     (if option_num prev \<le> option_num option \<and> option_num option < option_num nxt then prev # option # nxt # l
      else prev # option_insert_after option (nxt # l))"

definition coap_message_option_add ::
  "('w \<Rightarrow> bool \<times> 'w) \<Rightarrow> CoAPMessage \<Rightarrow> u32 \<Rightarrow> u32 \<Rightarrow> byte list \<Rightarrow> 'w \<Rightarrow> (int \<times> CoAPMessage \<times> 'w) option" where
  "coap_message_option_add malloc message num len val w = do {
     (option, w) \<leftarrow> qcloud_iot_coap_option_init malloc num len val 0 w;
     case option of
       None \<Rightarrow> Some (QCLOUD_ERR_FAILURE, message, w)
     | Some option \<Rightarrow>
         case op_list message of
           [] \<Rightarrow> Some (QCLOUD_RET_SUCCESS, message\<lparr>op_list := [option]\<rparr>, w)
         | first # l \<Rightarrow>
             if option_num option < option_num first
             then Some (QCLOUD_RET_SUCCESS, message\<lparr>op_list := option # first # l\<rparr>, w)
             else Some (QCLOUD_RET_SUCCESS, message\<lparr>op_list := option_insert_after option (first # l)\<rparr>, w)
   }"

definition coap_message_callback_set :: "CoAPMessage \<Rightarrow> OnRespCallback option \<Rightarrow> int \<times> CoAPMessage" where
  "coap_message_callback_set message callback = (QCLOUD_RET_SUCCESS, message\<lparr>resp_handler := callback\<rparr>)"

definition coap_message_context_set :: "CoAPMessage \<Rightarrow> nat option \<Rightarrow> int \<times> CoAPMessage" where
  "coap_message_context_set message userContext = (QCLOUD_RET_SUCCESS, message\<lparr>user_context := userContext\<rparr>)"


section \<open>What is written\<close>

definition op_delta_of :: "u32 \<Rightarrow> CoAPMsgOption \<Rightarrow> u32" where
  "op_delta_of prev_num op = ucast (ucast (ucast (option_num op) - prev_num) :: u16)"

definition option_bytes :: "u32 \<Rightarrow> CoAPMsgOption \<Rightarrow> byte list" where
  "option_bytes prev_num op =
     (push_bit 4 (op_nibble (op_delta_of prev_num op)) OR op_nibble (val_len op)) #
       op_extension (op_delta_of prev_num op) @ op_extension (val_len op) @ op_val op"

fun options_bytes :: "u32 \<Rightarrow> CoAPMsgOption list \<Rightarrow> byte list" where
  "options_bytes prev_num [] = []"
| "options_bytes prev_num (op # ops) = option_bytes prev_num op @ options_bytes (ucast (option_num op)) ops"

definition payload_bytes :: "CoAPMessage \<Rightarrow> byte list" where
  "payload_bytes m = (case pay_load m of None \<Rightarrow> [] | Some pl \<Rightarrow> if pay_load_len m = 0 then [] else 0xFF # take (pay_load_len m) pl)"

definition header_bytes :: "CoAPMessage \<Rightarrow> byte list" where
  "header_bytes m =
     [ucast (push_bit 6 COAP_MSG_VER OR push_bit 4 (msg_type m AND 0x03) OR (token_len m AND 0x0F)),
      ucast (push_bit 5 (code_class m AND 0x07) OR (code_detail m AND 0x1F)),
      ucast (drop_bit 8 (coap_msg_id m AND 0xFF00)), ucast (coap_msg_id m AND 0x00FF)]"

definition message_bytes :: "CoAPMessage \<Rightarrow> byte list" where
  "message_bytes m = header_bytes m @ take (unat (token_len m)) (token m) @ options_bytes 0 (op_list m) @ payload_bytes m"

text \<open>A message as the client builds it.\<close>

definition option_ok :: "CoAPMsgOption \<Rightarrow> bool" where
  "option_ok op \<longleftrightarrow> val_len op = of_nat (length (op_val op)) \<and> length (op_val op) < 65536 + 269"

definition message_ok :: "CoAPMessage \<Rightarrow> bool" where
  "message_ok m \<longleftrightarrow> msg_type m < 4 \<and> code_class m < 8 \<and> code_detail m < 32 \<and> unat (token_len m) \<le> 8 \<and> length (token m) = 8 \<and>
     list_all option_ok (op_list m) \<and> sorted (map option_num (op_list m)) \<and>
     (case pay_load m of None \<Rightarrow> pay_load_len m = 0 | Some pl \<Rightarrow> pay_load_len m \<le> length pl) \<and> pay_load_len m < 2 ^ 32"

lemma wr_put_last: "p = length xs \<Longrightarrow> p < length buf \<Longrightarrow> wr (put buf (xs @ [a])) p b = Some (put buf (xs @ [b]))"
  by (simp add: put_def wr_def)

lemma rd_put_last: "p = length xs \<Longrightarrow> rd (put buf (xs @ [a])) p = Some a"
  by (simp add: put_def rd_def)

lemma length_op_extension: "length (op_extension x) \<le> 2"
  by (simp add: op_extension_def)

lemma unat_val_len: "option_ok op \<Longrightarrow> unat (val_len op) = length (op_val op)"
  by (simp add: option_ok_def unat_of_nat take_bit_nat_eq_self)

lemma length_option_bytes:
  "length (option_bytes prev op) = 1 + length (op_extension (op_delta_of prev op)) + length (op_extension (val_len op)) + length (op_val op)"
  by (simp add: option_bytes_def)

text \<open>The size check overestimates by at most one byte when it does not underestimate.\<close>

definition checked_size :: "u32 \<Rightarrow> CoAPMsgOption \<Rightarrow> u32" where
  "checked_size prev_num op =
     (let num = (1 :: u32);
          num = (if op_delta_of prev_num op \<ge> 269 then num + 2 else if op_delta_of prev_num op \<ge> 13 then num + 1 else num);
          num = (if val_len op \<ge> 269 then num + 2 else if option_num op \<ge> 13 then num + 1 else num)
      in num + val_len op)"

lemma checked_size_le: "option_ok op \<Longrightarrow> unat (checked_size prev op) \<le> length (option_bytes prev op) + 1"
proof -
  assume ok: "option_ok op"
  define k :: nat where "k = length (op_extension (op_delta_of prev op)) + (if val_len op \<ge> 269 then 2 else if option_num op \<ge> 13 then 1 else 0)"
  have "checked_size prev op = of_nat (1 + k) + val_len op"
    by (simp add: checked_size_def Let_def k_def op_extension_def)
  also have "\<dots> = of_nat (1 + k + length (op_val op))"
    using ok by (simp add: option_ok_def)
  finally have "unat (checked_size prev op) = 1 + k + length (op_val op)"
    using ok length_op_extension [of "op_delta_of prev op"]
    by (simp add: unat_of_nat take_bit_nat_eq_self option_ok_def k_def del: of_nat_add of_nat_Suc)
  moreover have "k \<le> length (op_extension (op_delta_of prev op)) + length (op_extension (val_len op)) + 1"
    by (simp add: k_def op_extension_def)
  ultimately show ?thesis
    by (simp add: length_option_bytes)
qed

lemma format_op_put:
  assumes "option_ok op" and "p = length xs" and "length (option_bytes prev op) < unat len" and "p + unat len \<le> length buf"
  shows "coap_msg_format_op op prev (put buf xs) p len = Some (int (length (option_bytes prev op)), put buf (xs @ option_bytes prev op))"
proof -
  have s: "\<not> (ucast (checked_size prev op) :: size_t) > len"
  proof -
    have "unat (checked_size prev op) < 2 ^ 64"
      by (rule less_trans [OF unat_u32_less]) simp
    then have "unat (ucast (checked_size prev op) :: size_t) = unat (checked_size prev op)"
      by (simp add: unsigned_ucast_eq take_bit_nat_eq_self)
    then show ?thesis
      using checked_size_le [OF assms(1), of prev] assms(3) by (simp add: word_less_nat_alt)
  qed
  have v: "rd_bytes (op_val op) 0 (unat (val_len op)) = Some (op_val op)"
    by (simp add: unat_val_len [OF assms(1)] rd_bytes_def)
  let ?d = "op_delta_of prev op"
  have room: "p + length (option_bytes prev op) < length buf"
    using assms(3,4) by linarith
  have f: "coap_msg_format_op op prev (put buf xs) p len = do {
           b1 \<leftarrow> wr (put buf xs) p (push_bit 4 (op_nibble ?d));
           b \<leftarrow> rd b1 p;
           b2 \<leftarrow> wr b1 p (b OR op_nibble (val_len op));
           b3 \<leftarrow> wr_bytes b2 (p + 1) (op_extension ?d);
           b4 \<leftarrow> wr_bytes b3 (p + 1 + length (op_extension ?d)) (op_extension (val_len op));
           v \<leftarrow> rd_bytes (op_val op) 0 (unat (val_len op));
           b5 \<leftarrow> wr_bytes b4 (p + 1 + length (op_extension ?d) + length (op_extension (val_len op))) v;
           Some (1 + int (length (op_extension ?d)) + int (length (op_extension (val_len op))) + uint (val_len op), b5) }"
    using s unfolding coap_msg_format_op_def checked_size_def op_delta_of_def [symmetric] Let_def by simp
  show ?thesis
    unfolding f v using assms(2) room
    by (simp add: length_option_bytes wr_put rd_put_last wr_put_last wr_bytes_put option_bytes_def unat_val_len [OF assms(1), symmetric])
qed


lemma unat_size_diff: "n \<le> unat len \<Longrightarrow> unat (len - of_nat n) = unat len - n"
  for len :: size_t
proof -
  assume n: "n \<le> unat len"
  then have "n < 2 ^ 64"
    using unsigned_less [of len, where 'a = nat] by simp
  then have u: "unat (of_nat n :: size_t) = n"
    by (simp add: unat_of_nat take_bit_nat_eq_self)
  with n show ?thesis
    by (simp add: unat_sub word_le_nat_alt)
qed

lemma serialize_options_put:
  "list_all option_ok ops \<Longrightarrow> p = length xs \<Longrightarrow> length (options_bytes prev ops) < unat len \<Longrightarrow> p + unat len \<le> length buf \<Longrightarrow>
     serialize_options_loop ops prev (put buf xs) p len =
       Some (Inr (p + length (options_bytes prev ops)), put buf (xs @ options_bytes prev ops))"
proof (induction ops arbitrary: prev xs p len)
  case Nil
  then show ?case by simp
next
  case (Cons op ops)
  let ?b = "option_bytes prev op"
  have f: "coap_msg_format_op op prev (put buf xs) p len = Some (int (length ?b), put buf (xs @ ?b))"
    using Cons.prems by (intro format_op_put) simp_all
  have l: "unat (len - of_nat (length ?b)) = unat len - length ?b"
    using Cons.prems(3) by (intro unat_size_diff) simp
  show ?case
    using Cons.IH [of "p + length ?b" "xs @ ?b" "ucast (option_num op)" "len - of_nat (length ?b)"] Cons.prems l f
    by simp
qed


lemma serialize_header_put:
  "4 \<le> unat len \<Longrightarrow> unat len \<le> length buf \<Longrightarrow>
     coap_message_serialize_header m (put buf []) 0 len = Some (4, put buf (header_bytes m))"
proof -
  assume a: "4 \<le> unat len" "unat len \<le> length buf"
  then have "\<not> len < 4" "4 \<le> length buf"
    by (simp_all add: word_less_nat_alt)
  moreover have "wr (put buf xs) n v = Some (put buf (xs @ [v]))" if "n = length xs" "n < 4" for n xs v
    using that a by (intro wr_put) simp_all
  from this [of 0 "[]"] this [of 1 "[x]" for x] this [of 2 "[x, y]" for x y] this [of 3 "[x, y, z]" for x y z]
  show ?thesis
    using \<open>\<not> len < 4\<close> by (simp add: coap_message_serialize_header_def header_bytes_def numeral_2_eq_2 numeral_3_eq_3)
qed

lemma serialize_token_put:
  assumes "message_ok m" and "p = length xs" and "unat (token_len m) \<le> unat len" and "p + unat len \<le> length buf"
  shows "coap_message_serialize_token m (put buf xs) p len =
    Some (int (unat (token_len m)), put buf (xs @ take (unat (token_len m)) (token m)))"
proof -
  have l: "unat (token_len m) \<le> 8" "length (token m) = 8"
    using assms(1) by (simp_all add: message_ok_def)
  have "unat (ucast (token_len m) :: size_t) = unat (token_len m)"
    using l(1) by (simp add: unsigned_ucast_eq take_bit_nat_eq_self)
  then have "\<not> len < ucast (token_len m)"
    using assms(3) by (simp add: word_less_nat_alt)
  moreover have "wr_bytes (put buf xs) p (take (unat (token_len m)) (token m)) = Some (put buf (xs @ take (unat (token_len m)) (token m)))"
    using assms(2-4) l by (intro wr_bytes_put) simp_all
  ultimately show ?thesis
    using l by (simp add: coap_message_serialize_token_def rd_bytes_def)
qed

lemma serialize_payload_put:
  assumes "message_ok m" and "p = length xs" and "length (payload_bytes m) \<le> unat len" and "p + unat len \<le> length buf"
  shows "coap_message_serialize_payload m (put buf xs) p len = Some (int (length (payload_bytes m)), put buf (xs @ payload_bytes m))"
proof (cases "pay_load_len m = 0")
  case True
  then show ?thesis
    by (simp add: coap_message_serialize_payload_def payload_bytes_def split: option.splits)
next
  case False
  then obtain pl where pl: "pay_load m = Some pl" "pay_load_len m \<le> length pl" "pay_load_len m < 2 ^ 32"
    using assms(1) by (auto simp: message_ok_def split: option.splits)
  have b: "payload_bytes m = 0xFF # take (pay_load_len m) pl" "length (payload_bytes m) = pay_load_len m + 1"
    using pl False by (simp_all add: payload_bytes_def)
  have "unat (of_nat (pay_load_len m) + 1 :: size_t) = pay_load_len m + 1"
    using pl(3) by (simp add: unat_word_ariths unat_of_nat take_bit_nat_eq_self)
  then have "\<not> (of_nat (pay_load_len m) + 1 :: size_t) > len"
    using assms(3) b(2) by (simp add: word_less_nat_alt)
  moreover have "wr (put buf xs) p 0xFF = Some (put buf (xs @ [0xFF]))"
    using assms b(2) by (intro wr_put) simp_all
  moreover have "wr_bytes (put buf (xs @ [0xFF])) (p + 1) (take (pay_load_len m) pl) = Some (put buf ((xs @ [0xFF]) @ take (pay_load_len m) pl))"
    using assms b(2) pl(2) by (intro wr_bytes_put) simp_all
  ultimately show ?thesis
    using False pl by (simp add: coap_message_serialize_payload_def rd_bytes_def b(1))
qed

lemma serialize_message_put:
  assumes "message_ok m" and "length (message_bytes m) < unat len" and "unat len \<le> length buf"
  shows "serialize_coap_message (Some m) (Some buf) len = Some (int (length (message_bytes m)), Some (put buf (message_bytes m)))"
proof -
  let ?h = "header_bytes m" and ?t = "take (unat (token_len m)) (token m)" and ?o = "options_bytes 0 (op_list m)" and ?p = "payload_bytes m"
  have l: "length ?h = 4" "length ?t = unat (token_len m)"
    using assms(1) by (simp_all add: header_bytes_def message_ok_def)
  have n: "4 + unat (token_len m) + length ?o + length ?p < unat len"
    using assms(2) l by (simp add: message_bytes_def)
  have h: "coap_message_serialize_header m buf 0 len = Some (4, put buf ?h)"
    using serialize_header_put [of len buf m] n assms(3) by (simp add: put_Nil)
  define len1 where "len1 = len - 4"
  have l1: "unat len1 = unat len - 4"
    using unat_size_diff [of 4 len] n by (simp add: len1_def)
  have t: "coap_message_serialize_token m (put buf ?h) 4 len1 = Some (int (unat (token_len m)), put buf (?h @ ?t))"
    using serialize_token_put [OF assms(1), of 4 ?h len1 buf] l l1 n assms(3) by simp
  define len2 where "len2 = len1 - of_nat (unat (token_len m))"
  have l2: "unat len2 = unat len1 - unat (token_len m)"
    using unat_size_diff [of "unat (token_len m)" len1] n l1 unfolding len2_def by linarith
  have o: "coap_message_serialize_options m (put buf (?h @ ?t)) (4 + unat (token_len m)) len2 = Some (int (length ?o), put buf ((?h @ ?t) @ ?o))"
    using serialize_options_put [of "op_list m" "4 + unat (token_len m)" "?h @ ?t" 0 len2 buf] l l1 l2 n assms(1,3)
    by (simp add: coap_message_serialize_options_def message_ok_def)
  define len3 where "len3 = len2 - of_nat (length ?o)"
  have l3: "unat len3 = unat len2 - length ?o"
    using unat_size_diff [of "length ?o" len2] n l1 l2 unfolding len3_def by linarith
  have p: "coap_message_serialize_payload m (put buf ((?h @ ?t) @ ?o)) (4 + unat (token_len m) + length ?o) len3 =
      Some (int (length ?p), put buf (((?h @ ?t) @ ?o) @ ?p))"
    using serialize_payload_put [OF assms(1), of "4 + unat (token_len m) + length ?o" "(?h @ ?t) @ ?o" len3 buf] l l1 l2 l3 n assms(3) by simp
  show ?thesis
    using h t o p l unfolding serialize_coap_message_def message_bytes_def len3_def len2_def len1_def by simp
qed

end
