(* ===== verification/Coap_Messages.thy ===== *)
theory Coap_Messages
  imports Coap_Codec "HOL-Library.Multiset"
begin

text \<open>
  Properties of the CoAP codec: decoding what was encoded, safety of the decoder on any input, where the codec fails, and the
  well-formedness of the messages that the client builds.
\<close>

section \<open>Nibbles and extensions\<close>

lemma nibble_bits: "a < 16 \<Longrightarrow> 4 \<le> k \<Longrightarrow> \<not> bit (a :: byte) k"
proof -
  assume "a < 16" "4 \<le> k"
  then have "a = take_bit 4 a"
    by (simp add: take_bit_eq_mod mod_word_less)
  then have "bit a k \<longleftrightarrow> bit (take_bit 4 a) k" by simp
  with \<open>4 \<le> k\<close> show ?thesis by (simp add: bit_take_bit_iff)
qed

lemma nibbles_split:
  assumes "a < 16" and "c < (16 :: byte)"
  shows "drop_bit 4 (scast (push_bit 4 a OR c)) AND (0x0F :: u32) = ucast a"
    and "scast (push_bit 4 a OR c) AND (0x0F :: u32) = ucast c"
proof -
  have m: "(0x0F :: u32) = mask 4"
    by (simp add: mask_eq_exp_minus_1)
  have low: "bit (scast b :: u32) k \<longleftrightarrow> bit b k" if "k < 8" for k and b :: byte
  proof -
    have "min 7 k = k" using that by simp
    then show ?thesis using that by (simp add: bit_signed_iff)
  qed
  have n: "\<not> bit a k" "\<not> bit c k" if "4 \<le> k" for k
    using nibble_bits [OF assms(1) that] nibble_bits [OF assms(2) that] by simp_all
  show "drop_bit 4 (scast (push_bit 4 a OR c)) AND (0x0F :: u32) = ucast a"
    unfolding m
  proof (rule bit_word_eqI)
    fix k assume "k < LENGTH(32)"
    then show "bit (drop_bit 4 (scast (push_bit 4 a OR c)) AND mask 4 :: u32) k = bit (ucast a :: u32) k"
      using n by (cases "k < 4") (simp_all add: low bit_and_iff bit_mask_iff bit_drop_bit_eq bit_or_iff bit_push_bit_iff bit_ucast_iff)
  qed
  show "scast (push_bit 4 a OR c) AND (0x0F :: u32) = ucast c"
    unfolding m
  proof (rule bit_word_eqI)
    fix k assume "k < LENGTH(32)"
    then show "bit (scast (push_bit 4 a OR c) AND mask 4 :: u32) k = bit (ucast c :: u32) k"
      using n by (cases "k < 4") (simp_all add: low bit_and_iff bit_mask_iff bit_or_iff bit_push_bit_iff bit_ucast_iff)
  qed
qed

lemma op_nibble_less: "op_nibble x < 15"
proof -
  have "ucast x < (15 :: byte)" if "x < 13"
  proof -
    have "unat x < 13" using that by (simp add: word_less_nat_alt)
    then show ?thesis by (simp add: word_less_nat_alt unsigned_ucast_eq take_bit_nat_eq_self)
  qed
  then show ?thesis
    by (auto simp: op_nibble_def not_le)
qed

lemma ucast_op_nibble: "ucast (op_nibble x) = (if x \<ge> 269 then 14 else if x \<ge> 13 then 13 else x)"
proof -
  have "ucast (ucast x :: byte) = x" if "x < 13"
  proof -
    have "unat x < 13" using that by (simp add: word_less_nat_alt)
    then show ?thesis
      by (intro word_unat_eq_iff [THEN iffD2]) (simp add: unsigned_ucast_eq unsigned_take_bit_eq take_bit_nat_eq_self)
  qed
  moreover have "x < 13 \<Longrightarrow> \<not> 269 \<le> x" "269 \<le> x \<Longrightarrow> 13 \<le> x"
    by (simp_all add: word_le_nat_alt word_less_nat_alt)
  ultimately show ?thesis
    by (auto simp: op_nibble_def not_le)
qed

text \<open>Two bytes in network order.\<close>

lemma high_byte: "16 \<le> LENGTH('a) \<Longrightarrow> bit (ucast (drop_bit 8 (y AND 0xFF00)) :: byte) k \<longleftrightarrow> k < 8 \<and> bit (y :: 'a :: len word) (8 + k)"
proof -
  assume l: "16 \<le> LENGTH('a)"
  have m: "(0xFF00 :: 'a word) = push_bit 8 (mask 8)"
    by (simp add: mask_eq_exp_minus_1 push_bit_eq_mult)
  show ?thesis
    unfolding m using l by (auto simp: bit_simps dest: bit_imp_le_length)
qed

lemma low_byte: "16 \<le> LENGTH('a) \<Longrightarrow> bit (ucast (y AND 0x00FF) :: byte) k \<longleftrightarrow> k < 8 \<and> bit (y :: 'a :: len word) k"
proof -
  assume l: "16 \<le> LENGTH('a)"
  have m: "(0x00FF :: 'a word) = mask 8"
    by (simp add: mask_eq_exp_minus_1)
  show ?thesis
    unfolding m using l by (auto simp: bit_simps dest: bit_imp_le_length)
qed

lemma swap_bits:
  fixes b0 b1 :: byte
  shows "bit (drop_bit 8 ((ucast b0 OR push_bit 8 (ucast b1) :: u16) AND 0xFF00) OR push_bit 8 ((ucast b0 OR push_bit 8 (ucast b1) :: u16) AND 0x00FF)) k \<longleftrightarrow>
    k < 16 \<and> (if k < 8 then bit b1 k else bit b0 (k - 8))"
proof -
  define A :: u16 where "A = ucast b0 OR push_bit 8 (ucast b1)"
  have m: "(0xFF00 :: u16) = push_bit 8 (mask 8)" "(0x00FF :: u16) = mask 8"
    by (simp_all add: mask_eq_exp_minus_1)
  have A: "bit A k \<longleftrightarrow> k < 16 \<and> (if k < 8 then bit b0 k else bit b1 (k - 8))" for k
    using bit_imp_le_length [of b0 k] unfolding A_def
    by (cases "k < 8") (auto simp: bit_or_iff bit_push_bit_iff bit_ucast_iff)
  show ?thesis
    unfolding A_def [symmetric] m
    by (cases "k < 8"; cases "k < 16") (auto simp: A bit_or_iff bit_and_iff bit_drop_bit_eq bit_push_bit_iff bit_mask_iff)
qed

lemma swap16_bytes:
  fixes y :: "'a :: len word"
  assumes "rd buf p = Some (ucast (drop_bit 8 (y AND 0xFF00)))" and "rd buf (p + 1) = Some (ucast (y AND 0x00FF))" and "16 \<le> LENGTH('a)"
  shows "read_swap16 buf p = Some (ucast y)"
proof -
  define b0 b1 :: byte where "b0 = ucast (drop_bit 8 (y AND 0xFF00))" and "b1 = ucast (y AND 0x00FF)"
  have b: "bit b0 k \<longleftrightarrow> k < 8 \<and> bit y (8 + k)" "bit b1 k \<longleftrightarrow> k < 8 \<and> bit y k" for k
    using high_byte [OF assms(3), of y k] low_byte [OF assms(3), of y k] by (simp_all only: b0_def b1_def)
  have r: "rd buf p = Some b0" "rd buf (p + 1) = Some b1"
    using assms(1,2) by (simp_all only: b0_def b1_def)
  define v :: u16 where "v = drop_bit 8 ((ucast b0 OR push_bit 8 (ucast b1)) AND 0xFF00) OR push_bit 8 ((ucast b0 OR push_bit 8 (ucast b1)) AND 0x00FF)"
  have "bit v k \<longleftrightarrow> bit (ucast y :: u16) k" for k
    unfolding v_def swap_bits using assms(3) by (auto simp: b bit_ucast_iff)
  then have "v = ucast y"
    by (intro bit_word_eqI)
  moreover have "read_swap16 buf p = Some v"
    unfolding read_swap16_def r v_def Let_def by (simp only: Option.bind.simps)
  ultimately show ?thesis by simp
qed

text \<open>Values whose one-byte extension has its top bit clear: the decoder reads that byte as a signed number.\<close>

definition signed_safe :: "u32 \<Rightarrow> bool" where
  "signed_safe x \<longleftrightarrow> (x < 141 \<or> 269 \<le> x) \<and> unat x < 65536 + 269"

lemma scast_small: "b < 128 \<Longrightarrow> (scast (b :: byte) :: u32) = ucast b"
proof -
  assume "b < 128"
  then have "take_bit 7 b = b"
    by (simp add: take_bit_eq_mod mod_word_less)
  then have "\<not> bit b 7"
    using bit_take_bit_iff [of 7 b 7] by simp
  moreover have l: "bit b n \<Longrightarrow> n < 8" for n
    using bit_imp_le_length [of b n] by simp
  ultimately have "n \<noteq> 7 \<and> n < 8" if "bit b n" for n
    using that by metis
  then have "n < 7" if "bit b n" for n
    using that by force
  then have "7 \<le> n \<Longrightarrow> \<not> bit b n" for n
    by (meson not_less)
  then show ?thesis
    by (intro bit_word_eqI) (auto simp: bit_simps min_def)
qed

lemma read_extended_ok:
  assumes "signed_safe x" and "drop p buf = op_extension x @ t" and "length (op_extension x) \<le> len"
  shows "read_extended (ucast (op_nibble x)) buf p len = Some (Inr (x, p + length (op_extension x), len - length (op_extension x)))"
proof -
  consider "269 \<le> x" | "13 \<le> x" "x < 141" | "x < 13"
    using assms(1) not_le by (auto simp: signed_safe_def)
  then show ?thesis
  proof cases
    case 1
    define h l :: byte where "h = ucast (drop_bit 8 ((x - 269) AND 0xFF00))" and "l = ucast ((x - 269) AND 0x00FF)"
    have "op_extension x = [h, l]"
      using 1 unfolding op_extension_def h_def l_def by simp
    then have d: "drop p buf = h # l # t"
      using assms(2) by simp
    moreover have "drop (p + 1) buf = drop 1 (drop p buf)"
      by (simp add: add.commute)
    ultimately have r: "rd buf p = Some h" "rd buf (p + 1) = Some l"
      using rd_drop [of p buf h "l # t"] rd_drop [of "p + 1" buf l t] by simp_all
    have "unat (x - 269) < 65536"
      using assms(1) 1 by (simp add: signed_safe_def unat_sub word_le_nat_alt)
    then have "(ucast (ucast (x - 269) :: u16) :: u32) = x - 269"
      by (intro word_unat_eq_iff [THEN iffD2]) (simp add: unsigned_ucast_eq unsigned_take_bit_eq take_bit_nat_eq_self)
    then show ?thesis
      using swap16_bytes [of buf p "x - 269", folded h_def l_def, OF r] 1 assms(3) by (simp add: read_extended_def ucast_op_nibble op_extension_def)
  next
    case 2
    define b :: byte where "b = ucast (x - 13)"
    have u: "unat (x - 13) < 128"
      using 2 by (simp add: unat_sub word_le_nat_alt word_less_nat_alt)
    then have "b < 128"
      by (simp add: b_def word_less_nat_alt unsigned_ucast_eq take_bit_nat_eq_self)
    then have "(scast b :: u32) = x - 13"
      using u by (simp add: scast_small b_def word_unat_eq_iff unsigned_ucast_eq unsigned_take_bit_eq take_bit_nat_eq_self)
    moreover have e: "op_extension x = [b]" "(ucast (op_nibble x) :: u32) = 13"
      using 2 by (auto simp: op_extension_def b_def ucast_op_nibble word_le_nat_alt word_less_nat_alt)
    moreover have "rd buf p = Some b"
      using assms(2) e(1) by (simp add: rd_drop)
    ultimately show ?thesis
      using assms(3) by (simp add: read_extended_def)
  next
    case 3
    then have "x \<noteq> 13" "x \<noteq> 14" "\<not> 269 \<le> x" "\<not> 13 \<le> x"
      by (auto simp: word_le_nat_alt word_less_nat_alt)
    then show ?thesis
      by (simp add: read_extended_def ucast_op_nibble op_extension_def)
  qed
qed


section \<open>Decoding what was encoded\<close>

lemma rd_append_at: "drop p buf = x # t \<Longrightarrow> rd buf p = Some x \<and> drop (p + 1) buf = t"
  by (metis add.commute drop_Suc_Cons drop_drop drop0 One_nat_def plus_1_eq_Suc rd_drop)

lemma drop_append_at: "drop p buf = xs @ t \<Longrightarrow> drop (p + length xs) buf = t"
  by (metis add.commute append_eq_conv_conj drop_drop)

lemma option_number:
  assumes "prev \<le> n"
  shows "ucast (ucast prev + (ucast (ucast (ucast n - ucast prev :: u32) :: u16) :: u32)) = (n :: u16)"
proof -
  have c: "unat (ucast m :: u32) = unat m" for m :: u16
    using less_trans [OF unat_u16_less, of "2 ^ 32" m] by (simp add: unsigned_ucast_eq take_bit_nat_eq_self)
  have le: "unat prev \<le> unat n"
    using assms by (simp add: word_le_nat_alt)
  have "unat (ucast n - ucast prev :: u32) = unat n - unat prev"
    using le by (subst unat_sub) (simp_all add: word_le_nat_alt c)
  moreover have "unat n - unat prev < 65536"
    using unat_u16_less [of n] by linarith
  ultimately have "unat (ucast (ucast n - ucast prev :: u32) :: u16) = unat n - unat prev"
    by (simp add: unsigned_ucast_eq unsigned_take_bit_eq take_bit_nat_eq_self)
  then have "unat (ucast prev + (ucast (ucast (ucast n - ucast prev :: u32) :: u16) :: u32)) = unat n"
    using le less_trans [OF unat_u16_less, of "2 ^ 32" n] by (simp add: unat_word_ariths c)
  then show ?thesis
    using unat_u16_less [of n] by (intro word_unat_eq_iff [THEN iffD2]) (simp add: unsigned_ucast_eq unsigned_take_bit_eq take_bit_nat_eq_self)
qed

definition transmissible :: "u32 \<Rightarrow> CoAPMsgOption \<Rightarrow> bool" where
  "transmissible prev op \<longleftrightarrow> signed_safe (op_delta_of prev op) \<and> signed_safe (val_len op)"

lemma deserialize_option_bytes:
  assumes "option_ok op" and "transmissible prev op" and "drop p buf = option_bytes prev op @ t"
    and "length (option_bytes prev op) \<le> len" and "prev = (if op_list msg = [] then 0 else ucast (option_num (last (op_list msg))))"
    and "(if op_list msg = [] then 0 else option_num (last (op_list msg))) \<le> option_num op"
    and "\<And>w. fst (malloc w)"
  shows "\<exists>w'. coap_message_deserialize_option malloc msg buf p len w =
    Some (int (length (option_bytes prev op)), msg\<lparr>op_list := op_list msg @ [op]\<rparr>, w')"
proof -
  let ?d = "op_delta_of prev op"
  have l1: "0 < len" using assms(4) by (simp add: length_option_bytes)
  obtain b where b: "b = push_bit 4 (op_nibble ?d) OR op_nibble (val_len op)" by simp
  have d0: "rd buf p = Some b" "drop (p + 1) buf = op_extension ?d @ op_extension (val_len op) @ op_val op @ t"
    using rd_append_at [of p buf b "op_extension ?d @ op_extension (val_len op) @ op_val op @ t"] assms(3) by (simp_all add: option_bytes_def b)
  have lt: "op_nibble x < 16" "op_nibble x \<noteq> 15" for x
    using op_nibble_less [of x] by (auto simp: word_less_nat_alt)
  have nib: "drop_bit 4 (scast b) AND (0x0F :: u32) = ucast (op_nibble ?d)" "scast b AND (0x0F :: u32) = ucast (op_nibble (val_len op))"
    unfolding b by (rule nibbles_split; rule lt)+
  have n15: "(ucast (op_nibble x) :: u32) \<noteq> 15" for x
    by (auto simp: ucast_op_nibble)
  have e1: "read_extended (ucast (op_nibble ?d)) buf (p + 1) (len - 1) =
      Some (Inr (?d, p + 1 + length (op_extension ?d), len - 1 - length (op_extension ?d)))"
    using read_extended_ok [OF _ d0(2)] assms(2,4) by (simp add: transmissible_def length_option_bytes)
  have d1: "drop (p + 1 + length (op_extension ?d)) buf = op_extension (val_len op) @ op_val op @ t"
    by (rule drop_append_at [OF d0(2)])
  define q where "q = p + 1 + length (op_extension ?d) + length (op_extension (val_len op))"
  define k where "k = len - 1 - length (op_extension ?d) - length (op_extension (val_len op))"
  have e2: "read_extended (ucast (op_nibble (val_len op))) buf (p + 1 + length (op_extension ?d)) (len - 1 - length (op_extension ?d)) =
      Some (Inr (val_len op, q, k))"
    using read_extended_ok [OF _ d1] assms(2,4) by (simp add: transmissible_def length_option_bytes q_def k_def)
  have d2: "drop q buf = op_val op @ t"
    unfolding q_def by (rule drop_append_at [OF d1])
  have v: "unat (val_len op) = length (op_val op)"
    by (rule unat_val_len [OF assms(1)])
  then have k: "\<not> k < unat (val_len op)"
    using assms(4) by (simp add: length_option_bytes k_def)
  have "p < length buf"
    using d0(1) by (simp add: rd_Some_iff)
  then have "p + length (option_bytes prev op) \<le> length buf"
    using arg_cong [OF assms(3), of length] by simp
  then have q: "rd_bytes buf q (unat (val_len op)) = Some (op_val op)"
    using d2 v by (simp add: rd_bytes_def length_option_bytes q_def)
  define num where "num = (if op_list msg = [] then ?d else ucast (option_num (last (op_list msg))) + ?d)"
  have num: "ucast num = option_num op"
    using option_number [OF assms(6)] assms(5) by (auto simp: num_def op_delta_of_def split: if_splits)
  obtain w1 w2 where m: "malloc w = (True, w1)" "malloc w1 = (True, w2)"
    using assms(7) by (metis prod.collapse)
  have add: "coap_msg_op_list_add_last malloc (op_list msg) num (val_len op) buf q w = Some (0, op_list msg @ [op], w2)"
    by (simp add: coap_msg_op_list_add_last_def qcloud_iot_coap_option_init_def m q num)
  have "int (q + unat (val_len op)) - int p = int (length (option_bytes prev op))"
    using v by (simp add: q_def length_option_bytes)
  then show ?thesis
    unfolding coap_message_deserialize_option_def d0(1) using l1 k add
    by (simp add: Let_def nib n15 e1 [simplified] e2 [simplified] deserialize_option_value_def num_def [symmetric])
qed


lemma sorted_after: "sorted (map option_num (xs @ op # ops)) \<Longrightarrow> xs \<noteq> [] \<Longrightarrow> option_num (last xs) \<le> option_num op"
  by (simp add: sorted_append) 

fun all_transmissible :: "u32 \<Rightarrow> CoAPMsgOption list \<Rightarrow> bool" where
  "all_transmissible prev [] \<longleftrightarrow> True"
| "all_transmissible prev (op # ops) \<longleftrightarrow> transmissible prev op \<and> all_transmissible (ucast (option_num op)) ops"

lemma option_bytes_not_marker: "option_bytes prev op = b # bs \<Longrightarrow> b \<noteq> 0xFF"
proof
  assume "option_bytes prev op = b # bs" "b = 0xFF"
  then have b: "push_bit 4 (op_nibble (op_delta_of prev op)) OR op_nibble (val_len op) = 0xFF"
    by (simp add: option_bytes_def)
  have lt: "op_nibble x < 16" for x
    using op_nibble_less [of x] by (auto simp: word_less_nat_alt)
  have "scast (push_bit 4 (op_nibble (op_delta_of prev op)) OR op_nibble (val_len op)) AND (0x0F :: u32) = ucast (op_nibble (val_len op))"
    by (rule nibbles_split(2)) (rule lt)+
  then show False
    unfolding b by (auto simp: ucast_op_nibble split: if_splits)
qed

lemma deserialize_options_bytes:
  assumes "\<And>w. fst (malloc w)" and "list_all option_ok ops" and "all_transmissible prev ops"
    and "sorted (map option_num (op_list msg @ ops))"
    and "prev = (if op_list msg = [] then 0 else ucast (option_num (last (op_list msg))))"
    and "drop p buf = options_bytes prev ops @ x # t" and "len = length (options_bytes prev ops) + k" and "x = 0xFF \<or> k = 0"
  shows "\<exists>w'. deserialize_options_loop malloc msg buf p len w =
    Some (Inr (p + length (options_bytes prev ops)), msg\<lparr>op_list := op_list msg @ ops\<rparr>, w')"
  using assms(2-)
proof (induction ops arbitrary: prev msg p len w)
  case Nil
  then have "rd buf p = Some x"
    by (simp add: rd_drop)
  with Nil show ?case
    by (subst deserialize_options_loop.simps) auto
next
  case (Cons op ops)
  let ?b = "option_bytes prev op" and ?m = "msg\<lparr>op_list := op_list msg @ [op]\<rparr>"
  obtain b bs where b: "?b = b # bs" "b \<noteq> 0xFF"
    using option_bytes_not_marker by (auto simp: option_bytes_def)
  have rd: "rd buf p = Some b"
    using Cons.prems(5) b(1) by (simp add: rd_drop)
  have "(if op_list msg = [] then 0 else option_num (last (op_list msg))) \<le> option_num op"
    using sorted_after [of "op_list msg" op ops] Cons.prems(3) by auto
  then obtain w1 where o: "coap_message_deserialize_option malloc msg buf p len w = Some (int (length ?b), ?m, w1)"
    using deserialize_option_bytes [of op prev p buf "options_bytes (ucast (option_num op)) ops @ x # t" len msg malloc w] Cons.prems assms(1) by auto
  have "\<exists>w'. deserialize_options_loop malloc ?m buf (p + length ?b) (len - length ?b) w1 =
      Some (Inr (p + length ?b + length (options_bytes (ucast (option_num op)) ops)), ?m\<lparr>op_list := op_list ?m @ ops\<rparr>, w')"
    using Cons.prems drop_append_at [of p buf ?b "options_bytes (ucast (option_num op)) ops @ x # t"]
    by (intro Cons.IH) simp_all
  moreover have "len \<noteq> 0"
    using Cons.prems(6) b(1) by simp
  ultimately show ?case
    using rd b(2) o by (subst deserialize_options_loop.simps) (auto simp: add.assoc)
qed


section \<open>The header\<close>

definition first_byte :: "u32 \<Rightarrow> u32 \<Rightarrow> byte" where
  "first_byte t l = ucast (push_bit 6 COAP_MSG_VER OR push_bit 4 (t AND 0x03) OR (l AND 0x0F))"

definition code_byte :: "u32 \<Rightarrow> u32 \<Rightarrow> byte" where
  "code_byte c d = ucast (push_bit 5 (c AND 0x07) OR (d AND 0x1F))"

lemma first_byte_table:
  "list_all (\<lambda>t. list_all (\<lambda>l. drop_bit 6 (scast (first_byte (of_nat t) (of_nat l))) AND 0x03 = COAP_MSG_VER \<and>
     drop_bit 4 (scast (first_byte (of_nat t) (of_nat l))) AND 0x03 = (of_nat t :: u32) \<and>
     scast (first_byte (of_nat t) (of_nat l)) AND 0x0F = (of_nat l :: u32)) [0..<9]) [0..<4]"
  by code_simp

lemma first_byte_fields:
  assumes "t < 4" and "unat l \<le> 8"
  shows "drop_bit 6 (scast (first_byte t l)) AND 0x03 = COAP_MSG_VER" "drop_bit 4 (scast (first_byte t l)) AND 0x03 = t"
    "scast (first_byte t l) AND 0x0F = l"
proof -
  have "unat t < 4" using assms(1) by (simp add: word_less_nat_alt)
  with assms(2) first_byte_table [unfolded list_all_iff, THEN bspec, of "unat t", THEN bspec, of "unat l"]
  show "drop_bit 6 (scast (first_byte t l)) AND 0x03 = COAP_MSG_VER" "drop_bit 4 (scast (first_byte t l)) AND 0x03 = t"
    "scast (first_byte t l) AND 0x0F = l" by simp_all
qed

lemma scast_low_bit: "k < 8 \<Longrightarrow> bit (scast (b :: byte) :: u32) k \<longleftrightarrow> bit b k"
  by (simp add: bit_signed_iff)

lemma small_bits: "w < 2 ^ n \<Longrightarrow> n < 32 \<Longrightarrow> n \<le> k \<Longrightarrow> \<not> bit (w :: u32) k"
proof -
  assume "w < 2 ^ n" "n < 32" "n \<le> k"
  then have "take_bit n w = w"
    by (simp add: take_bit_eq_mod mod_word_less)
  then have "bit w k \<longleftrightarrow> bit (take_bit n w) k" by simp
  with \<open>n \<le> k\<close> show ?thesis by (simp add: bit_take_bit_iff)
qed

lemma code_byte_fields:
  assumes "c < 8" and "d < 32"
  shows "drop_bit 5 (scast (code_byte c d)) AND 0x07 = c" "scast (code_byte c d) AND 0x1F = d"
proof -
  have m: "(0x07 :: u32) = mask 3" "(0x1F :: u32) = mask 5"
    by (simp_all add: mask_eq_exp_minus_1)
  have cd: "3 \<le> k \<Longrightarrow> \<not> bit c k" "5 \<le> k \<Longrightarrow> \<not> bit d k" for k
    using small_bits [of c 3 k] small_bits [of d 5 k] assms by simp_all
  have b: "bit (code_byte c d) k \<longleftrightarrow> (if k < 5 then bit d k else bit c (k - 5))" if "k < 8" for k
    using that cd unfolding code_byte_def m by (auto simp: bit_ucast_iff bit_or_iff bit_push_bit_iff bit_and_iff bit_mask_iff)
  show "drop_bit 5 (scast (code_byte c d)) AND 0x07 = c"
    unfolding m
  proof (rule bit_word_eqI)
    fix k
    show "bit (drop_bit 5 (scast (code_byte c d)) AND mask 3 :: u32) k = bit c k"
      using cd by (cases "k < 3") (simp_all add: bit_and_iff bit_mask_iff bit_drop_bit_eq scast_low_bit b)
  qed
  show "scast (code_byte c d) AND 0x1F = d"
    unfolding m
  proof (rule bit_word_eqI)
    fix k
    show "bit (scast (code_byte c d) AND mask 5 :: u32) k = bit d k"
      using cd by (cases "k < 5") (simp_all add: bit_and_iff bit_mask_iff scast_low_bit b)
  qed
qed

lemma deserialize_header_bytes:
  assumes "message_ok m" and "code_class m \<in> {0, 2, 4, 5}" and "buf = header_bytes m @ t" and "4 \<le> len"
  shows "coap_message_deserialize_header msg buf 0 len =
    Some (4, msg\<lparr>version := COAP_MSG_VER, msg_type := msg_type m, token_len := token_len m, code_detail := code_detail m,
      code_class := code_class m, coap_msg_id := coap_msg_id m\<rparr>)"
proof -
  have ok: "msg_type m < 4" "unat (token_len m) \<le> 8" "code_class m < 8" "code_detail m < 32"
    using assms(1) by (simp_all add: message_ok_def)
  define b0 b1 b2 b3 where "b0 = first_byte (msg_type m) (token_len m)" and "b1 = code_byte (code_class m) (code_detail m)"
    and "b2 = (ucast (drop_bit 8 (coap_msg_id m AND 0xFF00)) :: byte)" and "b3 = (ucast (coap_msg_id m AND 0x00FF) :: byte)"
  have h: "header_bytes m = [b0, b1, b2, b3]"
    unfolding header_bytes_def b0_def b1_def b2_def b3_def first_byte_def code_byte_def ..
  have r: "rd buf 0 = Some b0" "rd buf 1 = Some b1" "rd buf 2 = Some b2" "rd buf (2 + 1) = Some b3"
    unfolding assms(3) h by (simp_all add: rd_def)
  have s: "read_swap16 buf 2 = Some (coap_msg_id m)"
    using swap16_bytes [of buf 2 "coap_msg_id m", folded b2_def b3_def, OF r(3,4)] by simp
  note f = first_byte_fields [OF ok(1,2), folded b0_def] code_byte_fields [OF ok(3,4), folded b1_def]
  show ?thesis
    using assms(2,4) ok(2) r(1,2) s
    by (auto simp: coap_message_deserialize_header_def Let_def f COAP_MSG_MAX_TOKEN_LEN_def numeral_2_eq_2)
qed


section \<open>Any input\<close>

lemma read_swap16_total: "p + 2 \<le> length buf \<Longrightarrow> \<exists>v. read_swap16 buf p = Some v"
  by (simp add: read_swap16_def rd_def Let_def)

lemma read_extended_wp:
  assumes "p + len \<le> length buf"
  shows "ok (read_extended x buf p len) (\<lambda>r. case r of Inl rc \<Rightarrow> True | Inr (y, q, k) \<Rightarrow> q + k = p + len)"
  using assms read_swap16_total [of p buf] by (auto simp: read_extended_def rd_def)

lemma op_list_add_last_wp: "q + unat len \<le> length val \<Longrightarrow> ok (coap_msg_op_list_add_last malloc l num len val q w) (\<lambda>r. True)"
  by (rule op_list_add_last_cases [of q len val malloc l num w]) simp_all

lemma deserialize_option_value_wp:
  "q + len \<le> length buf \<Longrightarrow> ok (deserialize_option_value malloc msg buf p op_delta op_len q len w) (\<lambda>r. True)"
  by (auto simp: deserialize_option_value_def ok_bind Let_def intro!: ok_mono [OF op_list_add_last_wp])

lemma deserialize_option_wp:
  assumes "p + len \<le> length buf"
  shows "ok (coap_message_deserialize_option malloc msg buf p len w) (\<lambda>r. True)"
proof (cases "len = 0")
  case True
  then show ?thesis by (simp add: coap_message_deserialize_option_def)
next
  case False
  then have b: "rd buf p = Some (buf ! p)" and len: "p + 1 + (len - 1) \<le> length buf"
    using assms by (simp_all add: rd_def)
  have inner: "ok (read_extended l buf q1 k1) (\<lambda>r. ok (case r of Inl rc \<Rightarrow> Some (rc, msg, w)
      | Inr (y, q2, k2) \<Rightarrow> deserialize_option_value malloc msg buf p x y q2 k2 w) (\<lambda>r. True))"
    if "q1 + k1 \<le> length buf" for l q1 k1 x
    by (rule ok_mono [OF read_extended_wp [OF that]]) (use that in \<open>auto simp: deserialize_option_value_wp split: sum.splits\<close>)
  have outer: "ok (read_extended d buf (p + 1) (len - 1)) (\<lambda>r. ok (case r of Inl rc \<Rightarrow> Some (rc, msg, w)
      | Inr (x, q1, k1) \<Rightarrow> Option.bind (read_extended l buf q1 k1) (\<lambda>r. case r of Inl rc \<Rightarrow> Some (rc, msg, w)
      | Inr (y, q2, k2) \<Rightarrow> deserialize_option_value malloc msg buf p x y q2 k2 w)) (\<lambda>r. True))" for d l
  proof (rule ok_mono [OF read_extended_wp [OF len]], goal_cases)
    case (1 r)
    then show ?case using len by (cases r) (auto simp: ok_bind intro!: inner)
  qed
  show ?thesis
    unfolding coap_message_deserialize_option_def b using False outer by (simp add: Let_def ok_bind)
qed

lemma deserialize_options_wp:
  "p + len < length buf \<Longrightarrow> ok (deserialize_options_loop malloc msg buf p len w)
     (\<lambda>r. case fst r of Inl num \<Rightarrow> num < 0 | Inr q \<Rightarrow> p \<le> q \<and> q \<le> p + len)"
proof (induction malloc msg buf p len w rule: deserialize_options_loop.induct)
  case (1 malloc msg buf p len w)
  have b: "rd buf p = Some (buf ! p)"
    using "1.prems" by (simp add: rd_def)
  obtain num msg' w' where o: "coap_message_deserialize_option malloc msg buf p len w = Some (num, msg', w')"
    using ok_D [OF deserialize_option_wp [of p len buf malloc msg w]] "1.prems" by auto
  show ?case
  proof (cases "buf ! p = 0xFF \<or> len = 0 \<or> num < 0")
    case True
    then show ?thesis
      using b o by (subst deserialize_options_loop.simps) auto
  next
    case False
    then have n: "0 < num" "nat num \<le> len"
      using deserialize_option_progress [OF o] by simp_all
    then have "ok (deserialize_options_loop malloc msg' buf (p + nat num) (len - nat num) w')
        (\<lambda>r. case fst r of Inl num \<Rightarrow> num < 0 | Inr q \<Rightarrow> p + nat num \<le> q \<and> q \<le> p + nat num + (len - nat num))"
      using "1.IH" [OF b _ o refl refl] False "1.prems" by simp
    then have "ok (deserialize_options_loop malloc msg' buf (p + nat num) (len - nat num) w')
        (\<lambda>r. case fst r of Inl num \<Rightarrow> num < 0 | Inr q \<Rightarrow> p \<le> q \<and> q \<le> p + len)"
      by (rule ok_mono) (use n in \<open>auto split: sum.splits\<close>)
    then show ?thesis
      using b o False by (subst deserialize_options_loop.simps) simp
  qed
qed


lemma deserialize_header_cases:
  assumes "len \<le> length buf"
  obtains (rejected) num msg' where "coap_message_deserialize_header msg buf 0 len = Some (num, msg')" and "num < 0"
  | (parsed) msg' where "coap_message_deserialize_header msg buf 0 len = Some (4, msg')" and "4 \<le> len"
      and "unat (token_len msg') \<le> 8" and "token msg' = token msg"
proof (cases "len < 4")
  case True
  then show thesis
    by (intro rejected [of QCLOUD_ERR_COAP_DATA_SIZE msg]) (simp_all add: coap_message_deserialize_header_def)
next
  case False
  then have "0 < length buf" "Suc 0 < length buf"
    using assms by linarith+
  then have r: "rd buf 0 = Some (buf ! 0)" "rd buf (Suc 0) = Some (buf ! 1)"
    by (simp_all add: rd_def)
  obtain v where v: "read_swap16 buf 2 = Some v"
    using read_swap16_total [of 2 buf] assms False by auto
  define a where "a = msg\<lparr>version := drop_bit 6 (scast (buf ! 0)) AND 0x03, msg_type := drop_bit 4 (scast (buf ! 0)) AND 0x03,
    token_len := scast (buf ! 0) AND 0x0F\<rparr>"
  define b where "b = a\<lparr>code_detail := scast (buf ! 1) AND 0x1F, code_class := drop_bit 5 (scast (buf ! 1)) AND 0x07\<rparr>"
  have e: "coap_message_deserialize_header msg buf 0 len =
      (if version a \<noteq> COAP_MSG_VER then Some (- EINVAL, msg\<lparr>version := version a\<rparr>)
       else if unat (token_len a) > 8 then Some (QCLOUD_ERR_COAP_DATA_SIZE, a)
       else if code_class b \<notin> {0, 2, 4, 5} then Some (QCLOUD_ERR_COAP_BADMSG, b)
       else Some (4, b\<lparr>coap_msg_id := v\<rparr>))"
    using False r v by (simp add: coap_message_deserialize_header_def Let_def a_def b_def COAP_MSG_MAX_TOKEN_LEN_def numeral_2_eq_2)
  show thesis
  proof (cases "version a = COAP_MSG_VER \<and> unat (token_len a) \<le> 8 \<and> code_class b \<in> {0, 2, 4, 5}")
    case True
    then show thesis
      using False by (intro parsed [of "b\<lparr>coap_msg_id := v\<rparr>"]) (simp_all add: e b_def a_def)
  next
    case no: False
    then show thesis
      by (cases "version a = COAP_MSG_VER"; cases "unat (token_len a) \<le> 8") (auto simp: e intro: rejected)
  qed
qed

lemma deserialize_token_total:
  assumes "p + len \<le> length buf" and "unat (token_len msg) \<le> 8" and "length (token msg) = 8"
  shows "\<exists>num msg'. coap_message_deserialize_token msg buf p len = Some (num, msg') \<and>
    (num < 0 \<or> num = uint (token_len msg) \<and> unat (token_len msg) \<le> len)"
  using assms by (auto simp: coap_message_deserialize_token_def rd_bytes_def wr_bytes_def)

lemma deserialize_payload_total:
  assumes "p + len \<le> length buf"
  shows "\<exists>num msg' w'. coap_message_deserialize_payload malloc msg buf p len w = Some (num, msg', w')"
  using assms by (auto simp: coap_message_deserialize_payload_def rd_def rd_bytes_def split: prod.splits)


section \<open>Whole messages\<close>

text \<open>The message the receiver of \<open>m\<close> holds.\<close>

definition received_form :: "CoAPMessage \<Rightarrow> CoAPMessage" where
  "received_form m = zero_message\<lparr>version := COAP_MSG_VER, msg_type := msg_type m, token_len := token_len m, code_detail := code_detail m,
     code_class := code_class m, coap_msg_id := coap_msg_id m,
     token := take (unat (token_len m)) (token m) @ replicate (8 - unat (token_len m)) 0, op_list := op_list m,
     pay_load := (if pay_load_len m = 0 then None else map_option (take (pay_load_len m)) (pay_load m)), pay_load_len := pay_load_len m\<rparr>"

lemma deserialize_payload_bytes:
  assumes "\<And>w. fst (malloc w)" and "message_ok m" and "drop p buf = payload_bytes m @ t"
  shows "\<exists>num w'. coap_message_deserialize_payload malloc msg buf p (length (payload_bytes m)) w =
      Some (num, if pay_load_len m = 0 then msg else msg\<lparr>pay_load := map_option (take (pay_load_len m)) (pay_load m), pay_load_len := pay_load_len m\<rparr>, w') \<and> 0 \<le> num"
proof (cases "pay_load_len m = 0")
  case True
  then have "payload_bytes m = []"
    by (simp add: payload_bytes_def split: option.splits)
  with True show ?thesis by (simp add: coap_message_deserialize_payload_def)
next
  case False
  then obtain pl where pl: "pay_load m = Some pl" "pay_load_len m \<le> length pl"
    using assms(2) by (auto simp: message_ok_def split: option.splits)
  define bs where "bs = take (pay_load_len m) pl"
  have b: "payload_bytes m = 0xFF # bs" "length bs = pay_load_len m"
    using pl False by (simp_all add: payload_bytes_def bs_def)
  have d: "rd buf p = Some 0xFF" "drop (p + 1) buf = bs @ t"
    using rd_append_at [of p buf "0xFF" "bs @ t"] assms(3) b(1) by simp_all
  then have "p < length buf"
    by (simp add: rd_Some_iff)
  moreover have "length buf - (p + 1) = length bs + length t"
    using arg_cong [OF d(2), of length] by (simp only: length_drop length_append)
  ultimately have "p + 1 + pay_load_len m \<le> length buf"
    using b(2) by linarith
  then have "rd_bytes buf (p + 1) (pay_load_len m) = Some bs"
    using d(2) b(2) by (simp add: rd_bytes_def)
  moreover obtain w1 where "malloc w = (True, w1)"
    using assms(1) by (metis prod.collapse)
  ultimately show ?thesis
    using False d(1) b(2) by (simp add: coap_message_deserialize_payload_def b(1) pl(1) bs_def)
qed

lemma deserialize_message_bytes:
  assumes "\<And>w. fst (malloc w)" and "message_ok m" and "code_class m \<in> {0, 2, 4, 5}" and "all_transmissible 0 (op_list m)"
    and "buf = message_bytes m @ t" and "t \<noteq> []"
  shows "\<exists>w'. deserialize_coap_message malloc zero_message buf (length (message_bytes m)) w =
    Some (coap_msg_check (received_form m), received_form m, w')"
proof -
  let ?h = "header_bytes m" and ?tl = "unat (token_len m)" and ?o = "options_bytes 0 (op_list m)" and ?p = "payload_bytes m"
  let ?t = "take ?tl (token m)"
  have ok: "?tl \<le> 8" "length (token m) = 8" "list_all option_ok (op_list m)" "sorted (map option_num (op_list m))"
    using assms(2) by (simp_all add: message_ok_def)
  have l: "length ?h = 4" "length ?t = ?tl" "length (message_bytes m) = 4 + ?tl + length ?o + length ?p"
    using ok by (simp_all add: header_bytes_def message_bytes_def)
  have buf: "buf = ?h @ ?t @ ?o @ ?p @ t"
    using assms(5) by (simp add: message_bytes_def)
  let ?n = "length (message_bytes m)"
  define m1 where "m1 = zero_message\<lparr>version := COAP_MSG_VER, msg_type := msg_type m, token_len := token_len m, code_detail := code_detail m,
      code_class := code_class m, coap_msg_id := coap_msg_id m\<rparr>"
  have h: "coap_message_deserialize_header zero_message buf 0 ?n = Some (4, m1)"
    unfolding m1_def using assms(2,3) buf l(3) by (intro deserialize_header_bytes) simp_all
  define m2 where "m2 = m1\<lparr>token := ?t @ replicate (8 - ?tl) 0\<rparr>"
  have d1: "drop 4 buf = ?t @ ?o @ ?p @ t"
    unfolding buf using l(1) by simp
  have tok: "coap_message_deserialize_token m1 buf 4 (?n - 4) = Some (int ?tl, m2)"
    using ok l(2,3) d1 unfolding buf m2_def
    by (simp add: coap_message_deserialize_token_def m1_def rd_bytes_def wr_bytes_def zero_message_def l(1))
  obtain x r where x: "?p @ t = x # r" "x = 0xFF \<or> length ?p = 0"
    using assms(6) by (cases ?p) (auto simp: neq_Nil_conv payload_bytes_def split: option.splits if_splits)
  have d2: "drop (4 + ?tl) buf = ?o @ x # r"
    unfolding buf x(1) [symmetric] using l(1,2) by simp
  obtain w1 where opt: "deserialize_options_loop malloc m2 buf (4 + ?tl) (?n - 4 - ?tl) w =
      Some (Inr (4 + ?tl + length ?o), m2\<lparr>op_list := op_list m\<rparr>, w1)"
    using deserialize_options_bytes [where malloc = malloc, OF assms(1), where ops = "op_list m" and prev = 0 and msg = m2 and p = "4 + ?tl" and buf = buf
        and x = x and t = r and len = "?n - 4 - ?tl" and k = "length ?p" and w = w] ok assms(4) d2 l x(2)
    by (auto simp: m2_def m1_def zero_message_def)
  define m3 where "m3 = m2\<lparr>op_list := op_list m\<rparr>"
  have d3: "drop (4 + ?tl + length ?o) buf = ?p @ t"
    unfolding buf using l(1,2) by simp
  obtain num w' where pay: "coap_message_deserialize_payload malloc m3 buf (4 + ?tl + length ?o) (length ?p) w1 = Some (num, received_form m, w')" "0 \<le> num"
    using deserialize_payload_bytes [where malloc = malloc, OF assms(1,2) d3, where msg = m3 and w = w1] by (auto simp: m3_def m2_def m1_def received_form_def zero_message_def)
  have o: "coap_message_deserialize_options malloc m2 buf (4 + ?tl) (?n - 4 - ?tl) w = Some (int (length ?o), m3, w1)"
    using opt by (simp add: coap_message_deserialize_options_def m3_def)
  have n: "?n - (4 + ?tl + length ?o) = length ?p"
    using l(3) by simp
  show ?thesis
    unfolding deserialize_coap_message_def h tok using o pay by (simp add: Let_def tok o n)
qed


lemma deserialize_rest_total:
  assumes "p + k < length buf"
  shows "\<exists>rc m' w'. (do {
      (num, message, w) \<leftarrow> coap_message_deserialize_options malloc msg buf p k w;
      if num < 0 then Some (QCLOUD_ERR_COAP_INTERNAL, coap_message_destroy message, w)
      else do {
        (num, message, w) \<leftarrow> coap_message_deserialize_payload malloc message buf (p + nat num) (k - nat num) w;
        if num < 0 then Some (QCLOUD_ERR_COAP_INTERNAL, coap_message_destroy message, w)
        else Some (coap_msg_check message, message, w)
      } }) = Some (rc, m', w') \<and> (rc = coap_msg_check m' \<or> rc = QCLOUD_ERR_COAP_INTERNAL \<and> m' = zero_message)"
proof -
  obtain r m1 w1 where o: "deserialize_options_loop malloc msg buf p k w = Some (r, m1, w1)"
      "case r of Inl num \<Rightarrow> num < 0 | Inr q \<Rightarrow> p \<le> q \<and> q \<le> p + k"
    using ok_D [OF deserialize_options_wp [OF assms]] by fastforce
  show ?thesis
  proof (cases r)
    case (Inl num)
    with o show ?thesis
      by (simp add: coap_message_deserialize_options_def coap_message_destroy_def)
  next
    case (Inr q)
    define d where "d = q - p"
    have q: "q = p + d" "d \<le> k"
      using o(2) Inr by (auto simp: d_def)
    obtain num m2 w2 where "coap_message_deserialize_payload malloc m1 buf (p + d) (k - d) w1 = Some (num, m2, w2)"
      using deserialize_payload_total [of "p + d" "k - d" buf malloc m1 w1] assms q(2) by auto
    then show ?thesis
      using o(1) Inr q(1) by (cases "num < 0") (simp_all add: coap_message_deserialize_options_def coap_message_destroy_def)
  qed
qed

lemma decode_total:
  assumes "len < length buf"
  shows "\<exists>rc m' w'. deserialize_coap_message malloc zero_message buf len w = Some (rc, m', w') \<and>
    (rc = coap_msg_check m' \<or> rc = QCLOUD_ERR_COAP_INTERNAL \<and> m' = zero_message)"
proof -
  have "len \<le> length buf" using assms by simp
  then show ?thesis
  proof (cases rule: deserialize_header_cases [where msg = zero_message])
    case (rejected num msg')
    then show ?thesis by (simp add: deserialize_coap_message_def coap_message_destroy_def)
  next
    case (parsed m1)
    have "length (token m1) = 8" "4 + (len - 4) \<le> length buf"
      using parsed(2,4) assms by (simp_all add: zero_message_def)
    then obtain num m2 where t: "coap_message_deserialize_token m1 buf 4 (len - 4) = Some (num, m2)"
        "num < 0 \<or> num = uint (token_len m1) \<and> unat (token_len m1) \<le> len - 4"
      using deserialize_token_total [of 4 "len - 4" buf m1] parsed(3) by auto
    show ?thesis
    proof (cases "num < 0")
      case True
      then show ?thesis
        using parsed(1) t(1) by (simp add: deserialize_coap_message_def coap_message_destroy_def)
    next
      case False
      then have "4 + nat num + (len - 4 - nat num) < length buf"
        using t(2) parsed(2) assms by (auto simp: nat_uint_eq)
      from deserialize_rest_total [OF this, of malloc m2 w] show ?thesis
        using parsed(1) t(1) False by (simp add: deserialize_coap_message_def Let_def add.assoc cong: if_cong)
    qed
  qed
qed

section \<open>Properties\<close>

text \<open>
  C36: A CoAP message that the client builds, serialized into a buffer with at least one byte to spare, is written as exactly
  the bytes of its header, token, options and payload, and decoding these bytes gives the message back: type, code, message id,
  token, options with numbers and values, payload.  It holds for options whose delta and length have no one-byte extension with the
  top bit set, and when memory is available.
\<close>

theorem coap_roundtrip:
  assumes "message_ok m" and "code_class m \<in> {0, 2, 4, 5}" and "all_transmissible 0 (op_list m)" and "\<And>w. fst (malloc w)"
    and "length (message_bytes m) < unat len" and "unat len \<le> length buf"
  shows "\<exists>buf' w'. serialize_coap_message (Some m) (Some buf) len = Some (int (length (message_bytes m)), Some buf') \<and>
    take (length (message_bytes m)) buf' = message_bytes m \<and>
    deserialize_coap_message malloc zero_message buf' (length (message_bytes m)) w = Some (coap_msg_check (received_form m), received_form m, w')"
proof -
  let ?n = "length (message_bytes m)"
  have b: "put buf (message_bytes m) = message_bytes m @ drop ?n buf" "drop ?n buf \<noteq> []"
    using assms(5,6) by (simp_all add: put_def)
  then obtain w' where "deserialize_coap_message malloc zero_message (put buf (message_bytes m)) ?n w = Some (coap_msg_check (received_form m), received_form m, w')"
    using deserialize_message_bytes [where malloc = malloc, OF assms(4,1,2,3) b] by blast
  with serialize_message_put [OF assms(1,5,6)] b(1) show ?thesis
    by (intro exI [of _ "put buf (message_bytes m)"] exI [of _ w']) simp
qed

definition coap_example :: CoAPMessage where
  "coap_example = DEFAULT_COAP_MESSAGE\<lparr>coap_msg_id := 0x1234, token_len := 2, op_list := [\<lparr>option_num = 11, val_len = 2, op_val = [0x61, 0x62]\<rparr>,
     \<lparr>option_num = 61, val_len = 1, op_val = [0x63]\<rparr>], pay_load := Some [1, 2], pay_load_len := 2\<rparr>"

theorem coap_roundtrip_witness:
  "\<exists>buf' w'. serialize_coap_message (Some coap_example) (Some (replicate 20 0)) 20 = Some (int (length (message_bytes coap_example)), Some buf') \<and>
    take (length (message_bytes coap_example)) buf' = message_bytes coap_example \<and>
    deserialize_coap_message (Pair True) zero_message buf' (length (message_bytes coap_example)) () =
      Some (coap_msg_check (received_form coap_example), received_form coap_example, w')"
  by (rule coap_roundtrip)
    (simp_all add: coap_example_def DEFAULT_COAP_MESSAGE_def message_ok_def option_ok_def transmissible_def signed_safe_def op_delta_of_def
      message_bytes_def header_bytes_def option_bytes_def op_extension_def payload_bytes_def)



definition option_example :: "u16 \<Rightarrow> nat \<Rightarrow> CoAPMessage" where
  "option_example num n = DEFAULT_COAP_MESSAGE\<lparr>op_list := [\<lparr>option_num = num, val_len = of_nat n, op_val = replicate n 0x61\<rparr>],
     pay_load := Some [1], pay_load_len := 1\<rparr>"


section \<open>Messages that the client builds\<close>

lemma option_insert_after_mset: "l \<noteq> [] \<Longrightarrow> mset (option_insert_after x l) = add_mset x (mset l)"
  by (induction x l rule: option_insert_after.induct) auto

lemma option_insert_after_set: "l \<noteq> [] \<Longrightarrow> set (option_insert_after x l) = insert x (set l)"
  using arg_cong [OF option_insert_after_mset, of l set_mset x] by simp

lemma option_insert_after_sorted:
  "sorted (map option_num l) \<Longrightarrow> l \<noteq> [] \<Longrightarrow> option_num (hd l) \<le> option_num x \<Longrightarrow> sorted (map option_num (option_insert_after x l))"
  by (induction x l rule: option_insert_after.induct) (auto simp: option_insert_after_set)

lemma option_add_cases:
  assumes "coap_message_option_add malloc m num len val w = Some (rc, m', w')"
  obtains (no_memory) "rc = QCLOUD_ERR_FAILURE" and "m' = m"
  | (added) x l where "rc = QCLOUD_RET_SUCCESS" and "m' = m\<lparr>op_list := l\<rparr>" and "x = \<lparr>option_num = ucast num, val_len = len, op_val = take (unat len) val\<rparr>"
      and "unat len \<le> length val" and "mset l = add_mset x (mset (op_list m))" and "sorted (map option_num (op_list m)) \<longrightarrow> sorted (map option_num l)"
proof -
  obtain r w1 where r: "qcloud_iot_coap_option_init malloc num len val 0 w = Some (r, w1)"
    using assms by (auto simp: coap_message_option_add_def bind_Some_iff)
  show thesis
  proof (cases r)
    case None
    with assms r no_memory show thesis by (simp add: coap_message_option_add_def)
  next
    case (Some x)
    then have x: "x = \<lparr>option_num = ucast num, val_len = len, op_val = take (unat len) val\<rparr>" "unat len \<le> length val"
      using r by (auto simp: qcloud_iot_coap_option_init_def bind_Some_iff rd_bytes_def split: prod.splits if_split_asm)
    define l where "l = (case op_list m of [] \<Rightarrow> [x] | y # ys \<Rightarrow> if option_num x < option_num y then x # y # ys else option_insert_after x (y # ys))"
    have "rc = QCLOUD_RET_SUCCESS" "m' = m\<lparr>op_list := l\<rparr>"
      using assms r Some unfolding l_def by (auto simp: coap_message_option_add_def split: list.splits if_split_asm)
    moreover have "mset l = add_mset x (mset (op_list m))"
      by (simp add: l_def option_insert_after_mset split: list.split)
    moreover have "sorted (map option_num (op_list m)) \<longrightarrow> sorted (map option_num l)"
      unfolding l_def using option_insert_after_sorted [of "op_list m" x]
      by (auto split: list.split)
    ultimately show thesis
      using x by (intro added)
  qed
qed

text \<open>
  The messages that the functions of \<^verbatim>\<open>coap_client_common.c\<close> build, starting with \<^verbatim>\<open>DEFAULT_COAP_MESSAGE\<close>; \<open>allocate\<close> is the
  caller's assignment of a payload buffer.
\<close>

inductive coap_build :: "('w \<Rightarrow> bool \<times> 'w) \<Rightarrow> CoAPMessage \<Rightarrow> bool" for malloc where
  start: "coap_build malloc DEFAULT_COAP_MESSAGE"
| type_set: "coap_build malloc m \<Longrightarrow> coap_message_type_set m t = (rc, m') \<Longrightarrow> coap_build malloc m'"
| code_set: "coap_build malloc m \<Longrightarrow> coap_message_code_set m class detail = (rc, m') \<Longrightarrow> coap_build malloc m'"
| id_set: "coap_build malloc m \<Longrightarrow> coap_message_id_set m n = (rc, m') \<Longrightarrow> coap_build malloc m'"
| token_set: "coap_build malloc m \<Longrightarrow> coap_message_token_set m bs n = Some (rc, m') \<Longrightarrow> coap_build malloc m'"
| allocate: "coap_build malloc m \<Longrightarrow> n \<le> length pl \<Longrightarrow> length pl < 2 ^ 32 \<Longrightarrow> coap_build malloc (m\<lparr>pay_load := Some pl, pay_load_len := n\<rparr>)"
| payload_set: "coap_build malloc m \<Longrightarrow> coap_message_payload_set m bs n = Some (rc, m') \<Longrightarrow> n < 2 ^ 32 \<Longrightarrow> coap_build malloc m'"
| option_add: "coap_build malloc m \<Longrightarrow> coap_message_option_add malloc m num len val w = Some (rc, m', w') \<Longrightarrow> unat len < 65536 + 269 \<Longrightarrow>
    coap_build malloc m'"
| callback_set: "coap_build malloc m \<Longrightarrow> coap_message_callback_set m cb = (rc, m') \<Longrightarrow> coap_build malloc m'"
| context_set: "coap_build malloc m \<Longrightarrow> coap_message_context_set m c = (rc, m') \<Longrightarrow> coap_build malloc m'"

lemma message_ok_default: "message_ok DEFAULT_COAP_MESSAGE"
  by (simp add: message_ok_def DEFAULT_COAP_MESSAGE_def)

lemma message_ok_setters:
  "message_ok m \<Longrightarrow> coap_message_type_set m t = (rc, m') \<Longrightarrow> message_ok m'"
  "message_ok m \<Longrightarrow> coap_message_code_set m class detail = (rc, m') \<Longrightarrow> message_ok m'"
  "message_ok m \<Longrightarrow> coap_message_id_set m n = (rc, m') \<Longrightarrow> message_ok m'"
  "message_ok m \<Longrightarrow> coap_message_callback_set m cb = (rc, m') \<Longrightarrow> message_ok m'"
  "message_ok m \<Longrightarrow> coap_message_context_set m c = (rc, m') \<Longrightarrow> message_ok m'"
proof -
  show "message_ok m \<Longrightarrow> coap_message_type_set m t = (rc, m') \<Longrightarrow> message_ok m'"
    by (auto simp: coap_message_type_set_def message_ok_def cong: option.case_cong split: if_split_asm)
  have "class \<le> 7 \<Longrightarrow> class < 8" "detail \<le> 31 \<Longrightarrow> detail < 32"
    by (simp_all add: word_le_nat_alt word_less_nat_alt)
  then show "message_ok m \<Longrightarrow> coap_message_code_set m class detail = (rc, m') \<Longrightarrow> message_ok m'"
    by (auto simp: coap_message_code_set_def message_ok_def COAP_MSG_MAX_CODE_CLASS_def COAP_MSG_MAX_CODE_DETAIL_def not_less cong: option.case_cong split: if_split_asm)
  show "message_ok m \<Longrightarrow> coap_message_id_set m n = (rc, m') \<Longrightarrow> message_ok m'"
    by (auto simp: coap_message_id_set_def message_ok_def cong: option.case_cong split: if_split_asm)
  show "message_ok m \<Longrightarrow> coap_message_callback_set m cb = (rc, m') \<Longrightarrow> message_ok m'"
    by (auto simp: coap_message_callback_set_def message_ok_def cong: option.case_cong)
  show "message_ok m \<Longrightarrow> coap_message_context_set m c = (rc, m') \<Longrightarrow> message_ok m'"
    by (auto simp: coap_message_context_set_def message_ok_def cong: option.case_cong)
qed

lemma message_ok_token_set:
  "message_ok m \<Longrightarrow> coap_message_token_set m bs n = Some (rc, m') \<Longrightarrow> message_ok m'"
  by (auto simp: coap_message_token_set_def message_ok_def bind_Some_iff COAP_MSG_MAX_TOKEN_LEN_def rd_bytes_def wr_bytes_def
      unat_of_nat take_bit_nat_eq_self cong: option.case_cong split: if_split_asm)

lemma message_ok_payload_set:
  "message_ok m \<Longrightarrow> coap_message_payload_set m bs n = Some (rc, m') \<Longrightarrow> n < 2 ^ 32 \<Longrightarrow> message_ok m'"
  by (auto simp: coap_message_payload_set_def message_ok_def bind_Some_iff Let_def rd_bytes_def wr_bytes_def split: if_split_asm option.splits)

lemma message_ok_option_add:
  assumes "message_ok m" and "coap_message_option_add malloc m num len val w = Some (rc, m', w')" and "unat len < 65536 + 269"
  shows "message_ok m'"
  using assms(2)
proof (cases rule: option_add_cases)
  case no_memory
  with assms(1) show ?thesis by simp
next
  case (added x l)
  have "option_ok x"
    using added(3,4) assms(3) by (simp add: option_ok_def)
  moreover have "set l = insert x (set (op_list m))"
    using arg_cong [OF added(5), of set_mset] by simp
  ultimately show ?thesis
    using assms(1) added(2,6) by (simp add: message_ok_def list_all_iff cong: option.case_cong)
qed

text \<open>
  C39: Every message that the building functions produce is well formed: the fields fit their bits, the token its array and the payload
  its buffer, the length of every option is that of its value, and the options are in the order of their numbers, which the encoding
  of deltas needs; adding an option never loses another.
\<close>

theorem coap_build_well_formed:
  assumes "coap_build malloc m"
  shows "message_ok m \<and>
    (coap_message_option_add malloc m num len val w = Some (QCLOUD_RET_SUCCESS, m', w') \<longrightarrow>
       mset (op_list m') = add_mset \<lparr>option_num = ucast num, val_len = len, op_val = take (unat len) val\<rparr> (mset (op_list m)))"
proof
  show "message_ok m"
    using assms
  proof induction
    case (allocate m n pl)
    then show ?case by (auto simp: message_ok_def split: option.splits)
  qed (rule message_ok_default | erule (1) message_ok_setters message_ok_token_set | erule (2) message_ok_payload_set message_ok_option_add)+
  show "coap_message_option_add malloc m num len val w = Some (QCLOUD_RET_SUCCESS, m', w') \<longrightarrow>
       mset (op_list m') = add_mset \<lparr>option_num = ucast num, val_len = len, op_val = take (unat len) val\<rparr> (mset (op_list m))"
    by (auto elim!: option_add_cases)
qed

theorem coap_build_well_formed_witness:
  "message_ok (DEFAULT_COAP_MESSAGE\<lparr>coap_msg_id := 7\<rparr>) \<and>
    mset (op_list (DEFAULT_COAP_MESSAGE\<lparr>coap_msg_id := 7, op_list := [\<lparr>option_num = 62, val_len = 1, op_val = [0x30]\<rparr>]\<rparr>)) =
      add_mset \<lparr>option_num = ucast (62 :: u32), val_len = 1, op_val = take (unat (1 :: u32)) [0x30]\<rparr> (mset (op_list (DEFAULT_COAP_MESSAGE\<lparr>coap_msg_id := 7\<rparr>)))"
proof -
  have "coap_message_id_set DEFAULT_COAP_MESSAGE 7 = (0, DEFAULT_COAP_MESSAGE\<lparr>coap_msg_id := 7\<rparr>)"
    by (simp add: coap_message_id_set_def COAP_MSG_MAX_MSG_ID_def)
  then have b: "coap_build (Pair True) (DEFAULT_COAP_MESSAGE\<lparr>coap_msg_id := 7\<rparr>)"
    by (rule coap_build.id_set [OF coap_build.start])
  have "coap_message_option_add (Pair True) (DEFAULT_COAP_MESSAGE\<lparr>coap_msg_id := 7\<rparr>) 62 1 [0x30] () =
      Some (QCLOUD_RET_SUCCESS, DEFAULT_COAP_MESSAGE\<lparr>coap_msg_id := 7, op_list := [\<lparr>option_num = 62, val_len = 1, op_val = [0x30]\<rparr>]\<rparr>, ())"
    by code_simp
  with coap_build_well_formed [OF b, of 62 1 "[0x30]" "()" "DEFAULT_COAP_MESSAGE\<lparr>coap_msg_id := 7, op_list := [\<lparr>option_num = 62, val_len = 1, op_val = [0x30]\<rparr>]\<rparr>" "()"]
  show ?thesis by metis
qed

end
