(* ===== verification/Hal_Timer.thy ===== *)
theory Hal_Timer
  imports Prelude
begin

text \<open>
  The timers of \<^verbatim>\<open>HAL_Timer_linux.c\<close> and their wrappers in \<^verbatim>\<open>utils_timer.c\<close>. A timer
  holds the time of day at which it ends; every operation takes the current \<^verbatim>\<open>gettimeofday\<close>
  reading as an argument. The \<^verbatim>\<open>timeradd\<close> and \<^verbatim>\<open>timersub\<close> macros of the C library are
  written out with their carry, and related to a count of microseconds.
\<close>

record timeval =
  tv_sec :: int
  tv_usec :: int

record Timer =
  end_time :: timeval

definition timeradd :: "timeval \<Rightarrow> timeval \<Rightarrow> timeval" where
  "timeradd a b =
     (let s = tv_sec a + tv_sec b; u = tv_usec a + tv_usec b
      in if u \<ge> 1000000 then \<lparr>tv_sec = s + 1, tv_usec = u - 1000000\<rparr> else \<lparr>tv_sec = s, tv_usec = u\<rparr>)"

definition timersub :: "timeval \<Rightarrow> timeval \<Rightarrow> timeval" where
  "timersub a b =
     (let s = tv_sec a - tv_sec b; u = tv_usec a - tv_usec b
      in if u < 0 then \<lparr>tv_sec = s - 1, tv_usec = u + 1000000\<rparr> else \<lparr>tv_sec = s, tv_usec = u\<rparr>)"

definition HAL_Timer_expired :: "timeval \<Rightarrow> Timer \<Rightarrow> bool" where
  "HAL_Timer_expired now timer =
     (let res = timersub (end_time timer) now
      in tv_sec res < 0 \<or> (tv_sec res = 0 \<and> tv_usec res \<le> 0))"

definition HAL_Timer_countdown_ms :: "timeval \<Rightarrow> u32 \<Rightarrow> Timer" where
  "HAL_Timer_countdown_ms now timeout_ms =
     (let interval = \<lparr>tv_sec = uint (timeout_ms div 1000), tv_usec = uint ((timeout_ms mod 1000) * 1000)\<rparr>
      in \<lparr>end_time = timeradd now interval\<rparr>)"

definition HAL_Timer_countdown :: "timeval \<Rightarrow> u32 \<Rightarrow> Timer" where
  "HAL_Timer_countdown now timeout =
     \<lparr>end_time = timeradd now \<lparr>tv_sec = uint timeout, tv_usec = 0\<rparr>\<rparr>"

text \<open>The remaining milliseconds are a \<^verbatim>\<open>long\<close> cut to \<^verbatim>\<open>int\<close>.\<close>

definition HAL_Timer_remain :: "timeval \<Rightarrow> Timer \<Rightarrow> int" where
  "HAL_Timer_remain now timer =
     (let res = timersub (end_time timer) now
      in if tv_sec res < 0 then 0
         else sint (word_of_int (tv_sec res * 1000 + tv_usec res div 1000) :: 32 word))"

definition HAL_Timer_init :: Timer where
  "HAL_Timer_init = \<lparr>end_time = \<lparr>tv_sec = 0, tv_usec = 0\<rparr>\<rparr>"

section \<open>Time as microseconds\<close>

definition usecs :: "timeval \<Rightarrow> int" where
  "usecs t = tv_sec t * 1000000 + tv_usec t"

definition timeval_ok :: "timeval \<Rightarrow> bool" where
  "timeval_ok t \<longleftrightarrow> 0 \<le> tv_usec t \<and> tv_usec t < 1000000"

lemma usecs_timeradd: "usecs (timeradd a b) = usecs a + usecs b"
  by (simp add: usecs_def timeradd_def Let_def)

lemma usecs_timersub: "usecs (timersub a b) = usecs a - usecs b"
  by (simp add: usecs_def timersub_def Let_def algebra_simps)

lemma timeval_ok_timeradd: "timeval_ok a \<Longrightarrow> timeval_ok b \<Longrightarrow> timeval_ok (timeradd a b)"
  by (auto simp: timeval_ok_def timeradd_def Let_def)

lemma timeval_ok_timersub: "timeval_ok a \<Longrightarrow> timeval_ok b \<Longrightarrow> timeval_ok (timersub a b)"
  by (auto simp: timeval_ok_def timersub_def Let_def)

lemma expired_usecs:
  assumes "timeval_ok now" and "timeval_ok (end_time timer)"
  shows "HAL_Timer_expired now timer \<longleftrightarrow> usecs (end_time timer) \<le> usecs now"
proof -
  let ?r = "timersub (end_time timer) now"
  have r: "0 \<le> tv_usec ?r" "tv_usec ?r < 1000000"
    using timeval_ok_timersub [OF assms(2,1)] by (simp_all add: timeval_ok_def)
  have "HAL_Timer_expired now timer \<longleftrightarrow> usecs ?r \<le> 0"
    using r unfolding HAL_Timer_expired_def Let_def usecs_def
    by (cases "tv_sec ?r < 0"; cases "tv_sec ?r = 0"; simp; linarith)
  then show ?thesis
    by (simp add: usecs_timersub)
qed

lemma uint_ms:
  "uint (timeout_ms div 1000 :: u32) = uint timeout_ms div 1000"
  "uint ((timeout_ms mod 1000) * 1000 :: u32) = (uint timeout_ms mod 1000) * 1000"
proof -
  show "uint (timeout_ms div 1000 :: u32) = uint timeout_ms div 1000"
    by (simp add: uint_div)
  have "uint (timeout_ms mod 1000) = uint timeout_ms mod 1000"
    by (simp add: uint_mod)
  then show "uint ((timeout_ms mod 1000) * 1000 :: u32) = (uint timeout_ms mod 1000) * 1000"
    by (simp add: uint_word_ariths)
qed

lemma countdown_ms_usecs:
  assumes "timeval_ok now"
  shows "timeval_ok (end_time (HAL_Timer_countdown_ms now ms)) \<and>
    usecs (end_time (HAL_Timer_countdown_ms now ms)) = usecs now + uint ms * 1000"
proof
  have i: "timeval_ok \<lparr>tv_sec = uint (ms div 1000), tv_usec = uint ((ms mod 1000) * 1000)\<rparr>"
    by (simp add: timeval_ok_def uint_ms)
  then show "timeval_ok (end_time (HAL_Timer_countdown_ms now ms))"
    using assms by (simp add: HAL_Timer_countdown_ms_def timeval_ok_timeradd)
  show "usecs (end_time (HAL_Timer_countdown_ms now ms)) = usecs now + uint ms * 1000"
    unfolding HAL_Timer_countdown_ms_def Let_def usecs_timeradd Timer.simps
    by (simp add: usecs_def uint_ms) (use div_mult_mod_eq [of "uint ms" 1000] in linarith)
qed

lemma countdown_usecs:
  assumes "timeval_ok now"
  shows "timeval_ok (end_time (HAL_Timer_countdown now secs)) \<and>
    usecs (end_time (HAL_Timer_countdown now secs)) = usecs now + uint secs * 1000000"
  using assms
  by (auto simp: HAL_Timer_countdown_def usecs_timeradd intro!: timeval_ok_timeradd)
    (simp_all add: timeval_ok_def usecs_def)

lemma sint_of_int_small: "0 \<le> v \<Longrightarrow> v < 2 ^ 31 \<Longrightarrow> sint (word_of_int v :: 32 word) = v"
  by (simp add: signed_take_bit_int_eq_self signed_of_int)

text \<open>
  C21: A timer started with \<^verbatim>\<open>countdown_ms\<close> is expired exactly from the given number of
  milliseconds on, however the second and microsecond fields carry; until then
  \<^verbatim>\<open>left_ms\<close> is the number of whole milliseconds left (for timeouts that fit an \<^verbatim>\<open>int\<close>), and
  afterwards it is zero.
\<close>

theorem countdown_ms_expires:
  assumes "timeval_ok start" and "timeval_ok now" and "usecs start \<le> usecs now" and "uint ms < 2 ^ 31"
  defines "elapsed \<equiv> usecs now - usecs start"
  shows "(HAL_Timer_expired now (HAL_Timer_countdown_ms start ms) \<longleftrightarrow> uint ms * 1000 \<le> elapsed) \<and>
    HAL_Timer_remain now (HAL_Timer_countdown_ms start ms) = max 0 ((uint ms * 1000 - elapsed) div 1000)"
proof
  let ?t = "HAL_Timer_countdown_ms start ms"
  let ?r = "timersub (end_time (HAL_Timer_countdown_ms start ms)) now"
  have t: "timeval_ok (end_time ?t)" "usecs (end_time ?t) = usecs start + uint ms * 1000"
    using countdown_ms_usecs [OF assms(1)] by simp_all
  show "HAL_Timer_expired now ?t \<longleftrightarrow> uint ms * 1000 \<le> elapsed"
    using expired_usecs [OF assms(2) t(1)] t(2) by (auto simp: elapsed_def)
  have r: "0 \<le> tv_usec ?r" "tv_usec ?r < 1000000" "usecs ?r = uint ms * 1000 - elapsed"
    using timeval_ok_timersub [OF t(1) assms(2)] t(2) by (simp_all add: timeval_ok_def usecs_timersub elapsed_def)
  show "HAL_Timer_remain now ?t = max 0 ((uint ms * 1000 - elapsed) div 1000)"
  proof (cases "tv_sec ?r < 0")
    case True
    then have "usecs ?r < 0"
      using r by (simp add: usecs_def)
    then show ?thesis
      using True r by (simp add: HAL_Timer_remain_def)
  next
    case False
    let ?v = "tv_sec ?r * 1000 + tv_usec ?r div 1000"
    have v: "?v = (uint ms * 1000 - elapsed) div 1000"
      using r(3) by (simp add: usecs_def flip: r(3)) 
    have "0 \<le> ?v" "?v < 2 ^ 31"
      using False r assms(3,4) unfolding v by (simp_all add: elapsed_def usecs_def)
    then have "sint (word_of_int ?v :: 32 word) = ?v"
      by (rule sint_of_int_small)
    then show ?thesis
      using False \<open>0 \<le> ?v\<close> by (simp add: HAL_Timer_remain_def v)
  qed
qed


theorem countdown_ms_expires_witness:
  "(HAL_Timer_expired \<lparr>tv_sec = 11, tv_usec = 200000\<rparr> (HAL_Timer_countdown_ms \<lparr>tv_sec = 9, tv_usec = 900000\<rparr> 1500) \<longleftrightarrow>
      uint (1500 :: u32) * 1000 \<le> usecs \<lparr>tv_sec = 11, tv_usec = 200000\<rparr> - usecs \<lparr>tv_sec = 9, tv_usec = 900000\<rparr>) \<and>
    HAL_Timer_remain \<lparr>tv_sec = 11, tv_usec = 200000\<rparr> (HAL_Timer_countdown_ms \<lparr>tv_sec = 9, tv_usec = 900000\<rparr> 1500) =
      max 0 ((uint (1500 :: u32) * 1000 -
        (usecs \<lparr>tv_sec = 11, tv_usec = 200000\<rparr> - usecs \<lparr>tv_sec = 9, tv_usec = 900000\<rparr>)) div 1000)"
  by (rule countdown_ms_expires) (simp_all add: timeval_ok_def usecs_def)

end
