(* ===== verification/Iot_Device.thy ===== *)
theory Iot_Device
  imports Prelude
begin

text \<open>
  The device's identity, \<^verbatim>\<open>utils/qcloud_iot_device.c\<close>, and the C library's string functions as far as the clients use them.
\<close>

section \<open>Strings\<close>

text \<open>The bytes of a literal.\<close>

definition chars :: "string \<Rightarrow> cstr" where
  "chars str = map of_char str"

text \<open>\<^verbatim>\<open>HAL_Snprintf\<close> of the text \<open>str\<close> into a buffer of \<open>n\<close> bytes: the string left there, and the result.\<close>

definition HAL_Snprintf :: "nat \<Rightarrow> cstr \<Rightarrow> cstr \<times> int" where
  "HAL_Snprintf n str = (take (n - 1) str, int (length str))"

text \<open>\<^verbatim>\<open>strlen\<close> of a buffer, which reads behind the buffer if it has no NUL, and \<^verbatim>\<open>strncpy\<close> of \<open>n\<close> bytes from a buffer.\<close>

definition buf_strlen :: "byte list \<Rightarrow> nat option" where
  "buf_strlen b = (if 0 \<in> set b then Some (length (takeWhile (\<lambda>c. c \<noteq> 0) b)) else None)"

definition buf_strncpy :: "byte list \<Rightarrow> nat \<Rightarrow> byte list option" where
  "buf_strncpy b n =
     (let str = takeWhile (\<lambda>c. c \<noteq> 0) (take n b)
      in if length b < n \<and> length str = length b then None else Some (str @ replicate (n - length str) 0))"

section \<open>The device\<close>

definition MAX_SIZE_OF_CLIENT_ID :: nat where "MAX_SIZE_OF_CLIENT_ID = 80"
definition MAX_SIZE_OF_PRODUCT_ID :: nat where "MAX_SIZE_OF_PRODUCT_ID = 10"
definition MAX_SIZE_OF_DEVICE_NAME :: nat where "MAX_SIZE_OF_DEVICE_NAME = 48"

text \<open>The arrays are one byte longer than the limits and cleared first, so that they hold strings.\<close>

record DeviceInfo =
  product_id :: cstr
  device_name :: cstr
  dev_client_id :: cstr

definition empty_device_info :: DeviceInfo where
  "empty_device_info = \<lparr>product_id = [], device_name = [], dev_client_id = []\<rparr>"

definition iot_device_info_set :: "cstr \<Rightarrow> cstr \<Rightarrow> int \<times> DeviceInfo" where
  "iot_device_info_set product device =
     (let device_info = empty_device_info in
      if MAX_SIZE_OF_PRODUCT_ID < length product then (QCLOUD_ERR_FAILURE, device_info)
      else if MAX_SIZE_OF_DEVICE_NAME < length device then (QCLOUD_ERR_FAILURE, device_info)
      else
        let device_info = device_info\<lparr>product_id := take MAX_SIZE_OF_PRODUCT_ID product, device_name := take MAX_SIZE_OF_DEVICE_NAME device\<rparr>;
            (str, ret) = HAL_Snprintf MAX_SIZE_OF_CLIENT_ID (product @ device);
            device_info = device_info\<lparr>dev_client_id := str\<rparr>
        in if ret < 0 \<or> ret \<ge> int MAX_SIZE_OF_CLIENT_ID then (QCLOUD_ERR_FAILURE, device_info)
           else (QCLOUD_RET_SUCCESS, device_info))"

lemma device_info_set:
  "iot_device_info_set product device =
     (if length product \<le> 10 \<and> length device \<le> 48
      then (QCLOUD_RET_SUCCESS, \<lparr>product_id = product, device_name = device, dev_client_id = product @ device\<rparr>)
      else (QCLOUD_ERR_FAILURE, empty_device_info))"
  by (auto simp: iot_device_info_set_def empty_device_info_def HAL_Snprintf_def MAX_SIZE_OF_CLIENT_ID_def MAX_SIZE_OF_PRODUCT_ID_def
      MAX_SIZE_OF_DEVICE_NAME_def Let_def)

end
