(* ===== verification/Coap_Client.thy ===== *)
theory Coap_Client
  imports Coap_Messages Hal_Timer Iot_Device
begin

text \<open>
  The CoAP client: \<^verbatim>\<open>protocol/coap/coap_client_message.c\<close> (sending, receiving, retransmission), \<^verbatim>\<open>coap_client_auth.c\<close>
  (authentication) and \<^verbatim>\<open>coap_client.c\<close> (construction and the calls of the application).

  \<open>CoAPClient\<close> is the structure of \<^verbatim>\<open>coap_client.h\<close>; \<open>coap_sys\<close> extends it with the calls made to the application and the
  state \<open>'w\<close> of the environment.  The list of requests is the sequence of its values from head to tail (\<open>Utils_List\<close> shows that the linked
  list implements it); a sweep visits it from the tail and unlinks a node after it has stepped to the next.  The callbacks of the application
  are recorded and change no client state; the callback of the authentication is the one callback with an effect on the client.
\<close>

section \<open>The client structure\<close>

datatype CoAPNodeState = COAP_NODE_STATE_NORMANL | COAP_NODE_STATE_INVALID

record CoAPMsgSendInfo =
  node_state :: CoAPNodeState
  si_user_context :: "nat option"
  si_msg_id :: u16
  acked :: byte
  si_token_len :: byte
  si_token :: "byte list"
  retrans_count :: byte
  start_time :: Timer
  si_message :: "byte list option"
  msglen :: u32
  si_handler :: "OnRespCallback option"

datatype CoAPEventType = COAP_EVENT_RECEIVE_ACK | COAP_EVENT_RECEIVE_RESPCONTENT | COAP_EVENT_UNAUTHORIZED | COAP_EVENT_FORBIDDEN
  | COAP_EVENT_INTERNAL_SERVER_ERROR | COAP_EVENT_ACK_TIMEOUT | COAP_EVENT_SEPRESP_TIMEOUT

fun CoAPEventType_val :: "CoAPEventType \<Rightarrow> int" where
  "CoAPEventType_val COAP_EVENT_RECEIVE_ACK = 0"
| "CoAPEventType_val COAP_EVENT_RECEIVE_RESPCONTENT = 1"
| "CoAPEventType_val COAP_EVENT_UNAUTHORIZED = - 1"
| "CoAPEventType_val COAP_EVENT_FORBIDDEN = - 2"
| "CoAPEventType_val COAP_EVENT_INTERNAL_SERVER_ERROR = - 3"
| "CoAPEventType_val COAP_EVENT_ACK_TIMEOUT = - 4"
| "CoAPEventType_val COAP_EVENT_SEPRESP_TIMEOUT = - 5"

text \<open>The field \<^verbatim>\<open>message\<close> of an event is a message or, cast to a pointer, a message id.\<close>

datatype event_content = EventMsg CoAPMessage | EventId u16

datatype coap_upcall = RespCall nat CoAPMessage "nat option" | EventCall CoAPEventType event_content

definition COAP_SENDMSG_MAX_BUFLEN :: nat where "COAP_SENDMSG_MAX_BUFLEN = 512"
definition COAP_RECVMSG_MAX_BUFLEN :: nat where "COAP_RECVMSG_MAX_BUFLEN = 512"
definition COAP_MAX_CONN_ID_LEN :: nat where "COAP_MAX_CONN_ID_LEN = 6"
definition URI_PATH_MAX_LEN :: nat where "URI_PATH_MAX_LEN = 128"
definition COAP_MIN_COMMAND_TIMEOUT :: u32 where "COAP_MIN_COMMAND_TIMEOUT = 500"
definition COAP_MAX_COMMAND_TIMEOUT :: u32 where "COAP_MAX_COMMAND_TIMEOUT = 5000"
definition COAP_AUTH_URI :: cstr where "COAP_AUTH_URI = chars ''txauth9w0BAQsFA''"
definition COAP_SDK_APPID :: cstr where "COAP_SDK_APPID = chars ''21010406''"

abbreviation (input) COAP_TRUE :: int where "COAP_TRUE \<equiv> 1"
abbreviation (input) COAP_FALSE :: int where "COAP_FALSE \<equiv> 0"
abbreviation (input) COAP_MSG_POST :: u32 where "COAP_MSG_POST \<equiv> 2"
abbreviation (input) COAP_MSG_CODE_205_CONTENT :: u32 where "COAP_MSG_CODE_205_CONTENT \<equiv> 5"
abbreviation (input) COAP_MSG_CODE_401_UNAUTHORIZED :: u32 where "COAP_MSG_CODE_401_UNAUTHORIZED \<equiv> 1"
abbreviation (input) COAP_MSG_CODE_403_FORBIDDEN :: u32 where "COAP_MSG_CODE_403_FORBIDDEN \<equiv> 3"
abbreviation (input) COAP_MSG_CODE_600_TIMEOUT :: u32 where "COAP_MSG_CODE_600_TIMEOUT \<equiv> 0"
abbreviation (input) COAP_MSG_URI_PATH :: u32 where "COAP_MSG_URI_PATH \<equiv> 11"
abbreviation (input) COAP_MSG_AUTH_TOKEN :: u32 where "COAP_MSG_AUTH_TOKEN \<equiv> 61"
abbreviation (input) COAP_MSG_NEED_RESP :: u32 where "COAP_MSG_NEED_RESP \<equiv> 62"

text \<open>
  The two mutexes are flags that say whether they are held.  The list is \<open>None\<close> when \<^verbatim>\<open>list_new\<close> found no memory.
  \<open>coap_event_handle\<close> says whether the application has set an event handler.
\<close>

record CoAPClient =
  is_authed :: int
  conn_id :: cstr
  message_token :: u32
  auth_token :: "byte list option"
  auth_token_len :: nat
  next_msg_id :: u16
  send_buf_size :: nat
  coap_read_buf_size :: nat
  send_buf :: "byte list"
  recv_buf :: "byte list"
  lock_send_buf :: bool
  lock_list_wait_ack :: bool
  coap_timeout_ms :: u32
  message_list :: "CoAPMsgSendInfo list option"
  max_retry_count :: byte
  coap_event_handle :: bool
  device_info :: DeviceInfo
  coap_host_addr :: cstr
  psk_decode :: "byte list"
  psk_length :: nat

record 'w coap_sys = CoAPClient +
  calls :: "coap_upcall list"
  net :: 'w

section \<open>The environment\<close>

text \<open>
  The clock, the datagram socket (DTLS or UDP), \<^verbatim>\<open>malloc\<close> with the contents of fresh memory, \<^verbatim>\<open>rand\<close> and the creation of mutexes.
  \<open>dtls_read\<close> is given the length and the timeout and returns the code and the bytes stored; \<open>dtls_write\<close> is given the bytes and the
  timeout and returns the code and the number of bytes written.
\<close>

record 'w coap_env =
  coap_time :: "'w \<Rightarrow> timeval \<times> 'w"
  dtls_read :: "nat \<Rightarrow> int \<Rightarrow> 'w \<Rightarrow> int \<times> byte list \<times> 'w"
  dtls_write :: "byte list \<Rightarrow> int \<Rightarrow> 'w \<Rightarrow> int \<times> nat \<times> 'w"
  dtls_connect :: "'w \<Rightarrow> int \<times> 'w"
  dtls_disconnect :: "'w \<Rightarrow> 'w"
  coap_malloc :: "'w \<Rightarrow> bool \<times> 'w"
  coap_fresh :: "nat \<Rightarrow> 'w \<Rightarrow> byte list"
  coap_rand :: "'w \<Rightarrow> nat \<times> 'w"
  coap_mutex :: "'w \<Rightarrow> bool \<times> 'w"

definition coap_left_ms :: "'w coap_env \<Rightarrow> Timer \<Rightarrow> 'w coap_sys \<Rightarrow> int \<times> 'w coap_sys" where
  "coap_left_ms env timer s = (let (t, w) = coap_time env (net s) in (HAL_Timer_remain t timer, s\<lparr>net := w\<rparr>))"

definition coap_countdown_ms :: "'w coap_env \<Rightarrow> u32 \<Rightarrow> 'w coap_sys \<Rightarrow> Timer \<times> 'w coap_sys" where
  "coap_countdown_ms env ms s = (let (t, w) = coap_time env (net s) in (HAL_Timer_countdown_ms t ms, s\<lparr>net := w\<rparr>))"

definition alloc :: "'w coap_env \<Rightarrow> nat \<Rightarrow> 'w coap_sys \<Rightarrow> byte list option \<times> 'w coap_sys" where
  "alloc env n s =
     (let (got, w) = coap_malloc env (net s) in (if got then Some (coap_fresh env n w) else None, s\<lparr>net := w\<rparr>))"

definition lock_buf :: "'w coap_sys \<Rightarrow> 'w coap_sys option" where
  "lock_buf s = (if lock_send_buf s then None else Some (s\<lparr>lock_send_buf := True\<rparr>))"

definition unlock_buf :: "'w coap_sys \<Rightarrow> 'w coap_sys option" where
  "unlock_buf s = (if lock_send_buf s then Some (s\<lparr>lock_send_buf := False\<rparr>) else None)"

definition lock_list :: "'w coap_sys \<Rightarrow> 'w coap_sys option" where
  "lock_list s = (if lock_list_wait_ack s then None else Some (s\<lparr>lock_list_wait_ack := True\<rparr>))"

definition unlock_list :: "'w coap_sys \<Rightarrow> 'w coap_sys option" where
  "unlock_list s = (if lock_list_wait_ack s then Some (s\<lparr>lock_list_wait_ack := False\<rparr>) else None)"

section \<open>Ids, tokens, callbacks\<close>

definition get_next_coap_msg_id :: "'w coap_sys \<Rightarrow> u16 \<times> 'w coap_sys" where
  "get_next_coap_msg_id s =
     (let n = (if COAP_MSG_MAX_MSG_ID = unat (next_msg_id s) then 1 else next_msg_id s + 1) in (n, s\<lparr>next_msg_id := n\<rparr>))"

text \<open>The token is written to the first four of the eight bytes of the caller's array, which are zero.\<close>

definition get_coap_message_token :: "'w coap_sys \<Rightarrow> nat \<times> byte list \<times> 'w coap_sys" where
  "get_coap_message_token s =
     (let v = message_token s
      in (4, [ucast (v AND 0x00FF), ucast (drop_bit 8 (v AND 0xFF00)), ucast (drop_bit 16 (v AND 0xFF0000)), ucast (drop_bit 24 (v AND 0xFF000000)),
              0, 0, 0, 0], s\<lparr>message_token := v + 1\<rparr>))"

text \<open>The callback of the authentication request; the token is copied as a string.\<close>

definition coap_client_auth_callback :: "'w coap_env \<Rightarrow> CoAPMessage \<Rightarrow> nat option \<Rightarrow> 'w coap_sys \<Rightarrow> 'w coap_sys option" where
  "coap_client_auth_callback env msg userContext s =
     (if userContext = None then Some s
      else if code_class msg = COAP_MSG_SUCCESS \<and> code_detail msg = COAP_MSG_CODE_205_CONTENT then
        case pay_load msg of
          None \<Rightarrow> Some (s\<lparr>is_authed := COAP_FALSE\<rparr>)
        | Some pl \<Rightarrow>
            if pay_load_len msg = 0 then Some (s\<lparr>is_authed := COAP_FALSE\<rparr>)
            else do {
              n \<leftarrow> buf_strlen pl;
              if n = 0 then Some (s\<lparr>is_authed := COAP_FALSE\<rparr>)
              else do {
                let s = s\<lparr>auth_token_len := pay_load_len msg\<rparr>;
                let (tok, s) = alloc env (auth_token_len s) s;
                if tok = None then None
                else do {
                  tok \<leftarrow> buf_strncpy pl (auth_token_len s);
                  Some (s\<lparr>auth_token := Some tok, is_authed := COAP_TRUE\<rparr>)
                }
              }
            }
      else Some (s\<lparr>is_authed := COAP_FALSE\<rparr>))"

definition call_handler :: "'w coap_env \<Rightarrow> OnRespCallback \<Rightarrow> CoAPMessage \<Rightarrow> nat option \<Rightarrow> 'w coap_sys \<Rightarrow> 'w coap_sys option" where
  "call_handler env h message ctx s =
     (case h of
        auth_callback \<Rightarrow> coap_client_auth_callback env message ctx s
      | user_callback f \<Rightarrow> Some (s\<lparr>calls := calls s @ [RespCall f message ctx]\<rparr>))"

definition call_event :: "CoAPEventType \<Rightarrow> event_content \<Rightarrow> 'w coap_sys \<Rightarrow> 'w coap_sys" where
  "call_event ev c s = (if coap_event_handle s then s\<lparr>calls := calls s @ [EventCall ev c]\<rparr> else s)"

section \<open>The list of requests\<close>

datatype process_cmd = PROCESS_ACK_CMD | PROCESS_PIGGY_CMD | PROCESS_RESP_CMD | PROCESS_WAIT_CMD

definition event_message_type :: "CoAPMessage \<Rightarrow> process_cmd \<Rightarrow> CoAPEventType" where
  "event_message_type message processCmd =
     (if code_class message = COAP_MSG_SUCCESS \<and> code_detail message = COAP_MSG_CODE_205_CONTENT
      then if processCmd = PROCESS_RESP_CMD then COAP_EVENT_RECEIVE_RESPCONTENT else COAP_EVENT_RECEIVE_ACK
      else if code_class message = COAP_MSG_CLIENT_ERR \<and> code_detail message = COAP_MSG_CODE_401_UNAUTHORIZED then COAP_EVENT_UNAUTHORIZED
      else if code_class message = COAP_MSG_CLIENT_ERR \<and> code_detail message = COAP_MSG_CODE_403_FORBIDDEN then COAP_EVENT_FORBIDDEN
      else COAP_EVENT_INTERNAL_SERVER_ERROR)"

text \<open>
  One function per command, for one node of the list: the node (\<open>None\<close> when it is unlinked), the message, which the code changes
  as it goes, and the state.
\<close>

definition process_ack :: "'w coap_env \<Rightarrow> CoAPMsgSendInfo \<Rightarrow> CoAPMessage \<Rightarrow> 'w coap_sys \<Rightarrow>
    (CoAPMsgSendInfo option \<times> CoAPMessage \<times> 'w coap_sys) option" where
  "process_ack env send_info message s =
     (if si_msg_id send_info = coap_msg_id message then
        let (t, s) = coap_countdown_ms env (coap_timeout_ms s) s
        in Some (Some (send_info\<lparr>acked := 1, start_time := t\<rparr>), message, s)
      else Some (Some send_info, message, s))"

definition process_resp :: "'w coap_env \<Rightarrow> CoAPMsgSendInfo \<Rightarrow> CoAPMessage \<Rightarrow> 'w coap_sys \<Rightarrow>
    (CoAPMsgSendInfo option \<times> CoAPMessage \<times> 'w coap_sys) option" where
  "process_resp env send_info message s =
     (if si_token_len send_info \<noteq> 0 \<and> ucast (si_token_len send_info) = token_len message then do {
        a \<leftarrow> rd_bytes (si_token send_info) 0 (unat (token_len message));
        b \<leftarrow> rd_bytes (token message) 0 (unat (token_len message));
        if a = b then do {
          let message = message\<lparr>user_context := si_user_context send_info\<rparr>;
          (message, s) \<leftarrow>
            (case si_handler send_info of
               Some h \<Rightarrow> do { s \<leftarrow> call_handler env h message (si_user_context send_info) s; Some (message, s) }
             | None \<Rightarrow>
                 if coap_event_handle s then
                   let ev = event_message_type message PROCESS_RESP_CMD;
                       message = message\<lparr>coap_msg_id := si_msg_id send_info\<rparr>
                   in Some (message, call_event ev (EventMsg message) s)
                 else Some (message, s));
          Some (Some (send_info\<lparr>node_state := COAP_NODE_STATE_INVALID\<rparr>), message, s)
        } else Some (Some send_info, message, s)
      } else Some (Some send_info, message, s))"

definition process_piggy :: "'w coap_env \<Rightarrow> CoAPMsgSendInfo \<Rightarrow> CoAPMessage \<Rightarrow> 'w coap_sys \<Rightarrow>
    (CoAPMsgSendInfo option \<times> CoAPMessage \<times> 'w coap_sys) option" where
  "process_piggy env send_info message s =
     (if si_msg_id send_info = coap_msg_id message then do {
        let message = message\<lparr>user_context := si_user_context send_info\<rparr>;
        s \<leftarrow> (case si_handler send_info of
                Some h \<Rightarrow> call_handler env h message (si_user_context send_info) s
              | None \<Rightarrow> Some (call_event (event_message_type message PROCESS_PIGGY_CMD) (EventId (coap_msg_id message)) s));
        Some (Some (send_info\<lparr>acked := 1, node_state := COAP_NODE_STATE_INVALID\<rparr>), message, s)
      } else Some (Some send_info, message, s))"

definition retransmit :: "'w coap_env \<Rightarrow> CoAPMsgSendInfo \<Rightarrow> 'w coap_sys \<Rightarrow> (CoAPMsgSendInfo \<times> 'w coap_sys) option" where
  "retransmit env send_info s = do {
     let (t, s) = coap_countdown_ms env (coap_timeout_ms s) s;
     let send_info = send_info\<lparr>start_time := t, retrans_count := retrans_count send_info + 1\<rparr>;
     m \<leftarrow> si_message send_info;
     bs \<leftarrow> rd_bytes m 0 (unat (msglen send_info));
     let (left, s) = coap_left_ms env (start_time send_info) s;
     let (ret, written_len, w) = dtls_write env bs left (net s);
     Some (send_info, s\<lparr>net := w\<rparr>)
   }"

definition report_timeout :: "'w coap_env \<Rightarrow> CoAPMsgSendInfo \<Rightarrow> CoAPMessage \<Rightarrow> 'w coap_sys \<Rightarrow> (CoAPMessage \<times> 'w coap_sys) option" where
  "report_timeout env send_info message s =
     (case si_handler send_info of
        Some h \<Rightarrow> do {
          let message = message\<lparr>msg_type := COAP_MSG_ACK, user_context := si_user_context send_info, code_class := COAP_MSG_SDKINTERNAL_ERR,
            code_detail := COAP_MSG_CODE_600_TIMEOUT, coap_msg_id := si_msg_id send_info\<rparr>;
          s \<leftarrow> call_handler env h message (si_user_context send_info) s;
          Some (message, s)
        }
      | None \<Rightarrow>
          Some (message, call_event (if acked send_info \<noteq> 0 then COAP_EVENT_SEPRESP_TIMEOUT else COAP_EVENT_ACK_TIMEOUT) (EventId (si_msg_id send_info)) s))"

definition process_wait :: "'w coap_env \<Rightarrow> CoAPMsgSendInfo \<Rightarrow> CoAPMessage \<Rightarrow> 'w coap_sys \<Rightarrow>
    (CoAPMsgSendInfo option \<times> CoAPMessage \<times> 'w coap_sys) option" where
  "process_wait env send_info message s =
     (if node_state send_info = COAP_NODE_STATE_INVALID then Some (None, message, s)
      else
        let (left, s) = coap_left_ms env (start_time send_info) s in
        if left > 0 then Some (Some send_info, message, s)
        else if retrans_count send_info < max_retry_count s \<and> acked send_info = 0 then do {
          (send_info, s) \<leftarrow> retransmit env send_info s;
          Some (Some send_info, message, s)
        } else do {
          (message, s) \<leftarrow> report_timeout env send_info message s;
          Some (None, message, s)
        })"

definition process_node :: "'w coap_env \<Rightarrow> process_cmd \<Rightarrow> CoAPMsgSendInfo \<Rightarrow> CoAPMessage \<Rightarrow> 'w coap_sys \<Rightarrow>
    (CoAPMsgSendInfo option \<times> CoAPMessage \<times> 'w coap_sys) option" where
  "process_node env processCmd =
     (case processCmd of
        PROCESS_ACK_CMD \<Rightarrow> process_ack env
      | PROCESS_PIGGY_CMD \<Rightarrow> process_piggy env
      | PROCESS_RESP_CMD \<Rightarrow> process_resp env
      | PROCESS_WAIT_CMD \<Rightarrow> process_wait env)"

text \<open>The loop over the nodes, given in the order in which the iterator visits them.\<close>

fun list_proc_loop :: "'w coap_env \<Rightarrow> process_cmd \<Rightarrow> CoAPMsgSendInfo list \<Rightarrow> CoAPMessage \<Rightarrow> 'w coap_sys \<Rightarrow>
    (CoAPMsgSendInfo list \<times> CoAPMessage \<times> 'w coap_sys) option" where
  "list_proc_loop env processCmd [] message s = Some ([], message, s)"
| "list_proc_loop env processCmd (node # nodes) message s = do {
     (kept, message, s) \<leftarrow> process_node env processCmd node message s;
     (nodes, message, s) \<leftarrow> list_proc_loop env processCmd nodes message s;
     Some ((case kept of None \<Rightarrow> nodes | Some node \<Rightarrow> node # nodes), message, s)
   }"

definition coap_message_list_proc :: "'w coap_env \<Rightarrow> CoAPMessage \<Rightarrow> process_cmd \<Rightarrow> 'w coap_sys \<Rightarrow> (int \<times> CoAPMessage \<times> 'w coap_sys) option" where
  "coap_message_list_proc env message processCmd s = do {
     s \<leftarrow> lock_list s;
     nodes \<leftarrow> message_list s;
     if nodes = [] then do { s \<leftarrow> unlock_list s; Some (QCLOUD_ERR_FAILURE, message, s) }
     else do {
       let (iter, s) = alloc env 0 s;
       if iter = None then do { s \<leftarrow> unlock_list s; Some (QCLOUD_RET_SUCCESS, message, s) }
       else do {
         (nodes, message, s) \<leftarrow> list_proc_loop env processCmd (rev nodes) message s;
         s \<leftarrow> unlock_list (s\<lparr>message_list := Some (rev nodes)\<rparr>);
         Some (QCLOUD_RET_SUCCESS, message, s)
       }
     }
   }"

section \<open>Sending\<close>

text \<open>\<open>len\<close> is the number of bytes of the send buffer that were written to the network.\<close>

definition coap_message_list_add :: "'w coap_env \<Rightarrow> CoAPMessage \<Rightarrow> nat \<Rightarrow> 'w coap_sys \<Rightarrow> (int \<times> 'w coap_sys) option" where
  "coap_message_list_add env message len s = do {
     let (mem, s) = alloc env 0 s;
     if mem = None then Some (QCLOUD_ERR_FAILURE, s)
     else do {
       let send_info = \<lparr>node_state = COAP_NODE_STATE_NORMANL, si_user_context = user_context message, si_msg_id = coap_msg_id message, acked = 0,
         si_token_len = 0, si_token = replicate COAP_MSG_MAX_TOKEN_LEN 0, retrans_count = 0, start_time = HAL_Timer_init,
         si_message = None, msglen = of_nat len, si_handler = resp_handler message\<rparr>;
       let (send_info, s) =
         (if msg_type message = COAP_MSG_CON then
            let (t, s) = coap_countdown_ms env (coap_timeout_ms s) s
            in (send_info\<lparr>retrans_count := 0, start_time := t\<rparr>, s)
          else (send_info, s));
       bs \<leftarrow> rd_bytes (token message) 0 (unat (token_len message));
       t \<leftarrow> wr_bytes (si_token send_info) 0 bs;
       let send_info = send_info\<lparr>si_token_len := ucast (token_len message), si_token := t\<rparr>;
       let (m, s) = alloc env len s;
       send_info \<leftarrow>
         (case m of
            None \<Rightarrow> Some send_info
          | Some m \<Rightarrow> do {
              bs \<leftarrow> rd_bytes (send_buf s) 0 len;
              m \<leftarrow> wr_bytes m 0 bs;
              Some (send_info\<lparr>si_message := Some m\<rparr>)
            });
       let (node, s) = alloc env 0 s;
       if node = None then Some (QCLOUD_ERR_FAILURE, s)
       else do {
         s \<leftarrow> lock_list s;
         nodes \<leftarrow> message_list s;
         s \<leftarrow> unlock_list (s\<lparr>message_list := Some (nodes @ [send_info])\<rparr>);
         Some (QCLOUD_RET_SUCCESS, s)
       }
     }
   }"

definition coap_message_send :: "'w coap_env \<Rightarrow> CoAPMessage \<Rightarrow> 'w coap_sys \<Rightarrow> (int \<times> 'w coap_sys) option" where
  "coap_message_send env message s = do {
     s \<leftarrow> lock_buf s;
     (ret, buf) \<leftarrow> serialize_coap_message (Some message) (Some (send_buf s)) (of_nat (send_buf_size s));
     buf \<leftarrow> buf;
     let s = s\<lparr>send_buf := buf\<rparr>;
     if ret < 0 then do { s \<leftarrow> unlock_buf s; Some (ret, s) }
     else do {
       bs \<leftarrow> rd_bytes (send_buf s) 0 (nat ret);
       let (ret, written_len, w) = dtls_write env bs 0 (net s);
       let s = s\<lparr>net := w\<rparr>;
       (ret, s) \<leftarrow>
         (if ret = QCLOUD_RET_SUCCESS \<and> msg_type message = COAP_MSG_CON \<and> code_class message = COAP_MSG_REQ
          then coap_message_list_add env message written_len s
          else Some (ret, s));
       s \<leftarrow> unlock_buf s;
       Some (ret, s)
     }
   }"

definition coap_client_send_ack :: "'w coap_env \<Rightarrow> u16 \<Rightarrow> 'w coap_sys \<Rightarrow> (int \<times> 'w coap_sys) option" where
  "coap_client_send_ack env msgId s =
     (let ack = DEFAULT_COAP_MESSAGE;
          (ret, ack) = coap_message_type_set ack COAP_MSG_ACK
      in if ret \<noteq> QCLOUD_RET_SUCCESS then Some (ret, s)
         else let (ret, ack) = coap_message_id_set ack (ucast msgId)
              in if ret \<noteq> QCLOUD_RET_SUCCESS then Some (ret, s) else coap_message_send env ack s)"

section \<open>Receiving\<close>

definition COAP_MSG_IS_EMPTY :: "CoAPMessage \<Rightarrow> bool" where
  "COAP_MSG_IS_EMPTY message \<longleftrightarrow> code_class message = 0 \<and> code_detail message = 0"

definition COAP_MSG_IS_EMPTY_ACK :: "CoAPMessage \<Rightarrow> bool" where
  "COAP_MSG_IS_EMPTY_ACK message \<longleftrightarrow> code_class message = 2 \<and> code_detail message = 3"

definition COAP_MSG_IS_EMPTY_RSP :: "CoAPMessage \<Rightarrow> bool" where
  "COAP_MSG_IS_EMPTY_RSP message \<longleftrightarrow> code_class message = 2 \<and> code_detail message = 5"

definition coap_piggyresp_message_handle :: "'w coap_env \<Rightarrow> CoAPMessage \<Rightarrow> 'w coap_sys \<Rightarrow> (int \<times> CoAPMessage \<times> 'w coap_sys) option" where
  "coap_piggyresp_message_handle env message s = coap_message_list_proc env message PROCESS_PIGGY_CMD s"

definition coap_ack_message_handle :: "'w coap_env \<Rightarrow> CoAPMessage \<Rightarrow> 'w coap_sys \<Rightarrow> (int \<times> CoAPMessage \<times> 'w coap_sys) option" where
  "coap_ack_message_handle env message s = coap_message_list_proc env message PROCESS_ACK_CMD s"

definition coap_resp_message_handle :: "'w coap_env \<Rightarrow> CoAPMessage \<Rightarrow> 'w coap_sys \<Rightarrow> (int \<times> CoAPMessage \<times> 'w coap_sys) option" where
  "coap_resp_message_handle env message s = do {
     (rc, s) \<leftarrow> (if msg_type message = COAP_MSG_CON then coap_client_send_ack env (coap_msg_id message) s else Some (0, s));
     coap_message_list_proc env message PROCESS_RESP_CMD s
   }"

definition coap_message_handle :: "'w coap_env \<Rightarrow> byte list \<Rightarrow> u16 \<Rightarrow> 'w coap_sys \<Rightarrow> 'w coap_sys option" where
  "coap_message_handle env buf datalen s = do {
     (rc, recv_message, w) \<leftarrow> deserialize_coap_message (coap_malloc env) zero_message buf (unat datalen) (net s);
     let s = s\<lparr>net := w\<rparr>;
     if msg_type recv_message = COAP_MSG_ACK \<and> COAP_MSG_IS_EMPTY_ACK recv_message
     then map_option (\<lambda>(rc, m, s). s) (coap_ack_message_handle env recv_message s)
     else if msg_type recv_message = COAP_MSG_ACK \<and> \<not> COAP_MSG_IS_EMPTY recv_message
     then map_option (\<lambda>(rc, m, s). s) (coap_piggyresp_message_handle env recv_message s)
     else if msg_type recv_message = COAP_MSG_CON \<and> COAP_MSG_IS_EMPTY_RSP recv_message
     then map_option (\<lambda>(rc, m, s). s) (coap_resp_message_handle env recv_message s)
     else if msg_type recv_message = COAP_MSG_NON \<and> COAP_MSG_IS_EMPTY_RSP recv_message
     then map_option (\<lambda>(rc, m, s). s) (coap_resp_message_handle env recv_message s)
     else Some s
   }"

definition coap_message_recv :: "'w coap_env \<Rightarrow> u32 \<Rightarrow> 'w coap_sys \<Rightarrow> (int \<times> 'w coap_sys) option" where
  "coap_message_recv env timeout_ms s = do {
     let (rc, bs, w) = dtls_read env (coap_read_buf_size s) (uint timeout_ms) (net s);
     buf \<leftarrow> wr_bytes (recv_buf s) 0 bs;
     let s = s\<lparr>recv_buf := buf, net := w\<rparr>;
     if rc = QCLOUD_RET_SUCCESS then do {
       s \<leftarrow> coap_message_handle env (recv_buf s) (of_nat (length bs)) s;
       Some (rc, s)
     } else Some (rc, s)
   }"

definition coap_message_cycle :: "'w coap_env \<Rightarrow> u32 \<Rightarrow> 'w coap_sys \<Rightarrow> (int \<times> 'w coap_sys) option" where
  "coap_message_cycle env timeout_ms s = do {
     (rc, s) \<leftarrow> coap_message_recv env timeout_ms s;
     if rc \<noteq> QCLOUD_RET_SUCCESS \<and> rc \<noteq> QCLOUD_ERR_SSL_READ_TIMEOUT then Some (rc, s)
     else do {
       (rc, message, s) \<leftarrow> coap_message_list_proc env DEFAULT_COAP_MESSAGE PROCESS_WAIT_CMD s;
       Some (rc, s)
     }
   }"

end
