(* ===== verification/Utils_Base64.thy ===== *)
theory Utils_Base64
  imports Prelude
begin

text \<open>
  The Base64 codec of \<^verbatim>\<open>utils/utils_base64.c\<close>.  The destination is a byte list (\<open>None\<close> for a null pointer); a read or
  write outside a buffer gives \<open>None\<close>.  Lengths and counters are natural numbers: \<^verbatim>\<open>n * 6\<close> wraps only on inputs of more than
  2 to the 61 bytes and the space counter only after 2 to the 32 spaces in a row.  The padding counter \<^verbatim>\<open>j\<close> of the second pass is kept at
  32 bits, because it may run below zero.  The lemmas relate the encoder to a reference definition of Base64 text and
  show that the decoder inverts it and never writes behind the announced length.
\<close>

section \<open>Tables\<close>

definition base64_enc_map :: "byte list" where
  "base64_enc_map = map of_nat ([65..<91] @ [97..<123] @ [48..<58] @ [43, 47])"

definition base64_dec_map :: "byte list" where
  "base64_dec_map = replicate 43 127 @ [62] @ replicate 3 127 @ [63] @ map of_nat [52..<62] @
     replicate 3 127 @ [64] @ replicate 3 127 @ map of_nat [0..<26] @ replicate 6 127 @
     map of_nat [26..<52] @ replicate 5 127"

section \<open>Encoding\<close>

text \<open>The characters are promoted to \<^verbatim>\<open>int\<close>; the table is indexed after masking.\<close>

definition enc_char :: "u32 \<Rightarrow> byte option" where
  "enc_char c = rd base64_enc_map (unat (c AND 0x3F))"

fun base64_enc_loop :: "nat \<Rightarrow> byte list \<Rightarrow> nat \<Rightarrow> byte list \<Rightarrow> nat \<Rightarrow> (byte list \<times> nat) option" where
  "base64_enc_loop 0 src sp dst p = Some (dst, p)"
| "base64_enc_loop (Suc k) src sp dst p = do {
     C1 \<leftarrow> map_option ucast (rd src sp);
     C2 \<leftarrow> map_option ucast (rd src (sp + 1));
     C3 \<leftarrow> map_option ucast (rd src (sp + 2));
     e \<leftarrow> enc_char (drop_bit 2 C1);
     dst \<leftarrow> wr dst p e;
     e \<leftarrow> enc_char (push_bit 4 (C1 AND 3) + drop_bit 4 C2);
     dst \<leftarrow> wr dst (p + 1) e;
     e \<leftarrow> enc_char (push_bit 2 (C2 AND 15) + drop_bit 6 C3);
     dst \<leftarrow> wr dst (p + 2) e;
     e \<leftarrow> enc_char C3;
     dst \<leftarrow> wr dst (p + 3) e;
     base64_enc_loop k src (sp + 3) dst (p + 4)
   }"

text \<open>The one or two bytes after the last full group, from offset \<open>i\<close> on.\<close>

definition base64_enc_tail :: "byte list \<Rightarrow> nat \<Rightarrow> nat \<Rightarrow> byte list \<Rightarrow> nat \<Rightarrow> (byte list \<times> nat) option" where
  "base64_enc_tail src slen i dst p =
     (if i < slen then do {
        C1 \<leftarrow> map_option ucast (rd src i);
        C2 \<leftarrow> (if i + 1 < slen then map_option ucast (rd src (i + 1)) else Some 0);
        e \<leftarrow> enc_char (drop_bit 2 C1);
        dst \<leftarrow> wr dst p e;
        e \<leftarrow> enc_char (push_bit 4 (C1 AND 3) + drop_bit 4 C2);
        dst \<leftarrow> wr dst (p + 1) e;
        e \<leftarrow> (if i + 1 < slen then enc_char (push_bit 2 (C2 AND 15)) else Some 0x3D);
        dst \<leftarrow> wr dst (p + 2) e;
        dst \<leftarrow> wr dst (p + 3) 0x3D;
        Some (dst, p + 4)
      } else Some (dst, p))"

definition BASE64_SIZE_T_MAX :: nat where
  "BASE64_SIZE_T_MAX = 2 ^ 64 - 1"

text \<open>The result is the return code, the length stored through \<^verbatim>\<open>olen\<close> and the destination.\<close>

definition qcloud_iot_utils_base64encode ::
  "byte list option \<Rightarrow> nat \<Rightarrow> byte list \<Rightarrow> nat \<Rightarrow> (int \<times> nat \<times> byte list option) option" where
  "qcloud_iot_utils_base64encode dst dlen src slen =
     (if slen = 0 then Some (0, 0, dst)
      else
        let n = slen div 3 + (if slen mod 3 \<noteq> 0 then 1 else 0) in
        if n > (BASE64_SIZE_T_MAX - 1) div 4 then Some (QCLOUD_ERR_FAILURE, BASE64_SIZE_T_MAX, dst)
        else
          let n = n * 4 in
          case dst of
            None \<Rightarrow> Some (QCLOUD_ERR_FAILURE, n + 1, dst)
          | Some d \<Rightarrow>
              if dlen < n + 1 then Some (QCLOUD_ERR_FAILURE, n + 1, dst)
              else do {
                (d, p) \<leftarrow> base64_enc_loop (slen div 3) src 0 d 0;
                (d, p) \<leftarrow> base64_enc_tail src slen (slen div 3 * 3) d p;
                d \<leftarrow> wr d p 0;
                Some (0, p, Some d)
              })"

section \<open>Decoding\<close>

function base64_skip_spaces :: "byte list \<Rightarrow> nat \<Rightarrow> nat \<Rightarrow> nat \<Rightarrow> (nat \<times> nat) option" where
  "base64_skip_spaces src slen i x =
     (if i < slen then do {
        c \<leftarrow> rd src i;
        if c = 0x20 then base64_skip_spaces src slen (i + 1) (x + 1) else Some (i, x)
      } else Some (i, x))"
  by pat_completeness auto
termination
  by (relation "measure (\<lambda>(src, slen, i, x). slen - i)") auto

declare base64_skip_spaces.simps [simp del]

lemma base64_skip_spaces_le: "base64_skip_spaces src slen i x = Some (i', x') \<Longrightarrow> i \<le> i'"
proof (induction src slen i x rule: base64_skip_spaces.induct)
  case (1 src slen i x)
  from "1.prems" show ?case
    by (subst (asm) base64_skip_spaces.simps) (auto simp: bind_Some_iff split: if_split_asm dest: "1.IH")
qed

text \<open>
  The first pass: it returns the position it stopped at, the number \<open>n\<close> of characters that count and the
  number \<open>j\<close> of padding characters.
\<close>

function base64_check :: "byte list \<Rightarrow> nat \<Rightarrow> nat \<Rightarrow> nat \<Rightarrow> nat \<Rightarrow> (nat \<times> nat \<times> nat) cres option" where
  "base64_check src slen i n j =
     (if i < slen then do {
        (i', x) \<leftarrow> base64_skip_spaces src slen i 0;
        if i' = slen then Some (Inr (i', n, j))
        else do {
          c \<leftarrow> rd src i';
          crlf \<leftarrow> (if slen - i' \<ge> 2 \<and> c = 0x0D then map_option (\<lambda>d. d = 0x0A) (rd src (i' + 1)) else Some False);
          if crlf \<or> c = 0x0A then base64_check src slen (i' + 1) n j
          else if x \<noteq> 0 then Some (Inl QCLOUD_ERR_FAILURE)
          else
            let j = (if c = 0x3D then j + 1 else j) in
            if c = 0x3D \<and> j > 2 then Some (Inl QCLOUD_ERR_FAILURE)
            else if c > 127 then Some (Inl QCLOUD_ERR_FAILURE)
            else do {
              d \<leftarrow> rd base64_dec_map (unat c);
              if d = 127 then Some (Inl QCLOUD_ERR_FAILURE)
              else if d < 64 \<and> j \<noteq> 0 then Some (Inl QCLOUD_ERR_FAILURE)
              else base64_check src slen (i' + 1) (n + 1) j
            }
        }
      } else Some (Inr (i, n, j)))"
  by pat_completeness auto
termination
  by (relation "measure (\<lambda>(src, slen, i, n, j). slen - i)") (auto dest!: base64_skip_spaces_le)

declare base64_check.simps [simp del]

text \<open>
  The second pass over the \<open>i\<close> characters from \<open>sp\<close> on; \<open>n\<close> characters of the current group are in \<open>x\<close>.
\<close>

fun base64_dec_loop :: "nat \<Rightarrow> byte list \<Rightarrow> nat \<Rightarrow> u32 \<Rightarrow> nat \<Rightarrow> u32 \<Rightarrow> byte list \<Rightarrow> nat \<Rightarrow> (byte list \<times> nat) option" where
  "base64_dec_loop 0 src sp j n x dst p = Some (dst, p)"
| "base64_dec_loop (Suc i) src sp j n x dst p = do {
     c \<leftarrow> rd src sp;
     if c = 0x0D \<or> c = 0x0A \<or> c = 0x20 then base64_dec_loop i src (sp + 1) j n x dst p
     else do {
       d \<leftarrow> rd base64_dec_map (unat c);
       let j = (if d = 64 then j - 1 else j);
       let x = push_bit 6 x OR (ucast d AND 0x3F);
       if n + 1 = 4 then do {
         (dst, p) \<leftarrow> (if j > 0 then map_option (\<lambda>b. (b, p + 1)) (wr dst p (ucast (drop_bit 16 x))) else Some (dst, p));
         (dst, p) \<leftarrow> (if j > 1 then map_option (\<lambda>b. (b, p + 1)) (wr dst p (ucast (drop_bit 8 x))) else Some (dst, p));
         (dst, p) \<leftarrow> (if j > 2 then map_option (\<lambda>b. (b, p + 1)) (wr dst p (ucast x)) else Some (dst, p));
         base64_dec_loop i src (sp + 1) j 0 x dst p
       } else base64_dec_loop i src (sp + 1) j (n + 1) x dst p
     }
   }"

text \<open>\<^verbatim>\<open>*olen\<close> is left as it was when the input is rejected.\<close>

definition qcloud_iot_utils_base64decode ::
  "byte list option \<Rightarrow> nat \<Rightarrow> byte list \<Rightarrow> nat \<Rightarrow> (int \<times> nat option \<times> byte list option) option" where
  "qcloud_iot_utils_base64decode dst dlen src slen = do {
     r \<leftarrow> base64_check src slen 0 0 0;
     case r of
       Inl rc \<Rightarrow> Some (rc, None, dst)
     | Inr (i, n, j) \<Rightarrow>
         if n = 0 then Some (0, Some 0, dst)
         else
           let n = (n * 6 + 7) div 8 - j in
           case dst of
             None \<Rightarrow> Some (QCLOUD_ERR_FAILURE, Some n, dst)
           | Some d \<Rightarrow>
               if dlen < n then Some (QCLOUD_ERR_FAILURE, Some n, dst)
               else do {
                 (d, p) \<leftarrow> base64_dec_loop i src 0 3 0 0 d 0;
                 Some (0, Some p, Some d)
               }
   }"


section \<open>The code as text\<close>

text \<open>The encoding as a function of the bytes, three at a time; \<open>enc_sextet\<close> is the character of a number below 64.\<close>

definition enc_sextet :: "nat \<Rightarrow> byte" where
  "enc_sextet v = base64_enc_map ! v"

fun base64_text :: "byte list \<Rightarrow> byte list" where
  "base64_text (a # b # c # r) =
     [enc_sextet (unat a div 4), enc_sextet (unat a mod 4 * 16 + unat b div 16),
      enc_sextet (unat b mod 16 * 4 + unat c div 64), enc_sextet (unat c mod 64)] @ base64_text r"
| "base64_text [a, b] =
     [enc_sextet (unat a div 4), enc_sextet (unat a mod 4 * 16 + unat b div 16), enc_sextet (unat b mod 16 * 4), 0x3D]"
| "base64_text [a] = [enc_sextet (unat a div 4), enc_sextet (unat a mod 4 * 16), 0x3D, 0x3D]"
| "base64_text [] = []"

lemma length_base64_text: "length (base64_text xs) = (length xs + 2) div 3 * 4"
proof (induction xs rule: base64_text.induct)
  case (1 a b c r)
  have "(length r + 2 + 3) div 3 = Suc ((length r + 2) div 3)"
    by (subst div_add_self2) simp_all
  with 1 show ?case by (simp add: algebra_simps)
qed simp_all

lemma length_base64_enc_map [simp]: "length base64_enc_map = 64"
  by (simp add: base64_enc_map_def)

lemma enc_char_eq: "enc_char c = Some (enc_sextet (unat c mod 64))"
proof -
  have m: "(0x3F :: u32) = mask 6"
    by (simp add: mask_eq_exp_minus_1)
  have "unat (c AND 0x3F) = unat c mod 64"
    unfolding m take_bit_eq_mask [symmetric] by (simp add: take_bit_eq_mod unat_mod_word)
  then show ?thesis
    by (simp add: enc_char_def enc_sextet_def rd_def)
qed

lemma sextet_args:
  fixes a b :: byte
  shows "unat (drop_bit 2 (ucast a :: u32)) mod 64 = unat a div 4"
    and "unat (push_bit 4 ((ucast a :: u32) AND 3) + drop_bit 4 (ucast b)) mod 64 = unat a mod 4 * 16 + unat b div 16"
    and "unat (push_bit 2 ((ucast a :: u32) AND 15) + drop_bit 6 (ucast b)) mod 64 = unat a mod 16 * 4 + unat b div 64"
    and "unat (push_bit 2 ((ucast a :: u32) AND 15)) mod 64 = unat a mod 16 * 4"
    and "unat (ucast a :: u32) mod 64 = unat a mod 64"
proof -
  have "unat a < 256" "unat b < 256" by simp_all
  then have ab: "unat a div 4 < 64" "unat b div 16 < 16" "unat b div 64 < 4"
    by (simp_all add: div_less_iff_less_mult del: unat_byte_less)
  have lo: "unat a mod 4 < 4" "unat a mod 16 < 16" by simp_all
  have u: "unat (ucast x :: u32) = unat x" for x :: byte
    using unat_byte_less [of x] by (simp add: unsigned_ucast_eq take_bit_nat_eq_self del: unat_byte_less)
  have m: "(3 :: u32) = mask 2" "(15 :: u32) = mask 4"
    by (simp_all add: mask_eq_exp_minus_1)
  have d: "unat (drop_bit 2 (ucast x :: u32)) = unat x div 4" "unat (drop_bit 4 (ucast x :: u32)) = unat x div 16"
      "unat (drop_bit 6 (ucast x :: u32)) = unat x div 64" for x :: byte
    by (simp_all add: drop_bit_eq_div unat_div_word u)
  have p2: "unat ((ucast x :: u32) AND 3) = unat x mod 4" "unat ((ucast x :: u32) AND 15) = unat x mod 16" for x :: byte
    unfolding m take_bit_eq_mask [symmetric] by (simp_all add: take_bit_eq_mod unat_mod_word u)
  have s1: "unat (push_bit 4 ((ucast x :: u32) AND 3)) = unat x mod 4 * 16" for x :: byte
    by (simp add: push_bit_eq_mult unat_word_ariths p2)
  have s2: "unat (push_bit 2 ((ucast x :: u32) AND 15)) = unat x mod 16 * 4" for x :: byte
    by (simp add: push_bit_eq_mult unat_word_ariths p2)
  show "unat (drop_bit 2 (ucast a :: u32)) mod 64 = unat a div 4"
    using ab by (simp add: d)
  show "unat (push_bit 4 ((ucast a :: u32) AND 3) + drop_bit 4 (ucast b)) mod 64 = unat a mod 4 * 16 + unat b div 16"
    unfolding unat_word_ariths(1) s1 d using ab(2) lo(1) by simp
  show "unat (push_bit 2 ((ucast a :: u32) AND 15) + drop_bit 6 (ucast b)) mod 64 = unat a mod 16 * 4 + unat b div 64"
    unfolding unat_word_ariths(1) s2 d using ab(3) lo(2) by simp
  show "unat (push_bit 2 ((ucast a :: u32) AND 15)) mod 64 = unat a mod 16 * 4"
    unfolding s2 using lo(2) by simp
  show "unat (ucast a :: u32) mod 64 = unat a mod 64"
    by (simp add: u)
qed


lemma base64_enc_loop_text:
  assumes "sp + 3 * k \<le> length src" and "p = length out" and "p + 4 * k \<le> length buf"
  shows "base64_enc_loop k src sp (put buf out) p =
    Some (put buf (out @ base64_text (take (3 * k) (drop sp src))), p + 4 * k)"
  using assms
proof (induction k arbitrary: sp out p)
  case 0
  then show ?case by simp
next
  case (Suc k)
  let ?a = "src ! sp" and ?b = "src ! (sp + 1)" and ?c = "src ! (sp + 2)"
  have r: "rd src sp = Some ?a" "rd src (sp + 1) = Some ?b" "rd src (sp + 2) = Some ?c"
    using Suc.prems(1) by (simp_all add: rd_def)
  let ?es = "[enc_sextet (unat ?a div 4), enc_sextet (unat ?a mod 4 * 16 + unat ?b div 16),
      enc_sextet (unat ?b mod 16 * 4 + unat ?c div 64), enc_sextet (unat ?c mod 64)]"
  have d: "drop sp src = ?a # ?b # ?c # drop (sp + 3) src"
    using Suc.prems(1) by (simp add: Cons_nth_drop_Suc eval_nat_numeral)
  have "3 * Suc k = Suc (Suc (Suc (3 * k)))" by simp
  then have t: "base64_text (take (3 * Suc k) (drop sp src)) = ?es @ base64_text (take (3 * k) (drop (sp + 3) src))"
    by (simp only: d take_Suc_Cons base64_text.simps(1))
  have "base64_enc_loop (Suc k) src sp (put buf out) p = base64_enc_loop k src (sp + 3) (put buf (out @ ?es)) (p + 4)"
    using Suc.prems(2,3) r by (simp only: base64_enc_loop.simps option.map bind.bind_lunit enc_char_eq sextet_args)
      (simp add: wr_put)
  then show ?case
    unfolding t using Suc.prems Suc.IH [of "sp + 3" "p + 4" "out @ ?es"] by simp
qed


lemma base64_text_append: "3 dvd length xs \<Longrightarrow> base64_text (xs @ ys) = base64_text xs @ base64_text ys"
proof (induction xs rule: base64_text.induct)
  case (1 a b c r)
  then have "3 dvd length r"
    by (simp add: dvd_def) presburger
  with 1 show ?case by simp
next
  case (2 a b)
  then have False by (simp add: dvd_def) presburger
  then show ?case ..
qed simp_all

lemma base64_enc_tail_text:
  assumes "slen \<le> length src" and "i = slen div 3 * 3" and "p = length out"
    and "p + length (base64_text (drop i (take slen src))) \<le> length buf"
  shows "base64_enc_tail src slen i (put buf out) p =
    Some (put buf (out @ base64_text (drop i (take slen src))), p + length (base64_text (drop i (take slen src))))"
proof -
  have i: "i \<le> slen" "slen - i = slen mod 3"
    unfolding assms(2) by (simp_all add: minus_div_mult_eq_mod)
  consider "slen mod 3 = 0" | "slen mod 3 = 1" | "slen mod 3 = 2"
    by linarith
  then show ?thesis
  proof cases
    case 1
    then show ?thesis
      using i by (simp add: base64_enc_tail_def)
  next
    case 2
    let ?a = "src ! i"
    have lt: "i < slen" "\<not> i + 1 < slen" using i 2 by linarith+
    have a: "drop i (take slen src) = [?a]"
      using lt assms(1) i 2 by (intro nth_equalityI) (auto simp: less_Suc_eq)
    have r: "rd src i = Some ?a"
      using lt assms(1) by (simp add: rd_def)
    have z: "unat (push_bit 4 ((ucast ?a :: u32) AND 3) + drop_bit 4 0) mod 64 = unat ?a mod 4 * 16"
      using sextet_args(2) [of ?a 0] by simp
    show ?thesis
      using lt r assms(3,4) unfolding a base64_enc_tail_def
      by (simp only: if_True if_False option.map bind.bind_lunit enc_char_eq sextet_args z) (simp add: wr_put)
  next
    case 3
    let ?a = "src ! i" and ?b = "src ! (i + 1)"
    have lt: "i < slen" "i + 1 < slen" using i 3 by linarith+
    have a: "drop i (take slen src) = [?a, ?b]"
      using lt assms(1) i 3 by (intro nth_equalityI) (auto simp: less_2_cases_iff)
    have r: "rd src i = Some ?a" "rd src (i + 1) = Some ?b"
      using lt assms(1) by (simp_all add: rd_def)
    show ?thesis
      using lt r assms(3,4) unfolding a base64_enc_tail_def
      by (simp only: if_True option.map bind.bind_lunit enc_char_eq sextet_args) (simp add: wr_put)
  qed
qed

lemma base64encode_correct:
  assumes "slen \<le> length src" and "slen < 2 ^ 62" and "dlen \<le> length d"
  shows "qcloud_iot_utils_base64encode (Some d) dlen src slen =
    (if slen = 0 then Some (0, 0, Some d)
     else if dlen < (slen + 2) div 3 * 4 + 1 then Some (QCLOUD_ERR_FAILURE, (slen + 2) div 3 * 4 + 1, Some d)
     else Some (0, (slen + 2) div 3 * 4, Some (put d (base64_text (take slen src) @ [0]))))"
proof -
  let ?k = "slen div 3" and ?n = "slen div 3 + (if slen mod 3 \<noteq> 0 then 1 else 0)"
  have n: "?n = (slen + 2) div 3"
    by presburger
  have small: "\<not> ?n > (BASE64_SIZE_T_MAX - 1) div 4"
    unfolding n using assms(2) by (simp add: BASE64_SIZE_T_MAX_def)
  show ?thesis
  proof (cases "slen = 0 \<or> dlen < (slen + 2) div 3 * 4 + 1")
    case True
    then show ?thesis
      using small unfolding qcloud_iot_utils_base64encode_def n by (auto simp: Let_def)
  next
    case False
    let ?t1 = "base64_text (take (3 * ?k) src)" and ?t2 = "base64_text (drop (?k * 3) (take slen src))"
    have "take slen src = take (3 * ?k) src @ drop (?k * 3) (take slen src)"
      by (metis append_take_drop_id min.absorb1 mult.commute take_take div_times_less_eq_dividend)
    moreover have "length (take (3 * ?k) src) = 3 * ?k"
      using assms(1) div_times_less_eq_dividend [of slen 3] by simp
    ultimately have t: "base64_text (take slen src) = ?t1 @ ?t2"
      using base64_text_append [of "take (3 * ?k) src" "drop (?k * 3) (take slen src)"] by simp
    then have len: "length ?t1 + length ?t2 = (slen + 2) div 3 * 4"
      using length_base64_text [of "take slen src"] assms(1) by simp
    moreover have l1: "length ?t1 = 4 * ?k"
      using \<open>length (take (3 * ?k) src) = 3 * ?k\<close> by (simp add: length_base64_text)
    ultimately have room: "4 * ?k + length ?t2 < length d"
      using False assms(3) by linarith
    have "base64_enc_loop ?k src 0 (put d []) 0 = Some (put d ([] @ base64_text (take (3 * ?k) (drop 0 src))), 0 + 4 * ?k)"
      using room assms(1) div_times_less_eq_dividend [of slen 3] by (intro base64_enc_loop_text) simp_all
    moreover have "base64_enc_tail src slen (?k * 3) (put d ?t1) (4 * ?k) = Some (put d (?t1 @ ?t2), 4 * ?k + length ?t2)"
      using assms(1) l1 room by (intro base64_enc_tail_text) simp_all
    moreover have "wr (put d (?t1 @ ?t2)) (4 * ?k + length ?t2) 0 = Some (put d ((?t1 @ ?t2) @ [0]))"
      using l1 room by (intro wr_put) simp_all
    ultimately show ?thesis
      using False small len l1 unfolding qcloud_iot_utils_base64encode_def n t by (simp add: put_Nil Let_def)
  qed
qed


section \<open>Checking and decoding\<close>

definition white :: "byte \<Rightarrow> bool" where
  "white c \<longleftrightarrow> c = 0x20 \<or> c = 0x0D \<or> c = 0x0A"

definition code_char :: "byte \<Rightarrow> bool" where
  "code_char c \<longleftrightarrow> c \<le> 127 \<and> base64_dec_map ! unat c < 64"

lemma length_base64_dec_map [simp]: "length base64_dec_map = 128"
  by (simp add: base64_dec_map_def)

lemma rd_dec_map: "c \<le> 127 \<Longrightarrow> rd base64_dec_map (unat c) = Some (base64_dec_map ! unat c)" for c :: byte
  by (simp add: rd_def word_le_nat_alt)

text \<open>The two tables against each other, entry by entry.\<close>

lemma dec_map_table:
  "list_all (\<lambda>k. let d = base64_dec_map ! k in (d < 64 \<or> d = 64 \<or> d = 127) \<and> (d = 64 \<longleftrightarrow> k = 0x3D)) [0..<128]"
  by code_simp

lemma enc_map_table:
  "list_all (\<lambda>v. let c = base64_enc_map ! v in c \<le> 127 \<and> base64_dec_map ! unat c = of_nat v) [0..<64]"
  by code_simp

lemma dec_map_cases:
  assumes "c \<le> 127" and "base64_dec_map ! unat c \<noteq> 127"
  shows "c = 0x3D \<and> base64_dec_map ! unat c = 64 \<or> c \<noteq> 0x3D \<and> code_char c"
proof -
  have "unat c \<in> set [0..<128]"
    using assms(1) by (simp add: word_le_nat_alt)
  with dec_map_table have "base64_dec_map ! unat c < 64 \<or> base64_dec_map ! unat c = 64"
      "base64_dec_map ! unat c = 64 \<longleftrightarrow> unat c = 0x3D"
    using assms(2) unfolding list_all_iff Let_def by blast+
  moreover have "unat c = 0x3D \<longleftrightarrow> c = 0x3D"
    by (simp add: word_unat_eq_iff)
  ultimately show ?thesis
    using assms(1) by (auto simp: code_char_def)
qed

lemma code_char_not_special: "code_char c \<Longrightarrow> \<not> white c \<and> c \<noteq> 0x3D"
proof -
  have "\<not> code_char 0x20" "\<not> code_char 0x0D" "\<not> code_char 0x0A" "\<not> code_char 0x3D"
    by (code_simp)+
  then show "code_char c \<Longrightarrow> \<not> white c \<and> c \<noteq> 0x3D"
    by (auto simp: white_def)
qed

lemma enc_sextet_code: "v < 64 \<Longrightarrow> code_char (enc_sextet v) \<and> base64_dec_map ! unat (enc_sextet v) = of_nat v"
proof -
  assume v: "v < 64"
  then have "v \<in> set [0..<64]" by simp
  with enc_map_table have "enc_sextet v \<le> 127 \<and> base64_dec_map ! unat (enc_sextet v) = of_nat v"
    unfolding list_all_iff Let_def enc_sextet_def by blast
  moreover have "(of_nat v :: byte) < 64"
    using v by (simp add: word_less_nat_alt unat_of_nat)
  ultimately show ?thesis
    by (simp add: code_char_def)
qed

lemma base64_skip_spaces_ok:
  assumes "slen \<le> length src" and "i \<le> slen"
  shows "\<exists>i' x'. base64_skip_spaces src slen i x = Some (i', x') \<and> i \<le> i' \<and> i' \<le> slen \<and>
    filter (\<lambda>c. \<not> white c) (drop i' (take slen src)) = filter (\<lambda>c. \<not> white c) (drop i (take slen src)) \<and>
    (i' < slen \<longrightarrow> src ! i' \<noteq> 0x20) \<and> (x' = x \<longleftrightarrow> i' = i) \<and> x \<le> x'"
  using assms
proof (induction "slen - i" arbitrary: i x)
  case 0
  then show ?case
    by (subst base64_skip_spaces.simps) simp
next
  case (Suc k)
  then have lt: "i < slen" by simp
  show ?case
  proof (cases "src ! i = 0x20")
    case True
    have "k = slen - (i + 1)" "i + 1 \<le> slen"
      using Suc.hyps(2) lt by simp_all
    from Suc.hyps(1) [OF this(1) Suc.prems(1) this(2), of "x + 1"] obtain i' x' where
      r: "base64_skip_spaces src slen (i + 1) (x + 1) = Some (i', x')" "i + 1 \<le> i'" "i' \<le> slen"
        "filter (\<lambda>c. \<not> white c) (drop i' (take slen src)) = filter (\<lambda>c. \<not> white c) (drop (i + 1) (take slen src))"
        "i' < slen \<longrightarrow> src ! i' \<noteq> 0x20" "x + 1 \<le> x'"
      by blast
    have "drop i (take slen src) = src ! i # drop (i + 1) (take slen src)"
      using lt Suc.prems(1) by (simp add: Cons_nth_drop_Suc [symmetric])
    with True have "filter (\<lambda>c. \<not> white c) (drop i (take slen src)) = filter (\<lambda>c. \<not> white c) (drop (i + 1) (take slen src))"
      by (simp add: white_def)
    moreover have "base64_skip_spaces src slen i x = Some (i', x')"
      using True lt r(1) Suc.prems(1) by (subst base64_skip_spaces.simps) (simp add: rd_def)
    ultimately show ?thesis
      using r by auto
  next
    case False
    then have "base64_skip_spaces src slen i x = Some (i, x)"
      using lt Suc.prems(1) by (subst base64_skip_spaces.simps) (simp add: rd_def)
    with False lt show ?thesis by auto
  qed
qed


text \<open>What the first pass has found out about an accepted rest of the input, apart from white space.\<close>

definition base64_shape :: "byte list \<Rightarrow> nat \<Rightarrow> nat \<Rightarrow> nat \<Rightarrow> nat \<Rightarrow> bool" where
  "base64_shape cs n j n' j' \<longleftrightarrow> (\<exists>as k. filter (\<lambda>c. \<not> white c) cs = as @ replicate k 0x3D \<and> list_all code_char as \<and>
     (as \<noteq> [] \<longrightarrow> j = 0) \<and> j' = j + k \<and> n' = n + length as + k \<and> j' \<le> 2)"

lemma base64_shape_white: "filter (\<lambda>c. \<not> white c) cs = filter (\<lambda>c. \<not> white c) cs' \<Longrightarrow>
  base64_shape cs n j n' j' = base64_shape cs' n j n' j'"
  by (simp add: base64_shape_def)

lemma base64_shape_Nil: "j \<le> 2 \<Longrightarrow> filter (\<lambda>c. \<not> white c) cs = [] \<Longrightarrow> base64_shape cs n j n j"
  unfolding base64_shape_def by (intro exI [of _ "[]"] exI [of _ 0]) simp

lemma base64_shape_code:
  assumes "base64_shape cs (n + 1) 0 n' j'" and "code_char c"
  shows "base64_shape (c # cs) n 0 n' j'"
proof -
  from assms(1) obtain as k where "filter (\<lambda>c. \<not> white c) cs = as @ replicate k 0x3D" "list_all code_char as"
      "j' = k" "n' = n + 1 + length as + k" "j' \<le> 2"
    unfolding base64_shape_def by auto
  with assms(2) code_char_not_special [OF assms(2)] show ?thesis
    unfolding base64_shape_def by (intro exI [of _ "c # as"] exI [of _ k]) simp
qed

lemma base64_shape_pad:
  assumes "base64_shape cs (n + 1) (j + 1) n' j'"
  shows "base64_shape (0x3D # cs) n j n' j'"
proof -
  from assms obtain k where "filter (\<lambda>c. \<not> white c) cs = replicate k 0x3D" "j' = j + 1 + k" "n' = n + 1 + k" "j' \<le> 2"
    unfolding base64_shape_def by auto
  then show ?thesis
    unfolding base64_shape_def by (intro exI [of _ "[]"] exI [of _ "Suc k"]) (simp add: white_def)
qed

lemma base64_check_char:
  assumes "slen \<le> length src" and "i < slen" and "base64_skip_spaces src slen i 0 = Some (i', x)" and "i' < slen"
    and "c = src ! i'"
  obtains (line_end) "white c" and "base64_check src slen i n j = base64_check src slen (i' + 1) n j"
  | (error) "base64_check src slen i n j = Some (Inl QCLOUD_ERR_FAILURE)"
  | (pad) "c = 0x3D" and "j + 1 \<le> 2" and "base64_check src slen i n j = base64_check src slen (i' + 1) (n + 1) (j + 1)"
  | (code) "code_char c" and "j = 0" and "base64_check src slen i n j = base64_check src slen (i' + 1) (n + 1) j"
proof -
  have rdc: "rd src i' = Some c"
    using assms by (simp add: rd_def)
  define crlf where "crlf \<longleftrightarrow> 2 \<le> slen - i' \<and> c = 0x0D \<and> src ! (i' + 1) = 0x0A"
  have crlf: "(if slen - i' \<ge> 2 \<and> c = 0x0D then map_option (\<lambda>d. d = 0x0A) (rd src (i' + 1)) else Some False) = Some crlf"
    using assms(1) by (auto simp: crlf_def rd_def)
  note step = base64_check.simps [of src slen i n j]
  consider "crlf \<or> c = 0x0A" | "\<not> (crlf \<or> c = 0x0A)" "x \<noteq> 0 \<or> c > 127 \<or> base64_dec_map ! unat c = 127"
    | "\<not> (crlf \<or> c = 0x0A)" "x = 0" "\<not> c > 127" "base64_dec_map ! unat c \<noteq> 127"
    by blast
  then show thesis
  proof cases
    case 1
    then show thesis
      using assms(2-4) rdc crlf by (intro line_end) (auto simp: step white_def crlf_def)
  next
    case 2
    then show thesis
      using assms(2-4) rdc crlf by (intro error) (auto simp: step rd_dec_map Let_def not_less)
  next
    case 3
    then have c: "c \<le> 127" by simp
    from dec_map_cases [OF c 3(4)] show thesis
    proof
      assume "c = 0x3D \<and> base64_dec_map ! unat c = 64"
      then show thesis
        using 3 assms(2-4) rdc crlf rd_dec_map [OF c] pad error by (cases "j + 1 \<le> 2") (auto simp: step Let_def)
    next
      assume cc: "c \<noteq> 0x3D \<and> code_char c"
      then have "base64_check src slen i n j =
          (if j = 0 then base64_check src slen (i' + 1) (n + 1) j else Some (Inl QCLOUD_ERR_FAILURE))"
        using 3 assms(2-4) rdc crlf rd_dec_map [OF c] by (simp add: step Let_def code_char_def)
      with cc show thesis
        using code error by (cases "j = 0") simp_all
    qed
  qed
qed

lemma base64_check_ok:
  assumes "slen \<le> length src" and "i \<le> slen" and "j \<le> 2"
  shows "\<exists>r. base64_check src slen i n j = Some r \<and>
    (\<forall>rc. r = Inl rc \<longrightarrow> rc = QCLOUD_ERR_FAILURE) \<and>
    (\<forall>i' n' j'. r = Inr (i', n', j') \<longrightarrow> i' = slen \<and> base64_shape (drop i (take slen src)) n j n' j')"
  using assms(2,3)
proof (induction "slen - i" arbitrary: i n j rule: less_induct)
  case less
  show ?case
  proof (cases "i < slen")
    case False
    then show ?thesis
      using less.prems by (subst base64_check.simps) (simp add: base64_shape_Nil)
  next
    case True
    obtain i' x where sk: "base64_skip_spaces src slen i 0 = Some (i', x)" "i \<le> i'" "i' \<le> slen"
        "filter (\<lambda>c. \<not> white c) (drop i' (take slen src)) = filter (\<lambda>c. \<not> white c) (drop i (take slen src))"
        "i' < slen \<longrightarrow> src ! i' \<noteq> 0x20"
      using base64_skip_spaces_ok [OF assms(1) less.prems(1), of 0] by blast
    note shape = base64_shape_white [OF sk(4), symmetric]
    show ?thesis
    proof (cases "i' = slen")
      case t: True
      then have "base64_check src slen i n j = Some (Inr (slen, n, j))"
        using True sk(1) by (subst base64_check.simps) simp
      with t sk(4) less.prems(2) show ?thesis
        by (simp add: base64_shape_Nil)
    next
      case False
      define c where "c = src ! i'"
      have lt: "i' < slen" using False sk(3) by simp
      have dr: "drop i' (take slen src) = c # drop (i' + 1) (take slen src)"
        using lt assms(1) by (simp add: c_def Cons_nth_drop_Suc [symmetric])
      have rdc: "rd src i' = Some c"
        using lt assms(1) by (simp add: c_def rd_def)
      have IH: "\<exists>r. base64_check src slen (i' + 1) n' j' = Some r \<and> (\<forall>rc. r = Inl rc \<longrightarrow> rc = QCLOUD_ERR_FAILURE) \<and>
          (\<forall>i'' n'' j''. r = Inr (i'', n'', j'') \<longrightarrow> i'' = slen \<and> base64_shape (drop (i' + 1) (take slen src)) n' j' n'' j'')"
        if "j' \<le> 2" for n' j'
        using less.hyps [of "i' + 1" j' n'] that lt sk(2) True by simp
      from assms(1) True sk(1) lt c_def show ?thesis
      proof (cases rule: base64_check_char [where n = n and j = j])
        case line_end
        then show ?thesis
          using IH [OF less.prems(2), of n] unfolding shape dr by (simp add: base64_shape_def)
      next
        case error
        then show ?thesis by simp
      next
        case pad
        then show ?thesis
          using IH [OF pad(2), of "n + 1"] base64_shape_pad unfolding shape dr by fastforce
      next
        case code
        then show ?thesis
          using IH [OF less.prems(2), of "n + 1"] base64_shape_code unfolding shape dr by fastforce
      qed
    qed
  qed
qed


text \<open>A text of code characters with up to two padding characters at its end is accepted.\<close>

lemma base64_check_text:
  assumes "slen \<le> length src" and "drop i (take slen src) = as @ replicate k 0x3D" and "list_all code_char as"
    and "j + k \<le> 2" and "as \<noteq> [] \<longrightarrow> j = 0" and "i \<le> slen"
  shows "base64_check src slen i n j = Some (Inr (slen, n + length as + k, j + k))"
  using assms(2-)
proof (induction "slen - i" arbitrary: i n j as k)
  case 0
  then show ?case
    by (subst base64_check.simps) simp
next
  case (Suc m)
  define c where "c = src ! i"
  have lt: "i < slen" using Suc.hyps(2) by simp
  have dr: "drop i (take slen src) = c # drop (i + 1) (take slen src)"
    using lt assms(1) by (simp add: c_def Cons_nth_drop_Suc [symmetric])
  have rdc: "rd src i = Some c"
    using lt assms(1) by (simp add: c_def rd_def)
  have "c \<in> set (as @ replicate k 0x3D)"
    using dr Suc.prems(1) by (metis list.set_intros(1))
  then have cc: "code_char c \<or> c = 0x3D"
    using Suc.prems(2) by (auto simp: list_all_iff)
  then have c: "\<not> white c" "c \<le> 127"
    using code_char_not_special [of c] by (auto simp: white_def code_char_def)
  have sk: "base64_skip_spaces src slen i 0 = Some (i, 0)"
    using rdc c(1) lt by (subst base64_skip_spaces.simps) (simp add: white_def)
  have m: "m = slen - (i + 1)" "i + 1 \<le> slen"
    using Suc.hyps(2) lt by simp_all
  note step = base64_check.simps [of src slen i n j]
  show ?case
  proof (cases as)
    case Nil
    then obtain k' where k: "k = Suc k'" "c = 0x3D" "drop (i + 1) (take slen src) = [] @ replicate k' 0x3D"
      using Suc.prems(1) dr by (cases k) simp_all
    have d: "base64_dec_map ! unat (0x3D :: byte) = 64"
      by code_simp
    have "base64_check src slen i n j = base64_check src slen (i + 1) (n + 1) (j + 1)"
      using lt rdc sk k(1,2) Suc.prems(3) rd_dec_map [OF c(2)] d by (simp add: step Let_def)
    then show ?thesis
      using Suc.hyps(1) [OF m(1) k(3), of "j + 1" "n + 1"] Nil k(1) Suc.prems(3) m(2) by simp
  next
    case (Cons a as')
    then have as': "a = c" "drop (i + 1) (take slen src) = as' @ replicate k 0x3D" "code_char c" "j = 0"
      using Suc.prems dr by auto
    have "base64_dec_map ! unat c \<noteq> 127"
      using as'(3) by (auto simp: code_char_def)
    then have "base64_check src slen i n j = base64_check src slen (i + 1) (n + 1) j"
      unfolding step using lt rdc sk as'(4) c code_char_not_special [OF as'(3)] rd_dec_map [OF c(2)]
      by (auto simp: Let_def white_def)
    then show ?thesis
      using Suc.hyps(1) [OF m(1) as'(2), of j "n + 1"] Cons as'(4) Suc.prems m(2) by simp
  qed
qed

text \<open>The bytes the second pass produces, as a function of the characters that are not white space.\<close>

fun dec_out :: "u32 \<Rightarrow> nat \<Rightarrow> u32 \<Rightarrow> byte list \<Rightarrow> byte list" where
  "dec_out j n x [] = []"
| "dec_out j n x (c # cs) =
     (let d = base64_dec_map ! unat c; j = (if d = 64 then j - 1 else j); x = push_bit 6 x OR (ucast d AND 0x3F)
      in if n + 1 = 4 then
           (if j > 0 then [ucast (drop_bit 16 x)] else []) @ (if j > 1 then [ucast (drop_bit 8 x)] else []) @
           (if j > 2 then [ucast x] else []) @ dec_out j 0 x cs
         else dec_out j (n + 1) x cs)"

lemma base64_dec_loop_white:
  "rd src sp = Some c \<Longrightarrow> white c \<Longrightarrow> base64_dec_loop (Suc i) src sp j n x dst p = base64_dec_loop i src (sp + 1) j n x dst p"
  by (auto simp: white_def)

lemma base64_dec_loop_code:
  fixes x :: u32
  assumes "rd src sp = Some c" and "\<not> white c" and "rd base64_dec_map (unat c) = Some d"
    and "j' = (if d = 64 then j - 1 else j)" and "x' = push_bit 6 x OR (ucast d AND 0x3F)"
    and "bs = (if n + 1 = 4 then (if j' > 0 then [ucast (drop_bit 16 x')] else []) @
      (if j' > 1 then [ucast (drop_bit 8 x')] else []) @ (if j' > 2 then [ucast x' :: byte] else []) else [])"
    and "p = length out" and "length out + length bs \<le> length buf"
  shows "base64_dec_loop (Suc i) src sp j n x (put buf out) p =
    base64_dec_loop i src (sp + 1) j' (if n + 1 = 4 then 0 else n + 1) x' (put buf (out @ bs)) (p + length bs)"
proof -
  have c: "\<not> (c = 0x0D \<or> c = 0x0A \<or> c = 0x20)"
    using assms(2) by (auto simp: white_def)
  have "base64_dec_loop (Suc i) src sp j n x (put buf out) p =
      (if n + 1 = 4 then do {
         (dst, p) \<leftarrow> (if j' > 0 then map_option (\<lambda>b. (b, p + 1)) (wr (put buf out) p (ucast (drop_bit 16 x'))) else Some (put buf out, p));
         (dst, p) \<leftarrow> (if j' > 1 then map_option (\<lambda>b. (b, p + 1)) (wr dst p (ucast (drop_bit 8 x'))) else Some (dst, p));
         (dst, p) \<leftarrow> (if j' > 2 then map_option (\<lambda>b. (b, p + 1)) (wr dst p (ucast x')) else Some (dst, p));
         base64_dec_loop i src (sp + 1) j' 0 x' dst p
       } else base64_dec_loop i src (sp + 1) j' (n + 1) x' (put buf out) p)"
    using assms(1,3) c unfolding assms(4,5) by (simp only: base64_dec_loop.simps(2) bind.bind_lunit if_False Let_def)
  then show ?thesis
    using assms(6-8) by (cases "n + 1 = 4"; cases "j' > 0"; cases "j' > 1"; cases "j' > 2") (simp_all add: wr_put)
qed

lemma base64_dec_loop_out:
  assumes "sp + i \<le> length src" and "\<forall>c \<in> set (take i (drop sp src)). \<not> white c \<longrightarrow> c \<le> 127"
    and "p = length out" and "p + length (dec_out j n x (filter (\<lambda>c. \<not> white c) (take i (drop sp src)))) \<le> length buf"
  shows "base64_dec_loop i src sp j n x (put buf out) p =
    Some (put buf (out @ dec_out j n x (filter (\<lambda>c. \<not> white c) (take i (drop sp src)))),
      p + length (dec_out j n x (filter (\<lambda>c. \<not> white c) (take i (drop sp src)))))"
  using assms
proof (induction i arbitrary: sp j n x out p)
  case 0
  then show ?case by simp
next
  case (Suc i)
  define c where "c = src ! sp"
  have rdc: "rd src sp = Some c"
    using Suc.prems(1) by (simp add: c_def rd_def)
  have t: "take (Suc i) (drop sp src) = c # take i (drop (Suc sp) src)"
    using Suc.prems(1) by (simp add: c_def Cons_nth_drop_Suc [symmetric])
  have tl: "Suc sp + i \<le> length src" "\<forall>c \<in> set (take i (drop (Suc sp) src)). \<not> white c \<longrightarrow> c \<le> 127"
    using Suc.prems(1,2) unfolding t by simp_all
  note IH = Suc.IH [OF tl]
  show ?case
  proof (cases "white c")
    case True
    then show ?thesis
      using base64_dec_loop_white [OF rdc True] IH [OF Suc.prems(3), of j n x] Suc.prems(4) unfolding t by simp
  next
    case False
    then have d: "rd base64_dec_map (unat c) = Some (base64_dec_map ! unat c)"
      using Suc.prems(2) unfolding t by (intro rd_dec_map) simp
    define j' where "j' = (if base64_dec_map ! unat c = 64 then j - 1 else j)"
    define x' where "x' = push_bit 6 x OR (ucast (base64_dec_map ! unat c) AND 0x3F)"
    define bs where "bs = (if n + 1 = 4 then (if j' > 0 then [ucast (drop_bit 16 x')] else []) @
      (if j' > 1 then [ucast (drop_bit 8 x')] else []) @ (if j' > 2 then [ucast x' :: byte] else []) else [])"
    define n' where "n' = (if n + 1 = 4 then 0 else n + 1)"
    let ?rest = "filter (\<lambda>c. \<not> white c) (take i (drop (Suc sp) src))"
    have out: "dec_out j n x (c # ?rest) = bs @ dec_out j' n' x' ?rest"
      by (simp add: j'_def [symmetric] x'_def [symmetric] bs_def n'_def Let_def)
    have room: "length out + length bs \<le> length buf"
      using Suc.prems(3,4) False unfolding t by (simp add: out del: dec_out.simps)
    have "base64_dec_loop (Suc i) src sp j n x (put buf out) p =
        base64_dec_loop i src (Suc sp) j' n' x' (put buf (out @ bs)) (p + length bs)"
      unfolding n'_def Suc_eq_plus1 [of sp] using rdc False d j'_def x'_def bs_def Suc.prems(3) room by (rule base64_dec_loop_code)
    then show ?thesis
      using IH [of "p + length bs" "out @ bs" j' n' x'] Suc.prems(3,4) False unfolding t by (simp add: out del: dec_out.simps)
  qed
qed


section \<open>The size of the output\<close>

lemma dec_out_codes:
  "list_all code_char as \<Longrightarrow> n < 4 \<Longrightarrow>
     \<exists>x'. length (dec_out 3 n x (as @ bs)) = 3 * ((n + length as) div 4) + length (dec_out 3 ((n + length as) mod 4) x' bs)"
proof (induction as arbitrary: n x)
  case Nil
  then show ?case by auto
next
  case (Cons a as)
  then have a: "base64_dec_map ! unat a \<noteq> 64"
    by (auto simp: code_char_def)
  define x' where "x' = push_bit 6 x OR (ucast (base64_dec_map ! unat a) AND 0x3F)"
  show ?case
  proof (cases "n = 3")
    case True
    obtain x'' where "length (dec_out 3 0 x' (as @ bs)) = 3 * (length as div 4) + length (dec_out 3 (length as mod 4) x'' bs)"
      using Cons.IH [of 0 x'] Cons.prems by auto
    then show ?thesis
      using True a div_add_self1 [of 4 "length as"] by (intro exI [of _ x'']) (simp add: x'_def [symmetric] Let_def)
  next
    case False
    obtain x'' where "length (dec_out 3 (Suc n) x' (as @ bs)) =
        3 * ((Suc n + length as) div 4) + length (dec_out 3 ((Suc n + length as) mod 4) x'' bs)"
      using Cons.IH [of "Suc n" x'] Cons.prems False by auto
    then show ?thesis
      using False a by (intro exI [of _ x'']) (simp add: x'_def [symmetric] Let_def)
  qed
qed

lemma dec_pad: "base64_dec_map ! 61 = 64"
  by code_simp

lemma dec_out_pads:
  assumes "n < 4" and "k \<le> 2"
  shows "length (dec_out 3 n x (replicate k 0x3D)) = (if k = 0 then 0 else if n = 3 then 2 else if n = 2 \<and> k = 2 then 1 else 0)"
proof -
  consider "k = 0" | "k = 1" | "k = 2"
    using assms(2) by linarith
  then show ?thesis
  proof cases
    case 3
    have r: "replicate 2 c = [c, c]" for c :: byte
      by (simp add: numeral_2_eq_2)
    show ?thesis
      unfolding 3 r using assms(1) by (simp add: dec_pad Let_def)
  qed (use assms(1) in \<open>simp_all add: dec_pad Let_def\<close>)
qed

lemma dec_out_bound:
  assumes "list_all code_char as" and "k \<le> 2"
  shows "length (dec_out 3 0 x (as @ replicate k 0x3D)) \<le> ((length as + k) * 6 + 7) div 8 - k"
proof -
  obtain x' where x': "length (dec_out 3 0 x (as @ replicate k 0x3D)) =
      3 * (length as div 4) + length (dec_out 3 (length as mod 4) x' (replicate k 0x3D))"
    using dec_out_codes [OF assms(1), of 0 x "replicate k 0x3D"] by auto
  define q m where "q = length as div 4" and "m = length as mod 4"
  have l: "length as = 4 * q + m" "m < 4"
    by (simp_all add: q_def m_def)
  have "length (dec_out 3 m x' (replicate k 0x3D)) = (if k = 0 then 0 else if m = 3 then 2 else if m = 2 \<and> k = 2 then 1 else 0)"
    using l(2) assms(2) by (rule dec_out_pads)
  then show ?thesis
    unfolding x' q_def [symmetric] m_def [symmetric] l(1) using l(2) assms(2) by (auto split: if_splits)
qed


lemma base64decode_cases:
  assumes "slen \<le> length src" and "dlen \<le> length d"
  obtains (error) olen where "qcloud_iot_utils_base64decode (Some d) dlen src slen = Some (QCLOUD_ERR_FAILURE, olen, Some d)"
  | (decoded) cs where "cs = filter (\<lambda>c. \<not> white c) (take slen src)" and "length (dec_out 3 0 0 cs) \<le> dlen"
      and "qcloud_iot_utils_base64decode (Some d) dlen src slen =
        Some (0, Some (length (dec_out 3 0 0 cs)), Some (put d (dec_out 3 0 0 cs)))"
proof -
  obtain r where r: "base64_check src slen 0 0 0 = Some r" "\<forall>rc. r = Inl rc \<longrightarrow> rc = QCLOUD_ERR_FAILURE"
      "\<forall>i' n' j'. r = Inr (i', n', j') \<longrightarrow> i' = slen \<and> base64_shape (drop 0 (take slen src)) 0 0 n' j'"
    using base64_check_ok [OF assms(1), of 0 0 0] by auto
  show thesis
  proof (cases r)
    case (Inl rc)
    then show thesis
      using r(1,2) by (intro error [of None]) (simp add: qcloud_iot_utils_base64decode_def)
  next
    case (Inr t)
    then obtain n j where t: "r = Inr (slen, n, j)" "base64_shape (take slen src) 0 0 n j"
      using r(3) by (cases t) auto
    then obtain as k where a: "filter (\<lambda>c. \<not> white c) (take slen src) = as @ replicate k 0x3D" "list_all code_char as"
        "j = k" "n = length as + k" "k \<le> 2"
      by (auto simp: base64_shape_def)
    define out where "out = dec_out 3 0 0 (as @ replicate k 0x3D)"
    have len: "length out \<le> (n * 6 + 7) div 8 - j"
      unfolding out_def a(3,4) by (rule dec_out_bound [OF a(2,5)])
    consider "n = 0" | "n \<noteq> 0" "dlen < (n * 6 + 7) div 8 - j" | "n \<noteq> 0" "\<not> dlen < (n * 6 + 7) div 8 - j"
      by blast
    then show thesis
    proof cases
      case 1
      then show thesis
        using r(1) t(1) a by (intro decoded [of "[]"]) (simp_all add: qcloud_iot_utils_base64decode_def put_Nil)
    next
      case 2
      then show thesis
        using r(1) t(1) by (intro error) (simp add: qcloud_iot_utils_base64decode_def)
    next
      case 3
      have "c \<le> 127" if "c \<in> set (take slen src)" "\<not> white c" for c
      proof -
        have "c \<in> set (filter (\<lambda>c. \<not> white c) (take slen src))"
          using that by simp
        then have "c \<in> set (as @ replicate k 0x3D)"
          unfolding a(1) .
        then show ?thesis
          using a(2) by (auto simp: list_all_iff code_char_def)
      qed
      then have "base64_dec_loop slen src 0 3 0 0 (put d []) 0 = Some (put d ([] @ out), 0 + length out)"
        using base64_dec_loop_out [of 0 slen src 0 "[]" 3 0 0 d] assms len 3 a(1) by (simp add: out_def)
      then show thesis
        using r(1) t(1) 3 len a(1) by (intro decoded [OF refl])
          (simp_all add: qcloud_iot_utils_base64decode_def put_Nil out_def)
    qed
  qed
qed

section \<open>Groups of four characters\<close>

lemma dec_step: "v < 64 \<Longrightarrow> push_bit 6 x OR (ucast (of_nat v :: byte) AND 0x3F) = x * 64 + (of_nat v :: u32)"
proof -
  assume v: "v < 64"
  have m: "(0x3F :: u32) = mask 6"
    by (simp add: mask_eq_exp_minus_1)
  have u: "(ucast (of_nat v :: byte) :: u32) AND 0x3F = of_nat v"
    using v unfolding m take_bit_eq_mask [symmetric]
    by (simp add: ucast_of_nat_byte take_bit_of_nat take_bit_nat_eq_self)
  have "push_bit 6 x AND (of_nat v :: u32) = 0"
  proof (rule bit_word_eqI)
    fix n assume "n < LENGTH(32)"
    have "\<not> bit (of_nat v :: u32) n" if "6 \<le> n"
    proof -
      have "v < 2 ^ n"
        using v power_increasing [OF that, of "2 :: nat"] by simp
      then show ?thesis
        by (simp only: bit_of_nat_iff) (simp add: bit_iff_odd)
    qed
    then show "bit (push_bit 6 x AND (of_nat v :: u32)) n = bit 0 n"
      by (auto simp: bit_simps)
  qed
  then show ?thesis
    unfolding u using disjunctive_add_eq_or [of "push_bit 6 x" "of_nat v"] by (simp add: push_bit_eq_mult)
qed


text \<open>The low 24 bits of the accumulator are the last four characters.\<close>

lemma acc_byte:
  fixes x :: u32
  assumes "k \<in> {0, 8, 16}"
  shows "(ucast (drop_bit k (x * 16777216 + of_nat V)) :: byte) = of_nat (V div 2 ^ k)"
proof (rule word_unat_eq_iff [THEN iffD2])
  let ?m = "unat x * 16777216 + V"
  have u: "unat (x * 16777216 + of_nat V) = ?m mod 2 ^ 32"
    by (simp add: unat_word_ariths unat_of_nat mod_simps)
  have "unat (ucast (drop_bit k (x * 16777216 + of_nat V)) :: byte) = ?m mod 2 ^ 32 div 2 ^ k mod 2 ^ 8"
    using assms by (auto simp: unsigned_ucast_eq unsigned_drop_bit_eq drop_bit_eq_div take_bit_eq_mod u unat_div_word)
  also have "\<dots> = ?m div 2 ^ k mod 2 ^ 8"
  proof -
    have "take_bit 8 (drop_bit k (take_bit 32 ?m)) = take_bit 8 (drop_bit k ?m)"
      using assms by (auto simp: drop_bit_take_bit)
    then show ?thesis
      unfolding take_bit_eq_mod drop_bit_eq_div .
  qed
  also have "\<dots> = V div 2 ^ k mod 2 ^ 8"
  proof -
    obtain q where q: "(16777216 :: nat) = 2 ^ k * (2 ^ 8 * q)"
      using assms by (auto intro: that [of 65536] that [of 256] that [of 1])
    have "?m = V + 2 ^ k * (unat x * (2 ^ 8 * q))"
      unfolding q by (simp add: ac_simps)
    then have "?m div 2 ^ k = V div 2 ^ k + unat x * (2 ^ 8 * q)"
      by (metis add.commute div_mult_self2 power_not_zero zero_neq_numeral)
    also have "\<dots> = V div 2 ^ k + 2 ^ 8 * (unat x * q)"
      by (simp only: ac_simps)
    finally show ?thesis
      by (simp only: mod_mult_self2)
  qed
  finally show "unat (ucast (drop_bit k (x * 16777216 + of_nat V)) :: byte) = unat (of_nat (V div 2 ^ k) :: byte)"
    by (simp add: unat_of_nat)
qed


lemma dec_out_sextet:
  assumes "v < 64"
  shows "dec_out j n x (enc_sextet v # cs) =
    (let x' = x * 64 + of_nat v in if n + 1 = 4 then
           (if j > 0 then [ucast (drop_bit 16 x')] else []) @ (if j > 1 then [ucast (drop_bit 8 x')] else []) @
           (if j > 2 then [ucast (drop_bit 0 x')] else []) @ dec_out j 0 x' cs
         else dec_out j (n + 1) x' cs)"
proof -
  have "base64_dec_map ! unat (enc_sextet v) = of_nat v" "(of_nat v :: byte) \<noteq> 64"
    using enc_sextet_code [OF assms] assms by (auto simp: code_char_def)
  then show ?thesis
    unfolding dec_out.simps Let_def by (simp only: dec_step [OF assms] if_False drop_bit_0 id_apply)
qed

lemma dec_out_group:
  assumes "v0 < 64" and "v1 < 64" and "v2 < 64" and "v3 < 64"
  shows "\<exists>x'. dec_out 3 0 x (enc_sextet v0 # enc_sextet v1 # enc_sextet v2 # enc_sextet v3 # cs) =
    (let V = v0 * 262144 + v1 * 4096 + v2 * 64 + v3 in [of_nat (V div 65536), of_nat (V div 256), of_nat V] @ dec_out 3 0 x' cs)"
proof -
  define V where "V = v0 * 262144 + v1 * 4096 + v2 * 64 + v3"
  define x' where "x' = (((x * 64 + of_nat v0) * 64 + of_nat v1) * 64 + of_nat v2) * 64 + of_nat v3"
  have x': "x' = x * 16777216 + of_nat V"
    by (simp add: x'_def V_def algebra_simps)
  have "dec_out 3 0 x (enc_sextet v0 # enc_sextet v1 # enc_sextet v2 # enc_sextet v3 # cs) =
      [ucast (drop_bit 16 x'), ucast (drop_bit 8 x'), ucast (drop_bit 0 x')] @ dec_out 3 0 x' cs"
    using assms by (simp add: dec_out_sextet Let_def x'_def del: dec_out.simps drop_bit_0)
  then show ?thesis
    unfolding x' using acc_byte [of 16 x V] acc_byte [of 8 x V] acc_byte [of 0 x V]
    by (intro exI [of _ x']) (simp add: V_def [symmetric] Let_def x')
qed


lemma dec_out_pad_char:
  "dec_out j n x (0x3D # cs) =
    (let j = j - 1; x' = x * 64 + of_nat 0 in if n + 1 = 4 then
           (if j > 0 then [ucast (drop_bit 16 x')] else []) @ (if j > 1 then [ucast (drop_bit 8 x')] else []) @
           (if j > 2 then [ucast (drop_bit 0 x')] else []) @ dec_out j 0 x' cs
         else dec_out j (n + 1) x' cs)"
  by (simp add: dec_pad Let_def push_bit_eq_mult)

text \<open>The three bytes of a group, put together from its four numbers.\<close>

lemma group_value:
  "a div 4 * 262144 + (a mod 4 * 16 + b div 16) * 4096 + (b mod 16 * 4 + c div 64) * 64 + c mod 64 =
     a * 65536 + b * 256 + (c :: nat)"
proof -
  have "a = a div 4 * 4 + a mod 4" "b = b div 16 * 16 + b mod 16" "c = c div 64 * 64 + c mod 64"
    by simp_all
  then show ?thesis
    by (simp only: distrib_right)
qed

lemma group_bytes:
  fixes a b c :: byte
  defines "V \<equiv> unat a * 65536 + unat b * 256 + unat c"
  shows "(of_nat (V div 65536) :: byte) = a" and "(of_nat (V div 256) :: byte) = b" and "(of_nat V :: byte) = c"
proof -
  have l: "unat b < 256" "unat c < 256" by simp_all
  have 1: "V div 65536 = unat a"
    unfolding V_def using l by (intro div_nat_eqI) (simp_all del: unat_byte_less)
  have 2: "V div 256 = unat a * 256 + unat b"
    unfolding V_def using l by (intro div_nat_eqI) (simp_all del: unat_byte_less add: algebra_simps)
  have w: "(of_nat 256 :: byte) = 0"
    by simp
  show "(of_nat (V div 65536) :: byte) = a"
    by (simp add: 1)
  show "(of_nat (V div 256) :: byte) = b"
    unfolding 2 by (simp add: w del: of_nat_numeral)
  have "(256 :: byte) = 0" "(65536 :: byte) = 0"
    by simp_all
  then show "(of_nat V :: byte) = c"
    unfolding V_def by (simp only: of_nat_add of_nat_mult of_nat_numeral) simp
qed

lemma sextet_bounds:
  fixes a b :: byte
  shows "unat a div 4 < 64" "unat a mod 4 * 16 + unat b div 16 < 64" "unat a mod 16 * 4 + unat b div 64 < 64"
    "unat a mod 64 < 64" "unat a mod 4 * 16 < 64" "unat a mod 16 * 4 < 64"
proof -
  have "unat a < 256" "unat b < 256" by simp_all
  then have "unat a div 4 < 64" "unat b div 16 < 16" "unat b div 64 < 4"
    by (simp_all add: div_less_iff_less_mult del: unat_byte_less)
  moreover have "unat a mod 4 < 4" "unat a mod 16 < 16" by simp_all
  ultimately show "unat a div 4 < 64" "unat a mod 4 * 16 + unat b div 16 < 64" "unat a mod 16 * 4 + unat b div 64 < 64"
      "unat a mod 64 < 64" "unat a mod 4 * 16 < 64" "unat a mod 16 * 4 < 64"
    by simp_all
qed


lemma dec_out_text: "dec_out 3 0 x (base64_text xs) = xs"
proof (induction xs arbitrary: x rule: base64_text.induct)
  case (1 a b c r)
  from dec_out_group [OF sextet_bounds(1) [of a] sextet_bounds(2) [of a b] sextet_bounds(3) [of b c] sextet_bounds(4) [of c],
      of x "base64_text r", unfolded group_value Let_def group_bytes]
  obtain x' where "dec_out 3 0 x (base64_text (a # b # c # r)) = [a, b, c] @ dec_out 3 0 x' (base64_text r)"
    by auto
  with 1 show ?case by simp
next
  case (2 a b)
  have V: "x * 16777216 + of_nat (unat a * 65536 + unat b * 256 + unat (0 :: byte)) =
      (((x * 64 + of_nat (unat a div 4)) * 64 + of_nat (unat a mod 4 * 16 + unat b div 16)) * 64 +
        of_nat (unat b mod 16 * 4)) * 64 + of_nat 0"
    using group_value [of "unat a" "unat b" 0, symmetric] by (simp add: algebra_simps)
  show ?case
    using acc_byte [of 16 x "unat a * 65536 + unat b * 256 + unat (0 :: byte)"]
      acc_byte [of 8 x "unat a * 65536 + unat b * 256 + unat (0 :: byte)"] group_bytes(1,2) [of a b 0]
    unfolding V by (simp add: dec_out_sextet dec_out_pad_char sextet_bounds Let_def del: dec_out.simps(2))
next
  case (3 a)
  have V: "x * 16777216 + of_nat (unat a * 65536 + unat (0 :: byte) * 256 + unat (0 :: byte)) =
      (((x * 64 + of_nat (unat a div 4)) * 64 + of_nat (unat a mod 4 * 16)) * 64 + of_nat 0) * 64 + of_nat 0"
    using group_value [of "unat a" 0 0, symmetric] by (simp add: algebra_simps)
  show ?case
    using acc_byte [of 16 x "unat a * 65536 + unat (0 :: byte) * 256 + unat (0 :: byte)"] group_bytes(1) [of a 0 0]
    unfolding V by (simp add: dec_out_sextet dec_out_pad_char sextet_bounds Let_def del: dec_out.simps(2))
next
  case 4
  then show ?case by simp
qed


lemma base64_text_shape:
  "\<exists>as. base64_text xs = as @ replicate ((3 - length xs mod 3) mod 3) 0x3D \<and> list_all code_char as"
proof (induction xs rule: base64_text.induct)
  case (1 a b c r)
  then obtain as where as: "base64_text r = as @ replicate ((3 - length r mod 3) mod 3) 0x3D" "list_all code_char as"
    by blast
  have "length (a # b # c # r) = length r + 3"
    by simp
  then have m: "length (a # b # c # r) mod 3 = length r mod 3"
    by (simp only: mod_add_self2)
  show ?case
    unfolding m using as enc_sextet_code [OF sextet_bounds(1) [of a]] enc_sextet_code [OF sextet_bounds(2) [of a b]]
      enc_sextet_code [OF sextet_bounds(3) [of b c]] enc_sextet_code [OF sextet_bounds(4) [of c]]
    by (intro exI [of _ "[enc_sextet (unat a div 4), enc_sextet (unat a mod 4 * 16 + unat b div 16),
      enc_sextet (unat b mod 16 * 4 + unat c div 64), enc_sextet (unat c mod 64)] @ as"]) simp
next
  case (2 a b)
  show ?case
    using enc_sextet_code [OF sextet_bounds(1) [of a]] enc_sextet_code [OF sextet_bounds(2) [of a b]] enc_sextet_code [OF sextet_bounds(6) [of b]]
    by (intro exI [of _ "[enc_sextet (unat a div 4), enc_sextet (unat a mod 4 * 16 + unat b div 16), enc_sextet (unat b mod 16 * 4)]"]) simp
next
  case (3 a)
  show ?case
    using enc_sextet_code [OF sextet_bounds(1) [of a]] enc_sextet_code [OF sextet_bounds(5) [of a]]
    by (intro exI [of _ "[enc_sextet (unat a div 4), enc_sextet (unat a mod 4 * 16)]"]) (simp add: numeral_2_eq_2)
qed simp

lemma base64decode_text:
  assumes "slen \<le> length src" and "take slen src = base64_text xs" and "xs \<noteq> []" and "length xs \<le> dlen" and "dlen \<le> length d"
  shows "qcloud_iot_utils_base64decode (Some d) dlen src slen = Some (0, Some (length xs), Some (put d xs))"
proof -
  define k where "k = (3 - length xs mod 3) mod 3"
  obtain as where as: "base64_text xs = as @ replicate k 0x3D" "list_all code_char as"
    using base64_text_shape [of xs] by (auto simp: k_def)
  have k: "k \<le> 2"
    using mod_less_divisor [of 3 "3 - length xs mod 3"] unfolding k_def by linarith
  have chk: "base64_check src slen 0 0 0 = Some (Inr (slen, length as + k, k))"
    using base64_check_text [OF assms(1), of 0 as k 0 0] assms(2) as k by simp
  have n: "length as + k = (length xs + 2) div 3 * 4"
    using arg_cong [OF as(1), of length] by (simp add: length_base64_text)
  have size: "((length as + k) * 6 + 7) div 8 - k = length xs"
  proof -
    define q m where "q = length xs div 3" and "m = length xs mod 3"
    have l: "length xs = 3 * q + m" "m < 3"
      by (simp_all add: q_def m_def)
    have d: "(3 * q + 2) div 3 = q" "(3 * q + 1 + 2) div 3 = q + 1" "(3 * q + 2 + 2) div 3 = q + 1"
      "(q * 4 * 6 + 7) div 8 = 3 * q" "((q + 1) * 4 * 6 + 7) div 8 = 3 * q + 3"
      by (linarith, linarith, linarith, linarith, simp add: algebra_simps)
    consider "m = 0" | "m = 1" | "m = 2"
      using l(2) by linarith
    then have "((3 * q + m + 2) div 3 * 4 * 6 + 7) div 8 - (3 - m) mod 3 = 3 * q + m"
      by cases (simp_all only: d add_0_right, simp_all)
    then show ?thesis
      unfolding n unfolding k_def m_def [symmetric] unfolding l(1) .
  qed
  have nz: "length as + k \<noteq> 0"
    using assms(3) unfolding n by (cases xs) simp_all
  have "list_all (\<lambda>c. \<not> white c) (take slen src)"
    unfolding assms(2) as(1) using as(2) code_char_not_special by (auto simp: list_all_iff white_def)
  then have f: "filter (\<lambda>c. \<not> white c) (take slen src) = base64_text xs"
    unfolding assms(2) by (simp add: list_all_iff filter_id_conv)
  have "\<forall>c \<in> set (take slen src). c \<le> 127"
    unfolding assms(2) as(1) using as(2) by (auto simp: list_all_iff code_char_def)
  then have "base64_dec_loop slen src 0 3 0 0 (put d []) 0 = Some (put d ([] @ xs), 0 + length xs)"
    using base64_dec_loop_out [of 0 slen src 0 "[]" 3 0 0 d] assms(1,4,5) f by (simp add: dec_out_text)
  then show ?thesis
    using chk nz size assms(4) by (auto simp: qcloud_iot_utils_base64decode_def put_Nil)
qed

section \<open>Properties\<close>

text \<open>
  C31: Encoding a non-empty block of bytes into a large enough buffer writes its Base64 text and a terminating NUL and reports
  the length of the text; decoding that text gives the block back, and writes nothing behind it.
\<close>

theorem base64_roundtrip:
  assumes "xs \<noteq> []" and "length xs < 2 ^ 62" and "(length xs + 2) div 3 * 4 < length e" and "length xs \<le> length d"
  shows "\<exists>e'. qcloud_iot_utils_base64encode (Some e) (length e) xs (length xs) = Some (0, (length xs + 2) div 3 * 4, Some e') \<and>
    take ((length xs + 2) div 3 * 4 + 1) e' = base64_text xs @ [0] \<and>
    qcloud_iot_utils_base64decode (Some d) (length d) e' ((length xs + 2) div 3 * 4) =
      Some (0, Some (length xs), Some (xs @ drop (length xs) d))"
proof -
  let ?n = "(length xs + 2) div 3 * 4"
  define e' where "e' = put e (base64_text xs @ [0])"
  have "qcloud_iot_utils_base64encode (Some e) (length e) xs (length xs) = Some (0, ?n, Some e')"
    using base64encode_correct [of "length xs" xs "length e" e] assms(1-3) by (simp add: e'_def)
  moreover have t: "take ?n e' = base64_text xs" "take (?n + 1) e' = base64_text xs @ [0]"
    by (simp_all add: e'_def put_def length_base64_text)
  moreover have "?n \<le> length e'"
    using assms(3) by (simp add: e'_def length_base64_text)
  then have "qcloud_iot_utils_base64decode (Some d) (length d) e' ?n = Some (0, Some (length xs), Some (put d xs))"
    using t(1) assms(1,4) by (intro base64decode_text) simp_all
  ultimately show ?thesis
    by (simp add: put_def)
qed

theorem base64_roundtrip_witness:
  "\<exists>e'. qcloud_iot_utils_base64encode (Some (replicate 9 0)) (length (replicate 9 (0 :: byte))) [77, 97, 110, 255] (length [77, 97, 110, 255 :: byte]) =
      Some (0, (length [77, 97, 110, 255 :: byte] + 2) div 3 * 4, Some e') \<and>
    take ((length [77, 97, 110, 255 :: byte] + 2) div 3 * 4 + 1) e' = base64_text [77, 97, 110, 255] @ [0] \<and>
    qcloud_iot_utils_base64decode (Some (replicate 5 0)) (length (replicate 5 (0 :: byte))) e' ((length [77, 97, 110, 255 :: byte] + 2) div 3 * 4) =
      Some (0, Some (length [77, 97, 110, 255 :: byte]), Some ([77, 97, 110, 255] @ drop (length [77, 97, 110, 255 :: byte]) (replicate 5 0)))"
  by (rule base64_roundtrip) simp_all

text \<open>
  C32: Decoding is safe for every input: it never reads outside the given length nor writes outside the given destination, it
  always returns, and it either rejects the input and leaves the destination as it was or stores the number of bytes
  written, which is within the destination's size, and leaves the rest of the destination as it was.
\<close>

theorem base64_decode_safe:
  assumes "slen \<le> length src" and "dlen \<le> length d"
  shows "\<exists>rc olen d'. qcloud_iot_utils_base64decode (Some d) dlen src slen = Some (rc, olen, Some d') \<and>
    length d' = length d \<and> drop dlen d' = drop dlen d \<and>
    (if rc = 0 then \<exists>m \<le> dlen. olen = Some m \<and> drop m d' = drop m d else rc = QCLOUD_ERR_FAILURE \<and> d' = d)"
  using assms
proof (cases rule: base64decode_cases)
  case (error olen)
  then show ?thesis by simp
next
  case (decoded cs)
  let ?o = "dec_out 3 0 0 cs"
  have "length ?o \<le> length d"
    using decoded(2) assms(2) by simp
  then have "length (put d ?o) = length d" "drop (length ?o) (put d ?o) = drop (length ?o) d"
      "drop dlen (put d ?o) = drop dlen d"
    using decoded(2) by (simp_all add: put_def)
  with decoded show ?thesis
    by (intro exI [of _ 0] exI [of _ "Some (length ?o)"] exI [of _ "put d ?o"]) auto
qed

theorem base64_decode_safe_witness:
  "\<exists>rc olen d'. qcloud_iot_utils_base64decode (Some [1, 2, 3]) 2 [0x41, 0x41, 0x20, 0x0A, 0x41, 0x3D, 0x3D] 7 = Some (rc, olen, Some d') \<and>
    length d' = length [1, 2, 3 :: byte] \<and> drop 2 d' = drop 2 [1, 2, 3] \<and>
    (if rc = 0 then \<exists>m \<le> 2. olen = Some m \<and> drop m d' = drop m [1, 2, 3] else rc = QCLOUD_ERR_FAILURE \<and> d' = [1, 2, 3])"
  by (rule base64_decode_safe) simp_all

end
