(* ===== verification/Coap_Api.thy ===== *)
theory Coap_Api
  imports Coap_Client Utils_Base64
begin

text \<open>
  Authentication (\<^verbatim>\<open>coap_client_auth.c\<close>) and the calls of the application (\<^verbatim>\<open>coap_client.c\<close>): construction, destruction, sending,
  the main loop and the access to received messages.
\<close>

section \<open>Authentication\<close>

text \<open>The letter or digit that two calls of \<^verbatim>\<open>rand\<close> give.\<close>

fun conn_id_loop :: "'w coap_env \<Rightarrow> nat \<Rightarrow> 'w \<Rightarrow> cstr \<times> 'w" where
  "conn_id_loop env 0 w = ([], w)"
| "conn_id_loop env (Suc n) w =
     (let (flag, w) = coap_rand env w;
          (r, w) = coap_rand env w;
          c = (if flag mod 3 = 0 then of_nat (r mod 26) + of_char (CHR ''a'') :: byte
               else if flag mod 3 = 1 then of_nat (r mod 26) + of_char (CHR ''A'') else of_nat (r mod 10) + of_char (CHR ''0''));
          (cs, w) = conn_id_loop env n w
      in (c # cs, w))"

definition get_coap_next_conn_id :: "'w coap_env \<Rightarrow> 'w coap_sys \<Rightarrow> 'w coap_sys" where
  "get_coap_next_conn_id env s =
     (let (cs, w) = conn_id_loop env (COAP_MAX_CONN_ID_LEN - 1) (net s) in s\<lparr>conn_id := cs, net := w\<rparr>)"

text \<open>What both kinds of request begin with: a confirmable POST with the next id and the next token.\<close>

definition new_request :: "'w coap_sys \<Rightarrow> (CoAPMessage \<times> 'w coap_sys) option" where
  "new_request s = do {
     let send_message = DEFAULT_COAP_MESSAGE;
     let send_message = snd (coap_message_type_set send_message COAP_MSG_CON);
     let send_message = snd (coap_message_code_set send_message COAP_MSG_REQ COAP_MSG_POST);
     let (mid, s) = get_next_coap_msg_id s;
     let send_message = snd (coap_message_id_set send_message (ucast mid));
     let (len, message_token, s) = get_coap_message_token s;
     (rc, send_message) \<leftarrow> coap_message_token_set send_message message_token len;
     Some (send_message, s)
   }"

text \<open>\<^verbatim>\<open>coap_message_option_add\<close> with the client's allocator; its result is not looked at.\<close>

definition add_option :: "'w coap_env \<Rightarrow> u32 \<Rightarrow> byte list \<Rightarrow> nat \<Rightarrow> CoAPMessage \<Rightarrow> 'w coap_sys \<Rightarrow> (CoAPMessage \<times> 'w coap_sys) option" where
  "add_option env num val len message s = do {
     (rc, message, w) \<leftarrow> coap_message_option_add (coap_malloc env) message num (of_nat len) val (net s);
     Some (message, s\<lparr>net := w\<rparr>)
   }"

text \<open>The address of the client as the context of its own callback.\<close>

definition CLIENT_ADDR :: nat where "CLIENT_ADDR = 0"

definition auth_payload_len :: nat where
  "auth_payload_len = length COAP_SDK_APPID + COAP_MAX_CONN_ID_LEN + 2"

text \<open>
  The payload is a string written into fresh memory; \<^verbatim>\<open>coap_message_payload_set\<close> copies the whole buffer, the byte
  behind the terminating NUL included.
\<close>

definition coap_client_auth :: "'w coap_env \<Rightarrow> 'w coap_sys \<Rightarrow> (int \<times> 'w coap_sys) option" where
  "coap_client_auth env s = do {
     (send_message, s) \<leftarrow> new_request s;
     let dev = device_info s;
     let len = MAX_SIZE_OF_PRODUCT_ID + length (device_name dev) + length COAP_AUTH_URI + 4;
     let (mem, s) = alloc env len s;
     if mem = None then None
     else do {
       let auth_path = fst (HAL_Snprintf len (product_id dev @ chars ''/'' @ device_name dev @ chars ''/'' @ COAP_AUTH_URI));
       (send_message, s) \<leftarrow> add_option env COAP_MSG_URI_PATH auth_path (length auth_path) send_message s;
       (send_message, s) \<leftarrow> add_option env COAP_MSG_NEED_RESP (chars ''0'') 1 send_message s;
       let send_message = snd (coap_message_callback_set send_message (Some auth_callback));
       let send_message = snd (coap_message_context_set send_message (Some CLIENT_ADDR));
       let s = get_coap_next_conn_id env s;
       let send_message = send_message\<lparr>pay_load_len := auth_payload_len\<rparr>;
       let (pl, s) = alloc env auth_payload_len s;
       case pl of
         None \<Rightarrow> Some (QCLOUD_ERR_INVAL, s)
       | Some pl \<Rightarrow> do {
           let send_message = send_message\<lparr>pay_load := Some pl\<rparr>;
           let (temp, s) = alloc env auth_payload_len s;
           case temp of
             None \<Rightarrow> Some (QCLOUD_ERR_INVAL, s)
           | Some temp \<Rightarrow> do {
               temp \<leftarrow> wr_bytes temp 0 (fst (HAL_Snprintf auth_payload_len (COAP_SDK_APPID @ chars '';'' @ conn_id s)) @ [0]);
               (rc, send_message) \<leftarrow> coap_message_payload_set send_message temp (pay_load_len send_message);
               coap_message_send env send_message s
             }
         }
     }
   }"

section \<open>Initialisation\<close>

definition COAP_HOST_STR_LENGTH :: nat where "COAP_HOST_STR_LENGTH = 64"
definition COAP_DECODE_PSK_LENGTH :: nat where "COAP_DECODE_PSK_LENGTH = 48"
definition QCLOUD_IOT_COAP_DEIRECT_DOMAIN :: cstr where "QCLOUD_IOT_COAP_DEIRECT_DOMAIN = chars ''iotcloud.tencentdevices.com''"

record CoAPInitParams =
  cp_product_id :: cstr
  cp_device_name :: cstr
  cp_device_secret :: "cstr option"
  cp_command_timeout :: u32
  cp_max_retry_count :: byte
  cp_event_handle :: bool

text \<open>The structure after \<^verbatim>\<open>memset(pClient, 0x0, sizeof(CoAPClient))\<close>.\<close>

definition clear_client :: "'w coap_sys \<Rightarrow> 'w coap_sys" where
  "clear_client s = s\<lparr>is_authed := 0, conn_id := [], message_token := 0, auth_token := None, auth_token_len := 0, next_msg_id := 0,
     send_buf_size := 0, coap_read_buf_size := 0, send_buf := replicate COAP_SENDMSG_MAX_BUFLEN 0, recv_buf := replicate COAP_RECVMSG_MAX_BUFLEN 0,
     lock_send_buf := False, lock_list_wait_ack := False, coap_timeout_ms := 0, message_list := None, max_retry_count := 0,
     coap_event_handle := False, device_info := empty_device_info, coap_host_addr := [], psk_decode := replicate COAP_DECODE_PSK_LENGTH 0,
     psk_length := 0\<rparr>"

definition coap_random_start_packet_id :: "'w coap_env \<Rightarrow> 'w coap_sys \<Rightarrow> u16 \<times> 'w coap_sys" where
  "coap_random_start_packet_id env s = (let (r, w) = coap_rand env (net s) in (of_nat (r mod 65536 + 1), s\<lparr>net := w\<rparr>))"

definition limit_command_timeout :: "u32 \<Rightarrow> u32" where
  "limit_command_timeout t =
     (let t = (if t < COAP_MIN_COMMAND_TIMEOUT then COAP_MIN_COMMAND_TIMEOUT else t)
      in if t > COAP_MAX_COMMAND_TIMEOUT then COAP_MAX_COMMAND_TIMEOUT else t)"

text \<open>The second half: ids, buffer sizes, mutexes and the list.\<close>

definition coap_init_rest :: "'w coap_env \<Rightarrow> CoAPInitParams \<Rightarrow> 'w coap_sys \<Rightarrow> int \<times> 'w coap_sys" where
  "coap_init_rest env p s =
     (let s = s\<lparr>auth_token := None, auth_token_len := 0\<rparr>;
          (mid, s) = coap_random_start_packet_id env s;
          s = s\<lparr>next_msg_id := mid, coap_read_buf_size := COAP_RECVMSG_MAX_BUFLEN, send_buf_size := COAP_SENDMSG_MAX_BUFLEN\<rparr>;
          (l1, w) = coap_mutex env (net s);
          s = s\<lparr>net := w\<rparr>
      in if \<not> l1 then (QCLOUD_ERR_FAILURE, s)
         else
           let (l2, w) = coap_mutex env (net s);
               s = s\<lparr>net := w\<rparr>
           in if \<not> l2 then (QCLOUD_ERR_FAILURE, s)
              else
                let (mem, s) = alloc env 0 s
                in (QCLOUD_RET_SUCCESS, s\<lparr>message_list := (if mem = None then None else Some []), max_retry_count := cp_max_retry_count p,
                     coap_event_handle := cp_event_handle p\<rparr>))"

text \<open>
  The configuration of \<^verbatim>\<open>config.h\<close>: DTLS with a pre-shared key.  The result of decoding the secret is not looked at; the length is
  then the one of an uninitialised variable, \<open>junk\<close>.  The timeout is limited in the caller's parameters as well.
\<close>

definition qcloud_iot_coap_init :: "'w coap_env \<Rightarrow> nat \<Rightarrow> CoAPInitParams \<Rightarrow> 'w coap_sys \<Rightarrow> (int \<times> 'w coap_sys) option" where
  "qcloud_iot_coap_init env junk p s = do {
     let s = clear_client s;
     let (rc, dev) = iot_device_info_set (cp_product_id p) (cp_device_name p);
     let s = s\<lparr>device_info := dev\<rparr>;
     if rc \<noteq> QCLOUD_RET_SUCCESS then Some (rc, s)
     else do {
       let (host, size) = HAL_Snprintf COAP_HOST_STR_LENGTH (cp_product_id p @ chars ''.'' @ QCLOUD_IOT_COAP_DEIRECT_DOMAIN);
       let s = s\<lparr>coap_host_addr := host\<rparr>;
       if size < 0 \<or> size > int COAP_HOST_STR_LENGTH - 1 then Some (QCLOUD_ERR_FAILURE, s)
       else do {
         let s = s\<lparr>is_authed := - 1, coap_timeout_ms := limit_command_timeout (cp_command_timeout p)\<rparr>;
         case cp_device_secret p of
           None \<Rightarrow> Some (QCLOUD_ERR_INVAL, s)
         | Some secret \<Rightarrow> do {
             (rc, len, psk) \<leftarrow> qcloud_iot_utils_base64decode (Some (replicate COAP_DECODE_PSK_LENGTH 0)) COAP_DECODE_PSK_LENGTH secret (length secret);
             psk \<leftarrow> psk;
             Some (coap_init_rest env p (s\<lparr>psk_decode := psk, psk_length := (case len of None \<Rightarrow> junk | Some len \<Rightarrow> len)\<rparr>))
           }
       }
     }
   }"

section \<open>The calls of the application\<close>

text \<open>Releasing the client: the network is disconnected (which does nothing without a connection), list, mutexes and token are released.\<close>

definition IOT_COAP_Destroy :: "'w coap_env \<Rightarrow> 'w coap_sys \<Rightarrow> 'w coap_sys option" where
  "IOT_COAP_Destroy env s = do {
     let s = s\<lparr>net := dtls_disconnect env (net s)\<rparr>;
     nodes \<leftarrow> message_list s;
     Some (s\<lparr>message_list := None, auth_token := None, auth_token_len := 0, is_authed := - 1\<rparr>)
   }"

definition IOT_COAP_Yield :: "'w coap_env \<Rightarrow> u32 \<Rightarrow> 'w coap_sys \<Rightarrow> (int \<times> 'w coap_sys) option" where
  "IOT_COAP_Yield env timeout_ms s = coap_message_cycle env timeout_ms s"

text \<open>The loop that waits for the authentication; not returning is \<open>None\<close>.\<close>

partial_function (option) auth_loop :: "'w coap_env \<Rightarrow> 'w coap_sys \<Rightarrow> 'w coap_sys option" where
  "auth_loop env s =
     (if is_authed s = - 1 then do {
        (rc, s) \<leftarrow> IOT_COAP_Yield env 200 s;
        auth_loop env s
      } else Some s)"

text \<open>The result says whether the client was constructed.\<close>

definition IOT_COAP_Construct :: "'w coap_env \<Rightarrow> nat \<Rightarrow> CoAPInitParams \<Rightarrow> 'w coap_sys \<Rightarrow> (bool \<times> 'w coap_sys) option" where
  "IOT_COAP_Construct env junk p s =
     (if cp_product_id p = [] \<or> cp_device_name p = [] then Some (False, s)
      else do {
        let (mem, s) = alloc env 0 s;
        if mem = None then Some (False, s)
        else do {
          (rc, s) \<leftarrow> qcloud_iot_coap_init env junk p s;
          if rc \<noteq> QCLOUD_RET_SUCCESS then Some (False, s)
          else do {
            let (rc, w) = dtls_connect env (net s);
            let s = s\<lparr>net := w\<rparr>;
            if rc \<noteq> QCLOUD_RET_SUCCESS then Some (False, s)
            else do {
              (rc, s) \<leftarrow> coap_client_auth env s;
              s \<leftarrow> auth_loop env s;
              if is_authed s = COAP_TRUE then Some (True, s) else map_option (Pair False) (IOT_COAP_Destroy env s)
            }
          }
        }
      })"

record SendMsgParams =
  need_resp :: bool
  sp_pay_load :: "byte list"
  sp_pay_load_len :: nat
  sp_user_context :: "nat option"
  resp_callback :: "OnRespCallback option"

definition IOT_COAP_SendMessage :: "'w coap_env \<Rightarrow> cstr \<Rightarrow> SendMsgParams \<Rightarrow> 'w coap_sys \<Rightarrow> (int \<times> 'w coap_sys) option" where
  "IOT_COAP_SendMessage env topicName sendParams s =
     (if length topicName > URI_PATH_MAX_LEN then Some (QCLOUD_ERR_MAX_TOPIC_LENGTH, s)
      else do {
        (send_message, s) \<leftarrow> new_request s;
        let (pl, s) = alloc env (sp_pay_load_len sendParams) s;
        case pl of
          None \<Rightarrow> Some (QCLOUD_ERR_INVAL, s)
        | Some pl \<Rightarrow> do {
            (rc, send_message) \<leftarrow> coap_message_payload_set (send_message\<lparr>pay_load := Some pl\<rparr>) (sp_pay_load sendParams) (sp_pay_load_len sendParams);
            (send_message, s) \<leftarrow> add_option env COAP_MSG_URI_PATH topicName (length topicName) send_message s;
            (send_message, s) \<leftarrow> add_option env COAP_MSG_AUTH_TOKEN (case auth_token s of None \<Rightarrow> [] | Some t \<Rightarrow> t) (auth_token_len s) send_message s;
            (send_message, s) \<leftarrow>
              (if \<not> need_resp sendParams then do {
                 (send_message, s) \<leftarrow> add_option env COAP_MSG_NEED_RESP (chars ''0'') 1 send_message s;
                 Some (snd (coap_message_context_set send_message (sp_user_context sendParams)), s)
               } else do {
                 (send_message, s) \<leftarrow> add_option env COAP_MSG_NEED_RESP (chars ''1'') 1 send_message s;
                 let send_message = snd (coap_message_callback_set send_message (resp_callback sendParams));
                 Some (snd (coap_message_context_set send_message (sp_user_context sendParams)), s)
               });
            (ret, s) \<leftarrow> coap_message_send env send_message s;
            if ret \<noteq> QCLOUD_RET_SUCCESS then Some (ret, s) else Some (uint (coap_msg_id send_message), s)
          }
      })"

definition IOT_COAP_GetMessageId :: "CoAPMessage option \<Rightarrow> int" where
  "IOT_COAP_GetMessageId pMessage = (case pMessage of None \<Rightarrow> QCLOUD_ERR_INVAL | Some message \<Rightarrow> uint (coap_msg_id message))"

definition IOT_COAP_GetMessagePayload :: "CoAPMessage option \<Rightarrow> (byte list option \<times> nat) cres" where
  "IOT_COAP_GetMessagePayload pMessage =
     (case pMessage of
        None \<Rightarrow> Inl QCLOUD_ERR_INVAL
      | Some message \<Rightarrow>
          if code_class message \<noteq> COAP_MSG_SUCCESS \<or> code_detail message \<noteq> COAP_MSG_CODE_205_CONTENT then Inl QCLOUD_ERR_FAILURE
          else Inr (pay_load message, pay_load_len message))"

definition IOT_COAP_GetMessageCode :: "CoAPMessage option \<Rightarrow> int" where
  "IOT_COAP_GetMessageCode pMessage =
     (case pMessage of
        None \<Rightarrow> QCLOUD_ERR_INVAL
      | Some message \<Rightarrow> CoAPEventType_val
          (if code_class message = COAP_MSG_SUCCESS then COAP_EVENT_RECEIVE_RESPCONTENT
           else if code_class message = COAP_MSG_CLIENT_ERR then
             if code_detail message = COAP_MSG_CODE_401_UNAUTHORIZED then COAP_EVENT_UNAUTHORIZED else COAP_EVENT_FORBIDDEN
           else if code_class message = COAP_MSG_SERVER_ERR then COAP_EVENT_INTERNAL_SERVER_ERROR
           else if code_class message = COAP_MSG_SDKINTERNAL_ERR then COAP_EVENT_SEPRESP_TIMEOUT
           else COAP_EVENT_ACK_TIMEOUT))"

end
