(* ===== verification/Coap_Requests.thy ===== *)
theory Coap_Requests
  imports Coap_Api
begin

text \<open>
  The invariant of the CoAP client and that sending, receiving and sweeping keep it: no lock is held, the buffers have their size, every waiting
  request has its token and the bytes to send again.  For each operation there is an equation that says what it does on every branch.
\<close>

section \<open>The invariant of the client\<close>

definition request_ok :: "CoAPMsgSendInfo \<Rightarrow> bool" where
  "request_ok i \<longleftrightarrow> length (si_token i) = 8 \<and> unat (si_token_len i) \<le> 8 \<and> si_handler i \<noteq> Some auth_callback \<and>
     (case si_message i of None \<Rightarrow> False | Some m \<Rightarrow> unat (msglen i) \<le> length m)"

definition coap_inv :: "'w coap_sys \<Rightarrow> bool" where
  "coap_inv s \<longleftrightarrow> \<not> lock_send_buf s \<and> \<not> lock_list_wait_ack s \<and> send_buf_size s = 512 \<and> length (send_buf s) = 512 \<and>
     coap_read_buf_size s = 512 \<and> length (recv_buf s) = 512 \<and>
     (case message_list s of None \<Rightarrow> False | Some l \<Rightarrow> list_all request_ok l) \<and>
     (case auth_token s of None \<Rightarrow> auth_token_len s = 0 | Some t \<Rightarrow> auth_token_len s \<le> length t) \<and> auth_token_len s < 65536"

text \<open>What an operation does that only calls the application and the network.\<close>

definition emit :: "coap_upcall list \<Rightarrow> 'w \<Rightarrow> 'w coap_sys \<Rightarrow> 'w coap_sys" where
  "emit cs w s = s\<lparr>calls := calls s @ cs, net := w\<rparr>"

lemma emit_simps [simp]:
  "emit cs' w' (emit cs w s) = emit (cs @ cs') w' s" "emit [] (net s) s = s" "net (emit cs w s) = w" "calls (emit cs w s) = calls s @ cs"
  "message_list (emit cs w s) = message_list s" "coap_event_handle (emit cs w s) = coap_event_handle s"
  "max_retry_count (emit cs w s) = max_retry_count s" "coap_timeout_ms (emit cs w s) = coap_timeout_ms s"
  "lock_list_wait_ack (emit cs w s) = lock_list_wait_ack s" "lock_send_buf (emit cs w s) = lock_send_buf s"
  "coap_inv (emit cs w s) = coap_inv s"
  by (simp_all add: emit_def coap_inv_def cong: option.case_cong)

lemma net_upd_emit: "s\<lparr>net := w\<rparr> = emit [] w s"
  by (simp add: emit_def)

lemma request_ok_upd [simp]:
  "request_ok (i\<lparr>acked := a\<rparr>) = request_ok i" "request_ok (i\<lparr>node_state := n\<rparr>) = request_ok i"
  "request_ok (i\<lparr>start_time := t\<rparr>) = request_ok i" "request_ok (i\<lparr>retrans_count := r\<rparr>) = request_ok i"
  by (simp_all add: request_ok_def cong: option.case_cong)

text \<open>The call that a request makes when it ends: its own callback or the event handler, if there is one.\<close>

definition notice :: "bool \<Rightarrow> CoAPMsgSendInfo \<Rightarrow> CoAPMessage \<Rightarrow> CoAPEventType \<Rightarrow> event_content \<Rightarrow> coap_upcall list" where
  "notice ev i m t c =
     (case si_handler i of Some (user_callback f) \<Rightarrow> [RespCall f m (si_user_context i)] | _ \<Rightarrow> if ev then [EventCall t c] else [])"

lemma call_handler_user:
  "request_ok i \<Longrightarrow> si_handler i = Some h \<Longrightarrow> call_handler env h m (si_user_context i) s = Some (emit (notice ev i m t c) (net s) s)"
  by (cases h) (auto simp: call_handler_def request_ok_def notice_def emit_def)

lemma call_event_emit: "si_handler i = None \<Longrightarrow> call_event t c s = emit (notice (coap_event_handle s) i m t c) (net s) s"
  by (simp add: call_event_def notice_def emit_def)

lemma unat_ucast_u32: "unat (ucast (b :: byte) :: u32) = unat b"
  by (simp add: unsigned_ucast_eq take_bit_nat_eq_self less_trans [OF unsigned_less])

lemma process_ack_eq:
  "process_ack env i m s =
     (if si_msg_id i = coap_msg_id m
      then Some (Some (i\<lparr>acked := 1, start_time := HAL_Timer_countdown_ms (fst (coap_time env (net s))) (coap_timeout_ms s)\<rparr>), m,
        emit [] (snd (coap_time env (net s))) s)
      else Some (Some i, m, s))"
  by (simp add: process_ack_def coap_countdown_ms_def net_upd_emit split: prod.splits)

lemma process_piggy_eq:
  "request_ok i \<Longrightarrow> process_piggy env i m s =
     (if si_msg_id i = coap_msg_id m
      then Some (Some (i\<lparr>acked := 1, node_state := COAP_NODE_STATE_INVALID\<rparr>), m\<lparr>user_context := si_user_context i\<rparr>,
        emit (notice (coap_event_handle s) i (m\<lparr>user_context := si_user_context i\<rparr>) (event_message_type m PROCESS_PIGGY_CMD) (EventId (coap_msg_id m)))
          (net s) s)
      else Some (Some i, m, s))"
  by (cases "si_handler i")
    (simp_all add: process_piggy_def Let_def event_message_type_def call_event_emit [where i = i and m = "m\<lparr>user_context := si_user_context i\<rparr>"]
      call_handler_user [where ev = "coap_event_handle s" and t = "event_message_type m PROCESS_PIGGY_CMD" and c = "EventId (coap_msg_id m)"])

definition token_matches :: "CoAPMsgSendInfo \<Rightarrow> CoAPMessage \<Rightarrow> bool" where
  "token_matches i m \<longleftrightarrow> si_token_len i \<noteq> 0 \<and> ucast (si_token_len i) = token_len m \<and>
     take (unat (si_token_len i)) (si_token i) = take (unat (si_token_len i)) (token m)"

lemma process_resp_eq:
  "request_ok i \<Longrightarrow> length (token m) = 8 \<Longrightarrow> process_resp env i m s =
     (if token_matches i m
      then Some (Some (i\<lparr>node_state := COAP_NODE_STATE_INVALID\<rparr>),
        (if si_handler i = None \<and> coap_event_handle s then m\<lparr>user_context := si_user_context i, coap_msg_id := si_msg_id i\<rparr>
         else m\<lparr>user_context := si_user_context i\<rparr>),
        emit (notice (coap_event_handle s) i (m\<lparr>user_context := si_user_context i\<rparr>) (event_message_type m PROCESS_RESP_CMD)
          (EventMsg (m\<lparr>user_context := si_user_context i, coap_msg_id := si_msg_id i\<rparr>))) (net s) s)
      else Some (Some i, m, s))"
  (is "_ \<Longrightarrow> _ \<Longrightarrow> _ = ?r")
proof -
  assume i: "request_ok i" and m: "length (token m) = 8"
  show "process_resp env i m s = ?r"
  proof (cases "si_token_len i \<noteq> 0 \<and> ucast (si_token_len i) = token_len m")
    case True
    then have u: "unat (token_len m) = unat (si_token_len i)"
      using unat_ucast_u32 by metis
    then have "rd_bytes (si_token i) 0 (unat (token_len m)) = Some (take (unat (si_token_len i)) (si_token i))"
      "rd_bytes (token m) 0 (unat (token_len m)) = Some (take (unat (si_token_len i)) (token m))"
      using i m by (simp_all add: rd_bytes_def request_ok_def)
    then show ?thesis
      using True i
      by (cases "si_handler i"; cases "coap_event_handle s")
        (simp_all add: process_resp_def token_matches_def Let_def event_message_type_def notice_def emit_def call_event_def
          call_handler_user [where ev = "coap_event_handle s" and t = "event_message_type m PROCESS_RESP_CMD" and
            c = "EventMsg (m\<lparr>user_context := si_user_context i, coap_msg_id := si_msg_id i\<rparr>)"])
  next
    case False
    then show ?thesis
      by (auto simp: process_resp_def token_matches_def)
  qed
qed

text \<open>A timeout is reported with a message of the client's own, or by an event.\<close>

definition timeout_message :: "CoAPMsgSendInfo \<Rightarrow> CoAPMessage \<Rightarrow> CoAPMessage" where
  "timeout_message i m = m\<lparr>msg_type := COAP_MSG_ACK, user_context := si_user_context i, code_class := COAP_MSG_SDKINTERNAL_ERR,
     code_detail := COAP_MSG_CODE_600_TIMEOUT, coap_msg_id := si_msg_id i\<rparr>"

definition timeout_notice :: "bool \<Rightarrow> CoAPMsgSendInfo \<Rightarrow> CoAPMessage \<Rightarrow> coap_upcall list" where
  "timeout_notice ev i m =
     notice ev i (timeout_message i m) (if acked i \<noteq> 0 then COAP_EVENT_SEPRESP_TIMEOUT else COAP_EVENT_ACK_TIMEOUT) (EventId (si_msg_id i))"

lemma report_timeout_eq:
  "request_ok i \<Longrightarrow> report_timeout env i m s =
     Some (if si_handler i = None then m else timeout_message i m, emit (timeout_notice (coap_event_handle s) i m) (net s) s)"
  by (cases "si_handler i")
    (simp_all add: report_timeout_def Let_def timeout_message_def timeout_notice_def call_event_emit [where i = i and m = "timeout_message i m"]
      call_handler_user [where ev = "coap_event_handle s" and c = "EventId (si_msg_id i)" and
        t = "if acked i \<noteq> 0 then COAP_EVENT_SEPRESP_TIMEOUT else COAP_EVENT_ACK_TIMEOUT"])

text \<open>The environment after a retransmission.\<close>

definition retransmit_net :: "'w coap_env \<Rightarrow> u32 \<Rightarrow> CoAPMsgSendInfo \<Rightarrow> 'w \<Rightarrow> 'w" where
  "retransmit_net env ms i w =
     (let (t, w) = coap_time env w;
          (t', w) = coap_time env w;
          (ret, n, w) = dtls_write env (take (unat (msglen i)) (the (si_message i))) (HAL_Timer_remain t' (HAL_Timer_countdown_ms t ms)) w
      in w)"

lemma retransmit_eq:
  "request_ok i \<Longrightarrow> retransmit env i s =
     Some (i\<lparr>start_time := HAL_Timer_countdown_ms (fst (coap_time env (net s))) (coap_timeout_ms s), retrans_count := retrans_count i + 1\<rparr>,
       emit [] (retransmit_net env (coap_timeout_ms s) i (net s)) s)"
  by (auto simp: retransmit_def coap_countdown_ms_def coap_left_ms_def request_ok_def rd_bytes_def retransmit_net_def net_upd_emit Let_def
      split: prod.splits option.splits)

text \<open>What the sweep does with a request at a time: it keeps it, sends it again or ends it.\<close>

lemma process_wait_eq:
  assumes "request_ok i"
  shows "process_wait env i m s =
    (if node_state i = COAP_NODE_STATE_INVALID then Some (None, m, s)
     else let (t, w) = coap_time env (net s); s' = emit [] w s in
       if HAL_Timer_remain t (start_time i) > 0 then Some (Some i, m, s')
       else if retrans_count i < max_retry_count s \<and> acked i = 0
       then Some (Some (i\<lparr>start_time := HAL_Timer_countdown_ms (fst (coap_time env w)) (coap_timeout_ms s), retrans_count := retrans_count i + 1\<rparr>), m,
         emit [] (retransmit_net env (coap_timeout_ms s) i w) s)
       else Some (None, if si_handler i = None then m else timeout_message i m, emit (timeout_notice (coap_event_handle s) i m) w s))"
  by (simp add: process_wait_def coap_left_ms_def net_upd_emit Let_def retransmit_eq [OF assms] report_timeout_eq [OF assms]
      split: prod.split) blast

section \<open>The sweeps keep the invariant\<close>

text \<open>States that differ by calls of the application and of the network.\<close>

definition emits :: "'w coap_sys \<Rightarrow> 'w coap_sys \<Rightarrow> bool" where
  "emits s s' \<longleftrightarrow> (\<exists>cs w. s' = emit cs w s)"

lemma emits_refl [simp]: "emits s s"
  unfolding emits_def by (metis emit_simps(2))

lemma emits_emit [simp]: "emits s (emit cs w s)"
  unfolding emits_def by blast

lemma emits_trans: "emits s s' \<Longrightarrow> emits s' s'' \<Longrightarrow> emits s s''"
  unfolding emits_def by fastforce

lemma process_node_wp:
  assumes "request_ok i" and "length (token m) = 8"
  shows "ok (process_node env cmd i m s) (\<lambda>(kept, m', s'). pred_option request_ok kept \<and> length (token m') = 8 \<and> emits s s')"
  using assms
  by (cases cmd) (simp_all add: process_node_def process_ack_eq process_piggy_eq process_resp_eq process_wait_eq timeout_message_def Let_def
      split: prod.split)

lemma list_proc_loop_wp:
  "list_all request_ok nodes \<Longrightarrow> length (token m) = 8 \<Longrightarrow>
     ok (list_proc_loop env cmd nodes m s) (\<lambda>(nodes', m', s'). list_all request_ok nodes' \<and> length (token m') = 8 \<and> emits s s')"
proof (induction nodes arbitrary: m s)
  case (Cons i nodes)
  have "ok (process_node env cmd i m s) (\<lambda>(kept, m', s'). pred_option request_ok kept \<and> length (token m') = 8 \<and> emits s s')"
    using Cons.prems by (intro process_node_wp) simp_all
  then obtain kept m1 s1 where n: "process_node env cmd i m s = Some (kept, m1, s1)" "pred_option request_ok kept" "length (token m1) = 8" "emits s s1"
    by (auto dest!: ok_D)
  have "ok (list_proc_loop env cmd nodes m1 s1) (\<lambda>(nodes', m', s'). list_all request_ok nodes' \<and> length (token m') = 8 \<and> emits s1 s')"
    using Cons.prems n(3) by (intro Cons.IH) simp_all
  then show ?case
    unfolding list_proc_loop.simps n(1) using n(2,4)
    by (auto simp: ok_bind split: option.split intro: emits_trans elim!: ok_mono)
qed simp

text \<open>The sweep, with the lock and the iterator left out: what its loop does is done to the list.\<close>

lemma list_proc_result:
  assumes "coap_inv s" and "length (token m) = 8"
  obtains (empty) "message_list s = Some []" and "coap_message_list_proc env m cmd s = Some (QCLOUD_ERR_FAILURE, m, s)"
  | (no_memory) w where "coap_malloc env (net s) = (False, w)" and "coap_message_list_proc env m cmd s = Some (QCLOUD_RET_SUCCESS, m, emit [] w s)"
  | (swept) l w l' m' cs w' where "message_list s = Some l" and "l \<noteq> []" and "coap_malloc env (net s) = (True, w)"
      and "list_proc_loop env cmd (rev l) m (emit [] w (s\<lparr>lock_list_wait_ack := True\<rparr>)) = Some (l', m', emit cs w' (s\<lparr>lock_list_wait_ack := True\<rparr>))"
      and "coap_message_list_proc env m cmd s = Some (QCLOUD_RET_SUCCESS, m', emit cs w' (s\<lparr>message_list := Some (rev l')\<rparr>))"
      and "coap_inv (emit cs w' (s\<lparr>message_list := Some (rev l')\<rparr>))"
proof -
  obtain l where l: "message_list s = Some l" "list_all request_ok l" "\<not> lock_list_wait_ack s"
    using assms(1) by (auto simp: coap_inv_def split: option.splits)
  have u: "s\<lparr>lock_list_wait_ack := False\<rparr> = s"
    using l(3) by simp
  obtain b w where a: "coap_malloc env (net s) = (b, w)" by fastforce
  let ?s = "s\<lparr>lock_list_wait_ack := True\<rparr>"
  obtain l' m' s3 where r: "list_proc_loop env cmd (rev l) m (emit [] w ?s) = Some (l', m', s3)" "list_all request_ok l'" "emits (emit [] w ?s) s3"
    using list_proc_loop_wp [of "rev l" m env cmd "emit [] w ?s"] assms(2) l(2) by (auto simp: ok_def split: option.splits)
  then obtain cs w' where s3: "s3 = emit cs w' ?s"
    by (auto simp: emits_def)
  have e: "(emit cs w' ?s)\<lparr>message_list := Some (rev l'), lock_list_wait_ack := False\<rparr> = emit cs w' (s\<lparr>message_list := Some (rev l')\<rparr>)"
    "(emit [] w ?s)\<lparr>lock_list_wait_ack := False\<rparr> = emit [] w s"
    using l(3) by (simp_all add: emit_def)
  have inv: "coap_inv (s\<lparr>message_list := Some (rev l')\<rparr>)"
    using assms(1) r(2) by (auto simp: coap_inv_def cong: option.case_cong)
  have p: "coap_message_list_proc env m cmd s =
      (if l = [] then Some (QCLOUD_ERR_FAILURE, m, s) else if b then Some (QCLOUD_RET_SUCCESS, m', emit cs w' (s\<lparr>message_list := Some (rev l')\<rparr>))
       else Some (QCLOUD_RET_SUCCESS, m, emit [] w s))"
    using l r(1) a e u unfolding coap_message_list_proc_def lock_list_def unlock_list_def alloc_def
    by (simp add: s3 net_upd_emit)
  show thesis
  proof (cases "l = []")
    case True
    with p l(1) show thesis by (intro empty) simp_all
  next
    case False
    with p l(1) a r(1) s3 inv show thesis
      by (cases b) (auto intro: no_memory swept)
  qed
qed

lemma list_proc_wp:
  assumes "coap_inv s" and "length (token m) = 8"
  shows "ok (coap_message_list_proc env m cmd s) (\<lambda>(rc, m', s'). coap_inv s')"
  by (rule list_proc_result [OF assms, of env cmd]) (simp_all add: assms(1))

section \<open>Sending keeps the invariant\<close>

definition coap_env_ok :: "'w coap_env \<Rightarrow> bool" where
  "coap_env_ok env \<longleftrightarrow> (\<forall>n w. length (coap_fresh env n w) = n) \<and> (\<forall>w. fst (coap_malloc env w)) \<and>
     (\<forall>bs t w. fst (snd (dtls_write env bs t w)) \<le> length bs) \<and> (\<forall>n t w. 0 < n \<longrightarrow> length (fst (snd (dtls_read env n t w))) < n)"

lemma env_okD:
  assumes "coap_env_ok env"
  shows "length (coap_fresh env n w) = n" "coap_malloc env w = (True, snd (coap_malloc env w))"
    "fst (snd (dtls_write env bs t w)) \<le> length bs" "0 < n \<Longrightarrow> length (fst (snd (dtls_read env n t' w))) < n"
  using assms by (auto simp: coap_env_ok_def prod_eq_iff)

text \<open>The request that is queued for a message, and the environment after queueing it.\<close>

definition queued :: "'w coap_env \<Rightarrow> CoAPMessage \<Rightarrow> byte list \<Rightarrow> 'w coap_sys \<Rightarrow> CoAPMsgSendInfo" where
  "queued env m bs s = \<lparr>node_state = COAP_NODE_STATE_NORMANL, si_user_context = user_context m, si_msg_id = coap_msg_id m, acked = 0,
     si_token_len = ucast (token_len m), si_token = take (unat (token_len m)) (token m) @ replicate (8 - unat (token_len m)) 0, retrans_count = 0,
     start_time = HAL_Timer_countdown_ms (fst (coap_time env (snd (coap_malloc env (net s))))) (coap_timeout_ms s),
     si_message = Some bs, msglen = of_nat (length bs), si_handler = resp_handler m\<rparr>"

definition queued_net :: "'w coap_env \<Rightarrow> 'w \<Rightarrow> 'w" where
  "queued_net env w = snd (coap_malloc env (snd (coap_malloc env (snd (coap_time env (snd (coap_malloc env w)))))))"

lemma list_add_eq:
  assumes "coap_env_ok env" and "\<not> lock_list_wait_ack s" and "message_list s = Some l" and "message_ok m" and "msg_type m = COAP_MSG_CON"
    and "n \<le> length (send_buf s)"
  shows "coap_message_list_add env m n s =
    Some (QCLOUD_RET_SUCCESS, emit [] (queued_net env (net s)) (s\<lparr>message_list := Some (l @ [queued env m (take n (send_buf s)) s])\<rparr>))"
proof -
  have t: "unat (token_len m) \<le> 8" "length (token m) = 8"
    using assms(4) by (simp_all add: message_ok_def)
  have u: "s\<lparr>lock_list_wait_ack := False\<rparr> = s"
    using assms(2) by simp
  obtain w1 where 1: "coap_malloc env (net s) = (True, w1)" using env_okD(2) [OF assms(1)] by blast
  obtain t2 w2 where 2: "coap_time env w1 = (t2, w2)" by fastforce
  obtain w3 where 3: "coap_malloc env w2 = (True, w3)" using env_okD(2) [OF assms(1)] by blast
  obtain w4 where 4: "coap_malloc env w3 = (True, w4)" using env_okD(2) [OF assms(1)] by blast
  have "rd_bytes (token m) 0 (unat (token_len m)) = Some (take (unat (token_len m)) (token m))"
    "rd_bytes (send_buf s) 0 n = Some (take n (send_buf s))"
    using t assms(6) by (simp_all add: rd_bytes_def)
  moreover have "wr_bytes (replicate 8 0) 0 (take (unat (token_len m)) (token m)) =
      Some (take (unat (token_len m)) (token m) @ replicate (8 - unat (token_len m)) 0)"
    using t by (simp add: wr_bytes_def min_def)
  moreover have "wr_bytes (coap_fresh env n w3) 0 (take n (send_buf s)) = Some (take n (send_buf s))"
    using env_okD(1) [OF assms(1)] assms(6) by (simp add: wr_bytes_def)
  ultimately show ?thesis
    using assms(2,3,5,6) unfolding coap_message_list_add_def alloc_def lock_list_def unlock_list_def coap_countdown_ms_def queued_def queued_net_def
    by (simp add: 1 2 3 4 COAP_MSG_MAX_TOKEN_LEN_def Let_def u emit_def)
qed

text \<open>Sending a message that fits the buffer, with its effect on every branch.\<close>

lemma message_send_eq:
  assumes "coap_env_ok env" and "coap_inv s" and "message_ok m" and "length (message_bytes m) < 512" and "message_list s = Some l"
    and "dtls_write env (message_bytes m) 0 (net s) = (ret, n, w)"
  defines "s1 \<equiv> s\<lparr>send_buf := put (send_buf s) (message_bytes m)\<rparr>"
  shows "coap_message_send env m s =
    (if ret = QCLOUD_RET_SUCCESS \<and> msg_type m = COAP_MSG_CON \<and> code_class m = COAP_MSG_REQ
     then Some (QCLOUD_RET_SUCCESS, emit [] (queued_net env w) (s1\<lparr>message_list := Some (l @ [queued env m (take n (message_bytes m)) (emit [] w s)])\<rparr>))
     else Some (ret, emit [] w s1))"
proof -
  have inv: "\<not> lock_send_buf s" "\<not> lock_list_wait_ack s" "send_buf_size s = 512" "length (send_buf s) = 512"
    using assms(2) by (simp_all add: coap_inv_def)
  have u: "s\<lparr>lock_send_buf := False\<rparr> = s" "s1\<lparr>lock_send_buf := False\<rparr> = s1"
    using inv(1) by (simp_all add: s1_def)
  have ser: "serialize_coap_message (Some m) (Some (send_buf s)) 512 = Some (int (length (message_bytes m)), Some (put (send_buf s) (message_bytes m)))"
    using assms(3,4) inv(4) by (intro serialize_message_put) simp_all
  have n: "n \<le> length (message_bytes m)"
    using env_okD(3) [OF assms(1), of "message_bytes m" 0 "net s"] assms(6) by simp
  have r: "rd_bytes (put (send_buf s) (message_bytes m)) 0 (length (message_bytes m)) = Some (message_bytes m)"
    using assms(4) inv(4) by (simp add: rd_bytes_def put_def)
  define s2 where "s2 = emit [] w (s1\<lparr>lock_send_buf := True\<rparr>)"
  have t: "take n (send_buf s2) = take n (message_bytes m)"
    using n by (simp add: s2_def s1_def emit_def put_def)
  have "coap_message_list_add env m n s2 =
      Some (QCLOUD_RET_SUCCESS, emit [] (queued_net env (net s2)) (s2\<lparr>message_list := Some (l @ [queued env m (take n (send_buf s2)) s2])\<rparr>))"
    if "msg_type m = COAP_MSG_CON"
    using n assms(4,5) inv that by (intro list_add_eq [OF assms(1) _ _ assms(3)]) (simp_all add: s2_def s1_def emit_def put_def)
  then have a: "coap_message_list_add env m n s2 =
      Some (QCLOUD_RET_SUCCESS, emit [] (queued_net env w) (s1\<lparr>lock_send_buf := True, message_list := Some (l @ [queued env m (take n (message_bytes m)) (emit [] w s)])\<rparr>))"
    if "msg_type m = COAP_MSG_CON"
    unfolding t using that by (simp add: s2_def emit_def queued_def s1_def)
  have swap: "s\<lparr>lock_send_buf := b, send_buf := x\<rparr> = s\<lparr>send_buf := x, lock_send_buf := b\<rparr>" for b x
    by simp
  have "coap_message_send env m s = do {
      (ret, s) \<leftarrow> (if ret = QCLOUD_RET_SUCCESS \<and> msg_type m = COAP_MSG_CON \<and> code_class m = COAP_MSG_REQ
        then coap_message_list_add env m n s2 else Some (ret, s2));
      s \<leftarrow> unlock_buf s;
      Some (ret, s) }"
    unfolding coap_message_send_def lock_buf_def s2_def s1_def using inv ser r assms(6) by (simp add: Let_def emit_def swap)
  then show ?thesis
    using a inv(1) u by (simp add: unlock_buf_def emit_def s2_def s1_def)
qed

lemma unat_token_byte: "unat (token_len m) \<le> 8 \<Longrightarrow> unat (ucast (token_len m) :: byte) = unat (token_len m)"
  by (simp add: unsigned_ucast_eq take_bit_nat_eq_self)

lemma queued_ok:
  "message_ok m \<Longrightarrow> resp_handler m \<noteq> Some auth_callback \<Longrightarrow> length bs < 512 \<Longrightarrow> request_ok (queued env m bs s)"
  by (simp add: request_ok_def queued_def message_ok_def unat_token_byte unat_of_nat take_bit_nat_eq_self)

lemma message_send_wp:
  assumes "coap_env_ok env" and "coap_inv s" and "message_ok m" and "length (message_bytes m) < 512" and "resp_handler m \<noteq> Some auth_callback"
  shows "ok (coap_message_send env m s) (\<lambda>(rc, s'). coap_inv s')"
proof -
  obtain l where l: "message_list s = Some l" "list_all request_ok l"
    using assms(2) by (auto simp: coap_inv_def split: option.splits)
  obtain ret n w where w: "dtls_write env (message_bytes m) 0 (net s) = (ret, n, w)" by (metis prod_cases3)
  have i: "coap_inv (s\<lparr>send_buf := put (send_buf s) (message_bytes m)\<rparr>)"
    using assms(2,4) by (auto simp: coap_inv_def put_def cong: option.case_cong)
  have "request_ok (queued env m (take n (message_bytes m)) (emit [] w s))"
    using assms(3-5) by (intro queued_ok) simp_all
  then have "coap_inv (s\<lparr>send_buf := put (send_buf s) (message_bytes m), message_list := Some (l @ [queued env m (take n (message_bytes m)) (emit [] w s)])\<rparr>)"
    using i l(2) by (auto simp: coap_inv_def cong: option.case_cong)
  then show ?thesis
    using i by (simp add: message_send_eq [OF assms(1-4) l(1) w])
qed

lemma u16_as_u32 [simp]: "\<not> 65535 < unat (ucast x :: u32)" "ucast (ucast x :: u32) = x"
  for x :: u16
proof -
  have "take_bit 32 (unat x) = unat x"
    by (rule take_bit_nat_eq_self) (rule less_trans [OF unat_u16_less], simp)
  then have "unat (ucast x :: u32) = unat x"
    by (simp add: unsigned_ucast_eq)
  with unat_u16_less [of x] show "\<not> 65535 < unat (ucast x :: u32)"
    by linarith
  show "ucast (ucast x :: u32) = x"
    by (rule bit_word_eqI) (simp add: bit_ucast_iff)
qed

lemma send_ack_wp:
  assumes "coap_env_ok env" and "coap_inv s"
  shows "ok (coap_client_send_ack env mid s) (\<lambda>(rc, s'). coap_inv s')"
proof -
  let ?m = "DEFAULT_COAP_MESSAGE\<lparr>msg_type := COAP_MSG_ACK, coap_msg_id := mid\<rparr>"
  have e: "coap_client_send_ack env mid s = coap_message_send env ?m s"
    by (simp add: coap_client_send_ack_def coap_message_type_set_def coap_message_id_set_def COAP_MSG_MAX_MSG_ID_def Let_def)
  show ?thesis
    unfolding e using assms
    by (intro message_send_wp) (simp_all add: DEFAULT_COAP_MESSAGE_def message_ok_def message_bytes_def header_bytes_def payload_bytes_def)
qed

section \<open>Receiving keeps the invariant\<close>

lemma zero_message_token: "length (token zero_message) = 8"
  by (simp add: zero_message_def)

lemma deserialize_value_token:
  "deserialize_option_value malloc m buf p d l q len w = Some (num, m', w') \<Longrightarrow> token m' = token m"
  by (auto simp: deserialize_option_value_def bind_Some_iff Let_def split: if_split_asm)

lemma deserialize_option_token:
  assumes "coap_message_deserialize_option malloc m buf p len w = Some (num, m', w')"
  shows "token m' = token m"
proof (cases "len < 1 \<or> rd buf p = None")
  case True
  with assms show ?thesis by (auto simp: coap_message_deserialize_option_def split: if_split_asm)
next
  case False
  then obtain b where b: "rd buf p = Some b" by auto
  define d l :: u32 where "d = drop_bit 4 (scast b) AND 0x0F" and "l = scast b AND 0x0F"
  note u = assms [unfolded coap_message_deserialize_option_def, simplified b bind.bind_lunit Let_def, folded d_def l_def]
  show ?thesis
  proof (cases "d = 15 \<or> l = 15")
    case True
    with u False show ?thesis by (auto split: if_split_asm)
  next
    case ne: False
    with u False obtain r1 where r1: "read_extended d buf (p + 1) (len - 1) = Some r1"
      by (auto simp: bind_Some_iff split: if_split_asm)
    show ?thesis
    proof (cases r1)
      case (Inl rc)
      with u ne False r1 show ?thesis by (auto split: if_split_asm)
    next
      case (Inr x)
      obtain y q k where x: "x = (y, q, k)" by (metis prod_cases3)
      with u ne False r1 Inr obtain r2 where r2: "read_extended l buf q k = Some r2"
        by (auto simp: bind_Some_iff split: if_split_asm)
      with u ne False r1 Inr x show ?thesis
        by (cases r2) (auto split: if_split_asm dest: deserialize_value_token)
    qed
  qed
qed

lemma deserialize_options_token:
  "deserialize_options_loop malloc m buf p len w = Some (r, m', w') \<Longrightarrow> token m' = token m"
proof (induction malloc m buf p len w rule: deserialize_options_loop.induct)
  case (1 malloc m buf p len w)
  from "1.prems" obtain b where b: "rd buf p = Some b"
    by (subst (asm) deserialize_options_loop.simps) (auto simp: bind_Some_iff)
  show ?case
  proof (cases "b = 0xFF \<or> len = 0")
    case True
    with "1.prems" b show ?thesis by (subst (asm) deserialize_options_loop.simps) simp
  next
    case False
    with "1.prems" b obtain num m1 w1 where o: "coap_message_deserialize_option malloc m buf p len w = Some (num, m1, w1)"
      by (subst (asm) deserialize_options_loop.simps) (auto simp: bind_Some_iff)
    show ?thesis
      using "1.prems" "1.IH" [OF b False o refl refl] b False o deserialize_option_token [OF o]
      by (subst (asm) deserialize_options_loop.simps) (auto split: if_split_asm)
  qed
qed

lemma deserialize_payload_token:
  "coap_message_deserialize_payload malloc m buf p len w = Some (num, m', w') \<Longrightarrow> token m' = token m"
  by (auto simp: coap_message_deserialize_payload_def bind_Some_iff Let_def split: if_split_asm prod.splits)

lemma deserialize_header_token:
  "coap_message_deserialize_header m buf p len = Some (num, m') \<Longrightarrow> token m' = token m"
  by (auto simp: coap_message_deserialize_header_def bind_Some_iff Let_def split: if_split_asm)

lemma deserialize_token_token:
  "coap_message_deserialize_token m buf p len = Some (num, m') \<Longrightarrow> length (token m') = length (token m)"
  by (auto simp: coap_message_deserialize_token_def bind_Some_iff wr_bytes_def split: if_split_asm)

lemma deserialize_token_length:
  assumes "deserialize_coap_message malloc zero_message buf len w = Some (rc, m, w')"
  shows "length (token m) = 8"
  using assms zero_message_token
  by (auto simp: deserialize_coap_message_def coap_message_deserialize_options_def coap_message_destroy_def bind_Some_iff Let_def
      split: if_split_asm sum.splits dest!: deserialize_header_token deserialize_token_token deserialize_options_token deserialize_payload_token)

lemma message_handle_wp:
  assumes "coap_env_ok env" and "coap_inv s" and "unat datalen < length buf"
  shows "ok (coap_message_handle env buf datalen s) coap_inv"
proof -
  obtain rc m w where d: "deserialize_coap_message (coap_malloc env) zero_message buf (unat datalen) (net s) = Some (rc, m, w)"
    using decode_total [OF assms(3), of "coap_malloc env" "net s"] by blast
  have t: "length (token m) = 8"
    using d by (rule deserialize_token_length)
  have inv: "coap_inv (emit [] w s)"
    using assms(2) by simp
  have p: "ok (map_option (\<lambda>(rc, m, s). s) (coap_message_list_proc env m cmd s')) coap_inv" if "coap_inv s'" for cmd s'
    using list_proc_wp [OF that t, of env cmd] by (auto simp: ok_def split: option.splits)
  have "ok (if msg_type m = COAP_MSG_CON then coap_client_send_ack env (coap_msg_id m) (emit [] w s) else Some (0, emit [] w s)) (\<lambda>(rc, s'). coap_inv s')"
    using send_ack_wp [OF assms(1) inv] inv by simp
  then have r: "ok (map_option (\<lambda>(rc, m, s). s) (coap_resp_message_handle env m (emit [] w s))) coap_inv"
    unfolding coap_resp_message_handle_def by (auto dest!: ok_D simp del: emit_simps intro!: p)
  show ?thesis
    unfolding coap_message_handle_def d using p [OF inv] r inv
    by (simp add: coap_ack_message_handle_def coap_piggyresp_message_handle_def net_upd_emit Let_def)
qed

lemma message_recv_wp:
  assumes "coap_env_ok env" and "coap_inv s"
  shows "ok (coap_message_recv env ms s) (\<lambda>(rc, s'). coap_inv s')"
proof -
  obtain rc bs w where r: "dtls_read env 512 (uint ms) (net s) = (rc, bs, w)" by (metis prod_cases3)
  have l: "length bs < 512"
    using env_okD(4) [OF assms(1), of 512 "uint ms" "net s"] r by simp
  have inv: "coap_read_buf_size s = 512" "length (recv_buf s) = 512"
    using assms(2) by (simp_all add: coap_inv_def)
  let ?b = "bs @ drop (length bs) (recv_buf s)"
  have b: "wr_bytes (recv_buf s) 0 bs = Some ?b" "length ?b = 512"
    using l inv by (simp_all add: wr_bytes_def)
  have i: "coap_inv (s\<lparr>recv_buf := ?b, net := w\<rparr>)"
    using assms(2) b(2) by (auto simp: coap_inv_def cong: option.case_cong)
  have "unat (of_nat (length bs) :: u16) < length ?b"
    using l b(2) by (simp add: unat_of_nat take_bit_nat_eq_self)
  then have "ok (coap_message_handle env ?b (of_nat (length bs)) (s\<lparr>recv_buf := ?b, net := w\<rparr>)) coap_inv"
    by (rule message_handle_wp [OF assms(1) i])
  then show ?thesis
    unfolding coap_message_recv_def using inv r b i by (auto simp: ok_bind Let_def elim!: ok_mono)
qed

lemma message_cycle_wp:
  assumes "coap_env_ok env" and "coap_inv s"
  shows "ok (coap_message_cycle env ms s) (\<lambda>(rc, s'). coap_inv s')"
proof -
  obtain rc s1 where r: "coap_message_recv env ms s = Some (rc, s1)" "coap_inv s1"
    using message_recv_wp [OF assms, of ms] by (auto dest!: ok_D)
  have "ok (coap_message_list_proc env DEFAULT_COAP_MESSAGE PROCESS_WAIT_CMD s1) (\<lambda>(rc, m', s'). coap_inv s')"
    using r(2) by (intro list_proc_wp) (simp_all add: DEFAULT_COAP_MESSAGE_def)
  then show ?thesis
    unfolding coap_message_cycle_def r(1) using r(2) by (auto simp: ok_bind elim!: ok_mono)
qed

section \<open>Requests of the application\<close>

definition malloc_net :: "'w coap_env \<Rightarrow> nat \<Rightarrow> 'w \<Rightarrow> 'w" where
  "malloc_net env n w = ((\<lambda>w. snd (coap_malloc env w)) ^^ n) w"

lemma malloc_net_add [simp]: "malloc_net env m (malloc_net env n w) = malloc_net env (m + n) w"
  by (simp add: malloc_net_def funpow_add)

lemma alloc_eq: "coap_env_ok env \<Longrightarrow> alloc env n s = (Some (coap_fresh env n (malloc_net env 1 (net s))), emit [] (malloc_net env 1 (net s)) s)"
  using env_okD(2) [of env "net s"] by (auto simp: alloc_def malloc_net_def net_upd_emit split: prod.splits)

definition next_coap_id :: "'w coap_sys \<Rightarrow> u16" where
  "next_coap_id s = (if unat (next_msg_id s) = 65535 then 1 else next_msg_id s + 1)"

definition token_bytes :: "u32 \<Rightarrow> byte list" where
  "token_bytes v = [ucast (v AND 0x00FF), ucast (drop_bit 8 (v AND 0xFF00)), ucast (drop_bit 16 (v AND 0xFF0000)), ucast (drop_bit 24 (v AND 0xFF000000))]"

lemma new_request_eq:
  "new_request s = Some (DEFAULT_COAP_MESSAGE\<lparr>coap_msg_id := next_coap_id s, token := token_bytes (message_token s) @ [0, 0, 0, 0], token_len := 4\<rparr>,
     s\<lparr>next_msg_id := next_coap_id s, message_token := message_token s + 1\<rparr>)"
proof -
  have r: "replicate 4 0 = [0, 0, 0, 0 :: byte]"
    by (simp add: numeral_eq_Suc)
  have "get_next_coap_msg_id s = (next_coap_id s, s\<lparr>next_msg_id := next_coap_id s\<rparr>)"
    by (simp add: get_next_coap_msg_id_def next_coap_id_def COAP_MSG_MAX_MSG_ID_def Let_def)
  moreover have "coap_message_token_set (DEFAULT_COAP_MESSAGE\<lparr>coap_msg_id := n\<rparr>) (token_bytes v @ [0, 0, 0, 0]) 4 =
      Some (QCLOUD_RET_SUCCESS, DEFAULT_COAP_MESSAGE\<lparr>coap_msg_id := n, token := token_bytes v @ [0, 0, 0, 0], token_len := 4\<rparr>)" for n v
    by (simp add: coap_message_token_set_def COAP_MSG_MAX_TOKEN_LEN_def DEFAULT_COAP_MESSAGE_def rd_bytes_def wr_bytes_def token_bytes_def r)
  moreover have "snd (coap_message_code_set (snd (coap_message_type_set DEFAULT_COAP_MESSAGE COAP_MSG_CON)) COAP_MSG_REQ COAP_MSG_POST) = DEFAULT_COAP_MESSAGE"
    by (simp add: coap_message_type_set_def coap_message_code_set_def COAP_MSG_MAX_CODE_CLASS_def COAP_MSG_MAX_CODE_DETAIL_def DEFAULT_COAP_MESSAGE_def)
  moreover have "snd (coap_message_id_set DEFAULT_COAP_MESSAGE (ucast n)) = DEFAULT_COAP_MESSAGE\<lparr>coap_msg_id := n\<rparr>" for n :: u16
    by (simp add: coap_message_id_set_def COAP_MSG_MAX_MSG_ID_def)
  moreover have "get_coap_message_token s = (4, token_bytes (message_token s) @ [0, 0, 0, 0], s\<lparr>message_token := message_token s + 1\<rparr>)" for s :: "'a coap_sys"
    by (simp add: get_coap_message_token_def token_bytes_def Let_def)
  ultimately show ?thesis
    by (simp add: new_request_def Let_def)
qed

definition op_insert :: "CoAPMsgOption \<Rightarrow> CoAPMsgOption list \<Rightarrow> CoAPMsgOption list" where
  "op_insert x l = (case l of [] \<Rightarrow> [x] | y # ys \<Rightarrow> if option_num x < option_num y then x # y # ys else option_insert_after x (y # ys))"

lemma add_option_eq:
  assumes "coap_env_ok env" and "len \<le> length val" and "len < 2 ^ 32"
  shows "add_option env num val len m s =
    Some (m\<lparr>op_list := op_insert \<lparr>option_num = ucast num, val_len = of_nat len, op_val = take len val\<rparr> (op_list m)\<rparr>, emit [] (malloc_net env 2 (net s)) s)"
proof -
  have u: "unat (of_nat len :: u32) = len"
    using assms(3) by (simp add: unat_of_nat take_bit_nat_eq_self)
  have n: "malloc_net env 2 (net s) = snd (coap_malloc env (snd (coap_malloc env (net s))))"
    by (simp add: malloc_net_def numeral_2_eq_2)
  have "coap_malloc env w = (True, snd (coap_malloc env w))" for w
    using assms(1) by (rule env_okD(2))
  from this [of "net s"] this [of "snd (coap_malloc env (net s))"]
  have "qcloud_iot_coap_option_init (coap_malloc env) num (of_nat len) val 0 (net s) =
      Some (Some \<lparr>option_num = ucast num, val_len = of_nat len, op_val = take len val\<rparr>, malloc_net env 2 (net s))"
    using assms(2) u n by (auto simp: qcloud_iot_coap_option_init_def rd_bytes_def split: prod.splits)
  then show ?thesis
    by (simp add: add_option_def coap_message_option_add_def op_insert_def net_upd_emit split: list.split)
qed

text \<open>The message of a request, and its size.\<close>

definition request_message :: "cstr \<Rightarrow> SendMsgParams \<Rightarrow> 'w coap_sys \<Rightarrow> CoAPMessage" where
  "request_message topic p s = DEFAULT_COAP_MESSAGE\<lparr>coap_msg_id := next_coap_id s, token := token_bytes (message_token s) @ [0, 0, 0, 0], token_len := 4,
     pay_load := Some (take (sp_pay_load_len p) (sp_pay_load p)), pay_load_len := sp_pay_load_len p,
     op_list := [\<lparr>option_num = 11, val_len = of_nat (length topic), op_val = topic\<rparr>,
       \<lparr>option_num = 61, val_len = of_nat (auth_token_len s), op_val = (case auth_token s of None \<Rightarrow> [] | Some t \<Rightarrow> take (auth_token_len s) t)\<rparr>,
       \<lparr>option_num = 62, val_len = 1, op_val = [if need_resp p then 0x31 else 0x30]\<rparr>],
     resp_handler := (if need_resp p then resp_callback p else None), user_context := sp_user_context p\<rparr>"

definition request_fits :: "cstr \<Rightarrow> SendMsgParams \<Rightarrow> 'w coap_sys \<Rightarrow> bool" where
  "request_fits topic p s \<longleftrightarrow> length topic \<le> URI_PATH_MAX_LEN \<and> length topic + auth_token_len s + sp_pay_load_len p + 17 < 512 \<and>
     sp_pay_load_len p \<le> length (sp_pay_load p) \<and> resp_callback p \<noteq> Some auth_callback"

lemma request_message_ok:
  assumes "coap_inv s" and "request_fits topic p s"
  shows "message_ok (request_message topic p s)" "length (message_bytes (request_message topic p s)) < 512"
proof -
  have a: "length (case auth_token s of None \<Rightarrow> [] | Some t \<Rightarrow> take (auth_token_len s) t) = auth_token_len s"
    using assms(1) by (auto simp: coap_inv_def split: option.splits)
  have f: "length topic \<le> 128" "length topic + auth_token_len s + sp_pay_load_len p + 17 < 512" "sp_pay_load_len p \<le> length (sp_pay_load p)"
    using assms(2) by (simp_all add: request_fits_def URI_PATH_MAX_LEN_def)
  have t: "(of_nat (length topic) :: u32) \<ge> 269 \<longleftrightarrow> False"
    using f(1) by (simp add: word_le_nat_alt unat_of_nat take_bit_nat_eq_self)
  show "message_ok (request_message topic p s)"
    using a f by (simp add: message_ok_def request_message_def option_ok_def DEFAULT_COAP_MESSAGE_def token_bytes_def)
  have "length (options_bytes 0 (op_list (request_message topic p s))) \<le> 2 + length topic + (4 + auth_token_len s) + 2"
    using a by (simp add: request_message_def option_bytes_def op_delta_of_def op_extension_def t word_le_nat_alt [of _ 1])
  then show "length (message_bytes (request_message topic p s)) < 512"
    using f by (simp add: message_bytes_def header_bytes_def payload_bytes_def request_message_def DEFAULT_COAP_MESSAGE_def token_bytes_def)
qed

text \<open>Sending a request comes down to sending its message.\<close>

lemma send_message_eq:
  assumes "coap_env_ok env" and "coap_inv s" and "request_fits topic p s"
  defines "m \<equiv> request_message topic p s"
    and "s1 \<equiv> emit [] (malloc_net env 7 (net s)) (s\<lparr>next_msg_id := next_coap_id s, message_token := message_token s + 1\<rparr>)"
  shows "IOT_COAP_SendMessage env topic p s = do {
    (ret, s') \<leftarrow> coap_message_send env m s1;
    if ret \<noteq> QCLOUD_RET_SUCCESS then Some (ret, s') else Some (uint (next_coap_id s), s') }"
proof -
  have f: "length topic \<le> 128" "length topic + auth_token_len s + sp_pay_load_len p + 17 < 512" "sp_pay_load_len p \<le> length (sp_pay_load p)"
    using assms(3) by (simp_all add: request_fits_def URI_PATH_MAX_LEN_def)
  have a: "auth_token_len s \<le> length (case auth_token s of None \<Rightarrow> [] | Some t \<Rightarrow> t)"
    using assms(2) by (auto simp: coap_inv_def split: option.splits)
  have pl: "coap_message_payload_set (m0\<lparr>pay_load := Some (coap_fresh env (sp_pay_load_len p) w)\<rparr>) (sp_pay_load p) (sp_pay_load_len p) =
      Some (QCLOUD_RET_SUCCESS, m0\<lparr>pay_load := Some (take (sp_pay_load_len p) (sp_pay_load p)), pay_load_len := sp_pay_load_len p\<rparr>)" for m0 w
    using env_okD(1) [OF assms(1), of "sp_pay_load_len p" w] f(3)
    by (cases "sp_pay_load_len p = 0") (simp_all add: coap_message_payload_set_def rd_bytes_def wr_bytes_def Let_def)
  have o: "op_insert \<lparr>option_num = 11, val_len = x, op_val = y\<rparr> [] = [\<lparr>option_num = 11, val_len = x, op_val = y\<rparr>]"
    "op_insert \<lparr>option_num = 61, val_len = x', op_val = y'\<rparr> [\<lparr>option_num = 11, val_len = x, op_val = y\<rparr>] =
       [\<lparr>option_num = 11, val_len = x, op_val = y\<rparr>, \<lparr>option_num = 61, val_len = x', op_val = y'\<rparr>]"
    "op_insert \<lparr>option_num = 62, val_len = x'', op_val = y''\<rparr> [\<lparr>option_num = 11, val_len = x, op_val = y\<rparr>, \<lparr>option_num = 61, val_len = x', op_val = y'\<rparr>] =
       [\<lparr>option_num = 11, val_len = x, op_val = y\<rparr>, \<lparr>option_num = 61, val_len = x', op_val = y'\<rparr>, \<lparr>option_num = 62, val_len = x'', op_val = y''\<rparr>]"
    for x y x' y' x'' y''
    by (simp_all add: op_insert_def)
  have c: "chars ''0'' = [0x30]" "chars ''1'' = [0x31]"
    by (simp_all add: chars_def of_char_def)
  have t: "take (auth_token_len s) (case auth_token s of None \<Rightarrow> [] | Some t \<Rightarrow> t) = (case auth_token s of None \<Rightarrow> [] | Some t \<Rightarrow> take (auth_token_len s) t)"
    by (simp split: option.split)
  show ?thesis
    using f a unfolding IOT_COAP_SendMessage_def new_request_eq m_def s1_def request_message_def
    by (simp add: alloc_eq [OF assms(1)] pl add_option_eq [OF assms(1)] o c t URI_PATH_MAX_LEN_def Let_def coap_message_context_set_def coap_message_callback_set_def
       DEFAULT_COAP_MESSAGE_def emit_def cong: if_cong)
qed

lemma coap_inv_ids: "coap_inv (s\<lparr>next_msg_id := n, message_token := t\<rparr>) = coap_inv s"
  by (simp add: coap_inv_def cong: option.case_cong)

lemma send_message_wp:
  assumes "coap_env_ok env" and "coap_inv s" and "request_fits topic p s"
  shows "ok (IOT_COAP_SendMessage env topic p s) (\<lambda>(rc, s'). coap_inv s')"
proof -
  let ?s = "emit [] (malloc_net env 7 (net s)) (s\<lparr>next_msg_id := next_coap_id s, message_token := message_token s + 1\<rparr>)"
  have "ok (coap_message_send env (request_message topic p s) ?s) (\<lambda>(rc, s'). coap_inv s')"
    using assms request_message_ok [OF assms(2,3)]
    by (intro message_send_wp) (simp_all add: coap_inv_ids request_message_def request_fits_def)
  then show ?thesis
    unfolding send_message_eq [OF assms] by (auto simp: ok_bind elim!: ok_mono)
qed

end
