(* ===== verification/Coap_Timeout.thy ===== *)
theory Coap_Timeout
  imports Coap_Requests
begin

text \<open>
  Requests that get no answer are sent again a bounded number of times and then reported: every request ends.
\<close>

section \<open>Requests that get no answer\<close>

text \<open>
  An environment in which nothing is received: a read waits for its timeout, and no call sets the clock back.
\<close>

definition clock :: "'w coap_env \<Rightarrow> 'w \<Rightarrow> int" where
  "clock env w = usecs (fst (coap_time env w))"

definition quiet_env :: "'w coap_env \<Rightarrow> bool" where
  "quiet_env env \<longleftrightarrow>
     (\<forall>w. timeval_ok (fst (coap_time env w)) \<and> clock env w \<le> clock env (snd (coap_time env w)) \<and> clock env w \<le> clock env (snd (coap_malloc env w))) \<and>
     (\<forall>bs t w. clock env w \<le> clock env (snd (snd (dtls_write env bs t w)))) \<and>
     (\<forall>n t w. fst (dtls_read env n t w) = QCLOUD_ERR_SSL_READ_TIMEOUT \<and> fst (snd (dtls_read env n t w)) = [] \<and>
        clock env w + t * 1000 \<le> clock env (snd (snd (dtls_read env n t w))))"

lemma quietD:
  assumes "quiet_env env"
  shows "timeval_ok (fst (coap_time env w))" "clock env w \<le> clock env (snd (coap_time env w))" "clock env w \<le> clock env (snd (coap_malloc env w))"
    "clock env w \<le> clock env (snd (snd (dtls_write env bs t w)))"
    "\<exists>w'. dtls_read env n t w = (QCLOUD_ERR_SSL_READ_TIMEOUT, [], w') \<and> clock env w + t * 1000 \<le> clock env w'"
  using assms by (auto simp: quiet_env_def prod_eq_iff)

text \<open>A timer that has not been set further ahead than the timeout of the client.\<close>

definition recent :: "'w coap_env \<Rightarrow> u32 \<Rightarrow> 'w \<Rightarrow> Timer \<Rightarrow> bool" where
  "recent env ms w t \<longleftrightarrow> timeval_ok (end_time t) \<and> usecs (end_time t) \<le> clock env w + uint ms * 1000"

lemma recent_mono: "recent env ms w t \<Longrightarrow> clock env w \<le> clock env w' \<Longrightarrow> recent env ms w' t"
  by (simp add: recent_def)

lemma remain_expired:
  assumes "timeval_ok now" and "timeval_ok (end_time t)" and "usecs (end_time t) \<le> usecs now"
  shows "\<not> 0 < HAL_Timer_remain now t"
proof -
  let ?r = "timersub (end_time t) now"
  have r: "0 \<le> tv_usec ?r" "tv_usec ?r < 1000000" "usecs ?r \<le> 0"
    using timeval_ok_timersub [OF assms(2,1)] assms(3) by (simp_all add: timeval_ok_def usecs_timersub)
  show ?thesis
  proof (cases "tv_sec ?r < 0")
    case False
    with r have "tv_sec ?r = 0 \<and> tv_usec ?r = 0"
      by (simp add: usecs_def)
    then show ?thesis
      by (simp add: HAL_Timer_remain_def Let_def)
  qed (simp add: HAL_Timer_remain_def Let_def)
qed

text \<open>
  How often a request can still be swept, and the call with which it ends.  The message of a timeout depends only on the request, because each
  report sets the same fields of it.
\<close>

definition rounds_left :: "byte \<Rightarrow> CoAPMsgSendInfo \<Rightarrow> nat" where
  "rounds_left mx i = (if node_state i = COAP_NODE_STATE_INVALID \<or> acked i \<noteq> 0 then 1 else unat mx - unat (retrans_count i) + 1)"

definition end_notice :: "bool \<Rightarrow> CoAPMsgSendInfo \<Rightarrow> coap_upcall list" where
  "end_notice ev i = (if node_state i = COAP_NODE_STATE_INVALID then [] else timeout_notice ev i DEFAULT_COAP_MESSAGE)"

definition report_form :: "CoAPMessage \<Rightarrow> bool" where
  "report_form m \<longleftrightarrow> (\<forall>i. timeout_message i m = timeout_message i DEFAULT_COAP_MESSAGE)"

lemma report_form_simps [simp]: "report_form DEFAULT_COAP_MESSAGE" "report_form m \<Longrightarrow> report_form (timeout_message i m)"
  by (simp_all add: report_form_def timeout_message_def)

lemma timeout_notice_form: "report_form m \<Longrightarrow> timeout_notice ev i m = timeout_notice ev i DEFAULT_COAP_MESSAGE"
  by (simp add: timeout_notice_def report_form_def)

text \<open>A request after another transmission.\<close>

definition retried :: "'w coap_env \<Rightarrow> u32 \<Rightarrow> 'w \<Rightarrow> CoAPMsgSendInfo \<Rightarrow> CoAPMsgSendInfo \<Rightarrow> bool" where
  "retried env ms w i i' \<longleftrightarrow> i' = i\<lparr>start_time := start_time i', retrans_count := retrans_count i + 1\<rparr> \<and> recent env ms w (start_time i')"

lemma retried_mono: "retried env ms w i i' \<Longrightarrow> clock env w \<le> clock env w' \<Longrightarrow> retried env ms w' i i'"
  using recent_mono by (auto simp: retried_def)

lemma rounds_left_1: "rounds_left mx i \<le> 1 \<longleftrightarrow> node_state i = COAP_NODE_STATE_INVALID \<or> \<not> (retrans_count i < mx \<and> acked i = 0)"
  by (auto simp: rounds_left_def word_less_nat_alt)

lemma rounds_left_retried:
  assumes "retried env ms w i i'" and "1 < rounds_left mx i"
  shows "rounds_left mx i' = rounds_left mx i - 1"
proof -
  have i: "node_state i \<noteq> COAP_NODE_STATE_INVALID" "acked i = 0" "unat (retrans_count i) < unat mx"
    using assms(2) by (simp_all add: rounds_left_def split: if_split_asm)
  then have "unat (retrans_count i + 1) = unat (retrans_count i) + 1"
    using less_le_trans [OF i(3), of 255] unat_byte_less [of mx] by (simp add: unat_word_ariths del: unat_byte_less)
  moreover obtain t where i': "i' = i\<lparr>start_time := t, retrans_count := retrans_count i + 1\<rparr>"
    using assms(1) unfolding retried_def by blast
  ultimately show ?thesis
    using i unfolding i' by (simp add: rounds_left_def)
qed

lemma end_notice_retried: "retried env ms w i i' \<Longrightarrow> end_notice ev i' = end_notice ev i"
proof -
  assume "retried env ms w i i'"
  then obtain t where i': "i' = i\<lparr>start_time := t, retrans_count := retrans_count i + 1\<rparr>"
    unfolding retried_def by blast
  show ?thesis
    unfolding i' by (cases "si_handler i") (simp_all add: end_notice_def timeout_notice_def notice_def timeout_message_def split: OnRespCallback.split)
qed

lemma process_wait_expired:
  assumes "quiet_env env" and "request_ok i" and "report_form m" and "timeval_ok (end_time (start_time i))" and "usecs (end_time (start_time i)) \<le> clock env (net s)"
  obtains (removed) m' w where "process_wait env i m s = Some (None, m', emit (end_notice (coap_event_handle s) i) w s)" and "rounds_left (max_retry_count s) i \<le> 1"
      and "report_form m'" and "clock env (net s) \<le> clock env w"
  | (again) i' w where "process_wait env i m s = Some (Some i', m, emit [] w s)" and "1 < rounds_left (max_retry_count s) i" and "retried env (coap_timeout_ms s) w i i'"
      and "clock env (net s) \<le> clock env w"
proof -
  obtain t w1 where t: "coap_time env (net s) = (t, w1)" by fastforce
  have ok: "timeval_ok t" "clock env (net s) = usecs t" "usecs t \<le> clock env w1"
    using quietD(1,2) [OF assms(1), of "net s"] by (simp_all add: t clock_def)
  have e: "\<not> 0 < HAL_Timer_remain t (start_time i)"
    using ok assms(4,5) by (intro remain_expired) simp_all
  note eq = process_wait_eq [OF assms(2), of env m s, unfolded t prod.case Let_def]
  consider "node_state i = COAP_NODE_STATE_INVALID" | "node_state i \<noteq> COAP_NODE_STATE_INVALID" "\<not> (retrans_count i < max_retry_count s \<and> acked i = 0)"
    | "node_state i \<noteq> COAP_NODE_STATE_INVALID" "retrans_count i < max_retry_count s" "acked i = 0"
    by blast
  then show thesis
  proof cases
    case 1
    then show thesis
      using eq assms(3) by (intro removed [of m "net s"]) (simp_all add: end_notice_def rounds_left_def)
  next
    case 2
    then have "rounds_left (max_retry_count s) i \<le> 1"
      unfolding rounds_left_1 by blast
    moreover have "report_form (if si_handler i = None then m else timeout_message i m)"
      using assms(3) by simp
    moreover have "process_wait env i m s =
        Some (None, if si_handler i = None then m else timeout_message i m, emit (end_notice (coap_event_handle s) i) w1 s)"
      using eq 2 e by (simp add: end_notice_def timeout_notice_form [OF assms(3)])
    ultimately show thesis
      using ok by (intro removed) simp_all
  next
    case 3
    obtain t2 w2 where t2: "coap_time env w1 = (t2, w2)" by fastforce
    define w3 where "w3 = retransmit_net env (coap_timeout_ms s) i w1"
    obtain t3 w2' where t3: "coap_time env w2 = (t3, w2')" by fastforce
    have c: "timeval_ok t2" "clock env w1 = usecs t2" "usecs t2 \<le> clock env w2" "clock env w2 \<le> clock env w2'"
      using quietD(1,2) [OF assms(1), of w1] quietD(2) [OF assms(1), of w2] by (simp_all add: t2 t3 clock_def)
    have "clock env w2' \<le> clock env w3"
      unfolding w3_def retransmit_net_def t2 t3 Let_def prod.case
      using quietD(4) [OF assms(1), of w2'] by (simp split: prod.split) (metis snd_conv)
    with c have "recent env (coap_timeout_ms s) w3 (HAL_Timer_countdown_ms t2 (coap_timeout_ms s))" "clock env (net s) \<le> clock env w3"
      using countdown_ms_usecs [OF c(1), of "coap_timeout_ms s"] ok by (simp_all add: recent_def)
    moreover have "process_wait env i m s =
        Some (Some (i\<lparr>start_time := HAL_Timer_countdown_ms t2 (coap_timeout_ms s), retrans_count := retrans_count i + 1\<rparr>), m, emit [] w3 s)"
      using eq 3 e by (simp add: t2 w3_def)
    moreover have "1 < rounds_left (max_retry_count s) i"
      using 3 by (simp add: rounds_left_def word_less_nat_alt)
    ultimately show thesis
      by (intro again [of "i\<lparr>start_time := HAL_Timer_countdown_ms t2 (coap_timeout_ms s), retrans_count := retrans_count i + 1\<rparr>" w3])
        (simp_all add: retried_def)
  qed
qed

text \<open>A sweep when all timers have run out: every request is sent again or ended.\<close>

lemma wait_loop_expired:
  assumes "quiet_env env"
  shows "list_all request_ok nodes \<Longrightarrow> report_form m \<Longrightarrow>
     list_all (\<lambda>i. timeval_ok (end_time (start_time i)) \<and> usecs (end_time (start_time i)) \<le> clock env (net s)) nodes \<Longrightarrow>
     \<exists>nodes' m' w. list_proc_loop env PROCESS_WAIT_CMD nodes m s =
         Some (nodes', m', emit (concat (map (end_notice (coap_event_handle s)) (filter (\<lambda>i. rounds_left (max_retry_count s) i \<le> 1) nodes))) w s) \<and>
       list_all2 (retried env (coap_timeout_ms s) w) (filter (\<lambda>i. 1 < rounds_left (max_retry_count s) i) nodes) nodes' \<and>
       clock env (net s) \<le> clock env w"
proof (induction nodes arbitrary: m s)
  case Nil
  then show ?case by (intro exI [of _ "[]"] exI [of _ m] exI [of _ "net s"]) simp
next
  case (Cons i nodes)
  have later: "list_all (\<lambda>i. timeval_ok (end_time (start_time i)) \<and> usecs (end_time (start_time i)) \<le> clock env w) nodes"
    if "clock env (net s) \<le> clock env w" for w
    using Cons.prems(3) that by (auto simp: list_all_iff)
  have i: "request_ok i" "timeval_ok (end_time (start_time i))" "usecs (end_time (start_time i)) \<le> clock env (net s)" "list_all request_ok nodes"
    using Cons.prems by simp_all
  from assms i(1) Cons.prems(2) i(2,3) show ?case
  proof (cases rule: process_wait_expired)
    case (removed m' w)
    from Cons.IH [OF i(4) removed(3), of "emit (end_notice (coap_event_handle s) i) w s"] later [OF removed(4)]
    obtain nodes' m'' w' where "list_proc_loop env PROCESS_WAIT_CMD nodes m' (emit (end_notice (coap_event_handle s) i) w s) =
         Some (nodes', m'', emit (concat (map (end_notice (coap_event_handle s)) (filter (\<lambda>i. rounds_left (max_retry_count s) i \<le> 1) nodes))) w'
           (emit (end_notice (coap_event_handle s) i) w s))"
       "list_all2 (retried env (coap_timeout_ms s) w') (filter (\<lambda>i. 1 < rounds_left (max_retry_count s) i) nodes) nodes'" "clock env w \<le> clock env w'"
      by auto
    then show ?thesis
      using removed by (intro exI [of _ nodes'] exI [of _ m''] exI [of _ w']) (simp add: process_node_def)
  next
    case (again i' w)
    from Cons.IH [OF i(4) Cons.prems(2), of "emit [] w s"] later [OF again(4)]
    obtain nodes' m'' w' where "list_proc_loop env PROCESS_WAIT_CMD nodes m (emit [] w s) =
         Some (nodes', m'', emit (concat (map (end_notice (coap_event_handle s)) (filter (\<lambda>i. rounds_left (max_retry_count s) i \<le> 1) nodes))) w' (emit [] w s))"
       "list_all2 (retried env (coap_timeout_ms s) w') (filter (\<lambda>i. 1 < rounds_left (max_retry_count s) i) nodes) nodes'" "clock env w \<le> clock env w'"
      by auto
    then show ?thesis
      using again retried_mono [OF again(3)] by (intro exI [of _ "i' # nodes'"] exI [of _ m''] exI [of _ w']) (simp add: process_node_def)
  qed
qed

text \<open>The end of a request is announced once, now or later.\<close>

lemma list_all2_retried_notice: "list_all2 (retried env ms w) l l' \<Longrightarrow> map (end_notice ev) l' = map (end_notice ev) l"
  by (induction l l' rule: list_all2_induct) (simp_all add: end_notice_retried)

lemma mset_concat_filter: "mset (concat (map f l)) = mset (concat (map f (filter P l))) + mset (concat (map f (filter (\<lambda>x. \<not> P x) l)))"
  by (induction l) auto

lemma mset_concat_rev: "mset (concat (map f (rev l))) = mset (concat (map f l))"
  by (induction l) auto

section \<open>Every request ends\<close>

fun run_cycles :: "'w coap_env \<Rightarrow> u32 \<Rightarrow> nat \<Rightarrow> 'w coap_sys \<Rightarrow> 'w coap_sys option" where
  "run_cycles env ms 0 s = Some s"
| "run_cycles env ms (Suc n) s = do { (rc, s) \<leftarrow> IOT_COAP_Yield env ms s; run_cycles env ms n s }"

definition timers_recent :: "'w coap_env \<Rightarrow> 'w coap_sys \<Rightarrow> bool" where
  "timers_recent env s = pred_option (list_all (\<lambda>i. recent env (coap_timeout_ms s) (net s) (start_time i))) (message_list s)"

lemma emit_inject: "emit cs w s = emit cs' w' s \<longleftrightarrow> cs = cs' \<and> w = w'"
proof
  assume e: "emit cs w s = emit cs' w' s"
  show "cs = cs' \<and> w = w'"
    using arg_cong [OF e, of calls] arg_cong [OF e, of net] by simp
qed simp

lemma emit_upd: "(emit cs w s)\<lparr>message_list := l\<rparr> = emit cs w (s\<lparr>message_list := l\<rparr>)"
  "(emit cs w s)\<lparr>lock_list_wait_ack := b\<rparr> = emit cs w (s\<lparr>lock_list_wait_ack := b\<rparr>)"
  by (simp_all add: emit_def)

lemma quiet_recv:
  assumes "quiet_env env" and "coap_inv s"
  obtains w where "coap_message_recv env ms s = Some (QCLOUD_ERR_SSL_READ_TIMEOUT, emit [] w s)" and "clock env (net s) + uint ms * 1000 \<le> clock env w"
proof -
  obtain w where w: "dtls_read env (coap_read_buf_size s) (uint ms) (net s) = (QCLOUD_ERR_SSL_READ_TIMEOUT, [], w)"
      "clock env (net s) + uint ms * 1000 \<le> clock env w"
    using quietD(5) [OF assms(1)] by blast
  then have "coap_message_recv env ms s = Some (QCLOUD_ERR_SSL_READ_TIMEOUT, emit [] w s)"
    by (simp add: coap_message_recv_def wr_bytes_def emit_def Let_def)
  with w(2) show thesis by (intro that)
qed

lemma quiet_cycle:
  assumes "coap_env_ok env" and "quiet_env env" and "coap_inv s" and "message_list s = Some l" and "timers_recent env s" and "uint (coap_timeout_ms s) \<le> uint ms"
  obtains rc l' w where "IOT_COAP_Yield env ms s =
        Some (rc, emit (concat (map (end_notice (coap_event_handle s)) (filter (\<lambda>i. rounds_left (max_retry_count s) i \<le> 1) (rev l)))) w (s\<lparr>message_list := Some l'\<rparr>))"
    and "list_all2 (retried env (coap_timeout_ms s) w) (filter (\<lambda>i. 1 < rounds_left (max_retry_count s) i) l) l'"
    and "coap_inv (emit (concat (map (end_notice (coap_event_handle s)) (filter (\<lambda>i. rounds_left (max_retry_count s) i \<le> 1) (rev l)))) w (s\<lparr>message_list := Some l'\<rparr>))"
proof -
  obtain w1 where r: "coap_message_recv env ms s = Some (QCLOUD_ERR_SSL_READ_TIMEOUT, emit [] w1 s)" "clock env (net s) + uint ms * 1000 \<le> clock env w1"
    using assms(2,3) by (rule quiet_recv)
  define s1 where "s1 = emit [] w1 s"
  have inv: "coap_inv s1" "length (token DEFAULT_COAP_MESSAGE) = 8"
    using assms(3) by (simp_all add: s1_def DEFAULT_COAP_MESSAGE_def)
  have y: "IOT_COAP_Yield env ms s = map_option (\<lambda>(rc, m, s). (rc, s)) (coap_message_list_proc env DEFAULT_COAP_MESSAGE PROCESS_WAIT_CMD s1)"
    by (simp add: IOT_COAP_Yield_def coap_message_cycle_def r(1) s1_def map_option_case split: option.split)
  let ?cs = "concat (map (end_notice (coap_event_handle s)) (filter (\<lambda>i. rounds_left (max_retry_count s) i \<le> 1) (rev l)))"
  from inv show thesis
  proof (cases rule: list_proc_result [where env = env and cmd = PROCESS_WAIT_CMD])
    case empty
    then have l: "l = []"
      using assms(4) by (simp add: s1_def)
    have e: "s\<lparr>message_list := Some []\<rparr> = s"
      using assms(4) l by simp
    show thesis
      using y empty(2) assms(3) by (intro that [of QCLOUD_ERR_FAILURE w1 "[]"]) (simp_all add: s1_def l e)
  next
    case (no_memory w)
    then show thesis
      using env_okD(2) [OF assms(1)] by (metis prod.inject)
  next
    case (swept l1 w l' m' cs w')
    have l1: "l1 = l"
      using swept(1) assms(4) by (simp add: s1_def)
    have "clock env w1 \<le> clock env w"
      using quietD(3) [OF assms(2), of w1] swept(3) by (simp add: s1_def)
    then have t: "list_all (\<lambda>i. timeval_ok (end_time (start_time i)) \<and> usecs (end_time (start_time i)) \<le> clock env w) (rev l)"
      using assms(4-6) r(2) by (force simp: timers_recent_def recent_def list_all_iff)
    have "list_all request_ok (rev l)"
      using assms(3,4) by (simp add: coap_inv_def)
    then obtain l2 m2 w2 where l2: "list_proc_loop env PROCESS_WAIT_CMD (rev l) DEFAULT_COAP_MESSAGE (emit [] w (s1\<lparr>lock_list_wait_ack := True\<rparr>)) =
        Some (l2, m2, emit ?cs w2 (s1\<lparr>lock_list_wait_ack := True\<rparr>))"
        "list_all2 (retried env (coap_timeout_ms s) w2) (filter (\<lambda>i. 1 < rounds_left (max_retry_count s) i) (rev l)) l2"
      using wait_loop_expired [OF assms(2) _ report_form_simps(1), of "rev l" "emit [] w (s1\<lparr>lock_list_wait_ack := True\<rparr>)"] t
      by (auto simp: s1_def)
    then have "l' = l2" "cs = ?cs" "w' = w2"
      using swept(4) unfolding l1 by (simp_all add: emit_inject)
    moreover have "list_all2 (retried env (coap_timeout_ms s) w2) (filter (\<lambda>i. 1 < rounds_left (max_retry_count s) i) l) (rev l2)"
      using l2(2) by (simp add: rev_filter [symmetric] list_all2_rev1)
    ultimately show thesis
      using y swept(5,6) by (intro that [of QCLOUD_RET_SUCCESS w2 "rev l2"]) (simp_all add: s1_def emit_upd)
  qed
qed

lemma rounds_left_pos: "0 < rounds_left mx i"
  by (simp add: rounds_left_def)

lemma list_all2_set2: "list_all2 P xs ys \<Longrightarrow> y \<in> set ys \<Longrightarrow> \<exists>x \<in> set xs. P x y"
  by (induction xs ys rule: list_all2_induct) auto

lemma run_cycles_ends:
  assumes "coap_env_ok env" and "quiet_env env"
  shows "coap_inv s \<Longrightarrow> message_list s = Some l \<Longrightarrow> timers_recent env s \<Longrightarrow> uint (coap_timeout_ms s) \<le> uint ms \<Longrightarrow>
     (\<And>i. i \<in> set l \<Longrightarrow> rounds_left (max_retry_count s) i \<le> n) \<Longrightarrow>
     \<exists>s'. run_cycles env ms n s = Some s' \<and> message_list s' = Some [] \<and> coap_inv s' \<and>
       mset (calls s') = mset (calls s) + mset (concat (map (end_notice (coap_event_handle s)) l))"
proof (induction n arbitrary: s l)
  case 0
  have "l = []"
  proof (rule ccontr)
    assume "l \<noteq> []"
    then have "rounds_left (max_retry_count s) (hd l) \<le> 0"
      using "0.prems"(5) [of "hd l"] by simp
    then show False
      using rounds_left_pos [of "max_retry_count s" "hd l"] by simp
  qed
  then show ?case
    using "0.prems" by simp
next
  case (Suc n)
  let ?e = "end_notice (coap_event_handle s)" and ?r = "rounds_left (max_retry_count s)"
  let ?cs = "concat (map ?e (filter (\<lambda>i. ?r i \<le> 1) (rev l)))"
  obtain rc l' w where y: "IOT_COAP_Yield env ms s = Some (rc, emit ?cs w (s\<lparr>message_list := Some l'\<rparr>))"
      "list_all2 (retried env (coap_timeout_ms s) w) (filter (\<lambda>i. 1 < ?r i) l) l'" "coap_inv (emit ?cs w (s\<lparr>message_list := Some l'\<rparr>))"
    using quiet_cycle [OF assms Suc.prems(1-4)] by blast
  define s1 where "s1 = emit ?cs w (s\<lparr>message_list := Some l'\<rparr>)"
  have s1: "message_list s1 = Some l'" "max_retry_count s1 = max_retry_count s" "coap_event_handle s1 = coap_event_handle s"
    "coap_timeout_ms s1 = coap_timeout_ms s" "net s1 = w" "calls s1 = calls s @ ?cs"
    by (simp_all add: s1_def)
  have "timers_recent env s1"
    using list_all2_set2 [OF y(2)] unfolding timers_recent_def s1 by (fastforce simp: list_all_iff retried_def)
  moreover have "?r i' \<le> n" if i': "i' \<in> set l'" for i'
  proof -
    obtain i where i: "i \<in> set l" "1 < ?r i" "retried env (coap_timeout_ms s) w i i'"
      using list_all2_set2 [OF y(2) i'] by auto
    then show ?thesis
      using rounds_left_retried [OF i(3,2)] Suc.prems(5) [OF i(1)] by simp
  qed
  ultimately obtain s' where s': "run_cycles env ms n s1 = Some s'" "message_list s' = Some []" "coap_inv s'"
      "mset (calls s') = mset (calls s1) + mset (concat (map ?e l'))"
    using Suc.IH [of s1 l'] y(3) Suc.prems(4) unfolding s1 s1_def [symmetric] by auto
  have "mset (concat (map ?e l)) = mset (concat (map ?e (filter (\<lambda>i. ?r i \<le> 1) l))) + mset (concat (map ?e l'))"
    using mset_concat_filter [of ?e l "\<lambda>i. ?r i \<le> 1"] list_all2_retried_notice [OF y(2), of "coap_event_handle s"] by (simp add: not_le)
  moreover have "mset ?cs = mset (concat (map ?e (filter (\<lambda>i. ?r i \<le> 1) l)))"
    by (simp only: rev_filter [symmetric] mset_concat_rev)
  ultimately have "mset (calls s') = mset (calls s) + mset (concat (map ?e l))"
    unfolding s'(4) s1(6) by simp
  then show ?case
    using s' y(1) by (simp add: s1_def)
qed

end
