(* ===== verification/Step_Machine.thy ===== *)
theory Step_Machine
  imports Main
begin

text \<open>
  Objects as machines: operations under preconditions, in any order.  The locale states what an invariant gives for the reachable states of
  such a machine; the MQTT client and the CoAP client discharge its law with their invariants.
\<close>

text \<open>
  The states an object can reach by operations, each under its precondition; \<open>step\<close> is \<open>None\<close> where the
  operation goes wrong: an access out of bounds, a second release, a lock taken twice.
\<close>

inductive reaches :: "('op \<Rightarrow> 's \<Rightarrow> bool) \<Rightarrow> ('op \<Rightarrow> 's \<Rightarrow> 's option) \<Rightarrow> 's \<Rightarrow> 's \<Rightarrow> bool"
  for ok :: "'op \<Rightarrow> 's \<Rightarrow> bool" and step :: "'op \<Rightarrow> 's \<Rightarrow> 's option" and s0 :: 's where
  start: "reaches ok step s0 s0"
| step: "reaches ok step s0 s \<Longrightarrow> ok op s \<Longrightarrow> step op s = Some s' \<Longrightarrow> reaches ok step s0 s'"

locale machine =
  fixes inv :: "'s \<Rightarrow> bool" and ok :: "'op \<Rightarrow> 's \<Rightarrow> bool" and step :: "'op \<Rightarrow> 's \<Rightarrow> 's option"
  assumes preserves: "inv s \<Longrightarrow> ok op s \<Longrightarrow> \<exists>s'. step op s = Some s' \<and> inv s'"
begin

lemma reaches_inv: "reaches ok step s0 s \<Longrightarrow> inv s0 \<Longrightarrow> inv s"
proof (induction rule: reaches.induct)
  case (step s op s')
  then show ?case
    using preserves [of s op] by auto
qed

lemma never_stuck:
  assumes "reaches ok step s0 s" and "inv s0" and "ok op s"
  shows "\<exists>s'. step op s = Some s' \<and> reaches ok step s0 s'"
proof -
  have "inv s"
    using assms(1,2) by (rule reaches_inv)
  then obtain s' where "step op s = Some s'"
    using preserves assms(3) by blast
  with assms(1,3) show ?thesis
    by (blast intro: reaches.step)
qed

end

end
