(* ===== verification/Coap_Run.thy ===== *)
theory Coap_Run
  imports Coap_Timeout Step_Machine
begin

text \<open>
  Properties of the CoAP client as a whole: requests are sent as they should be and always end, the client never gets stuck, initialisation
  establishes its invariant; and the constructor may wait for ever.
\<close>

section \<open>An environment\<close>

text \<open>An environment in which nothing is received; its state is the time in microseconds.\<close>

definition silent_env :: "int coap_env" where
  "silent_env = \<lparr>coap_time = (\<lambda>w. (\<lparr>tv_sec = w div 1000000, tv_usec = w mod 1000000\<rparr>, w)),
     dtls_read = (\<lambda>n t w. (QCLOUD_ERR_SSL_READ_TIMEOUT, [], w + max 0 t * 1000)), dtls_write = (\<lambda>bs t w. (QCLOUD_RET_SUCCESS, length bs, w)),
     dtls_connect = Pair 0, dtls_disconnect = id, coap_malloc = Pair True, coap_fresh = (\<lambda>n w. replicate n 0), coap_rand = Pair 0, coap_mutex = Pair True\<rparr>"

lemma silent_env_ok: "coap_env_ok silent_env"
  by (simp add: coap_env_ok_def silent_env_def)

lemma silent_env_quiet: "quiet_env silent_env"
  by (simp add: quiet_env_def silent_env_def clock_def usecs_def timeval_ok_def)

lemma silent_malloc: "malloc_net silent_env n w = w"
  by (induction n) (simp_all add: malloc_net_def silent_env_def)

text \<open>A client with a request that was sent at time 0 and not answered.\<close>

definition request_example :: CoAPMsgSendInfo where
  "request_example = \<lparr>node_state = COAP_NODE_STATE_NORMANL, si_user_context = None, si_msg_id = 7, acked = 0, si_token_len = 4,
     si_token = [1, 0, 0, 0, 0, 0, 0, 0], retrans_count = 0, start_time = \<lparr>end_time = \<lparr>tv_sec = 2, tv_usec = 0\<rparr>\<rparr>,
     si_message = Some [0x40, 2, 0, 7], msglen = 4, si_handler = Some (user_callback 3)\<rparr>"

definition coap_client_example :: "int coap_sys" where
  "coap_client_example = \<lparr>is_authed = 1, conn_id = [], message_token = 2, auth_token = Some [0x61], auth_token_len = 1, next_msg_id = 7,
     send_buf_size = 512, coap_read_buf_size = 512, send_buf = replicate 512 0, recv_buf = replicate 512 0,
     lock_send_buf = False, lock_list_wait_ack = False, coap_timeout_ms = 2000, message_list = Some [request_example], max_retry_count = 2,
     coap_event_handle = True, device_info = empty_device_info, coap_host_addr = [], psk_decode = [], psk_length = 0, calls = [], net = 0\<rparr>"

lemma coap_client_example_inv: "coap_inv coap_client_example"
  by (simp add: coap_inv_def coap_client_example_def request_ok_def request_example_def)

section \<open>Properties\<close>

text \<open>
  C12: Every request ends.  When nothing is received and each cycle waits at least the command timeout, then after one cycle more than the maximal
  number of retransmissions the list of requests is empty, and every request that was waiting has been announced to the
  application exactly once: by its callback with code 6.00, or by a timeout event (of the acknowledgement, or of the
  response when it was acknowledged); requests that were already answered are dropped silently.
\<close>

theorem coap_requests_end:
  assumes "coap_env_ok env" and "quiet_env env" and "coap_inv s" and "message_list s = Some l" and "timers_recent env s"
    and "uint (coap_timeout_ms s) \<le> uint ms"
  shows "\<exists>s'. run_cycles env ms (unat (max_retry_count s) + 1) s = Some s' \<and> message_list s' = Some [] \<and> coap_inv s' \<and>
    mset (calls s') = mset (calls s) + mset (concat (map (end_notice (coap_event_handle s)) l))"
  by (rule run_cycles_ends [OF assms]) (simp add: rounds_left_def)

theorem coap_requests_end_witness:
  "\<exists>s'. run_cycles silent_env 2000 (unat (max_retry_count coap_client_example) + 1) coap_client_example = Some s' \<and> message_list s' = Some [] \<and> coap_inv s' \<and>
    mset (calls s') = mset (calls coap_client_example) + mset (concat (map (end_notice (coap_event_handle coap_client_example)) [request_example]))"
  by (rule coap_requests_end [OF silent_env_ok silent_env_quiet coap_client_example_inv])
    (simp_all add: coap_client_example_def timers_recent_def recent_def request_example_def silent_env_def clock_def usecs_def timeval_ok_def)

text \<open>
  C13: Sending a request hands exactly the bytes of its message to the network: the topic as URI path, the authentication token, the flag whether
  a response is needed, a message id that is never 0, a fresh token and the payload.  If the network takes it, the
  message id is returned and the request waits at the end of the list, with the bytes to send again and the token by which a response is
  recognised; otherwise the error is returned and nothing waits.  The invariant is kept.
\<close>

theorem coap_send_request:
  assumes "coap_env_ok env" and "coap_inv s" and "request_fits topic p s" and "message_list s = Some l"
    and "dtls_write env (message_bytes (request_message topic p s)) 0 (malloc_net env 7 (net s)) = (ret, n, w)"
  shows "\<exists>s'. IOT_COAP_SendMessage env topic p s = Some (if ret = QCLOUD_RET_SUCCESS then uint (next_coap_id s) else ret, s') \<and> coap_inv s' \<and>
    next_coap_id s \<noteq> 0 \<and> next_msg_id s' = next_coap_id s \<and> message_token s' = message_token s + 1 \<and>
    (if ret = QCLOUD_RET_SUCCESS
     then \<exists>i. message_list s' = Some (l @ [i]) \<and> si_msg_id i = next_coap_id s \<and> token_matches i (request_message topic p s) \<and>
       si_message i = Some (take n (message_bytes (request_message topic p s))) \<and> node_state i = COAP_NODE_STATE_NORMANL \<and> acked i = 0 \<and>
       retrans_count i = 0 \<and> si_handler i = resp_handler (request_message topic p s) \<and> si_user_context i = sp_user_context p
     else message_list s' = Some l)"
proof -
  let ?m = "request_message topic p s"
  define s1 where "s1 = emit [] (malloc_net env 7 (net s)) (s\<lparr>next_msg_id := next_coap_id s, message_token := message_token s + 1\<rparr>)"
  have s1: "coap_inv s1" "message_list s1 = Some l" "net s1 = malloc_net env 7 (net s)" "next_msg_id s1 = next_coap_id s" "message_token s1 = message_token s + 1"
    using assms(2,4) by (simp_all add: s1_def coap_inv_ids) (simp_all add: emit_def)
  note ok = request_message_ok [OF assms(2,3)]
  have send: "coap_message_send env ?m s1 =
     (if ret = QCLOUD_RET_SUCCESS
      then Some (QCLOUD_RET_SUCCESS, emit [] (queued_net env w) (s1\<lparr>send_buf := put (send_buf s1) (message_bytes ?m),
        message_list := Some (l @ [queued env ?m (take n (message_bytes ?m)) (emit [] w s1)])\<rparr>))
      else Some (ret, emit [] w (s1\<lparr>send_buf := put (send_buf s1) (message_bytes ?m)\<rparr>)))"
    using message_send_eq [OF assms(1) s1(1) ok s1(2)] assms(5) by (simp add: s1(3) request_message_def DEFAULT_COAP_MESSAGE_def)
  have inv: "ok (coap_message_send env ?m s1) (\<lambda>(rc, s'). coap_inv s')"
    using assms(1,3) s1(1) ok by (intro message_send_wp) (simp_all add: request_message_def request_fits_def)
  define i where "i = queued env ?m (take n (message_bytes ?m)) (emit [] w s1)"
  have i: "si_msg_id i = next_coap_id s" "si_message i = Some (take n (message_bytes ?m))" "node_state i = COAP_NODE_STATE_NORMANL" "acked i = 0" "retrans_count i = 0"
    "si_handler i = resp_handler ?m" "si_user_context i = sp_user_context p"
    by (simp_all add: i_def queued_def) (simp_all add: request_message_def)
  have "token_matches i ?m"
    by (simp add: i_def token_matches_def queued_def) (simp add: request_message_def token_bytes_def)
  moreover have "next_coap_id s \<noteq> 0"
    by (auto simp: next_coap_id_def add_eq_0_iff2 unsigned_minus_1_eq_mask mask_eq_exp_minus_1)
  ultimately show ?thesis
    using inv s1 i unfolding send_message_eq [OF assms(1-3), folded s1_def] send i_def [symmetric]
    by (cases "ret = QCLOUD_RET_SUCCESS") (simp_all add: emit_def)
qed

definition params_example :: SendMsgParams where
  "params_example = \<lparr>need_resp = True, sp_pay_load = [1, 2, 3], sp_pay_load_len = 3, sp_user_context = None, resp_callback = Some (user_callback 5)\<rparr>"

theorem coap_send_request_witness:
  "\<exists>s'. IOT_COAP_SendMessage silent_env [0x61] params_example coap_client_example = Some (if (0 :: int) = QCLOUD_RET_SUCCESS then uint (next_coap_id coap_client_example) else 0, s') \<and>
    coap_inv s' \<and> next_coap_id coap_client_example \<noteq> 0 \<and> next_msg_id s' = next_coap_id coap_client_example \<and> message_token s' = message_token coap_client_example + 1 \<and>
    (if (0 :: int) = QCLOUD_RET_SUCCESS
     then \<exists>i. message_list s' = Some ([request_example] @ [i]) \<and> si_msg_id i = next_coap_id coap_client_example \<and>
       token_matches i (request_message [0x61] params_example coap_client_example) \<and>
       si_message i = Some (take (length (message_bytes (request_message [0x61] params_example coap_client_example))) (message_bytes (request_message [0x61] params_example coap_client_example))) \<and>
       node_state i = COAP_NODE_STATE_NORMANL \<and> acked i = 0 \<and>
       retrans_count i = 0 \<and> si_handler i = resp_handler (request_message [0x61] params_example coap_client_example) \<and> si_user_context i = sp_user_context params_example
     else message_list s' = Some [request_example])"
  by (rule coap_send_request [OF silent_env_ok coap_client_example_inv, where w = 0])
    (simp_all add: request_fits_def coap_client_example_def params_example_def URI_PATH_MAX_LEN_def silent_malloc, simp_all add: silent_env_def)

section \<open>The client as a machine\<close>

datatype 'w coap_op = CoapSend cstr SendMsgParams | CoapYield u32 | CoapOutside 'w

text \<open>A topic that is too long is refused; otherwise the request has to fit the send buffer.\<close>

fun coap_op_ok :: "'w coap_op \<Rightarrow> 'w coap_env \<times> 'w coap_sys \<Rightarrow> bool" where
  "coap_op_ok (CoapSend topic p) (env, s) \<longleftrightarrow> URI_PATH_MAX_LEN < length topic \<or> request_fits topic p s"
| "coap_op_ok op st \<longleftrightarrow> True"

fun coap_step :: "'w coap_op \<Rightarrow> 'w coap_env \<times> 'w coap_sys \<Rightarrow> ('w coap_env \<times> 'w coap_sys) option" where
  "coap_step (CoapSend topic p) (env, s) = map_option (\<lambda>(rc, s). (env, s)) (IOT_COAP_SendMessage env topic p s)"
| "coap_step (CoapYield ms) (env, s) = map_option (\<lambda>(rc, s). (env, s)) (IOT_COAP_Yield env ms s)"
| "coap_step (CoapOutside w) (env, s) = Some (env, s\<lparr>net := w\<rparr>)"

definition coap_system_inv :: "'w coap_env \<times> 'w coap_sys \<Rightarrow> bool" where
  "coap_system_inv = (\<lambda>(env, s). coap_env_ok env \<and> coap_inv s)"

interpretation coap: machine coap_system_inv coap_op_ok coap_step
proof
  fix st :: "'a coap_env \<times> 'a coap_sys" and op
  assume a: "coap_system_inv st" "coap_op_ok op st"
  obtain env s where st: "st = (env, s)" by fastforce
  have inv: "coap_env_ok env" "coap_inv s"
    using a(1) by (simp_all add: coap_system_inv_def st)
  show "\<exists>st'. coap_step op st = Some st' \<and> coap_system_inv st'"
  proof (cases op)
    case (CoapSend topic p)
    have "ok (IOT_COAP_SendMessage env topic p s) (\<lambda>(rc, s'). coap_inv s')"
    proof (cases "URI_PATH_MAX_LEN < length topic")
      case True
      then show ?thesis
        using inv by (simp add: IOT_COAP_SendMessage_def)
    next
      case False
      then show ?thesis
        using a(2) inv CoapSend st by (intro send_message_wp) simp_all
    qed
    then show ?thesis
      using inv(1) by (auto simp: CoapSend st coap_system_inv_def dest!: ok_D)
  next
    case (CoapYield ms)
    have "ok (IOT_COAP_Yield env ms s) (\<lambda>(rc, s'). coap_inv s')"
      unfolding IOT_COAP_Yield_def using inv by (rule message_cycle_wp)
    then show ?thesis
      using inv(1) by (auto simp: CoapYield st coap_system_inv_def dest!: ok_D)
  next
    case (CoapOutside w)
    then show ?thesis
      using inv by (simp add: st coap_system_inv_def net_upd_emit)
  qed
qed

lemma coap_reaches_env: "reaches coap_op_ok coap_step st st' \<Longrightarrow> fst st' = fst st"
proof (induction rule: reaches.induct)
  case (step st op st')
  then show ?case by (cases op; cases st) auto
qed simp



section \<open>Authentication\<close>

lemma conn_id_length: "length (fst (conn_id_loop env n w)) = n"
  by (induction n arbitrary: w) (simp_all add: Let_def split: prod.split, metis fst_conv)

text \<open>The authentication request; its last byte is one of fresh memory.\<close>

definition auth_path :: "DeviceInfo \<Rightarrow> cstr" where
  "auth_path dev = product_id dev @ chars ''/'' @ device_name dev @ chars ''/'' @ COAP_AUTH_URI"

definition auth_message :: "byte \<Rightarrow> cstr \<Rightarrow> 'w coap_sys \<Rightarrow> CoAPMessage" where
  "auth_message b cid s = DEFAULT_COAP_MESSAGE\<lparr>coap_msg_id := next_coap_id s, token := token_bytes (message_token s) @ [0, 0, 0, 0], token_len := 4,
     pay_load := Some (COAP_SDK_APPID @ chars '';'' @ cid @ [0, b]), pay_load_len := 16,
     op_list := [\<lparr>option_num = 11, val_len = of_nat (length (auth_path (device_info s))), op_val = auth_path (device_info s)\<rparr>,
       \<lparr>option_num = 62, val_len = 1, op_val = [0x30]\<rparr>],
     resp_handler := Some auth_callback, user_context := Some CLIENT_ADDR\<rparr>"

lemma auth_eq:
  assumes "coap_env_ok env" and "length (product_id (device_info s)) \<le> 10" and "length (device_name (device_info s)) \<le> 48"
  shows "\<exists>b cid w. length cid = 5 \<and> coap_client_auth env s =
    coap_message_send env (auth_message b cid s) (emit [] w (s\<lparr>next_msg_id := next_coap_id s, message_token := message_token s + 1, conn_id := cid\<rparr>))"
proof -
  have l: "length COAP_AUTH_URI = 15" "length COAP_SDK_APPID = 8" "length (chars ''/'') = 1" "length (chars '';'') = 1" "chars ''0'' = [0x30]"
    by (simp_all add: COAP_AUTH_URI_def COAP_SDK_APPID_def chars_def of_char_def)
  have path: "fst (HAL_Snprintf (10 + length (device_name (device_info s)) + 15 + 4) (product_id (device_info s) @ chars ''/'' @ device_name (device_info s) @ chars ''/'' @ COAP_AUTH_URI)) =
      auth_path (device_info s)" "length (auth_path (device_info s)) < 2 ^ 32"
    using assms(2,3) l by (simp_all add: HAL_Snprintf_def auth_path_def)
  obtain cid w1 where c: "conn_id_loop env 5 (malloc_net env 5 (net s)) = (cid, w1)" by fastforce
  have cid: "length cid = 5"
    using conn_id_length [of env 5 "malloc_net env 5 (net s)"] c by simp
  let ?str = "COAP_SDK_APPID @ chars '';'' @ cid"
  let ?temp = "coap_fresh env 16 (malloc_net env (Suc (Suc 0)) w1)"
  have str: "fst (HAL_Snprintf 16 ?str) = ?str" "length ?str = 14"
    using l cid by (simp_all add: HAL_Snprintf_def)
  have f: "length (coap_fresh env 16 w) = 16" for w
    using assms(1) by (rule env_okD(1))
  have "drop 15 ?temp = [?temp ! 15]"
    using f by (simp add: Cons_nth_drop_Suc [symmetric])
  then have temp: "wr_bytes ?temp 0 (COAP_SDK_APPID @ chars '';'' @ cid @ [0]) = Some (COAP_SDK_APPID @ chars '';'' @ cid @ [0, ?temp ! 15])"
    using str(2) f by (simp add: wr_bytes_def)
  have pl: "coap_message_payload_set (m\<lparr>pay_load_len := 16, pay_load := Some (coap_fresh env 16 w)\<rparr>) (COAP_SDK_APPID @ chars '';'' @ cid @ [0, b]) 16 =
      Some (QCLOUD_RET_SUCCESS, m\<lparr>pay_load := Some (COAP_SDK_APPID @ chars '';'' @ cid @ [0, b]), pay_load_len := 16\<rparr>)" for m w b
    using f str(2) by (simp add: coap_message_payload_set_def rd_bytes_def wr_bytes_def Let_def)
  have n: "auth_payload_len = 16"
    using l by (simp add: auth_payload_len_def COAP_MAX_CONN_ID_LEN_def)
  have o: "op_insert \<lparr>option_num = 11, val_len = x, op_val = y\<rparr> [] = [\<lparr>option_num = 11, val_len = x, op_val = y\<rparr>]"
    "op_insert \<lparr>option_num = 62, val_len = x', op_val = y'\<rparr> [\<lparr>option_num = 11, val_len = x, op_val = y\<rparr>] =
       [\<lparr>option_num = 11, val_len = x, op_val = y\<rparr>, \<lparr>option_num = 62, val_len = x', op_val = y'\<rparr>]" for x y x' y'
    by (simp_all add: op_insert_def)
  have "coap_client_auth env s = coap_message_send env (auth_message (?temp ! 15) cid s)
      (emit [] (malloc_net env (Suc (Suc 0)) w1) (s\<lparr>next_msg_id := next_coap_id s, message_token := message_token s + 1, conn_id := cid\<rparr>))"
    using path unfolding coap_client_auth_def new_request_eq auth_message_def MAX_SIZE_OF_PRODUCT_ID_def
    by (simp add: alloc_eq [OF assms(1)] add_option_eq [OF assms(1)] get_coap_next_conn_id_def COAP_MAX_CONN_ID_LEN_def c Let_def l n str temp pl
        coap_message_callback_set_def coap_message_context_set_def emit_def) (simp add: DEFAULT_COAP_MESSAGE_def o)
  with cid show ?thesis by blast
qed

lemma auth_message_ok:
  assumes "length (product_id (device_info s)) \<le> 10" and "length (device_name (device_info s)) \<le> 48" and "length cid = 5"
  shows "message_ok (auth_message b cid s)" "length (message_bytes (auth_message b cid s)) < 512"
proof -
  have l: "length COAP_AUTH_URI = 15" "length COAP_SDK_APPID = 8" "length (chars ''/'') = 1" "length (chars '';'') = 1"
    by (simp_all add: COAP_AUTH_URI_def COAP_SDK_APPID_def chars_def)
  have p: "length (auth_path (device_info s)) \<le> 75"
    using assms(1,2) l by (simp add: auth_path_def)
  then show "message_ok (auth_message b cid s)"
    using l assms(3) by (simp add: message_ok_def auth_message_def option_ok_def DEFAULT_COAP_MESSAGE_def token_bytes_def)
  have "length (options_bytes 0 (op_list (auth_message b cid s))) \<le> 3 + length (auth_path (device_info s)) + 4"
    by (simp add: auth_message_def option_bytes_def op_delta_of_def op_extension_def word_le_nat_alt [of _ 1])
  then show "length (message_bytes (auth_message b cid s)) < 512"
    using p l assms(3) by (simp add: message_bytes_def header_bytes_def payload_bytes_def auth_message_def DEFAULT_COAP_MESSAGE_def token_bytes_def)
qed

text \<open>Initialisation establishes the invariant.\<close>

definition init_post :: "'w coap_sys \<Rightarrow> bool" where
  "init_post s \<longleftrightarrow> coap_inv s \<and> message_list s = Some [] \<and> is_authed s = - 1 \<and> 500 \<le> coap_timeout_ms s \<and> coap_timeout_ms s \<le> 5000 \<and>
     length (product_id (device_info s)) \<le> 10 \<and> length (device_name (device_info s)) \<le> 48"

lemma init_rest_eq:
  assumes "coap_env_ok env"
  shows "\<exists>mid w. coap_init_rest env p s = (QCLOUD_ERR_FAILURE, emit [] w (s\<lparr>auth_token := None, auth_token_len := 0, next_msg_id := mid, coap_read_buf_size := 512, send_buf_size := 512\<rparr>)) \<and> \<not> (\<forall>w. fst (coap_mutex env w)) \<or>
    coap_init_rest env p s = (QCLOUD_RET_SUCCESS, emit [] w (s\<lparr>auth_token := None, auth_token_len := 0, next_msg_id := mid, coap_read_buf_size := 512, send_buf_size := 512,
      message_list := Some [], max_retry_count := cp_max_retry_count p, coap_event_handle := cp_event_handle p\<rparr>))"
proof -
  obtain n w1 where 1: "coap_rand env (net s) = (n, w1)" by fastforce
  obtain l1 w2 where 2: "coap_mutex env w1 = (l1, w2)" by fastforce
  obtain l2 w3 where 3: "coap_mutex env w2 = (l2, w3)" by fastforce
  have l: "\<not> l1 \<or> \<not> l2 \<Longrightarrow> \<exists>w. \<not> fst (coap_mutex env w)"
    using 2 3 by (metis fst_conv)
  show ?thesis
    unfolding coap_init_rest_def coap_random_start_packet_id_def
    by (rule exI [of _ "of_nat (n mod 65536 + 1)"], rule exI [of _ "if \<not> l1 then w2 else if \<not> l2 then w3 else malloc_net env 1 w3"])
      (use l in \<open>simp add: 1 2 3 alloc_eq [OF assms] Let_def COAP_RECVMSG_MAX_BUFLEN_def COAP_SENDMSG_MAX_BUFLEN_def emit_def\<close>)
qed

lemma limit_command_timeout_bounds: "500 \<le> limit_command_timeout t \<and> limit_command_timeout t \<le> 5000"
  by (auto simp: limit_command_timeout_def COAP_MIN_COMMAND_TIMEOUT_def COAP_MAX_COMMAND_TIMEOUT_def Let_def)

lemma init_wp:
  assumes "coap_env_ok env"
  shows "ok (qcloud_iot_coap_init env junk p s) (\<lambda>(rc, s'). (rc = QCLOUD_RET_SUCCESS \<longrightarrow> init_post s') \<and>
    (length (cp_product_id p) \<le> 10 \<and> length (cp_device_name p) \<le> 48 \<and> cp_device_secret p \<noteq> None \<and> (\<forall>w. fst (coap_mutex env w)) \<longrightarrow> rc = QCLOUD_RET_SUCCESS))"
proof (cases "length (cp_product_id p) \<le> 10 \<and> length (cp_device_name p) \<le> 48")
  case False
  then show ?thesis
    unfolding qcloud_iot_coap_init_def device_info_set if_not_P [OF False] using False by auto
next
  case True
  define host where "host = cp_product_id p @ chars ''.'' @ QCLOUD_IOT_COAP_DEIRECT_DOMAIN"
  have "length host \<le> 38"
    using True by (simp add: host_def chars_def QCLOUD_IOT_COAP_DEIRECT_DOMAIN_def)
  then have host: "HAL_Snprintf 64 host = (host, int (length host))" "length host \<le> 63"
    by (simp_all add: HAL_Snprintf_def)
  define s1 where "s1 = (clear_client s)\<lparr>device_info := \<lparr>product_id = cp_product_id p, device_name = cp_device_name p,
      dev_client_id = cp_product_id p @ cp_device_name p\<rparr>, coap_host_addr := host, is_authed := - 1,
      coap_timeout_ms := limit_command_timeout (cp_command_timeout p)\<rparr>"
  have i: "qcloud_iot_coap_init env junk p s =
      (case cp_device_secret p of None \<Rightarrow> Some (QCLOUD_ERR_INVAL, s1)
       | Some secret \<Rightarrow> do {
           (rc, len, psk) \<leftarrow> qcloud_iot_utils_base64decode (Some (replicate 48 0)) 48 secret (length secret);
           psk \<leftarrow> psk;
           Some (coap_init_rest env p (s1\<lparr>psk_decode := psk, psk_length := (case len of None \<Rightarrow> junk | Some len \<Rightarrow> len)\<rparr>)) })"
    unfolding qcloud_iot_coap_init_def device_info_set if_P [OF True] host_def [symmetric] COAP_HOST_STR_LENGTH_def COAP_DECODE_PSK_LENGTH_def
    using host by (simp add: s1_def Let_def cong: option.case_cong)
  show ?thesis
  proof (cases "cp_device_secret p")
    case None
    with i show ?thesis by simp
  next
    case (Some secret)
    obtain rc olen d where d: "qcloud_iot_utils_base64decode (Some (replicate 48 0)) 48 secret (length secret) = Some (rc, olen, Some d)"
      by (rule base64decode_cases [of "length secret" secret 48 "replicate 48 0"]) auto
    let ?s = "s1\<lparr>psk_decode := d, psk_length := (case olen of None \<Rightarrow> junk | Some len \<Rightarrow> len)\<rparr>"
    have e: "qcloud_iot_coap_init env junk p s = Some (coap_init_rest env p ?s)"
      using i Some d by simp
    show ?thesis
      unfolding e using init_rest_eq [OF assms, of p ?s] True limit_command_timeout_bounds [of "cp_command_timeout p"]
      by (auto simp: init_post_def s1_def clear_client_def coap_inv_def emit_def COAP_SENDMSG_MAX_BUFLEN_def COAP_RECVMSG_MAX_BUFLEN_def)
  qed
qed

definition silent_reads :: "'w coap_env \<Rightarrow> bool" where
  "silent_reads env \<longleftrightarrow> (\<forall>n t w. \<exists>w'. dtls_read env n t w = (QCLOUD_ERR_SSL_READ_TIMEOUT, [], w'))"

text \<open>A cycle in which nothing is received and nothing waits reports a failure.\<close>

lemma idle_yield:
  assumes "silent_reads env" and "coap_inv s" and "message_list s = Some []"
  shows "\<exists>w. IOT_COAP_Yield env ms s = Some (QCLOUD_ERR_FAILURE, emit [] w s)"
proof -
  obtain w where w: "dtls_read env (coap_read_buf_size s) (uint ms) (net s) = (QCLOUD_ERR_SSL_READ_TIMEOUT, [], w)"
    using assms(1) unfolding silent_reads_def by blast
  then have r: "coap_message_recv env ms s = Some (QCLOUD_ERR_SSL_READ_TIMEOUT, emit [] w s)"
    by (simp add: coap_message_recv_def wr_bytes_def emit_def Let_def)
  have "coap_message_list_proc env DEFAULT_COAP_MESSAGE PROCESS_WAIT_CMD (emit [] w s) = Some (QCLOUD_ERR_FAILURE, DEFAULT_COAP_MESSAGE, emit [] w s)"
    using assms(2,3) by (simp add: coap_message_list_proc_def lock_list_def unlock_list_def coap_inv_def emit_def)
  then show ?thesis
    by (simp add: IOT_COAP_Yield_def coap_message_cycle_def r emit_inject)
qed

text \<open>While no answer can come, the loop that waits for the authentication does not end.\<close>

lemma auth_loop_hangs:
  "auth_loop env s = Some r \<Longrightarrow> silent_reads env \<and> coap_inv s \<and> message_list s = Some [] \<and> is_authed s = - 1 \<longrightarrow> False"
proof (erule auth_loop.raw_induct [rotated], rule impI)
  fix f :: "'a coap_env \<Rightarrow> 'a coap_sys \<Rightarrow> 'a coap_sys option" and env s r
  assume IH: "\<And>e t y. f e t = Some y \<Longrightarrow> silent_reads e \<and> coap_inv t \<and> message_list t = Some [] \<and> is_authed t = - 1 \<longrightarrow> False"
    and step: "(if is_authed s = - 1 then IOT_COAP_Yield env 200 s \<bind> (\<lambda>(rc, s). f env s) else Some s) = Some r"
    and a: "silent_reads env \<and> coap_inv s \<and> message_list s = Some [] \<and> is_authed s = - 1"
  obtain w where "IOT_COAP_Yield env 200 s = Some (QCLOUD_ERR_FAILURE, emit [] w s)"
    using idle_yield [of env s 200] a by blast
  with step a have "f env (emit [] w s) = Some r"
    by simp
  moreover have "is_authed (emit [] w s) = - 1"
    using a by (simp add: emit_def)
  ultimately show False
    using IH [of env "emit [] w s" r] a by simp
qed

text \<open>
  C40: The constructor can hang.  If the authentication request cannot be sent (every write fails) and nothing is received, then
  \<^verbatim>\<open>IOT_COAP_Construct\<close> does not return, although initialisation and connection succeed: the result of sending the request is not
  looked at, no request waits that could time out, and the loop waits for an answer for ever.
\<close>

theorem coap_construct_hangs:
  assumes "coap_env_ok env" and "silent_reads env" and "\<And>bs t w. fst (dtls_write env bs t w) \<noteq> QCLOUD_RET_SUCCESS"
    and "\<And>w. fst (dtls_connect env w) = QCLOUD_RET_SUCCESS" and "\<And>w. fst (coap_mutex env w)"
    and "cp_product_id p \<noteq> []" and "length (cp_product_id p) \<le> 10" and "cp_device_name p \<noteq> []" and "length (cp_device_name p) \<le> 48"
    and "cp_device_secret p \<noteq> None"
  shows "IOT_COAP_Construct env junk p s = None"
proof -
  let ?s0 = "emit [] (malloc_net env 1 (net s)) s"
  obtain s1 where s1: "qcloud_iot_coap_init env junk p ?s0 = Some (QCLOUD_RET_SUCCESS, s1)" "init_post s1"
    using ok_D [OF init_wp [OF assms(1), of junk p ?s0]] assms(5,7,9,10) by auto
  obtain w2 where w2: "dtls_connect env (net s1) = (QCLOUD_RET_SUCCESS, w2)"
    using assms(4) [of "net s1"] by (metis prod.collapse)
  define s2 where "s2 = emit [] w2 s1"
  have s2: "coap_inv s2" "message_list s2 = Some []" "is_authed s2 = - 1"
    "length (product_id (device_info s2)) \<le> 10" "length (device_name (device_info s2)) \<le> 48"
    using s1(2) by (simp_all add: s2_def init_post_def) (simp_all add: emit_def)
  obtain b cid w3 where a: "length cid = 5" "coap_client_auth env s2 = coap_message_send env (auth_message b cid s2)
      (emit [] w3 (s2\<lparr>next_msg_id := next_coap_id s2, message_token := message_token s2 + 1, conn_id := cid\<rparr>))"
    using auth_eq [OF assms(1) s2(4,5)] by blast
  define s3 where "s3 = emit [] w3 (s2\<lparr>next_msg_id := next_coap_id s2, message_token := message_token s2 + 1, conn_id := cid\<rparr>)"
  have s3: "coap_inv s3" "message_list s3 = Some []" "is_authed s3 = - 1"
    using s2(1-3) by (simp_all add: s3_def emit_def coap_inv_def cong: option.case_cong)
  obtain ret n w4 where w4: "dtls_write env (message_bytes (auth_message b cid s2)) 0 (net s3) = (ret, n, w4)" "ret \<noteq> QCLOUD_RET_SUCCESS"
    using assms(3) by (metis prod.collapse)
  define s4 where "s4 = emit [] w4 (s3\<lparr>send_buf := put (send_buf s3) (message_bytes (auth_message b cid s2))\<rparr>)"
  note ok = auth_message_ok [OF s2(4,5) a(1), of b]
  have "coap_client_auth env s2 = Some (ret, s4)"
    unfolding a(2) s3_def [symmetric] message_send_eq [OF assms(1) s3(1) ok s3(2) w4(1)] using w4(2) by (simp add: s4_def)
  moreover have "coap_inv s4" "message_list s4 = Some []" "is_authed s4 = - 1"
    using s3 ok(2) by (auto simp: s4_def emit_def coap_inv_def put_def cong: option.case_cong)
  then have "auth_loop env s4 = None"
    using auth_loop_hangs [of env s4] assms(2) by (cases "auth_loop env s4") blast+
  ultimately show ?thesis
    using assms(6,8) s1(1) w2 by (simp add: IOT_COAP_Construct_def alloc_eq [OF assms(1)] s2_def net_upd_emit)
qed

definition failing_env :: "int coap_env" where
  "failing_env = silent_env\<lparr>dtls_write := (\<lambda>bs t w. (QCLOUD_ERR_FAILURE, 0, w))\<rparr>"

theorem coap_construct_hangs_witness:
  "IOT_COAP_Construct failing_env 0 \<lparr>cp_product_id = [0x50], cp_device_name = [0x44], cp_device_secret = Some [], cp_command_timeout = 2000,
     cp_max_retry_count = 5, cp_event_handle = False\<rparr> coap_client_example = None"
  by (rule coap_construct_hangs) (simp_all add: failing_env_def silent_env_def coap_env_ok_def silent_reads_def)

end
