(* ===== verification/Mqtt_Codec.thy ===== *)
theory Mqtt_Codec
  imports Prelude
begin

text \<open>
  The MQTT wire format of \<^verbatim>\<open>sdk_src/protocol/mqtt\<close>: the remaining-length encoding, the
  fixed header, and the serializers and deserializers of every packet the client sends or
  receives. Buffers are byte lists with checked accesses, so that \<open>None\<close> is an access outside
  the buffer; the buffer passed in is all the memory from the C pointer on, and may be longer than
  the length argument the C function is given.
\<close>

section \<open>Enumerations and header constants\<close>

datatype MessageTypes = RESERVED | CONNECT | CONNACK | PUBLISH | PUBACK | PUBREC | PUBREL | PUBCOMP
  | SUBSCRIBE | SUBACK | UNSUBSCRIBE | UNSUBACK | PINGREQ | PINGRESP | DISCONNECT

text \<open>The numeric value of each enumerator.\<close>

fun MessageTypes_val :: "MessageTypes \<Rightarrow> byte" where
  "MessageTypes_val RESERVED = 0"
| "MessageTypes_val CONNECT = 1"
| "MessageTypes_val CONNACK = 2"
| "MessageTypes_val PUBLISH = 3"
| "MessageTypes_val PUBACK = 4"
| "MessageTypes_val PUBREC = 5"
| "MessageTypes_val PUBREL = 6"
| "MessageTypes_val PUBCOMP = 7"
| "MessageTypes_val SUBSCRIBE = 8"
| "MessageTypes_val SUBACK = 9"
| "MessageTypes_val UNSUBSCRIBE = 10"
| "MessageTypes_val UNSUBACK = 11"
| "MessageTypes_val PINGREQ = 12"
| "MessageTypes_val PINGRESP = 13"
| "MessageTypes_val DISCONNECT = 14"

text \<open>
  \<^verbatim>\<open>QoS\<close> is kept as the byte it is stored in: the deserializers cast arbitrary wire values
  to it.
\<close>

type_synonym QoS = byte

abbreviation (input) QOS0 :: QoS where "QOS0 \<equiv> 0"
abbreviation (input) QOS1 :: QoS where "QOS1 \<equiv> 1"
abbreviation (input) QOS2 :: QoS where "QOS2 \<equiv> 2"

abbreviation (input) MQTT_HEADER_TYPE_MASK :: byte where "MQTT_HEADER_TYPE_MASK \<equiv> 0xF0"
abbreviation (input) MQTT_HEADER_DUP_MASK :: byte where "MQTT_HEADER_DUP_MASK \<equiv> 0x08"
abbreviation (input) MQTT_HEADER_QOS_MASK :: byte where "MQTT_HEADER_QOS_MASK \<equiv> 0x06"
abbreviation (input) MQTT_HEADER_RETAIN_MASK :: byte where "MQTT_HEADER_RETAIN_MASK \<equiv> 0x01"

abbreviation (input) QCLOUD_IOT_MQTT_RX_BUF_LEN :: nat where "QCLOUD_IOT_MQTT_RX_BUF_LEN \<equiv> 2048"

definition header_type :: "byte \<Rightarrow> byte" where
  "header_type h = drop_bit 4 (h AND MQTT_HEADER_TYPE_MASK)"

definition header_dup :: "byte \<Rightarrow> byte" where
  "header_dup h = drop_bit 3 (h AND MQTT_HEADER_DUP_MASK)"

definition header_qos :: "byte \<Rightarrow> QoS" where
  "header_qos h = drop_bit 1 (h AND MQTT_HEADER_QOS_MASK)"

definition header_retained :: "byte \<Rightarrow> byte" where
  "header_retained h = h AND MQTT_HEADER_RETAIN_MASK"

section \<open>Reading and writing primitives\<close>

text \<open>Each takes the buffer and the position of \<^verbatim>\<open>*pptr\<close> and returns the new position.\<close>

definition mqtt_read_uint16_t :: "byte list \<Rightarrow> nat \<Rightarrow> (u16 \<times> nat) option" where
  "mqtt_read_uint16_t buf ptr = do {
     firstByte \<leftarrow> rd buf ptr;
     secondByte \<leftarrow> rd buf (ptr + 1);
     Some (ucast secondByte + 256 * ucast firstByte, ptr + 2)
   }"

definition mqtt_read_char :: "byte list \<Rightarrow> nat \<Rightarrow> (byte \<times> nat) option" where
  "mqtt_read_char buf ptr = do {
     c \<leftarrow> rd buf ptr;
     Some (c, ptr + 1)
   }"

definition mqtt_write_char :: "byte list \<Rightarrow> nat \<Rightarrow> byte \<Rightarrow> (byte list \<times> nat) option" where
  "mqtt_write_char buf ptr c = do {
     buf \<leftarrow> wr buf ptr c;
     Some (buf, ptr + 1)
   }"

definition mqtt_write_uint_16 :: "byte list \<Rightarrow> nat \<Rightarrow> u16 \<Rightarrow> (byte list \<times> nat) option" where
  "mqtt_write_uint_16 buf ptr anInt = do {
     buf \<leftarrow> wr buf ptr (ucast (anInt div 256));
     buf \<leftarrow> wr buf (ptr + 1) (ucast (anInt mod 256));
     Some (buf, ptr + 2)
   }"

definition mqtt_write_utf8_string :: "byte list \<Rightarrow> nat \<Rightarrow> cstr \<Rightarrow> (byte list \<times> nat) option" where
  "mqtt_write_utf8_string buf ptr string = do {
     let len = length string;
     (buf, ptr) \<leftarrow> mqtt_write_uint_16 buf ptr (of_nat len);
     buf \<leftarrow> wr_bytes buf ptr string;
     Some (buf, ptr + len)
   }"

section \<open>The remaining-length field\<close>

text \<open>
  The \<^verbatim>\<open>do ... while (length > 0)\<close> loop of the encoder; \<open>ptr\<close> is where the next byte goes
  (\<^verbatim>\<open>buf + outLen\<close>) and the result is the number of bytes written.
\<close>

function mqtt_write_packet_rem_len :: "byte list \<Rightarrow> nat \<Rightarrow> u32 \<Rightarrow> (byte list \<times> nat) option" where
  "mqtt_write_packet_rem_len buf ptr len = do {
     let encodeByte = (ucast (len mod 128) :: byte);
     let len' = len div 128;
     let encodeByte = (if len' > 0 then encodeByte OR 0x80 else encodeByte);
     buf \<leftarrow> wr buf ptr encodeByte;
     if len' > 0 then do {
       (buf, outLen) \<leftarrow> mqtt_write_packet_rem_len buf (ptr + 1) len';
       Some (buf, outLen + 1)
     } else Some (buf, 1)
   }"
  by pat_completeness auto
termination
  by (relation "measure (\<lambda>(buf, ptr, len). unat len)")
    (auto simp: unat_div_word word_less_nat_alt intro: div_less_dividend)

declare mqtt_write_packet_rem_len.simps [simp del]

definition get_mqtt_packet_len :: "nat \<Rightarrow> nat" where
  "get_mqtt_packet_len rem_len =
     (let rem_len = rem_len + 1 in
      if rem_len < 128 then rem_len + 1
      else if rem_len < 16384 then rem_len + 2
      else if rem_len < 2097151 then rem_len + 3
      else rem_len + 4)"

text \<open>
  \<^verbatim>\<open>_decode_packet_rem_len_from_buf_read\<close>: at most four bytes; \<open>n\<close> counts the iterations
  that are left, \<^verbatim>\<open>multiplier\<close> and \<^verbatim>\<open>*value\<close> are 32-bit.
\<close>

fun decode_packet_rem_len_from_buf_read ::
  "nat \<Rightarrow> byte list \<Rightarrow> nat \<Rightarrow> u32 \<Rightarrow> u32 \<Rightarrow> u32 \<Rightarrow> (u32 \<times> u32) cres option" where
  "decode_packet_rem_len_from_buf_read 0 buf bufptr multiplier value len =
     Some (Inl QCLOUD_ERR_MQTT_PACKET_READ)"
| "decode_packet_rem_len_from_buf_read (Suc n) buf bufptr multiplier value len = do {
     let len = len + 1;
     c \<leftarrow> rd buf bufptr;
     let value = value + ucast (c AND 127) * multiplier;
     if c AND 128 \<noteq> 0
     then decode_packet_rem_len_from_buf_read n buf (bufptr + 1) (multiplier * 128) value len
     else Some (Inr (value, len))
   }"

definition MAX_NO_OF_REMAINING_LENGTH_BYTES :: nat where
  "MAX_NO_OF_REMAINING_LENGTH_BYTES = 4"

definition mqtt_read_packet_rem_len_form_buf :: "byte list \<Rightarrow> nat \<Rightarrow> (u32 \<times> u32) cres option" where
  "mqtt_read_packet_rem_len_form_buf buf ptr =
     decode_packet_rem_len_from_buf_read MAX_NO_OF_REMAINING_LENGTH_BYTES buf ptr 1 0 0"

section \<open>The fixed header\<close>

text \<open>The first switch of \<^verbatim>\<open>mqtt_init_packet_header\<close>; \<^verbatim>\<open>RESERVED\<close> is its error case.\<close>

fun init_header_type :: "MessageTypes \<Rightarrow> byte option" where
  "init_header_type RESERVED = None"
| "init_header_type CONNECT = Some 0x01"
| "init_header_type CONNACK = Some 0x02"
| "init_header_type PUBLISH = Some 0x03"
| "init_header_type PUBACK = Some 0x04"
| "init_header_type PUBREC = Some 0x05"
| "init_header_type PUBREL = Some 0x06"
| "init_header_type PUBCOMP = Some 0x07"
| "init_header_type SUBSCRIBE = Some 0x08"
| "init_header_type SUBACK = Some 0x09"
| "init_header_type UNSUBSCRIBE = Some 0x0A"
| "init_header_type UNSUBACK = Some 0x0B"
| "init_header_type PINGREQ = Some 0x0C"
| "init_header_type PINGRESP = Some 0x0D"
| "init_header_type DISCONNECT = Some 0x0E"

definition mqtt_init_packet_header :: "MessageTypes \<Rightarrow> QoS \<Rightarrow> byte \<Rightarrow> byte \<Rightarrow> byte cres" where
  "mqtt_init_packet_header message_type Qos dup retained =
     (case init_header_type message_type of
        None \<Rightarrow> Inl QCLOUD_ERR_MQTT_UNKNOWN
      | Some type \<Rightarrow>
          let qos = (if Qos = QOS0 then 0x00 else if Qos = QOS1 then 0x01
                     else if Qos = QOS2 then 0x02 else 0x00)
          in Inr ((push_bit 4 type AND MQTT_HEADER_TYPE_MASK) OR
                  (push_bit 3 dup AND MQTT_HEADER_DUP_MASK) OR
                  (push_bit 1 qos AND MQTT_HEADER_QOS_MASK) OR
                  (retained AND MQTT_HEADER_RETAIN_MASK)))"

section \<open>Acknowledgement packets\<close>

definition deserialize_ack_packet :: "byte list \<Rightarrow> nat \<Rightarrow> (byte \<times> byte \<times> u16) cres option" where
  "deserialize_ack_packet buf buf_len =
     (if 4 > buf_len then Some (Inl QCLOUD_ERR_BUF_TOO_SHORT)
      else do {
        (header, curdata) \<leftarrow> mqtt_read_char buf 0;
        let packet_type = header_type header;
        let dup = header_dup header;
        r \<leftarrow> mqtt_read_packet_rem_len_form_buf buf curdata;
        case r of
          Inl rc \<Rightarrow> Some (Inl rc)
        | Inr (decodedLen, readBytesLen) \<Rightarrow> do {
            let curdata = curdata + unat readBytesLen;
            let enddata = curdata + unat decodedLen;
            if int enddata - int curdata < 2 then Some (Inl QCLOUD_ERR_FAILURE)
            else do {
              (packet_id, curdata) \<leftarrow> mqtt_read_uint16_t buf curdata;
              if int enddata - int curdata \<ge> 1 then do {
                (ack_code, curdata) \<leftarrow> mqtt_read_char buf curdata;
                if ack_code \<noteq> 0 then Some (Inl QCLOUD_ERR_FAILURE)
                else Some (Inr (packet_type, dup, packet_id))
              } else Some (Inr (packet_type, dup, packet_id))
            }
          }
      })"

text \<open>
  The payload loop of \<^verbatim>\<open>deserialize_suback_packet\<close>: \<open>granted\<close> is the caller's array
  \<^verbatim>\<open>grantedQoSs\<close>, \<open>count\<close> is \<^verbatim>\<open>*count\<close>.
\<close>

function suback_read_payload ::
  "byte list \<Rightarrow> nat \<Rightarrow> nat \<Rightarrow> nat \<Rightarrow> nat \<Rightarrow> QoS list \<Rightarrow> (nat \<times> QoS list) cres option" where
  "suback_read_payload buf curdata enddata max_count count granted =
     (if curdata < enddata then
        if count > max_count then Some (Inl QCLOUD_ERR_FAILURE)
        else do {
          (q, cur') \<leftarrow> mqtt_read_char buf curdata;
          granted' \<leftarrow> wr granted count q;
          suback_read_payload buf (curdata + 1) enddata max_count (count + 1) granted'
        }
      else Some (Inr (count, granted)))"
  by pat_completeness auto
termination
  by (relation "measure (\<lambda>(buf, curdata, enddata, _). enddata - curdata)") auto

declare suback_read_payload.simps [simp del]

definition deserialize_suback_packet ::
  "nat \<Rightarrow> QoS list \<Rightarrow> byte list \<Rightarrow> nat \<Rightarrow> (u16 \<times> nat \<times> QoS list) cres option" where
  "deserialize_suback_packet max_count grantedQoSs buf buf_len =
     (if 5 > buf_len then Some (Inl QCLOUD_ERR_BUF_TOO_SHORT)
      else do {
        (header, curdata) \<leftarrow> mqtt_read_char buf 0;
        if header_type header \<noteq> MessageTypes_val SUBACK then Some (Inl QCLOUD_ERR_FAILURE)
        else do {
          r \<leftarrow> mqtt_read_packet_rem_len_form_buf buf curdata;
          case r of
            Inl rc \<Rightarrow> Some (Inl rc)
          | Inr (decodedLen, readBytesLen) \<Rightarrow> do {
              let curdata = curdata + unat readBytesLen;
              let enddata = curdata + unat decodedLen;
              if int enddata - int curdata < 2 then Some (Inl QCLOUD_ERR_FAILURE)
              else do {
                (packet_id, curdata) \<leftarrow> mqtt_read_uint16_t buf curdata;
                p \<leftarrow> suback_read_payload buf curdata enddata max_count 0 grantedQoSs;
                case p of
                  Inl rc \<Rightarrow> Some (Inl rc)
                | Inr (count, granted) \<Rightarrow> Some (Inr (packet_id, count, granted))
              }
            }
        }
      })"

definition deserialize_unsuback_packet :: "byte list \<Rightarrow> nat \<Rightarrow> u16 cres option" where
  "deserialize_unsuback_packet buf buf_len = do {
     r \<leftarrow> deserialize_ack_packet buf buf_len;
     case r of
       Inl rc \<Rightarrow> Some (Inl rc)
     | Inr (type, dup, packet_id) \<Rightarrow>
         if MessageTypes_val UNSUBACK \<noteq> type then Some (Inl QCLOUD_ERR_FAILURE)
         else Some (Inr packet_id)
   }"

section \<open>Packets without payload, and PUBACK-like packets\<close>

text \<open>A serializer returns the buffer and \<^verbatim>\<open>*serialized_len\<close>.\<close>

definition serialize_packet_with_zero_payload ::
  "byte list \<Rightarrow> nat \<Rightarrow> MessageTypes \<Rightarrow> (byte list \<times> nat) cres option" where
  "serialize_packet_with_zero_payload buf buf_len packetType =
     (if 4 > buf_len then Some (Inl QCLOUD_ERR_BUF_TOO_SHORT)
      else case mqtt_init_packet_header packetType QOS0 0 0 of
        Inl rc \<Rightarrow> Some (Inl rc)
      | Inr header \<Rightarrow> do {
          (buf, ptr) \<leftarrow> mqtt_write_char buf 0 header;
          (buf, n) \<leftarrow> mqtt_write_packet_rem_len buf ptr 0;
          Some (Inr (buf, ptr + n))
        })"

definition serialize_pub_ack_packet ::
  "byte list \<Rightarrow> nat \<Rightarrow> MessageTypes \<Rightarrow> byte \<Rightarrow> u16 \<Rightarrow> (byte list \<times> nat) cres option" where
  "serialize_pub_ack_packet buf buf_len packet_type dup packet_id =
     (let requestQoS = (if PUBREL = packet_type then QOS1 else QOS0);
          rc = mqtt_init_packet_header packet_type requestQoS dup 0
      in if 4 > buf_len then Some (Inl QCLOUD_ERR_BUF_TOO_SHORT)
         else case rc of
           Inl rc \<Rightarrow> Some (Inl rc)
         | Inr header \<Rightarrow> do {
             (buf, ptr) \<leftarrow> mqtt_write_char buf 0 header;
             (buf, n) \<leftarrow> mqtt_write_packet_rem_len buf ptr 2;
             (buf, ptr) \<leftarrow> mqtt_write_uint_16 buf (ptr + n) packet_id;
             Some (Inr (buf, ptr))
           })"

section \<open>PUBLISH\<close>

text \<open>
  \<^verbatim>\<open>_read_string_with_len\<close>: the position and length of the string, and the position after it.
\<close>

definition read_string_with_len :: "byte list \<Rightarrow> nat \<Rightarrow> nat \<Rightarrow> (nat \<times> u16 \<times> nat) cres option" where
  "read_string_with_len buf ptr enddata =
     (if int enddata - int ptr > 1 then do {
        (stringLen, ptr) \<leftarrow> mqtt_read_uint16_t buf ptr;
        if unat stringLen > QCLOUD_IOT_MQTT_RX_BUF_LEN then Some (Inl QCLOUD_ERR_FAILURE)
        else if ptr + unat stringLen \<le> enddata
        then Some (Inr (ptr, stringLen, ptr + unat stringLen))
        else Some (Inl QCLOUD_ERR_FAILURE)
      } else Some (Inl QCLOUD_ERR_FAILURE))"

text \<open>
  \<^verbatim>\<open>_get_publish_packet_len\<close> adds in \<^verbatim>\<open>size_t\<close> and truncates to 32 bits.
\<close>

definition get_publish_packet_len :: "QoS \<Rightarrow> cstr \<Rightarrow> size_t \<Rightarrow> u32" where
  "get_publish_packet_len qos topicName payload_len =
     (let len = 2 + of_nat (length topicName) + payload_len;
          len = (if qos > 0 then len + 2 else len)
      in ucast len)"

text \<open>
  What \<^verbatim>\<open>deserialize_publish_packet\<close> stores through its out-parameters; \<open>pub_id\<close> is
  \<open>None\<close> when \<^verbatim>\<open>*packet_id\<close> is not written, positions are offsets in the buffer.
\<close>

record publish_info =
  pub_dup :: byte
  pub_qos :: QoS
  pub_retained :: byte
  pub_id :: "u16 option"
  pub_topic :: nat
  pub_topic_len :: u16
  pub_payload :: nat
  pub_payload_len :: size_t

definition deserialize_publish_packet :: "byte list \<Rightarrow> nat \<Rightarrow> publish_info cres option" where
  "deserialize_publish_packet buf buf_len =
     (if 4 > buf_len then Some (Inl QCLOUD_ERR_BUF_TOO_SHORT)
      else do {
        (header, curdata) \<leftarrow> mqtt_read_char buf 0;
        let dup = header_dup header;
        let qos = header_qos header;
        let retained = header_retained header;
        if MessageTypes_val PUBLISH \<noteq> header_type header then Some (Inl QCLOUD_ERR_FAILURE)
        else do {
          r \<leftarrow> mqtt_read_packet_rem_len_form_buf buf curdata;
          case r of
            Inl rc \<Rightarrow> Some (Inl rc)
          | Inr (decodedLen, readBytesLen) \<Rightarrow> do {
              let curdata = curdata + unat readBytesLen;
              let enddata = curdata + unat decodedLen;
              t \<leftarrow> read_string_with_len buf curdata enddata;
              case t of
                Inl rc \<Rightarrow> Some (Inl QCLOUD_ERR_FAILURE)
              | Inr (topic, topic_len, curdata) \<Rightarrow>
                  if 0 > int enddata - int curdata then Some (Inl QCLOUD_ERR_FAILURE)
                  else do {
                    (packet_id, curdata) \<leftarrow>
                      (if QOS0 \<noteq> qos then do {
                         (packet_id, curdata) \<leftarrow> mqtt_read_uint16_t buf curdata;
                         Some (Some packet_id, curdata)
                       } else Some (None, curdata));
                    Some (Inr \<lparr>pub_dup = dup, pub_qos = qos, pub_retained = retained,
                      pub_id = packet_id, pub_topic = topic, pub_topic_len = topic_len,
                      pub_payload = curdata,
                      pub_payload_len = word_of_int (int enddata - int curdata)\<rparr>)
                  }
            }
        }
      })"

definition serialize_publish_packet ::
  "byte list \<Rightarrow> nat \<Rightarrow> byte \<Rightarrow> QoS \<Rightarrow> byte \<Rightarrow> u16 \<Rightarrow> cstr \<Rightarrow> byte list option \<Rightarrow> size_t \<Rightarrow>
     (byte list \<times> nat) cres option" where
  "serialize_publish_packet buf buf_len dup qos retained packet_id topicName payload payload_len =
     (case payload of
        None \<Rightarrow> Some (Inl QCLOUD_ERR_INVAL)
      | Some payload \<Rightarrow>
          let rem_len = get_publish_packet_len qos topicName payload_len in
          if get_mqtt_packet_len (unat rem_len) > buf_len then Some (Inl QCLOUD_ERR_BUF_TOO_SHORT)
          else case mqtt_init_packet_header PUBLISH qos dup retained of
            Inl rc \<Rightarrow> Some (Inl rc)
          | Inr header \<Rightarrow> do {
              (buf, ptr) \<leftarrow> mqtt_write_char buf 0 header;
              (buf, n) \<leftarrow> mqtt_write_packet_rem_len buf ptr rem_len;
              let ptr = ptr + n;
              (buf, ptr) \<leftarrow> mqtt_write_utf8_string buf ptr topicName;
              (buf, ptr) \<leftarrow> (if qos > 0 then mqtt_write_uint_16 buf ptr packet_id
                              else Some (buf, ptr));
              src \<leftarrow> rd_bytes payload 0 (unat payload_len);
              buf \<leftarrow> wr_bytes buf ptr src;
              Some (Inr (buf, ptr + unat payload_len))
            })"

section \<open>SUBSCRIBE and UNSUBSCRIBE\<close>

text \<open>
  Both serializers take \<^verbatim>\<open>char **topicFilters\<close> and read the filter of index \<open>i\<close> as
  \<^verbatim>\<open>*topicFilters + i\<close>, the suffix of the \<^emph>\<open>first\<close> string that starts at byte \<open>i\<close>;
  the model follows the code, and reads a suffix past the end of that string as \<open>None\<close>. The
  only callers pass \<^verbatim>\<open>count = 1\<close>.
\<close>

definition filter_at :: "cstr \<Rightarrow> nat \<Rightarrow> cstr option" where
  "filter_at topicFilter0 i = (if i \<le> length topicFilter0 then Some (drop i topicFilter0) else None)"

fun subscribe_rem_len_loop :: "nat \<Rightarrow> nat \<Rightarrow> cstr \<Rightarrow> nat \<Rightarrow> nat option" where
  "subscribe_rem_len_loop 0 i tf len = Some len"
| "subscribe_rem_len_loop (Suc k) i tf len = do {
     f \<leftarrow> filter_at tf i;
     subscribe_rem_len_loop k (i + 1) tf (len + (2 + length f + 1))
   }"

definition get_subscribe_packet_rem_len :: "nat \<Rightarrow> cstr \<Rightarrow> u32 option" where
  "get_subscribe_packet_rem_len count tf = map_option of_nat (subscribe_rem_len_loop count 0 tf 2)"

fun subscribe_payload_loop :: "nat \<Rightarrow> nat \<Rightarrow> cstr \<Rightarrow> QoS list \<Rightarrow> byte list \<Rightarrow> nat \<Rightarrow>
    (byte list \<times> nat) option" where
  "subscribe_payload_loop 0 i tf qs buf ptr = Some (buf, ptr)"
| "subscribe_payload_loop (Suc k) i tf qs buf ptr = do {
     f \<leftarrow> filter_at tf i;
     (buf, ptr) \<leftarrow> mqtt_write_utf8_string buf ptr f;
     q \<leftarrow> rd qs i;
     (buf, ptr) \<leftarrow> mqtt_write_char buf ptr q;
     subscribe_payload_loop k (i + 1) tf qs buf ptr
   }"

definition serialize_subscribe_packet ::
  "byte list \<Rightarrow> nat \<Rightarrow> byte \<Rightarrow> u16 \<Rightarrow> nat \<Rightarrow> cstr \<Rightarrow> QoS list \<Rightarrow> (byte list \<times> nat) cres option" where
  "serialize_subscribe_packet buf buf_len dup packet_id count tf requestedQoSs = do {
     rem_len \<leftarrow> get_subscribe_packet_rem_len count tf;
     if get_mqtt_packet_len (unat rem_len) > buf_len then Some (Inl QCLOUD_ERR_BUF_TOO_SHORT)
     else case mqtt_init_packet_header SUBSCRIBE QOS1 dup 0 of
       Inl rc \<Rightarrow> Some (Inl rc)
     | Inr header \<Rightarrow> do {
         (buf, ptr) \<leftarrow> mqtt_write_char buf 0 header;
         (buf, n) \<leftarrow> mqtt_write_packet_rem_len buf ptr rem_len;
         (buf, ptr) \<leftarrow> mqtt_write_uint_16 buf (ptr + n) packet_id;
         (buf, ptr) \<leftarrow> subscribe_payload_loop count 0 tf requestedQoSs buf ptr;
         Some (Inr (buf, ptr))
       }
   }"

fun unsubscribe_rem_len_loop :: "nat \<Rightarrow> nat \<Rightarrow> cstr \<Rightarrow> nat \<Rightarrow> nat option" where
  "unsubscribe_rem_len_loop 0 i tf len = Some len"
| "unsubscribe_rem_len_loop (Suc k) i tf len = do {
     f \<leftarrow> filter_at tf i;
     unsubscribe_rem_len_loop k (i + 1) tf (len + (2 + length f))
   }"

definition get_unsubscribe_packet_rem_len :: "nat \<Rightarrow> cstr \<Rightarrow> u32 option" where
  "get_unsubscribe_packet_rem_len count tf =
     map_option of_nat (unsubscribe_rem_len_loop count 0 tf 2)"

fun unsubscribe_payload_loop :: "nat \<Rightarrow> nat \<Rightarrow> cstr \<Rightarrow> byte list \<Rightarrow> nat \<Rightarrow> (byte list \<times> nat) option" where
  "unsubscribe_payload_loop 0 i tf buf ptr = Some (buf, ptr)"
| "unsubscribe_payload_loop (Suc k) i tf buf ptr = do {
     f \<leftarrow> filter_at tf i;
     (buf, ptr) \<leftarrow> mqtt_write_utf8_string buf ptr f;
     unsubscribe_payload_loop k (i + 1) tf buf ptr
   }"

definition serialize_unsubscribe_packet ::
  "byte list \<Rightarrow> nat \<Rightarrow> byte \<Rightarrow> u16 \<Rightarrow> nat \<Rightarrow> cstr \<Rightarrow> (byte list \<times> nat) cres option" where
  "serialize_unsubscribe_packet buf buf_len dup packet_id count tf = do {
     rem_len \<leftarrow> get_unsubscribe_packet_rem_len count tf;
     if get_mqtt_packet_len (unat rem_len) > buf_len then Some (Inl QCLOUD_ERR_BUF_TOO_SHORT)
     else case mqtt_init_packet_header UNSUBSCRIBE QOS1 dup 0 of
       Inl rc \<Rightarrow> Some (Inl rc)
     | Inr header \<Rightarrow> do {
         (buf, ptr) \<leftarrow> mqtt_write_char buf 0 header;
         (buf, n) \<leftarrow> mqtt_write_packet_rem_len buf ptr rem_len;
         (buf, ptr) \<leftarrow> mqtt_write_uint_16 buf (ptr + n) packet_id;
         (buf, ptr) \<leftarrow> unsubscribe_payload_loop count 0 tf buf ptr;
         Some (Inr (buf, ptr))
       }
   }"

end
