(* ===== verification/Mqtt_Packets.thy ===== *)
theory Mqtt_Packets
  imports Mqtt_Codec
begin

text \<open>
  The packet formats as byte lists, and what the codec of \<^verbatim>\<open>Mqtt_Codec\<close> does with them: each
  serializer writes exactly the packet of its format and stays inside the buffer, each deserializer
  reads the fields back, and no deserializer reads outside a buffer of sufficient size.
\<close>

section \<open>Remaining length\<close>

text \<open>The MQTT encoding of a length, least significant seven bits first.\<close>

fun rem_len_bytes :: "nat \<Rightarrow> byte list" where
  "rem_len_bytes n =
     (if n < 128 then [of_nat n] else of_nat (n mod 128 + 128) # rem_len_bytes (n div 128))"

declare rem_len_bytes.simps [simp del]

lemma ucast_mod_128: "(ucast (w mod 128 :: u32) :: byte) = of_nat (unat w mod 128)"
proof -
  have *: "unat w mod 128 = unat (w mod 128)"
    by (simp add: unat_mod_word)
  show ?thesis unfolding * by simp
qed

lemma mqtt_write_packet_rem_len_eq:
  "mqtt_write_packet_rem_len buf ptr w =
     map_option (\<lambda>b. (b, length (rem_len_bytes (unat w)))) (wr_bytes buf ptr (rem_len_bytes (unat w)))"
proof (induction buf ptr w rule: mqtt_write_packet_rem_len.induct)
  case (1 buf ptr len)
  show ?case
  proof (cases "unat len < 128")
    case True
    then have "\<not> 0 < len div 128"
      by (simp add: word_less_nat_alt unat_div_word)
    then show ?thesis
      using True
      by (subst mqtt_write_packet_rem_len.simps)
        (cases "wr buf ptr (of_nat (unat len))";
          simp add: ucast_mod_128 wr_as_wr_bytes rem_len_bytes.simps [of "unat len"])
  next
    case False
    then have pos: "0 < len div 128" and div: "unat (len div 128) = unat len div 128"
      by (simp_all add: word_less_nat_alt unat_div_word)
    let ?v = "of_nat (unat len mod 128 + 128) :: byte"
    have enc: "(ucast (len mod 128) OR 128 :: byte) = ?v"
      by (simp only: ucast_mod_128 byte_7bit_or mod_less_divisor zero_less_numeral)
    have R: "rem_len_bytes (unat len) = ?v # rem_len_bytes (unat len div 128)"
      using False by (subst rem_len_bytes.simps) simp
    show ?thesis
    proof (cases "wr buf ptr ?v")
      case None
      then have "wr_bytes buf ptr (rem_len_bytes (unat len)) = None"
        unfolding R bind_wr_bytes_cons [symmetric] by simp
      with None pos enc show ?thesis
        by (subst mqtt_write_packet_rem_len.simps) simp
    next
      case (Some b)
      then have W: "wr_bytes buf ptr (?v # rem_len_bytes (unat len div 128)) =
          wr_bytes b (ptr + 1) (rem_len_bytes (unat len div 128))"
        unfolding bind_wr_bytes_cons [symmetric] by simp
      have IH: "mqtt_write_packet_rem_len b (ptr + 1) (len div 128) =
          map_option (\<lambda>b. (b, length (rem_len_bytes (unat len div 128))))
            (wr_bytes b (ptr + 1) (rem_len_bytes (unat len div 128)))"
        using 1 [OF refl refl refl _ pos] Some enc pos div by simp
      show ?thesis
        using Some pos enc
        by (subst mqtt_write_packet_rem_len.simps)
          (simp add: R W [simplified] IH [simplified] option.map_comp comp_def split: bind_split)
    qed
  qed
qed

lemma length_rem_len_bytes:
  "length (rem_len_bytes n) =
     (if n < 128 then 1 else if n < 16384 then 2 else if n < 2097152 then 3
      else if n < 268435456 then 4 else length (rem_len_bytes n))"
  by (auto simp: rem_len_bytes.simps [of n] rem_len_bytes.simps [of "n div 128"]
      rem_len_bytes.simps [of "n div 128 div 128"] rem_len_bytes.simps [of "n div 128 div 128 div 128"])

lemma rem_len_bytes_pos: "0 < length (rem_len_bytes n)"
  by (subst rem_len_bytes.simps) simp

lemma length_rem_len_bytes_le_4: "n < 268435456 \<Longrightarrow> length (rem_len_bytes n) \<le> 4"
  by (subst length_rem_len_bytes) auto

lemma get_mqtt_packet_len_ge:
  "n < 268435456 \<Longrightarrow> 1 + length (rem_len_bytes n) + n \<le> get_mqtt_packet_len n"
  by (subst length_rem_len_bytes) (auto simp: get_mqtt_packet_len_def Let_def)

lemma get_mqtt_packet_len_le:
  "n < 268435456 \<Longrightarrow> get_mqtt_packet_len n \<le> 1 + length (rem_len_bytes n) + n + 1"
  by (subst length_rem_len_bytes) (auto simp: get_mqtt_packet_len_def Let_def)

lemma decode_rem_len_bytes:
  "0 < k \<Longrightarrow> n < 128 ^ k \<Longrightarrow> drop p buf = rem_len_bytes n @ ys \<Longrightarrow>
     decode_packet_rem_len_from_buf_read k buf p m v l =
       Some (Inr (v + of_nat n * m, l + of_nat (length (rem_len_bytes n))))"
proof (induction k arbitrary: n p m v l)
  case 0
  then show ?case by simp
next
  case (Suc k)
  show ?case
  proof (cases "n < 128")
    case True
    with Suc.prems have "rd buf p = Some (of_nat n)"
      by (simp add: rem_len_bytes.simps rd_def)
        (metis append_Cons drop_eq_Nil hd_drop_conv_nth linorder_not_less list.distinct(1) list.sel(1) nth_via_drop)
    with True show ?thesis
      by (simp add: byte_7bit_last rem_len_bytes.simps [of n] ucast_of_nat_byte)
  next
    case False
    let ?b = "of_nat (n mod 128 + 128) :: byte"
    have D: "drop p buf = ?b # rem_len_bytes (n div 128) @ ys"
      using Suc.prems(3) False by (simp add: rem_len_bytes.simps [of n])
    then have R: "rd buf p = Some ?b"
      by (simp add: rd_def) (metis drop_eq_Nil linorder_not_less list.distinct(1) nth_via_drop)
    have D': "drop (Suc p) buf = rem_len_bytes (n div 128) @ ys"
      using D by (metis drop_Suc list.sel(3) tl_drop)
    have lt: "n div 128 < 128 ^ k"
      using Suc.prems(2) by (simp add: div_less_iff_less_mult mult.commute)
    have k: "0 < k"
      using False lt by (cases k) auto
    have b: "?b AND 128 \<noteq> 0" "ucast (?b AND 127) = (of_nat (n mod 128) :: u32)"
      using byte_7bit_more [of "n mod 128"] by (simp_all add: ucast_of_nat_byte)
    have val: "(of_nat n :: u32) = of_nat (n mod 128) + of_nat (n div 128) * 128"
      by (metis mod_mult_div_eq mult.commute of_nat_add of_nat_mult of_nat_numeral)
    show ?thesis
      unfolding decode_packet_rem_len_from_buf_read.simps R Let_def
      using b Suc.IH [OF k lt D', of "m * 128"] False
      by (simp add: rem_len_bytes.simps [of n] val algebra_simps)
  qed
qed

section \<open>Symbolic execution of reads and writes\<close>

definition utf8_bytes :: "cstr \<Rightarrow> byte list" where
  "utf8_bytes s = u16_bytes (of_nat (length s)) @ s"

lemma length_utf8_bytes [simp]: "length (utf8_bytes s) = 2 + length s"
  by (simp add: utf8_bytes_def)

lemma mqtt_write_char_put:
  "p = length xs \<Longrightarrow> p < length buf \<Longrightarrow>
     mqtt_write_char (put buf xs) p y = Some (put buf (xs @ [y]), p + 1)"
  by (simp add: mqtt_write_char_def wr_put)

lemma mqtt_write_uint_16_put:
  "p = length xs \<Longrightarrow> p + 2 \<le> length buf \<Longrightarrow>
     mqtt_write_uint_16 (put buf xs) p y = Some (put buf (xs @ u16_bytes y), p + 2)"
  by (simp add: mqtt_write_uint_16_def wr_put u16_bytes_def)

lemma mqtt_write_utf8_string_put:
  "p = length xs \<Longrightarrow> p + 2 + length s \<le> length buf \<Longrightarrow>
     mqtt_write_utf8_string (put buf xs) p s = Some (put buf (xs @ utf8_bytes s), p + 2 + length s)"
  by (simp add: mqtt_write_utf8_string_def mqtt_write_uint_16_put wr_bytes_put utf8_bytes_def Let_def)

lemma mqtt_write_packet_rem_len_put:
  "p = length xs \<Longrightarrow> p + length (rem_len_bytes (unat w)) \<le> length buf \<Longrightarrow>
     mqtt_write_packet_rem_len (put buf xs) p w =
       Some (put buf (xs @ rem_len_bytes (unat w)), length (rem_len_bytes (unat w)))"
  by (simp add: mqtt_write_packet_rem_len_eq wr_bytes_put)

lemmas put_simps = mqtt_write_char_put mqtt_write_uint_16_put mqtt_write_utf8_string_put
  mqtt_write_packet_rem_len_put wr_bytes_put

lemma read_char_drop: "drop p buf = x # t \<Longrightarrow> mqtt_read_char buf p = Some (x, p + 1)"
  by (simp add: mqtt_read_char_def rd_drop)

lemma read_uint16_drop:
  "drop p buf = u16_bytes y @ t \<Longrightarrow> mqtt_read_uint16_t buf p = Some (y, p + 2)"
proof -
  assume D: "drop p buf = u16_bytes y @ t"
  then have "drop p buf = ucast (y div 256) # ucast (y mod 256) # t"
    by (simp add: u16_bytes_def)
  then have "rd buf p = Some (ucast (y div 256))" and "rd buf (p + 1) = Some (ucast (y mod 256))"
    by (auto intro!: rd_drop [where t = t] rd_drop simp: drop_Suc dest: arg_cong [of _ _ tl] simp flip: tl_drop)
  then show ?thesis
    by (simp add: mqtt_read_uint16_t_def u16_bytes_join)
qed

lemma read_rem_len_drop:
  "n < 268435456 \<Longrightarrow> drop p buf = rem_len_bytes n @ t \<Longrightarrow>
     mqtt_read_packet_rem_len_form_buf buf p =
       Some (Inr (of_nat n, of_nat (length (rem_len_bytes n))))"
  unfolding mqtt_read_packet_rem_len_form_buf_def MAX_NO_OF_REMAINING_LENGTH_BYTES_def
  by (subst decode_rem_len_bytes [where ys = t and n = n]) auto

lemma unat_of_nat_small: "n < 268435456 \<Longrightarrow> unat (of_nat n :: u32) = n"
  by (simp add: unat_of_nat)

lemma unat_length_rem_len_bytes:
  "n < 268435456 \<Longrightarrow> unat (of_nat (length (rem_len_bytes n)) :: u32) = length (rem_len_bytes n)"
  using length_rem_len_bytes_le_4 [of n] by (intro unat_of_nat_small) auto

section \<open>The fixed header\<close>

lemma qos_le_2: "(q :: byte) \<le> 2 \<longleftrightarrow> q = 0 \<or> q = 1 \<or> q = 2"
  by (auto simp: word_le_nat_alt word_unat_eq_iff)

lemma header_dup_bits: "push_bit 3 d AND 8 = push_bit 3 (d AND 1 :: byte)"
  by (simp add: push_bit_and)

definition header_bits :: "byte \<Rightarrow> byte \<Rightarrow> byte \<Rightarrow> byte \<Rightarrow> byte" where
  "header_bits type qos dup retained =
     (push_bit 4 type AND 0xF0) OR push_bit 3 dup OR (push_bit 1 qos AND 6) OR retained"

lemma header_bits_fields:
  assumes "type \<in> set [1, 2, 3, 4, 5, 6, 7, 8, 9, 10, 11, 12, 13, 14]" and "qos \<in> set [0, 1, 2]"
    and "dup \<in> set [0, 1]" and "retained \<in> set [0, 1]"
  shows "header_type (header_bits type qos dup retained) = type \<and>
    header_dup (header_bits type qos dup retained) = dup \<and>
    header_qos (header_bits type qos dup retained) = qos \<and>
    header_retained (header_bits type qos dup retained) = retained"
proof -
  have "\<forall>t \<in> set [1, 2, 3, 4, 5, 6, 7, 8, 9, 10, 11, 12, 13, 14]. \<forall>q \<in> set [0, 1, 2].
    \<forall>d \<in> set [0, 1]. \<forall>r \<in> set [0, 1].
      header_type (header_bits t q d r) = t \<and> header_dup (header_bits t q d r) = d \<and>
      header_qos (header_bits t q d r) = q \<and> header_retained (header_bits t q d r) = r"
    by code_simp
  with assms show ?thesis by blast
qed

lemma init_packet_header_fields:
  assumes t: "t \<noteq> RESERVED"
  obtains h where "mqtt_init_packet_header t qos dup retained = Inr h"
    and "header_type h = MessageTypes_val t" and "header_dup h = dup AND 1"
    and "header_qos h = (if qos \<le> 2 then qos else 0)" and "header_retained h = retained AND 1"
proof -
  let ?q = "if qos \<le> 2 then qos else 0"
  let ?h = "header_bits (MessageTypes_val t) ?q (dup AND 1) (retained AND 1)"
  have t': "init_header_type t = Some (MessageTypes_val t)"
    "MessageTypes_val t \<in> set [1, 2, 3, 4, 5, 6, 7, 8, 9, 10, 11, 12, 13, 14]"
    using t by (cases t; simp)+
  have q: "?q = (if qos = 0 then 0 else if qos = 1 then 1 else if qos = 2 then 2 else 0)"
    "?q \<in> set [0, 1, 2]"
    by (auto simp: qos_le_2)
  have d: "dup AND 1 \<in> set [0, 1]" "retained AND 1 \<in> set [0, 1]"
    using byte_and_1 by auto
  have h: "mqtt_init_packet_header t qos dup retained = Inr ?h"
    unfolding mqtt_init_packet_header_def t'(1) header_bits_def q(1)
    by (simp only: option.case Let_def header_dup_bits)
  show thesis
    using that [OF h] header_bits_fields [OF t'(2) q(2) d] by blast
qed

section \<open>PUBLISH\<close>

definition publish_packet :: "byte \<Rightarrow> QoS \<Rightarrow> u16 \<Rightarrow> cstr \<Rightarrow> byte list \<Rightarrow> byte list" where
  "publish_packet header qos packet_id topic payload =
     (let body = utf8_bytes topic @ (if qos > 0 then u16_bytes packet_id else []) @ payload
      in header # rem_len_bytes (length body) @ body)"

lemma unat_get_publish_packet_len:
  "length topic + length payload + 4 < 2 ^ 32 \<Longrightarrow>
     unat (get_publish_packet_len qos topic (of_nat (length payload))) =
       length (utf8_bytes topic @ (if qos > 0 then u16_bytes packet_id else []) @ payload)"
  by (auto simp: get_publish_packet_len_def Let_def unsigned_ucast_eq unat_of_nat 
      unat_word_ariths unsigned_take_bit_eq take_bit_nat_eq_self)

lemma serialize_publish_packet_ok:
  assumes len: "get_mqtt_packet_len (length (utf8_bytes topic @ (if qos > 0 then u16_bytes packet_id else []) @ payload)) \<le> buf_len"
    and buf: "buf_len \<le> length buf" and small: "length topic + length payload + 4 < 268435456"
  shows "\<exists>h. mqtt_init_packet_header PUBLISH qos dup retained = Inr h \<and>
    serialize_publish_packet buf buf_len dup qos retained packet_id topic (Some payload) (of_nat (length payload)) =
    Some (Inr (put buf (publish_packet h qos packet_id topic payload),
       length (publish_packet h qos packet_id topic payload)))"
proof -
  obtain h where h: "mqtt_init_packet_header PUBLISH qos dup retained = Inr h"
    by (simp add: mqtt_init_packet_header_def)
  let ?body = "utf8_bytes topic @ (if qos > 0 then u16_bytes packet_id else []) @ payload"
  have rem: "unat (get_publish_packet_len qos topic (of_nat (length payload))) = length ?body"
    using small by (intro unat_get_publish_packet_len) simp
  have pl: "unat (of_nat (length payload) :: size_t) = length payload"
    using small by (simp add: unat_of_nat)
  have fits: "1 + length (rem_len_bytes (length ?body)) + length ?body \<le> length buf"
    using get_mqtt_packet_len_ge [of "length ?body"] small len buf by (auto split: if_splits)
  have ne: "buf \<noteq> []"
    using fits by auto
  show ?thesis
    unfolding serialize_publish_packet_def
    using fits len h ne
    by (intro exI [of _ h] conjI h, subst put_Nil [symmetric, of buf])
      (simp add: Let_def rem pl publish_packet_def put_simps rd_bytes_0_length split: if_splits)
qed

lemma deserialize_publish_packet_ok:
  assumes h: "header_type h = MessageTypes_val PUBLISH" and q: "header_qos h = qos"
    and topic: "length topic \<le> QCLOUD_IOT_MQTT_RX_BUF_LEN"
    and small: "length topic + length payload + 4 < 268435456"
    and buf: "buf = publish_packet h qos packet_id topic payload @ rest" "4 \<le> buf_len"
  defines "body \<equiv> utf8_bytes topic @ (if qos > 0 then u16_bytes packet_id else []) @ payload"
  defines "pos \<equiv> 1 + length (rem_len_bytes (length body))"
  shows "deserialize_publish_packet buf buf_len =
    Some (Inr \<lparr>pub_dup = header_dup h, pub_qos = qos, pub_retained = header_retained h,
      pub_id = (if qos > 0 then Some packet_id else None), pub_topic = pos + 2,
      pub_topic_len = of_nat (length topic),
      pub_payload = pos + length body - length payload,
      pub_payload_len = of_nat (length payload)\<rparr>)"
proof -
  let ?n = "length body"
  have B: "buf = h # rem_len_bytes ?n @ body @ rest"
    by (simp add: buf(1) publish_packet_def body_def Let_def)
  have n: "?n < 268435456"
    using small by (auto simp: body_def)
  have d1: "drop 1 buf = rem_len_bytes ?n @ body @ rest"
    by (simp add: B)
  have dpos: "drop pos buf = u16_bytes (of_nat (length topic)) @ topic @ (if qos > 0 then u16_bytes packet_id else []) @ payload @ rest"
    by (simp add: B pos_def body_def utf8_bytes_def)
  have dpk: "qos > 0 \<Longrightarrow> drop (pos + 2 + length topic) buf = u16_bytes packet_id @ payload @ rest"
    by (simp add: B pos_def body_def utf8_bytes_def)
  have tl: "unat (of_nat (length topic) :: u16) = length topic"
    using topic by (simp add: unat_of_nat)
  have rdstr: "read_string_with_len buf pos (pos + ?n) = Some (Inr (pos + 2, of_nat (length topic), pos + 2 + length topic))"
    using topic by (simp add: read_string_with_len_def read_uint16_drop [OF dpos] tl body_def)
  have d0: "drop 0 buf = h # rem_len_bytes ?n @ body @ rest"
    by (simp add: B)
  have u: "unat (of_nat (length (rem_len_bytes ?n)) :: u32) = length (rem_len_bytes ?n)"
    "unat (of_nat ?n :: u32) = ?n"
    using n by (simp_all add: unat_of_nat_small unat_length_rem_len_bytes)
  have posu: "1 + unat (of_nat (length (rem_len_bytes ?n)) :: u32) = pos"
    by (simp add: u pos_def)
  have "\<not> 4 > buf_len" "\<not> int (pos + ?n) - int (pos + 2 + length topic) < 0"
    using buf(2) by (auto simp: body_def)
  then have D: "deserialize_publish_packet buf buf_len = do {
      (packet_id, curdata) \<leftarrow>
        (if 0 \<noteq> qos then do {
           (packet_id, curdata) \<leftarrow> mqtt_read_uint16_t buf (pos + 2 + length topic);
           Some (Some packet_id, curdata)
         } else Some (None, pos + 2 + length topic));
      Some (Inr \<lparr>pub_dup = header_dup h, pub_qos = qos, pub_retained = header_retained h,
        pub_id = packet_id, pub_topic = pos + 2, pub_topic_len = of_nat (length topic),
        pub_payload = curdata, pub_payload_len = word_of_int (int (pos + ?n) - int curdata)\<rparr>)
    }"
    unfolding deserialize_publish_packet_def read_char_drop [OF d0]
    by (simp only: Let_def bind.simps prod.case sum.case read_rem_len_drop [OF n d1] posu u(2)
        add_0 rdstr h q if_False simp_thms)
  show ?thesis
  proof (cases "qos = 0")
    case True
    then show ?thesis
      unfolding D by (simp add: body_def)
  next
    case False
    then have "qos > 0"
      by (simp add: word_greater_zero_iff)
    then show ?thesis
      unfolding D using read_uint16_drop [OF dpk] False
      by (simp add: body_def)
  qed
qed


section \<open>Packets with a packet id\<close>

text \<open>A packet: header byte, remaining length, body.\<close>

definition mqtt_packet :: "byte \<Rightarrow> byte list \<Rightarrow> byte list" where
  "mqtt_packet header body = header # rem_len_bytes (length body) @ body"

lemma length_mqtt_packet:
  "length (mqtt_packet h body) = 1 + length (rem_len_bytes (length body)) + length body"
  by (simp add: mqtt_packet_def)

lemma rem_len_bytes_small: "n < 128 \<Longrightarrow> rem_len_bytes n = [of_nat n]"
  by (simp add: rem_len_bytes.simps [of n])

lemma serialize_packet_with_zero_payload_ok:
  assumes "4 \<le> buf_len" and "buf_len \<le> length buf" and "mqtt_init_packet_header t 0 0 0 = Inr h"
  shows "serialize_packet_with_zero_payload buf buf_len t = Some (Inr (put buf (mqtt_packet h []), 2))"
proof -
  have len: "0 < length buf" "2 \<le> length buf"
    using assms(1,2) by linarith+
  have w: "mqtt_write_char buf 0 h = Some (put buf [h], 1)"
    using mqtt_write_char_put [of 0 "[]" buf h] len by (simp add: put_Nil)
  have r: "mqtt_write_packet_rem_len (put buf [h]) 1 0 = Some (put buf [h, 0], 1)"
    using mqtt_write_packet_rem_len_put [of 1 "[h]" 0 buf] len by (simp add: rem_len_bytes_small)
  show ?thesis
    using assms(1) by (simp add: serialize_packet_with_zero_payload_def assms(3) w r
        [simplified] mqtt_packet_def rem_len_bytes_small)
qed

lemma serialize_pub_ack_packet_ok:
  assumes "4 \<le> buf_len" and "buf_len \<le> length buf"
    and "mqtt_init_packet_header t (if t = PUBREL then 1 else 0) dup 0 = Inr h"
  shows "serialize_pub_ack_packet buf buf_len t dup packet_id =
    Some (Inr (put buf (mqtt_packet h (u16_bytes packet_id)), 4))"
proof -
  have len: "0 < length buf" "4 \<le> length buf"
    using assms(1,2) by linarith+
  have w: "mqtt_write_char buf 0 h = Some (put buf [h], 1)"
    using mqtt_write_char_put [of 0 "[]" buf h] len by (simp add: put_Nil)
  have r: "mqtt_write_packet_rem_len (put buf [h]) 1 2 = Some (put buf [h, 2], 1)"
    using mqtt_write_packet_rem_len_put [of 1 "[h]" 2 buf] len by (simp add: rem_len_bytes_small)
  have i: "mqtt_write_uint_16 (put buf [h, 2]) (Suc (Suc 0)) packet_id = Some (put buf ([h, 2] @ u16_bytes packet_id), 4)"
    using mqtt_write_uint_16_put [of "Suc (Suc 0)" "[h, 2]" buf packet_id] len by simp
  show ?thesis
    using assms(1) by (simp add: serialize_pub_ack_packet_def assms(3) eq_commute [of PUBREL] w r [simplified]
        i mqtt_packet_def rem_len_bytes_small Let_def)
qed

lemma deserialize_ack_packet_ok:
  assumes "4 \<le> buf_len" and B: "buf = mqtt_packet h (u16_bytes packet_id) @ rest"
  shows "deserialize_ack_packet buf buf_len = Some (Inr (header_type h, header_dup h, packet_id))"
proof -
  have B': "buf = h # 2 # u16_bytes packet_id @ rest"
    by (simp add: B mqtt_packet_def rem_len_bytes_small)
  have d0: "drop 0 buf = h # 2 # u16_bytes packet_id @ rest"
    and d1: "drop 1 buf = rem_len_bytes 2 @ u16_bytes packet_id @ rest"
    and d2: "drop 2 buf = u16_bytes packet_id @ rest"
    by (simp_all add: B' rem_len_bytes_small)
  show ?thesis
    using assms(1) by (simp add: deserialize_ack_packet_def read_char_drop [OF d0]
        read_rem_len_drop [OF _ d1, simplified] rem_len_bytes_small
        read_uint16_drop [OF d2] numeral_2_eq_2 [symmetric] Let_def)
qed

lemma subscribe_body_len:
  "length tf + 5 < 268435456 \<Longrightarrow>
     get_subscribe_packet_rem_len 1 tf = Some (of_nat (5 + length tf)) \<and>
     unat (of_nat (5 + length tf) :: u32) = 5 + length tf"
  by (simp add: get_subscribe_packet_rem_len_def filter_at_def unat_of_nat_small [of "5 + length tf", simplified])

lemma serialize_subscribe_packet_ok:
  assumes fit: "get_mqtt_packet_len (5 + length tf) \<le> buf_len" and buf: "buf_len \<le> length buf"
    and small: "length tf + 5 < 268435456"
    and h: "mqtt_init_packet_header SUBSCRIBE 1 dup 0 = Inr h"
  shows "serialize_subscribe_packet buf buf_len dup packet_id 1 tf [q] =
    Some (Inr (put buf (mqtt_packet h (u16_bytes packet_id @ utf8_bytes tf @ [q])),
      length (mqtt_packet h (u16_bytes packet_id @ utf8_bytes tf @ [q]))))"
proof -
  let ?L = "length (rem_len_bytes (5 + length tf))"
  have room: "1 + ?L + 5 + length tf \<le> length buf"
    using get_mqtt_packet_len_ge [of "5 + length tf"] small fit buf by linarith
  have ne: "buf \<noteq> []"
    using room by auto
  have bl: "length (u16_bytes packet_id @ utf8_bytes tf @ [q]) = 5 + length tf"
    by simp
  show ?thesis
    unfolding mqtt_packet_def bl
    using fit room ne subscribe_body_len [OF small] small
    by (subst put_Nil [symmetric, of buf])
      (simp add: serialize_subscribe_packet_def h put_simps filter_at_def rd_def del: of_nat_add)
qed

lemma unsubscribe_body_len:
  "length tf + 4 < 268435456 \<Longrightarrow>
     get_unsubscribe_packet_rem_len 1 tf = Some (of_nat (4 + length tf)) \<and>
     unat (of_nat (4 + length tf) :: u32) = 4 + length tf"
  by (simp add: get_unsubscribe_packet_rem_len_def filter_at_def unat_of_nat_small [of "4 + length tf", simplified])

lemma serialize_unsubscribe_packet_ok:
  assumes fit: "get_mqtt_packet_len (4 + length tf) \<le> buf_len" and buf: "buf_len \<le> length buf"
    and small: "length tf + 4 < 268435456"
    and h: "mqtt_init_packet_header UNSUBSCRIBE 1 dup 0 = Inr h"
  shows "serialize_unsubscribe_packet buf buf_len dup packet_id 1 tf =
    Some (Inr (put buf (mqtt_packet h (u16_bytes packet_id @ utf8_bytes tf)),
      length (mqtt_packet h (u16_bytes packet_id @ utf8_bytes tf))))"
proof -
  let ?L = "length (rem_len_bytes (4 + length tf))"
  have room: "1 + ?L + 4 + length tf \<le> length buf"
    using get_mqtt_packet_len_ge [of "4 + length tf"] small fit buf by linarith
  have ne: "buf \<noteq> []"
    using room by auto
  have bl: "length (u16_bytes packet_id @ utf8_bytes tf) = 4 + length tf"
    by simp
  show ?thesis
    unfolding mqtt_packet_def bl
    using fit room ne unsubscribe_body_len [OF small] small
    by (subst put_Nil [symmetric, of buf])
      (simp add: serialize_unsubscribe_packet_def h put_simps filter_at_def del: of_nat_add)
qed

section \<open>Deserializers stay inside the buffer\<close>

lemma decode_rem_len_safe:
  "p + k \<le> length buf \<Longrightarrow> 
     \<exists>r. decode_packet_rem_len_from_buf_read k buf p m v l = Some r"
  by (induction k arbitrary: p m v l) (simp_all add: rd_in_range Let_def)

lemma decode_rem_len_count:
  "decode_packet_rem_len_from_buf_read k buf p m v l = Some (Inr (value, n)) \<Longrightarrow>
     \<exists>j. 1 \<le> j \<and> j \<le> k \<and> n = l + of_nat j \<and> p + j \<le> length buf"
proof (induction k arbitrary: p m v l)
  case 0
  then show ?case by simp
next
  case (Suc k)
  then obtain c where c: "rd buf p = Some c"
    by (auto simp: Let_def bind_Some_iff)
  then have p: "p < length buf"
    by (simp add: rd_Some_iff)
  show ?case
  proof (cases "c AND 128 = 0")
    case True
    with Suc.prems c p show ?thesis
      by (auto simp: Let_def intro: exI [of _ 1])
  next
    case False
    with Suc.prems c have
      "decode_packet_rem_len_from_buf_read k buf (p + 1) (m * 128) (v + ucast (c AND 127) * m) (l + 1)
         = Some (Inr (value, n))"
      by (simp add: Let_def)
    from Suc.IH [OF this] obtain j where "1 \<le> j" "j \<le> k" "n = l + 1 + of_nat j" "p + 1 + j \<le> length buf"
      by blast
    then show ?thesis
      by (intro exI [of _ "j + 1"]) simp
  qed
qed

lemma read_rem_len_safe:
  assumes "p + 4 \<le> length buf"
  obtains (err) rc where "mqtt_read_packet_rem_len_form_buf buf p = Some (Inl rc)"
  | (ok) v n where "mqtt_read_packet_rem_len_form_buf buf p = Some (Inr (v, n))"
      and "1 \<le> unat n" and "unat n \<le> 4"
proof -
  obtain r where r: "mqtt_read_packet_rem_len_form_buf buf p = Some r"
    using decode_rem_len_safe [of p 4 buf 1 0 0] assms
    by (auto simp: mqtt_read_packet_rem_len_form_buf_def MAX_NO_OF_REMAINING_LENGTH_BYTES_def)
  show thesis
  proof (cases r)
    case (Inl rc)
    with r show thesis using err by simp
  next
    case (Inr vn)
    obtain v n where vn: "vn = (v, n)" by (cases vn)
    from r Inr vn decode_rem_len_count [of 4 buf p 1 0 0 v n]
    obtain j where j: "1 \<le> j" "j \<le> 4" "n = of_nat j"
      by (auto simp: mqtt_read_packet_rem_len_form_buf_def MAX_NO_OF_REMAINING_LENGTH_BYTES_def)
    then have "unat n = j"
      by (simp add: unat_of_nat)
    with r Inr vn j show thesis using ok by simp
  qed
qed

lemma read_char_safe: "p < length buf \<Longrightarrow> \<exists>c. mqtt_read_char buf p = Some (c, p + 1)"
  by (simp add: mqtt_read_char_def rd_in_range)

lemma read_uint16_safe: "p + 2 \<le> length buf \<Longrightarrow> \<exists>x. mqtt_read_uint16_t buf p = Some (x, p + 2)"
  by (simp add: mqtt_read_uint16_t_def rd_in_range)

lemma deserialize_ack_packet_safe:
  assumes len: "8 \<le> length buf"
  shows "deserialize_ack_packet buf buf_len \<noteq> None"
proof -
  obtain h where h: "mqtt_read_char buf 0 = Some (h, 1)"
    using read_char_safe [of 0 buf] len by fastforce
  have "1 + 4 \<le> length buf" using len by simp
  then show ?thesis
  proof (cases rule: read_rem_len_safe)
    case (err rc)
    then show ?thesis by (simp add: deserialize_ack_packet_def h Let_def)
  next
    case (ok v n)
    obtain i where i: "mqtt_read_uint16_t buf (1 + unat n) = Some (i, 1 + unat n + 2)"
      using read_uint16_safe [of "1 + unat n" buf] ok len by auto
    obtain a where a: "mqtt_read_char buf (1 + unat n + 2) = Some (a, 1 + unat n + 2 + 1)"
      using read_char_safe [of "1 + unat n + 2" buf] ok len by auto
    show ?thesis
      using ok(1) i a by (simp add: deserialize_ack_packet_def h Let_def)
  qed
qed


lemma suback_read_payload_safe:
  assumes "enddata \<le> length buf" and "max_count < length granted"
  shows "suback_read_payload buf curdata enddata max_count count granted \<noteq> None"
  using assms
proof (induction buf curdata enddata max_count count granted rule: suback_read_payload.induct)
  case (1 buf curdata enddata max_count count granted)
  show ?case
  proof (cases "curdata < enddata \<and> count \<le> max_count")
    case True
    then obtain c where c: "mqtt_read_char buf curdata = Some (c, curdata + 1)"
      using 1 read_char_safe [of curdata buf] by auto
    have w: "wr granted count c = Some (granted[count := c])"
      using True 1 by (simp add: wr_def)
    have "suback_read_payload buf (curdata + 1) enddata max_count (count + 1) (granted[count := c]) \<noteq> None"
      using 1 True c w by simp
    with True c w show ?thesis
      by (subst suback_read_payload.simps) simp
  next
    case False
    then show ?thesis
      by (subst suback_read_payload.simps) auto
  qed
qed

lemma deserialize_suback_packet_safe:
  assumes len: "7 \<le> length buf" and "max_count < length granted"
    and packet: "\<And>v n. mqtt_read_packet_rem_len_form_buf buf 1 = Some (Inr (v, n)) \<Longrightarrow>
      1 + unat n + unat v \<le> length buf"
  shows "deserialize_suback_packet max_count granted buf buf_len \<noteq> None"
proof -
  obtain h where h: "mqtt_read_char buf 0 = Some (h, 1)"
    using read_char_safe [of 0 buf] len by fastforce
  have "1 + 4 \<le> length buf" using len by simp
  then show ?thesis
  proof (cases rule: read_rem_len_safe)
    case (err rc)
    then show ?thesis by (simp add: deserialize_suback_packet_def h Let_def)
  next
    case (ok v n)
    obtain i where i: "mqtt_read_uint16_t buf (1 + unat n) = Some (i, 1 + unat n + 2)"
      using read_uint16_safe [of "1 + unat n" buf] ok len by auto
    have "suback_read_payload buf (1 + unat n + 2) (1 + unat n + unat v) max_count 0 granted \<noteq> None"
      using packet [OF ok(1)] assms(2) by (intro suback_read_payload_safe)
    with ok(1) i show ?thesis
      by (auto simp: deserialize_suback_packet_def h Let_def split: sum.splits)
  qed
qed

lemma read_string_with_len_safe:
  assumes "ptr + 2 \<le> length buf"
  obtains (err) rc where "read_string_with_len buf ptr enddata = Some (Inl rc)"
  | (ok) l where "read_string_with_len buf ptr enddata = Some (Inr (ptr + 2, l, ptr + 2 + unat l))"
      and "ptr + 2 + unat l \<le> enddata"
proof -
  obtain l where l: "mqtt_read_uint16_t buf ptr = Some (l, ptr + 2)"
    using read_uint16_safe [OF assms] by blast
  show thesis
  proof (cases "int enddata - int ptr > 1 \<and> unat l \<le> QCLOUD_IOT_MQTT_RX_BUF_LEN \<and> ptr + 2 + unat l \<le> enddata")
    case True
    then show thesis
      using l by (intro ok [of l]) (simp_all add: read_string_with_len_def)
  next
    case False
    then show thesis
      using l by (intro err [of "QCLOUD_ERR_FAILURE"]) (auto simp: read_string_with_len_def)
  qed
qed

text \<open>
  A PUBLISH packet that lies within the buffer with two bytes to spare is read safely, and topic
  and payload lie within the packet, unless the packet is too short for its packet id.
\<close>

lemma deserialize_publish_packet_safe:
  assumes len: "7 \<le> length buf"
    and packet: "mqtt_read_packet_rem_len_form_buf buf 1 = Some (Inr (v, n))"
      "1 + unat n + unat v + 2 \<le> length buf"
  shows "\<exists>r. deserialize_publish_packet buf buf_len = Some r \<and>
    (\<forall>p. r = Inr p \<longrightarrow>
       pub_topic p = 3 + unat n \<and> 
       pub_payload p = pub_topic p + unat (pub_topic_len p) + (if pub_qos p = 0 then 0 else 2) \<and>
       pub_topic p + unat (pub_topic_len p) \<le> 1 + unat n + unat v \<and>
       pub_payload_len p = word_of_int (int (1 + unat n + unat v) - int (pub_payload p)))"
proof -
  obtain h where h: "mqtt_read_char buf 0 = Some (h, 1)"
    using read_char_safe [of 0 buf] len by fastforce
  have n: "unat n \<le> 4"
    using read_rem_len_safe [of 1 buf] len packet by fastforce
  have "1 + unat n + 2 \<le> length buf"
    using n len by simp
  then show ?thesis
  proof (cases rule: read_string_with_len_safe [where enddata = "1 + unat n + unat v"])
    case (err rc)
    then show ?thesis
      using packet(1) by (simp add: deserialize_publish_packet_def h Let_def)
  next
    case (ok l)
    obtain i where i: "mqtt_read_uint16_t buf (1 + unat n + 2 + unat l) = Some (i, 1 + unat n + 2 + unat l + 2)"
      using read_uint16_safe [of "1 + unat n + 2 + unat l" buf] ok packet(2) by auto
    from ok packet(1) i show ?thesis
      by (simp add: deserialize_publish_packet_def h Let_def)
  qed
qed

section \<open>Properties of the codec\<close>

text \<open>
  C15: The remaining-length encoder stays within the four bytes MQTT allows for every length below
  \<open>2 ^ 28\<close>, and the decoder reads back from the written buffer the same length and the same
  number of bytes.
\<close>

theorem rem_len_roundtrip:
  assumes "n < 268435456" and "ptr + 4 \<le> length buf"
  shows "\<exists>buf' k. mqtt_write_packet_rem_len buf ptr (of_nat n) = Some (buf', k) \<and> 1 \<le> k \<and> k \<le> 4 \<and>
    length buf' = length buf \<and> take ptr buf' = take ptr buf \<and> drop (ptr + k) buf' = drop (ptr + k) buf \<and>
    mqtt_read_packet_rem_len_form_buf buf' ptr = Some (Inr (of_nat n, of_nat k))"
proof -
  let ?k = "length (rem_len_bytes n)"
  let ?b = "take ptr buf @ rem_len_bytes n @ drop (ptr + ?k) buf"
  have k: "1 \<le> ?k" "?k \<le> 4"
    using assms(1) rem_len_bytes_pos [of n] length_rem_len_bytes_le_4 [of n] by linarith+
  have "mqtt_write_packet_rem_len buf ptr (of_nat n) = Some (?b, ?k)"
    using assms k by (simp add: mqtt_write_packet_rem_len_eq unat_of_nat_small wr_bytes_def)
  moreover have "mqtt_read_packet_rem_len_form_buf ?b ptr = Some (Inr (of_nat n, of_nat ?k))"
    using assms by (intro read_rem_len_drop [where t = "drop (ptr + ?k) buf"]) simp_all
  ultimately show ?thesis
    using assms k by (intro exI [of _ ?b] exI [of _ ?k]) simp
qed

theorem rem_len_roundtrip_witness:
  "\<exists>buf' k. mqtt_write_packet_rem_len (replicate 6 0) 1 (of_nat 16384) = Some (buf', k) \<and> 1 \<le> k \<and> k \<le> 4 \<and>
    length buf' = length (replicate 6 (0 :: byte)) \<and> take 1 buf' = take 1 (replicate 6 0) \<and>
    drop (1 + k) buf' = drop (1 + k) (replicate 6 0) \<and>
    mqtt_read_packet_rem_len_form_buf buf' 1 = Some (Inr (of_nat 16384, of_nat k))"
  by (rule rem_len_roundtrip) simp_all

text \<open>
  C14: PUBLISH round trip. Whenever the packet fits the buffer, the serializer succeeds, writes only
  the packet, and the deserializer recovers from it the flags, the packet id of a QoS 1 or 2
  message, the topic and the payload.
\<close>

theorem publish_roundtrip:
  assumes "qos \<le> 2" and "length topic \<le> QCLOUD_IOT_MQTT_RX_BUF_LEN"
    and "length topic + length payload + 4 < 268435456"
    and "get_mqtt_packet_len (2 + length topic + (if qos = 0 then 0 else 2) + length payload) \<le> buf_len"
    and "buf_len \<le> length buf"
  shows "\<exists>buf' len p.
    serialize_publish_packet buf buf_len dup qos retained packet_id topic (Some payload)
      (of_nat (length payload)) = Some (Inr (buf', len)) \<and>
    len \<le> buf_len \<and> length buf' = length buf \<and> drop len buf' = drop len buf \<and>
    deserialize_publish_packet buf' buf_len = Some (Inr p) \<and>
    pub_dup p = dup AND 1 \<and> pub_qos p = qos \<and> pub_retained p = retained AND 1 \<and>
    pub_id p = (if qos = 0 then None else Some packet_id) \<and>
    rd_bytes buf' (pub_topic p) (unat (pub_topic_len p)) = Some topic \<and>
    rd_bytes buf' (pub_payload p) (unat (pub_payload_len p)) = Some payload"
proof -
  obtain h where h: "mqtt_init_packet_header PUBLISH qos dup retained = Inr h"
      "header_type h = MessageTypes_val PUBLISH" "header_dup h = dup AND 1"
      "header_qos h = qos" "header_retained h = retained AND 1"
    using init_packet_header_fields [of PUBLISH qos dup retained] assms(1) by auto
  let ?id = "if qos > 0 then u16_bytes packet_id else []"
  let ?body = "utf8_bytes topic @ ?id @ payload"
  let ?pkt = "publish_packet h qos packet_id topic payload"
  have q: "0 < qos \<longleftrightarrow> qos \<noteq> 0"
    by (simp add: word_greater_zero_iff)
  have len: "get_mqtt_packet_len (length ?body) \<le> buf_len"
    using assms(4) by (simp add: q ac_simps split: if_splits)
  have n: "length ?body < 268435456"
    using assms(3) by auto
  have pkt: "?pkt = h # rem_len_bytes (length ?body) @ ?body" "length ?pkt \<le> buf_len"
    using get_mqtt_packet_len_ge [OF n] len by (simp_all add: publish_packet_def Let_def)
  have ser: "serialize_publish_packet buf buf_len dup qos retained packet_id topic (Some payload)
      (of_nat (length payload)) = Some (Inr (put buf ?pkt, length ?pkt))"
    using serialize_publish_packet_ok [OF len assms(5) assms(3), of dup retained] h(1) by auto
  have b4: "4 \<le> buf_len"
  proof -
    have "2 \<le> length ?body" by simp
    then show ?thesis
      using len rem_len_bytes_pos [of "length ?body"] get_mqtt_packet_len_ge [OF n] by linarith
  qed
  let ?pos = "1 + length (rem_len_bytes (length ?body))"
  let ?p = "\<lparr>pub_dup = header_dup h, pub_qos = qos, pub_retained = header_retained h,
      pub_id = (if qos > 0 then Some packet_id else None), pub_topic = ?pos + 2,
      pub_topic_len = of_nat (length topic), pub_payload = ?pos + length ?body - length payload,
      pub_payload_len = of_nat (length payload)\<rparr>"
  have des: "deserialize_publish_packet (put buf ?pkt) buf_len = Some (Inr ?p)"
    using h(2,4) assms(2,3) put_def b4 by (rule deserialize_publish_packet_ok)
  have t: "unat (of_nat (length topic) :: u16) = length topic"
    "unat (of_nat (length payload) :: size_t) = length payload"
    using assms(2,3) by (simp_all add: unat_of_nat)
  have topic: "rd_bytes (put buf ?pkt) (?pos + 2) (length topic) = Some topic"
    by (simp add: put_def pkt(1) utf8_bytes_def rd_bytes_def)
  have "put buf ?pkt = (h # rem_len_bytes (length ?body) @ utf8_bytes topic @ ?id) @ payload @ drop (length ?pkt) buf"
    by (simp add: put_def pkt(1))
  then have payload: "rd_bytes (put buf ?pkt) (?pos + length ?body - length payload) (length payload) = Some payload"
    using rd_bytes_append [of "h # rem_len_bytes (length ?body) @ utf8_bytes topic @ ?id" "?pos + length ?body - length payload" payload]
    by simp
  show ?thesis
    using ser des pkt(2) assms(5) h(3-5) q topic payload
    by (intro exI [of _ "put buf ?pkt"] exI [of _ "length ?pkt"] exI [of _ ?p])
      (simp add: t, simp add: put_def)
qed


theorem publish_roundtrip_witness:
  "\<exists>buf' len p.
    serialize_publish_packet (replicate 20 0) 20 0 1 0 7 [97, 98] (Some [1, 2, 3])
      (of_nat (length [1, 2, 3 :: byte])) = Some (Inr (buf', len)) \<and>
    len \<le> 20 \<and> length buf' = length (replicate 20 (0 :: byte)) \<and> drop len buf' = drop len (replicate 20 0) \<and>
    deserialize_publish_packet buf' 20 = Some (Inr p) \<and>
    pub_dup p = 0 AND 1 \<and> pub_qos p = 1 \<and> pub_retained p = 0 AND 1 \<and>
    pub_id p = (if (1 :: byte) = 0 then None else Some 7) \<and>
    rd_bytes buf' (pub_topic p) (unat (pub_topic_len p)) = Some [97, 98] \<and>
    rd_bytes buf' (pub_payload p) (unat (pub_payload_len p)) = Some [1, 2, 3]"
  by (rule publish_roundtrip) (simp_all add: get_mqtt_packet_len_def Let_def word_le_nat_alt)

text \<open>
  When the packet does not fit the length it is given, the PUBLISH serializer returns
  \<^verbatim>\<open>QCLOUD_ERR_BUF_TOO_SHORT\<close> and writes nothing; in every case it stays inside a buffer of
  that length.
\<close>

theorem publish_serializer_in_bounds:
  assumes "buf_len \<le> length buf" and "length topic + length payload + 4 < 268435456"
  shows "case serialize_publish_packet buf buf_len dup qos retained packet_id topic (Some payload)
        (of_nat (length payload)) of
      None \<Rightarrow> False
    | Some (Inl rc) \<Rightarrow> rc = QCLOUD_ERR_BUF_TOO_SHORT \<and>
        buf_len < get_mqtt_packet_len (2 + length topic + (if qos = 0 then 0 else 2) + length payload)
    | Some (Inr (buf', len)) \<Rightarrow> len \<le> buf_len \<and> length buf' = length buf \<and> drop len buf' = drop len buf"
proof -
  let ?body = "utf8_bytes topic @ (if qos > 0 then u16_bytes packet_id else []) @ payload"
  have q: "0 < qos \<longleftrightarrow> qos \<noteq> 0"
    by (simp add: word_greater_zero_iff)
  have body: "length ?body = 2 + length topic + (if qos = 0 then 0 else 2) + length payload"
    by (simp add: q)
  have n: "length ?body < 268435456"
    using assms(2) by auto
  have rem: "unat (get_publish_packet_len qos topic (of_nat (length payload))) = length ?body"
    using assms(2) by (intro unat_get_publish_packet_len) simp
  show ?thesis
  proof (cases "get_mqtt_packet_len (length ?body) \<le> buf_len")
    case True
    obtain h where S: "serialize_publish_packet buf buf_len dup qos retained packet_id topic (Some payload)
        (of_nat (length payload)) = Some (Inr (put buf (publish_packet h qos packet_id topic payload),
          length (publish_packet h qos packet_id topic payload)))"
      using serialize_publish_packet_ok [OF True assms, of dup retained] by blast
    have "length (publish_packet h qos packet_id topic payload) \<le> buf_len"
      using get_mqtt_packet_len_ge [OF n] True by (simp add: publish_packet_def Let_def)
    with assms(1) show ?thesis
      unfolding S by (simp add: put_def)
  next
    case False
    then have "serialize_publish_packet buf buf_len dup qos retained packet_id topic (Some payload)
        (of_nat (length payload)) = Some (Inl QCLOUD_ERR_BUF_TOO_SHORT)"
      unfolding serialize_publish_packet_def Let_def rem by simp
    with False show ?thesis
      unfolding body by simp
  qed
qed

theorem publish_serializer_in_bounds_witness:
  "case serialize_publish_packet [0, 0, 0] 3 0 1 0 7 [97, 98] (Some [1, 2, 3])
        (of_nat (length [1, 2, 3 :: byte])) of
      None \<Rightarrow> False
    | Some (Inl rc) \<Rightarrow> rc = QCLOUD_ERR_BUF_TOO_SHORT \<and>
        3 < get_mqtt_packet_len (2 + length [97, 98 :: byte] + (if (1 :: byte) = 0 then 0 else 2) + length [1, 2, 3 :: byte])
    | Some (Inr (buf', len)) \<Rightarrow> len \<le> 3 \<and> length buf' = length [0, 0, 0 :: byte] \<and> drop len buf' = drop len [0, 0, 0]"
  by (rule publish_serializer_in_bounds) simp_all

text \<open>
  An acknowledgement (PUBACK, PUBREC, PUBREL or PUBCOMP) the client serializes is deserialized to
  its type, DUP flag and packet id.
\<close>

theorem pub_ack_roundtrip:
  assumes "t \<noteq> RESERVED" and "4 \<le> buf_len" and "buf_len \<le> length buf"
  shows "\<exists>buf'. serialize_pub_ack_packet buf buf_len t dup packet_id = Some (Inr (buf', 4)) \<and>
    length buf' = length buf \<and> drop 4 buf' = drop 4 buf \<and>
    deserialize_ack_packet buf' buf_len = Some (Inr (MessageTypes_val t, dup AND 1, packet_id))"
proof -
  obtain h where h: "mqtt_init_packet_header t (if t = PUBREL then 1 else 0) dup 0 = Inr h"
      "header_type h = MessageTypes_val t" "header_dup h = dup AND 1"
    using init_packet_header_fields [OF assms(1)] by metis
  let ?pkt = "mqtt_packet h (u16_bytes packet_id)"
  have "length ?pkt = 4"
    by (simp add: length_mqtt_packet rem_len_bytes_small)
  moreover have "deserialize_ack_packet (put buf ?pkt) buf_len = Some (Inr (header_type h, header_dup h, packet_id))"
    using assms(2) put_def by (rule deserialize_ack_packet_ok)
  ultimately show ?thesis
    using serialize_pub_ack_packet_ok [OF assms(2,3) h(1)] h(2,3) assms(2,3)
    by (intro exI [of _ "put buf ?pkt"]) (simp, simp add: put_def)
qed

theorem pub_ack_roundtrip_witness:
  "\<exists>buf'. serialize_pub_ack_packet (replicate 8 9) 8 PUBREL 1 300 = Some (Inr (buf', 4)) \<and>
    length buf' = length (replicate 8 (9 :: byte)) \<and> drop 4 buf' = drop 4 (replicate 8 9) \<and>
    deserialize_ack_packet buf' 8 = Some (Inr (MessageTypes_val PUBREL, 1 AND 1, 300))"
  by (rule pub_ack_roundtrip) simp_all

text \<open>
  C16: Reading a received packet never leaves the receive buffer, whatever bytes the server sent: for
  acknowledgements, UNSUBACK and SUBACK (with the one-entry request and the three-entry array the
  client uses), provided the packet lies within the buffer as the packet reader ensures.
\<close>

theorem ack_deserializers_in_bounds:
  assumes "8 \<le> length buf" and "length granted = 3"
    and "\<And>v n. mqtt_read_packet_rem_len_form_buf buf 1 = Some (Inr (v, n)) \<Longrightarrow>
      1 + unat n + unat v \<le> length buf"
  shows "deserialize_ack_packet buf buf_len \<noteq> None \<and> deserialize_unsuback_packet buf buf_len \<noteq> None \<and>
    deserialize_suback_packet 1 granted buf buf_len \<noteq> None"
proof -
  have "deserialize_ack_packet buf buf_len \<noteq> None"
    using assms(1) by (rule deserialize_ack_packet_safe)
  moreover from this have "deserialize_unsuback_packet buf buf_len \<noteq> None"
    by (auto simp: deserialize_unsuback_packet_def split: sum.splits)
  moreover have "deserialize_suback_packet 1 granted buf buf_len \<noteq> None"
    using assms by (intro deserialize_suback_packet_safe) auto
  ultimately show ?thesis by blast
qed

theorem ack_deserializers_in_bounds_witness:
  "deserialize_ack_packet [0x90, 4, 0, 1, 0, 0x80, 0, 0] 8 \<noteq> None \<and>
   deserialize_unsuback_packet [0x90, 4, 0, 1, 0, 0x80, 0, 0] 8 \<noteq> None \<and>
   deserialize_suback_packet 1 [0, 0, 0] [0x90, 4, 0, 1, 0, 0x80, 0, 0] 8 \<noteq> None"
proof (rule ack_deserializers_in_bounds)
  fix v n
  have "mqtt_read_packet_rem_len_form_buf [0x90, 4, 0, 1, 0, 0x80, 0, 0] 1 = Some (Inr (4, 1))"
    by code_simp
  moreover assume "mqtt_read_packet_rem_len_form_buf [0x90, 4, 0, 1, 0, 0x80, 0, 0] 1 = Some (Inr (v, n))"
  ultimately show "1 + unat n + unat v \<le> length [0x90, 4, 0, 1, 0, 0x80, 0, 0 :: byte]"
    by simp
qed simp_all

text \<open>
  C18: A PUBLISH packet of QoS 1 or 2 whose remaining length leaves no room for the packet id is
  accepted: the two bytes after the packet are taken for the id, and the payload length wraps around
  to \<open>2 ^ 64 - 2\<close>.
\<close>

theorem publish_missing_packet_id:
  assumes "header_type h = MessageTypes_val PUBLISH" and "header_qos h \<noteq> 0"
    and "length topic \<le> 125" and "4 \<le> buf_len"
    and "buf = mqtt_packet h (utf8_bytes topic) @ u16_bytes x @ rest"
  shows "\<exists>p. deserialize_publish_packet buf buf_len = Some (Inr p) \<and> pub_id p = Some x \<and>
    pub_payload p = length (mqtt_packet h (utf8_bytes topic)) + 2 \<and> unat (pub_payload_len p) = 2 ^ 64 - 2"
proof -
  let ?n = "2 + length topic"
  have B: "buf = h # rem_len_bytes ?n @ utf8_bytes topic @ u16_bytes x @ rest"
    by (simp add: assms(5) mqtt_packet_def)
  have r: "length (rem_len_bytes ?n) = 1"
    using assms(3) by (simp add: rem_len_bytes_small)
  have d0: "drop 0 buf = h # rem_len_bytes ?n @ utf8_bytes topic @ u16_bytes x @ rest"
    and d1: "drop 1 buf = rem_len_bytes ?n @ utf8_bytes topic @ u16_bytes x @ rest"
    and d2: "drop 2 buf = u16_bytes (of_nat (length topic)) @ topic @ u16_bytes x @ rest"
    using r by (simp_all add: B utf8_bytes_def numeral_2_eq_2)
  have "buf = (h # rem_len_bytes ?n @ utf8_bytes topic) @ u16_bytes x @ rest"
    and "length (h # rem_len_bytes ?n @ utf8_bytes topic) = 4 + length topic"
    using r by (simp_all add: B)
  then have d4: "drop (4 + length topic) buf = u16_bytes x @ rest"
    by (metis append_eq_conv_conj)
  have small: "?n < 268435456"
    using assms(3) by simp
  have u: "unat (of_nat ?n :: u32) = ?n" "unat (of_nat (length topic) :: u16) = length topic"
    using assms(3) small by (simp_all only: unat_of_nat_small) (simp add: unat_of_nat)
  have s: "read_string_with_len buf 2 (2 + ?n) = Some (Inr (4, of_nat (length topic), 4 + length topic))"
    using assms(3) by (simp add: read_string_with_len_def read_uint16_drop [OF d2] u)
  have one: "1 + unat (of_nat (length (rem_len_bytes ?n)) :: u32) = 2"
    unfolding r by simp
  have i: "mqtt_read_uint16_t buf (4 + length topic) = Some (x, 4 + length topic + 2)"
    by (rule read_uint16_drop [OF d4])
  have c: "int (2 + ?n) - int (4 + length topic) = 0" "int (2 + ?n) - int (4 + length topic + 2) = - 2"
    by simp_all
  show ?thesis
    unfolding deserialize_publish_packet_def read_char_drop [OF d0]
    using assms(1,2,4)
    by (simp only: Let_def bind.simps prod.case sum.case read_rem_len_drop [OF small d1] one u(1)
        add_0 s i c) (simp add: length_mqtt_packet r [simplified])
qed

theorem publish_missing_packet_id_witness:
  "\<exists>p. deserialize_publish_packet [0x32, 3, 0, 1, 97, 5, 6, 0] 8 = Some (Inr p) \<and> pub_id p = Some 0x506 \<and>
    pub_payload p = length (mqtt_packet 0x32 (utf8_bytes [97])) + 2 \<and> unat (pub_payload_len p) = 2 ^ 64 - 2"
proof (rule publish_missing_packet_id)
  show "header_type 0x32 = MessageTypes_val PUBLISH" "header_qos 0x32 \<noteq> 0"
    by (simp_all add: header_type_def header_qos_def)
  show "[0x32, 3, 0, 1, 97, 5, 6, 0] = mqtt_packet 0x32 (utf8_bytes [97]) @ u16_bytes 0x506 @ [0]"
    by (simp add: mqtt_packet_def utf8_bytes_def u16_bytes_def rem_len_bytes_small)
qed simp_all

end
