(* ===== verification/Mqtt_Connect_Packet.thy ===== *)
theory Mqtt_Connect_Packet
  imports Mqtt_Packets
begin

text \<open>
  The CONNECT and CONNACK packets of \<^verbatim>\<open>mqtt_client_connect.c\<close>, in the configuration of
  \<^verbatim>\<open>include/config.h\<close> (\<^verbatim>\<open>AUTH_MODE_KEY\<close> over TLS, so that no password is computed). What
  the serializer takes from its environment is an argument: the clock
  (\<^verbatim>\<open>HAL_Timer_current_sec\<close>), whether \<^verbatim>\<open>HAL_Malloc\<close> succeeds, and the values of the
  successive \<^verbatim>\<open>rand()\<close> calls.
\<close>

section \<open>Connect parameters\<close>

record MQTTConnectParams =
  client_id :: "cstr option"
  username :: "cstr option"
  password :: "cstr option"
  conn_id :: cstr
  struct_id :: cstr
  struct_version :: byte
  mqtt_version :: byte
  keep_alive_interval :: u16
  clean_session :: byte
  auto_connect_enable :: byte

definition DEFAULT_MQTTCONNECT_PARAMS :: MQTTConnectParams where
  "DEFAULT_MQTTCONNECT_PARAMS = \<lparr>client_id = None, username = None, password = None, conn_id = [],
     struct_id = [0x4D, 0x51, 0x54, 0x43], struct_version = 0,
     mqtt_version = 4, keep_alive_interval = 240, clean_session = 1, auto_connect_enable = 1\<rparr>"

text \<open>
  \<^verbatim>\<open>_copy_connect_params\<close>; \<open>same\<close> is \<^verbatim>\<open>source == destination\<close>, the reconnect case.
\<close>

definition copy_connect_params :: "bool \<Rightarrow> MQTTConnectParams \<Rightarrow> MQTTConnectParams \<Rightarrow> MQTTConnectParams" where
  "copy_connect_params same destination source =
     (if same then destination
      else destination\<lparr>mqtt_version := mqtt_version source, client_id := client_id source,
        username := username source, keep_alive_interval := keep_alive_interval source,
        clean_session := clean_session source, auto_connect_enable := auto_connect_enable source\<rparr>)"

section \<open>The connection id and the user name\<close>

definition MAX_CONN_ID_LEN :: nat where "MAX_CONN_ID_LEN = 6"

definition MAX_ACCESS_EXPIRE_TIMEOUT :: int where "MAX_ACCESS_EXPIRE_TIMEOUT = 0"

definition LONG_MAX :: int where "LONG_MAX = 2 ^ 63 - 1"

text \<open>\<open>"21010406"\<close>, \<open>"MQTT"\<close>, \<open>"MQIsdp"\<close> and \<open>";"\<close> as bytes.\<close>

definition QCLOUD_IOT_DEVICE_SDK_APPID :: cstr where
  "QCLOUD_IOT_DEVICE_SDK_APPID = [0x32, 0x31, 0x30, 0x31, 0x30, 0x34, 0x30, 0x36]"

definition STR_MQTT :: cstr where "STR_MQTT = [0x4D, 0x51, 0x54, 0x54]"

definition STR_MQIsdp :: cstr where "STR_MQIsdp = [0x4D, 0x51, 0x49, 0x73, 0x64, 0x70]"

abbreviation (input) SEMICOLON :: byte where "SEMICOLON \<equiv> 0x3B"

text \<open>
  \<^verbatim>\<open>get_next_conn_id\<close>; \<open>rand k\<close> is the result of the \<open>k\<close>-th \<^verbatim>\<open>rand()\<close> call after
  \<^verbatim>\<open>srand\<close>. Character \<open>i\<close> takes two of them.
\<close>

definition conn_id_char :: "(nat \<Rightarrow> nat) \<Rightarrow> nat \<Rightarrow> byte" where
  "conn_id_char rand i =
     (let flag = rand (2 * i) mod 3; r = rand (2 * i + 1) in
      if flag = 0 then of_nat (r mod 26) + 0x61
      else if flag = 1 then of_nat (r mod 26) + 0x41
      else of_nat (r mod 10) + 0x30)"

definition get_next_conn_id :: "(nat \<Rightarrow> nat) \<Rightarrow> cstr" where
  "get_next_conn_id rand = map (conn_id_char rand) [0..<MAX_CONN_ID_LEN - 1]"

text \<open>The loop that counts the decimal digits of the expiry time, and its \<^verbatim>\<open>%ld\<close> rendering.\<close>

fun digits_len :: "nat \<Rightarrow> nat" where
  "digits_len n = (if n = 0 then 0 else 1 + digits_len (n div 10))"

declare digits_len.simps [simp del]

fun dec_string :: "nat \<Rightarrow> cstr" where
  "dec_string n = (if n < 10 then [0x30 + of_nat n] else dec_string (n div 10) @ [0x30 + of_nat (n mod 10)])"

declare dec_string.simps [simp del]

definition connect_timesec :: "int \<Rightarrow> int" where
  "connect_timesec now_sec =
     (let cur_timesec = now_sec + MAX_ACCESS_EXPIRE_TIMEOUT div 1000 in
      if cur_timesec \<le> 0 \<or> MAX_ACCESS_EXPIRE_TIMEOUT \<le> 0 then LONG_MAX else cur_timesec)"

definition username_len :: "cstr \<Rightarrow> int \<Rightarrow> nat" where
  "username_len cid cur_timesec =
     length cid + length QCLOUD_IOT_DEVICE_SDK_APPID + MAX_CONN_ID_LEN +
     digits_len (nat cur_timesec) + 4"

text \<open>\<^verbatim>\<open>HAL_Snprintf\<close> into a buffer of \<open>n\<close> bytes keeps at most \<open>n - 1\<close> characters.\<close>

definition username_full :: "cstr \<Rightarrow> cstr \<Rightarrow> int \<Rightarrow> cstr" where
  "username_full cid conn cur_timesec =
     cid @ [SEMICOLON] @ QCLOUD_IOT_DEVICE_SDK_APPID @ [SEMICOLON] @ conn @ [SEMICOLON] @
     dec_string (nat cur_timesec)"

definition format_username :: "cstr \<Rightarrow> cstr \<Rightarrow> int \<Rightarrow> cstr" where
  "format_username cid conn cur_timesec =
     take (username_len cid cur_timesec - 1) (username_full cid conn cur_timesec)"

section \<open>Serializing CONNECT\<close>

definition get_packet_connect_rem_len :: "MQTTConnectParams \<Rightarrow> cstr \<Rightarrow> u32" where
  "get_packet_connect_rem_len options cid =
     (let len = (if mqtt_version options = 3 then 12 else if mqtt_version options = 4 then 10 else 0);
          len = len + length cid + 2;
          len = (case username options of None \<Rightarrow> len | Some u \<Rightarrow> len + length u + 2);
          len = (case password options of None \<Rightarrow> len | Some p \<Rightarrow> len + length p + 2)
      in of_nat len)"

abbreviation (input) MQTT_CONNECT_FLAG_USERNAME :: byte where "MQTT_CONNECT_FLAG_USERNAME \<equiv> 0x80"
abbreviation (input) MQTT_CONNECT_FLAG_PASSWORD :: byte where "MQTT_CONNECT_FLAG_PASSWORD \<equiv> 0x40"
abbreviation (input) MQTT_CONNECT_FLAG_CLEAN_SES :: byte where "MQTT_CONNECT_FLAG_CLEAN_SES \<equiv> 0x02"

text \<open>An optional string of the payload, written when its flag is set and then freed.\<close>

definition write_opt_string :: "bool \<Rightarrow> cstr option \<Rightarrow> byte list \<Rightarrow> nat \<Rightarrow>
    (cstr option \<times> byte list \<times> nat) option" where
  "write_opt_string flag str buf ptr =
     (case str of
        Some s \<Rightarrow> if flag then do {
            (buf, ptr) \<leftarrow> mqtt_write_utf8_string buf ptr s;
            Some (None, buf, ptr)
          } else Some (str, buf, ptr)
      | None \<Rightarrow> Some (str, buf, ptr))"

text \<open>
  \<^verbatim>\<open>_serialize_connect_packet\<close> returns its code or the buffer and length, and the updated
  \<^verbatim>\<open>options\<close>; the label \<^verbatim>\<open>err_exit\<close> frees the user name and password.
\<close>

definition serialize_connect_packet ::
  "int \<Rightarrow> bool \<Rightarrow> (nat \<Rightarrow> nat) \<Rightarrow> byte list \<Rightarrow> nat \<Rightarrow> MQTTConnectParams \<Rightarrow>
     ((byte list \<times> nat) cres \<times> MQTTConnectParams) option" where
  "serialize_connect_packet now_sec malloc_ok rand buf buf_len options =
     (case client_id options of
        None \<Rightarrow> Some (Inl QCLOUD_ERR_INVAL, options)
      | Some cid \<Rightarrow>
          if length cid = 0 then Some (Inl QCLOUD_ERR_INVAL, options)
          else if \<not> malloc_ok
          then Some (Inl QCLOUD_ERR_MALLOC, options\<lparr>username := None, password := None\<rparr>)
          else
            let cur_timesec = connect_timesec now_sec;
                conn = get_next_conn_id rand;
                options = options\<lparr>conn_id := conn,
                  username := Some (format_username cid conn cur_timesec)\<rparr>;
                rem_len = get_packet_connect_rem_len options cid;
                err_options = options\<lparr>username := None, password := None\<rparr>
            in if get_mqtt_packet_len (unat rem_len) > buf_len
               then Some (Inl QCLOUD_ERR_BUF_TOO_SHORT, err_options)
               else case mqtt_init_packet_header CONNECT QOS0 0 0 of
                 Inl rc \<Rightarrow> Some (Inl rc, err_options)
               | Inr header \<Rightarrow> do {
                   (buf, ptr) \<leftarrow> mqtt_write_char buf 0 header;
                   (buf, n) \<leftarrow> mqtt_write_packet_rem_len buf ptr rem_len;
                   let ptr = ptr + n;
                   (buf, ptr) \<leftarrow> mqtt_write_utf8_string buf ptr
                     (if mqtt_version options = 4 then STR_MQTT else STR_MQIsdp);
                   (buf, ptr) \<leftarrow> mqtt_write_char buf ptr (if mqtt_version options = 4 then 4 else 3);
                   let flags = (if clean_session options \<noteq> 0 then MQTT_CONNECT_FLAG_CLEAN_SES else 0);
                   let flags = flags OR (if username options \<noteq> None then MQTT_CONNECT_FLAG_USERNAME else 0);
                   (buf, ptr) \<leftarrow> mqtt_write_char buf ptr flags;
                   (buf, ptr) \<leftarrow> mqtt_write_uint_16 buf ptr (keep_alive_interval options);
                   (buf, ptr) \<leftarrow> mqtt_write_utf8_string buf ptr cid;
                   (user, buf, ptr) \<leftarrow>
                     write_opt_string (flags AND MQTT_CONNECT_FLAG_USERNAME \<noteq> 0) (username options) buf ptr;
                   (pass, buf, ptr) \<leftarrow>
                     write_opt_string (flags AND MQTT_CONNECT_FLAG_PASSWORD \<noteq> 0) (password options) buf ptr;
                   Some (Inr (buf, ptr), options\<lparr>username := user, password := pass\<rparr>)
                 })"

section \<open>Deserializing CONNACK\<close>

text \<open>The switch on the CONNACK return code.\<close>

definition connack_return_code :: "byte \<Rightarrow> int" where
  "connack_return_code c =
     (if c = 0 then QCLOUD_RET_MQTT_CONNACK_CONNECTION_ACCEPTED
      else if c = 1 then QCLOUD_ERR_MQTT_CONNACK_UNACCEPTABLE_PROTOCOL_VERSION
      else if c = 2 then QCLOUD_ERR_MQTT_CONNACK_IDENTIFIER_REJECTED
      else if c = 3 then QCLOUD_ERR_MQTT_CONNACK_SERVER_UNAVAILABLE
      else if c = 4 then QCLOUD_ERR_MQTT_CONNACK_BAD_USERDATA
      else if c = 5 then QCLOUD_ERR_MQTT_CONNACK_NOT_AUTHORIZED
      else QCLOUD_ERR_MQTT_CONNACK_UNKNOWN)"

definition deserialize_connack_packet :: "byte list \<Rightarrow> nat \<Rightarrow> (byte \<times> int) cres option" where
  "deserialize_connack_packet buf buflen =
     (if 4 > buflen then Some (Inl QCLOUD_ERR_BUF_TOO_SHORT)
      else do {
        (header, curdata) \<leftarrow> mqtt_read_char buf 0;
        if MessageTypes_val CONNACK \<noteq> header_type header then Some (Inl QCLOUD_ERR_FAILURE)
        else do {
          r \<leftarrow> mqtt_read_packet_rem_len_form_buf buf curdata;
          case r of
            Inl rc \<Rightarrow> Some (Inl rc)
          | Inr (decodedLen, readBytesLen) \<Rightarrow> do {
              let curdata = curdata + unat readBytesLen;
              let enddata = curdata + unat decodedLen;
              if int enddata - int curdata \<noteq> 2 then Some (Inl QCLOUD_ERR_FAILURE)
              else do {
                (flags, curdata) \<leftarrow> mqtt_read_char buf curdata;
                (c, curdata) \<leftarrow> mqtt_read_char buf curdata;
                Some (Inr (flags AND 0x01, connack_return_code c))
              }
            }
        }
      })"

section \<open>What the CONNECT serializer writes\<close>

lemma length_get_next_conn_id [simp]: "length (get_next_conn_id rand) = 5"
  by (simp add: get_next_conn_id_def MAX_CONN_ID_LEN_def)

lemma byte_offset: "r < 26 \<Longrightarrow> b \<le> 97 \<Longrightarrow> unat (of_nat r + of_nat b :: byte) = r + b"
  by (simp add: unat_word_ariths unat_of_nat)

text \<open>The connection id is alphanumeric.\<close>

definition alnum :: "byte \<Rightarrow> bool" where
  "alnum c \<longleftrightarrow> (0x30 \<le> c \<and> c \<le> 0x39) \<or> (0x41 \<le> c \<and> c \<le> 0x5A) \<or> (0x61 \<le> c \<and> c \<le> 0x7A)"

lemma conn_id_char_alnum: "alnum (conn_id_char rand i)"
proof -
  let ?r = "rand (2 * i + 1)"
  have 26: "?r mod 26 < 26" "?r mod 10 < 10" by simp_all
  show ?thesis
    using byte_offset [of "?r mod 26" 97] byte_offset [of "?r mod 26" 65] byte_offset [of "?r mod 10" 48] 26
    by (auto simp: alnum_def conn_id_char_def Let_def word_le_nat_alt)
qed

lemma get_next_conn_id_alnum: "list_all alnum (get_next_conn_id rand)"
  by (simp add: get_next_conn_id_def list_all_iff conn_id_char_alnum)

lemma length_dec_string: "0 < n \<Longrightarrow> length (dec_string n) = digits_len n"
proof (induction n rule: less_induct)
  case (less n)
  show ?case
  proof (cases "n < 10")
    case True
    with less.prems show ?thesis
      by (simp add: dec_string.simps [of n] digits_len.simps [of n] digits_len.simps [of 0])
  next
    case False
    then have "n div 10 < n" "0 < n div 10" by simp_all
    with less.IH False show ?thesis
      by (simp add: dec_string.simps [of n] digits_len.simps [of n])
  qed
qed

lemma connect_timesec_pos: "0 < connect_timesec now_sec"
  by (simp add: connect_timesec_def LONG_MAX_def MAX_ACCESS_EXPIRE_TIMEOUT_def)

text \<open>The buffer allocated for the user name is large enough for it: nothing is cut off.\<close>

lemma format_username_full:
  "format_username cid (get_next_conn_id rand) (connect_timesec now_sec) =
     username_full cid (get_next_conn_id rand) (connect_timesec now_sec)"
  using connect_timesec_pos [of now_sec]
  by (simp add: format_username_def username_full_def username_len_def length_dec_string
      QCLOUD_IOT_DEVICE_SDK_APPID_def MAX_CONN_ID_LEN_def)

definition connect_body :: "MQTTConnectParams \<Rightarrow> cstr \<Rightarrow> cstr \<Rightarrow> byte list" where
  "connect_body options cid user =
     utf8_bytes (if mqtt_version options = 4 then STR_MQTT else STR_MQIsdp) @
     [if mqtt_version options = 4 then 4 else 3,
      (if clean_session options \<noteq> 0 then MQTT_CONNECT_FLAG_CLEAN_SES else 0) OR MQTT_CONNECT_FLAG_USERNAME] @
     u16_bytes (keep_alive_interval options) @ utf8_bytes cid @ utf8_bytes user"

lemma connect_rem_len:
  assumes v: "mqtt_version options = 3 \<or> mqtt_version options = 4" and p: "password options = None"
    and small: "length cid + length user + 16 < 268435456"
  shows "unat (get_packet_connect_rem_len (options\<lparr>conn_id := c, username := Some user\<rparr>) cid) =
    length (connect_body options cid user)"
proof -
  have "length (connect_body options cid user) < 268435456"
    using v small by (auto simp: connect_body_def STR_MQTT_def STR_MQIsdp_def)
  moreover have "get_packet_connect_rem_len (options\<lparr>conn_id := c, username := Some user\<rparr>) cid =
      of_nat (length (connect_body options cid user))"
    using v p by (auto simp: get_packet_connect_rem_len_def connect_body_def STR_MQTT_def STR_MQIsdp_def Let_def)
  ultimately show ?thesis
    by (simp only: unat_of_nat_small)
qed

lemma serialize_connect_packet_ok:
  fixes rand now_sec
  assumes v: "mqtt_version options = 3 \<or> mqtt_version options = 4" and p: "password options = None"
    and c: "client_id options = Some cid" "cid \<noteq> []"
    and h: "mqtt_init_packet_header CONNECT 0 0 0 = Inr h"
  defines "user \<equiv> username_full cid (get_next_conn_id rand) (connect_timesec now_sec)"
  assumes small: "length cid + length user + 16 < 268435456"
    and fit: "get_mqtt_packet_len (length (connect_body options cid user)) \<le> buf_len"
    and buf: "buf_len \<le> length buf"
  shows "serialize_connect_packet now_sec True rand buf buf_len options =
    Some (Inr (put buf (mqtt_packet h (connect_body options cid user)),
               length (mqtt_packet h (connect_body options cid user))),
          options\<lparr>conn_id := get_next_conn_id rand, username := None, password := None\<rparr>)"
proof -
  let ?B = "connect_body options cid user"
  have rem: "unat (get_packet_connect_rem_len
      (options\<lparr>conn_id := get_next_conn_id rand, username := Some user\<rparr>) cid) = length ?B"
    using v p small by (rule connect_rem_len)
  have "length ?B < 268435456"
    using v small by (auto simp: connect_body_def STR_MQTT_def STR_MQIsdp_def)
  then have room: "1 + length (rem_len_bytes (length ?B)) + length ?B \<le> length buf"
    using get_mqtt_packet_len_ge [of "length ?B"] fit buf by linarith
  have ne: "buf \<noteq> []"
    using room by auto
  have flags: "(2 OR 128 :: byte) AND 128 \<noteq> 0" "(128 :: byte) AND 128 \<noteq> 0"
    "(2 OR 128 :: byte) AND 64 = 0" "(128 :: byte) AND 64 = 0"
    by simp_all
  have lenB: "length ?B = (if mqtt_version options = 4 then 14 else 16) + length cid + length user"
    by (simp add: connect_body_def STR_MQTT_def STR_MQIsdp_def)
  have S: "length STR_MQTT = 4" "length STR_MQIsdp = 6"
    by (simp_all add: STR_MQTT_def STR_MQIsdp_def)
  from v show ?thesis
  proof
    assume "mqtt_version options = 3"
    then show ?thesis
      unfolding serialize_connect_packet_def Let_def mqtt_packet_def
      using c fit room ne p lenB
      by (subst put_Nil [symmetric, of buf])
        (simp add: format_username_full user_def [symmetric] rem h put_simps write_opt_string_def S flags,
          simp add: connect_body_def)
  next
    assume "mqtt_version options = 4"
    then show ?thesis
      unfolding serialize_connect_packet_def Let_def mqtt_packet_def
      using c fit room ne p lenB
      by (subst put_Nil [symmetric, of buf])
        (simp add: format_username_full user_def [symmetric] rem h put_simps write_opt_string_def S flags,
          simp add: connect_body_def)
  qed
qed

section \<open>CONNACK\<close>

lemma deserialize_connack_packet_safe:
  assumes len: "7 \<le> length buf"
  shows "deserialize_connack_packet buf buf_len \<noteq> None"
proof -
  obtain h where h: "mqtt_read_char buf 0 = Some (h, 1)"
    using read_char_safe [of 0 buf] len by fastforce
  have "1 + 4 \<le> length buf" using len by simp
  then show ?thesis
  proof (cases rule: read_rem_len_safe)
    case (err rc)
    then show ?thesis by (simp add: deserialize_connack_packet_def h Let_def)
  next
    case (ok v n)
    obtain a where a: "mqtt_read_char buf (1 + unat n) = Some (a, 1 + unat n + 1)"
      using read_char_safe [of "1 + unat n" buf] ok len by auto
    obtain b where b: "mqtt_read_char buf (1 + unat n + 1) = Some (b, 1 + unat n + 1 + 1)"
      using read_char_safe [of "1 + unat n + 1" buf] ok len by auto
    show ?thesis
      using ok(1) a b by (simp add: deserialize_connack_packet_def h Let_def)
  qed
qed

lemma deserialize_connack_packet_ok:
  assumes "4 \<le> buf_len" and h: "header_type h = MessageTypes_val CONNACK"
    and B: "buf = mqtt_packet h [flags, code] @ rest"
  shows "deserialize_connack_packet buf buf_len = Some (Inr (flags AND 1, connack_return_code code))"
proof -
  have B': "buf = h # 2 # flags # code # rest"
    by (simp add: B mqtt_packet_def rem_len_bytes_small)
  have d0: "drop 0 buf = h # 2 # flags # code # rest"
    and d1: "drop 1 buf = rem_len_bytes 2 @ flags # code # rest"
    and d2: "drop 2 buf = flags # code # rest" and d3: "drop 3 buf = code # rest"
    by (simp_all add: B' rem_len_bytes_small)
  show ?thesis
    using assms(1) h by (simp add: deserialize_connack_packet_def read_char_drop [OF d0]
        read_rem_len_drop [OF _ d1, simplified] rem_len_bytes_small
        read_char_drop [OF d2] read_char_drop [OF d3, simplified] numeral_2_eq_2 [symmetric] numeral_3_eq_3 [symmetric] Let_def)
qed

section \<open>Properties of CONNECT and CONNACK\<close>

text \<open>
  C17: With a client id and protocol version 3 or 4, the CONNECT serializer either reports that the
  buffer is too short, or writes exactly one packet: protocol name and level, flags, keep-alive,
  client id and the complete user name \<open>id;appid;connid;expiry\<close> (never cut off by its buffer,
  with an alphanumeric connection id); the user name is released again in both cases.
\<close>

theorem connect_packet_written:
  assumes "mqtt_version options = 3 \<or> mqtt_version options = 4" and "password options = None"
    and "client_id options = Some cid" and "cid \<noteq> []"
    and "length cid < 2048" and "buf_len \<le> length buf"
  shows "\<exists>conn user h r options'. conn = get_next_conn_id rand \<and> list_all alnum conn \<and>
    user = username_full cid conn (connect_timesec now_sec) \<and>
    mqtt_init_packet_header CONNECT QOS0 0 0 = Inr h \<and>
    serialize_connect_packet now_sec True rand buf buf_len options = Some (r, options') \<and>
    username options' = None \<and>
    (if get_mqtt_packet_len (length (connect_body options cid user)) \<le> buf_len
     then r = Inr (put buf (mqtt_packet h (connect_body options cid user)),
                   length (mqtt_packet h (connect_body options cid user)))
     else r = Inl QCLOUD_ERR_BUF_TOO_SHORT)"
proof -
  let ?conn = "get_next_conn_id rand"
  let ?user = "username_full cid ?conn (connect_timesec now_sec)"
  obtain h where h: "mqtt_init_packet_header CONNECT QOS0 0 0 = Inr h"
    by (simp add: mqtt_init_packet_header_def)
  have "digits_len (nat (connect_timesec now_sec)) = 19"
    by (simp add: connect_timesec_def MAX_ACCESS_EXPIRE_TIMEOUT_def LONG_MAX_def) (simp add: digits_len.simps)
  then have small: "length cid + length ?user + 16 < 268435456"
    using assms(5) connect_timesec_pos [of now_sec]
    by (simp add: username_full_def length_dec_string QCLOUD_IOT_DEVICE_SDK_APPID_def)
  show ?thesis
  proof (cases "get_mqtt_packet_len (length (connect_body options cid ?user)) \<le> buf_len")
    case True
    from serialize_connect_packet_ok [OF assms(1-4) h small True assms(6)] True h
    show ?thesis
      by (auto simp: get_next_conn_id_alnum)
  next
    case False
    have rem: "unat (get_packet_connect_rem_len (options\<lparr>conn_id := ?conn, username := Some ?user\<rparr>) cid) =
        length (connect_body options cid ?user)"
      using assms(1,2) small by (rule connect_rem_len)
    from False have "serialize_connect_packet now_sec True rand buf buf_len options =
        Some (Inl QCLOUD_ERR_BUF_TOO_SHORT, options\<lparr>conn_id := ?conn, username := None, password := None\<rparr>)"
      using assms(3,4) by (simp add: serialize_connect_packet_def Let_def format_username_full rem)
    with False h show ?thesis
      by (auto simp: get_next_conn_id_alnum)
  qed
qed

definition connect_params_example :: MQTTConnectParams where
  "connect_params_example = DEFAULT_MQTTCONNECT_PARAMS\<lparr>client_id := Some [0x50, 0x64]\<rparr>"

theorem connect_packet_written_witness:
  "\<exists>conn user h r options'. conn = get_next_conn_id (\<lambda>k. k) \<and> list_all alnum conn \<and>
    user = username_full [0x50, 0x64] conn (connect_timesec 5) \<and>
    mqtt_init_packet_header CONNECT QOS0 0 0 = Inr h \<and>
    serialize_connect_packet 5 True (\<lambda>k. k) (replicate 200 0) 200 connect_params_example = Some (r, options') \<and>
    username options' = None \<and>
    (if get_mqtt_packet_len (length (connect_body connect_params_example [0x50, 0x64] user)) \<le> 200
     then r = Inr (put (replicate 200 0) (mqtt_packet h (connect_body connect_params_example [0x50, 0x64] user)),
                   length (mqtt_packet h (connect_body connect_params_example [0x50, 0x64] user)))
     else r = Inl QCLOUD_ERR_BUF_TOO_SHORT)"
  by (rule connect_packet_written) (simp_all add: connect_params_example_def DEFAULT_MQTTCONNECT_PARAMS_def)

text \<open>
  A CONNACK packet is read without leaving the buffer, and its return code is the one of the
  MQTT specification: only code 0 is an acceptance, every other code gives an error.
\<close>

theorem connack_codes:
  assumes "header_type h = MessageTypes_val CONNACK" and "4 \<le> buf_len"
    and "buf = mqtt_packet h [flags, code] @ rest"
  shows "\<exists>rc. deserialize_connack_packet buf buf_len = Some (Inr (flags AND 1, rc)) \<and>
    (rc = QCLOUD_RET_MQTT_CONNACK_CONNECTION_ACCEPTED \<longleftrightarrow> code = 0) \<and> (rc < 0 \<longleftrightarrow> code \<noteq> 0)"
  using deserialize_connack_packet_ok [OF assms(2,1,3)]
  by (auto simp: connack_return_code_def)

theorem connack_codes_witness:
  "\<exists>rc. deserialize_connack_packet [0x20, 2, 1, 5] 4 = Some (Inr (1 AND 1, rc)) \<and>
    (rc = QCLOUD_RET_MQTT_CONNACK_CONNECTION_ACCEPTED \<longleftrightarrow> (5 :: byte) = 0) \<and> (rc < 0 \<longleftrightarrow> (5 :: byte) \<noteq> 0)"
proof (rule connack_codes)
  show "[0x20, 2, 1, 5] = mqtt_packet 0x20 [1, 5] @ []"
    by (simp add: mqtt_packet_def rem_len_bytes_small)
qed (simp_all add: header_type_def)

end
