(* ===== verification/Mqtt_Topic.thy ===== *)
theory Mqtt_Topic
  imports Prelude
begin

text \<open>
  Topic matching in \<^verbatim>\<open>mqtt_client_common.c\<close>: \<^verbatim>\<open>_is_topic_equals\<close> and
  \<^verbatim>\<open>_is_topic_matched\<close>, against a reference matcher for MQTT topic filters. A topic filter is a C
  string; the topic name is a buffer with a separate length, of which the client also uses the NUL
  after the name.
\<close>

section \<open>The code\<close>

abbreviation (input) CH_SLASH :: byte where "CH_SLASH \<equiv> 0x2F"
abbreviation (input) CH_PLUS :: byte where "CH_PLUS \<equiv> 0x2B"
abbreviation (input) CH_HASH :: byte where "CH_HASH \<equiv> 0x23"

definition is_topic_equals :: "byte list \<Rightarrow> cstr \<Rightarrow> bool option" where
  "is_topic_equals topic_name filter_str = do {
     t \<leftarrow> buf_str topic_name;
     Some (length t = length filter_str \<and> t = filter_str)
   }"

text \<open>The inner loop for \<^verbatim>\<open>+\<close>: the position of the last character of the level.\<close>

function skip_level :: "byte list \<Rightarrow> nat \<Rightarrow> nat \<Rightarrow> nat option" where
  "skip_level name curn_end curn =
     (if curn + 1 < curn_end then do {
        c \<leftarrow> rd name (curn + 1);
        if c \<noteq> CH_SLASH then skip_level name curn_end (curn + 1) else Some curn
      } else Some curn)"
  by pat_completeness auto
termination
  by (relation "measure (\<lambda>(name, curn_end, curn). curn_end - curn)") auto

declare skip_level.simps [simp del]

text \<open>The main loop: the rest of the filter and the position in the name where it stops.\<close>

fun topic_match_loop :: "cstr \<Rightarrow> byte list \<Rightarrow> nat \<Rightarrow> nat \<Rightarrow> (cstr \<times> nat) option" where
  "topic_match_loop [] name curn_end curn = Some ([], curn)"
| "topic_match_loop (f # fs) name curn_end curn =
     (if curn < curn_end then do {
        n \<leftarrow> rd name curn;
        if f = CH_PLUS \<and> n = CH_SLASH then topic_match_loop fs name curn_end curn
        else if n = CH_SLASH \<and> f \<noteq> CH_SLASH then Some (f # fs, curn)
        else if f \<noteq> CH_PLUS \<and> f \<noteq> CH_HASH \<and> f \<noteq> n then Some (f # fs, curn)
        else do {
          curn \<leftarrow> (if f = CH_PLUS then skip_level name curn_end curn
                 else if f = CH_HASH then Some (curn_end - 1) else Some curn);
          topic_match_loop fs name curn_end (curn + 1)
        }
      } else Some (f # fs, curn))"

definition is_topic_matched :: "cstr \<Rightarrow> byte list \<Rightarrow> nat \<Rightarrow> bool option" where
  "is_topic_matched topic_filter topicName topicNameLen = do {
     (curf, curn) \<leftarrow> topic_match_loop topic_filter topicName topicNameLen 0;
     case curf of
       [] \<Rightarrow> Some (curn = topicNameLen)
     | f # fs \<Rightarrow>
         if f = CH_HASH then Some True
         else if fs \<noteq> [] \<and> hd fs = CH_HASH then Some True
         else if f = CH_PLUS then
           (if curn = 0 then None else do { c \<leftarrow> rd topicName (curn - 1); Some (c = CH_SLASH) })
         else Some False
   }"

section \<open>The reference matcher\<close>

text \<open>
  A well-formed filter has \<^verbatim>\<open>+\<close> only as a whole level and \<^verbatim>\<open>#\<close> only as the whole last level;
  the flag says whether a level starts.
\<close>

fun wf_filter :: "bool \<Rightarrow> cstr \<Rightarrow> bool" where
  "wf_filter start [] = True"
| "wf_filter start (f # fs) =
     (if f = CH_PLUS then start \<and> (fs = [] \<or> hd fs = CH_SLASH) \<and> wf_filter False fs
      else if f = CH_HASH then start \<and> fs = []
      else wf_filter (f = CH_SLASH) fs)"

text \<open>
  MQTT matching: \<^verbatim>\<open>#\<close> matches the rest, \<^verbatim>\<open>+\<close> one level, and \<^verbatim>\<open>a/#\<close> also its parent
  \<^verbatim>\<open>a\<close>.
\<close>

fun mqtt_matches :: "cstr \<Rightarrow> cstr \<Rightarrow> bool" where
  "mqtt_matches [] ts = (ts = [])"
| "mqtt_matches (f # fs) ts =
     (if f = CH_HASH then True
      else if f = CH_PLUS then mqtt_matches fs (dropWhile (\<lambda>c. c \<noteq> CH_SLASH) ts)
      else case ts of
        [] \<Rightarrow> f = CH_SLASH \<and> fs = [CH_HASH]
      | t # ts \<Rightarrow> f = t \<and> mqtt_matches fs ts)"

section \<open>Lemmas\<close>

lemma skip_level_correct:
  assumes "length t \<le> length name" and "take (length t) name = t" and "curn < length t" and "t ! curn \<noteq> CH_SLASH"
  shows "\<exists>p. skip_level name (length t) curn = Some p \<and> curn \<le> p \<and> p < length t \<and>
    drop (p + 1) t = dropWhile (\<lambda>c. c \<noteq> CH_SLASH) (drop curn t)"
  using assms
proof (induction "length t - curn" arbitrary: curn rule: less_induct)
  case less
  have dr: "drop curn t = t ! curn # drop (curn + 1) t"
    using less.prems(3) by (simp add: Cons_nth_drop_Suc)
  show ?case
  proof (cases "curn + 1 < length t")
    case True
    have rd: "rd name (curn + 1) = Some (t ! (curn + 1))"
      using True less.prems(1,2) by (simp add: rd_def) (metis nth_take)
    have dr1: "drop (curn + 1) t = t ! (curn + 1) # drop (curn + 2) t"
      using True by (simp add: Cons_nth_drop_Suc)
    show ?thesis
    proof (cases "t ! (curn + 1) = CH_SLASH")
      case eq: True
      then show ?thesis
        using True rd dr dr1 less.prems(4) by (subst skip_level.simps) (simp add: dr)
    next
      case False
      obtain p where "skip_level name (length t) (curn + 1) = Some p" "curn + 1 \<le> p" "p < length t"
          "drop (p + 1) t = dropWhile (\<lambda>c. c \<noteq> CH_SLASH) (drop (curn + 1) t)"
        using less.hyps [of "curn + 1"] less.prems(1,2) True False diff_less_mono2 [of curn "curn + 1" "length t"]
        by auto
      with True False rd dr less.prems(4) show ?thesis
        by (subst skip_level.simps) auto
    qed
  next
    case False
    with less.prems dr show ?thesis
      by (subst skip_level.simps) auto
  qed
qed


text \<open>How the main loop ends decides the result.\<close>

definition match_result :: "byte list \<Rightarrow> nat \<Rightarrow> cstr \<times> nat \<Rightarrow> bool option" where
  "match_result name n r =
     (case r of
        ([], curn) \<Rightarrow> Some (curn = n)
      | (f # fs, curn) \<Rightarrow>
          if f = CH_HASH then Some True
          else if fs \<noteq> [] \<and> hd fs = CH_HASH then Some True
          else if f = CH_PLUS then
            (if curn = 0 then None else do { c \<leftarrow> rd name (curn - 1); Some (c = CH_SLASH) })
          else Some False)"

lemma is_topic_matched_alt:
  "is_topic_matched f name n = Option.bind (topic_match_loop f name n 0) (match_result name n)"
  by (simp add: is_topic_matched_def match_result_def split: bind_split list.split)

lemma rd_prefix: "take (length t) name = t \<Longrightarrow> i < length t \<Longrightarrow> rd name i = Some (t ! i)"
  by (metis nth_take rd_in_range length_take min_less_iff_conj)

lemma loop_exact:
  assumes "CH_PLUS \<notin> set f" and "CH_HASH \<notin> set f" and name: "take (length t) name = t" and "curn \<le> length t"
  shows "Option.bind (topic_match_loop f name (length t) curn) (match_result name (length t)) = Some (f = drop curn t)"
  using assms
proof (induction f arbitrary: curn)
  case Nil
  then show ?case by (auto simp: match_result_def)
next
  case (Cons c cs)
  have nomatch: "match_result name (length t) (c # cs, curn) = Some False"
    using Cons.prems(1,2) by (cases cs) (auto simp: match_result_def)
  show ?case
  proof (cases "curn < length t")
    case True
    then have dr: "drop curn t = t ! curn # drop (curn + 1) t" and rd: "rd name curn = Some (t ! curn)"
      using rd_prefix [OF name] by (simp_all add: Cons_nth_drop_Suc)
    show ?thesis
      using Cons True rd nomatch by (auto simp: dr)
  next
    case False
    with Cons.prems nomatch show ?thesis by simp
  qed
qed

text \<open>
  From a position that is a level start whenever the filter goes on with \<^verbatim>\<open>+\<close>, the loop accepts
  whatever the reference matcher accepts.
\<close>

lemma loop_complete:
  assumes "wf_filter start f" and name: "take (length t) name = t" and "curn \<le> length t"
    and "mqtt_matches f (drop curn t)" and "t \<noteq> []"
    and "start \<longrightarrow> curn = 0 \<or> t ! (curn - 1) = CH_SLASH"
  shows "Option.bind (topic_match_loop f name (length t) curn) (match_result name (length t)) = Some True"
  using assms
proof (induction f arbitrary: curn start)
  case Nil
  then show ?case by (simp add: match_result_def)
next
  case (Cons c cs)
  have len: "length t \<le> length name"
    using name by (metis length_take min.cobounded1)
  consider (hash) "c = CH_HASH" | (plus) "c = CH_PLUS" | (other) "c \<noteq> CH_HASH" "c \<noteq> CH_PLUS"
    by blast
  then show ?case
  proof cases
    case hash
    with Cons.prems have "cs = []" by simp
    with hash show ?thesis
      using rd_prefix [OF name, of curn] Cons.prems(3) by (auto simp: match_result_def)
  next
    case plus
    with Cons.prems have cs: "start" "cs = [] \<or> hd cs = CH_SLASH" "wf_filter False cs"
      and m: "mqtt_matches cs (dropWhile (\<lambda>c. c \<noteq> CH_SLASH) (drop curn t))"
      by simp_all
    show ?thesis
    proof (cases "curn < length t")
      case True
      then have dr: "drop curn t = t ! curn # drop (curn + 1) t" and rd: "rd name curn = Some (t ! curn)"
        using rd_prefix [OF name] by (simp_all add: Cons_nth_drop_Suc)
      show ?thesis
      proof (cases "t ! curn = CH_SLASH")
        case slash: True
        with m have "mqtt_matches cs (drop curn t)"
          by (simp add: dr)
        with Cons.IH [OF cs(3) name] Cons.prems(3,5) have
          "Option.bind (topic_match_loop cs name (length t) curn) (match_result name (length t)) = Some True"
          by blast
        with True slash plus rd show ?thesis by simp
      next
        case False
        obtain p where p: "skip_level name (length t) curn = Some p" "p < length t"
            "drop (p + 1) t = dropWhile (\<lambda>c. c \<noteq> CH_SLASH) (drop curn t)"
          using skip_level_correct [OF len name True False] by blast
        with m have "mqtt_matches cs (drop (p + 1) t)"
          by simp
        with Cons.IH [OF cs(3) name, of "p + 1"] Cons.prems(5) p(2) have
          "Option.bind (topic_match_loop cs name (length t) (p + 1)) (match_result name (length t)) = Some True"
          by simp
        with True False plus rd p(1) show ?thesis by simp
      qed
    next
      case False
      with Cons.prems cs(1) have "curn = length t" "curn \<noteq> 0" "t ! (curn - 1) = CH_SLASH"
        by auto
      with plus rd_prefix [OF name, of "curn - 1"] show ?thesis
        by (simp add: match_result_def)
    qed
  next
    case other
    show ?thesis
    proof (cases "curn < length t")
      case True
      then have dr: "drop curn t = t ! curn # drop (curn + 1) t" and rd: "rd name curn = Some (t ! curn)"
        using rd_prefix [OF name] by (simp_all add: Cons_nth_drop_Suc)
      with other Cons.prems have c: "c = t ! curn" and m: "mqtt_matches cs (drop (curn + 1) t)"
        and wf: "wf_filter (c = CH_SLASH) cs"
        by simp_all
      have "Option.bind (topic_match_loop cs name (length t) (curn + 1)) (match_result name (length t)) = Some True"
        using Cons.IH [OF wf name _ m] Cons.prems(5) True c by simp
      with True other rd c show ?thesis by simp
    next
      case False
      with other Cons.prems show ?thesis
        by (simp add: match_result_def)
    qed
  qed
qed

section \<open>Properties\<close>

text \<open>
  C22: Every topic that a well-formed filter matches under the MQTT rules (\<^verbatim>\<open>+\<close>, \<^verbatim>\<open>#\<close>, and
  \<^verbatim>\<open>a/#\<close> for its parent \<^verbatim>\<open>a\<close>) is accepted by \<^verbatim>\<open>_is_topic_matched\<close>, without reading
  outside the topic.
\<close>

theorem topic_match_complete:
  assumes "wf_filter True f" and "t \<noteq> []" and "mqtt_matches f t"
  shows "is_topic_matched f (t @ rest) (length t) = Some True"
  unfolding is_topic_matched_alt using assms by (intro loop_complete [where start = True]) simp_all

theorem topic_match_complete_witness:
  "is_topic_matched [0x61, CH_SLASH, CH_PLUS, CH_SLASH, CH_HASH] ([0x61, CH_SLASH, 0x62] @ [0, 0])
     (length [0x61, CH_SLASH, 0x62 :: byte]) = Some True"
  by (rule topic_match_complete) simp_all

text \<open>
  A filter without wildcards is matched by \<^verbatim>\<open>_is_topic_matched\<close> exactly by the topic equal
  to it.
\<close>

theorem topic_match_exact:
  assumes "CH_PLUS \<notin> set f" and "CH_HASH \<notin> set f"
  shows "is_topic_matched f (t @ rest) (length t) = Some (f = t)"
  unfolding is_topic_matched_alt using loop_exact [OF assms, of t "t @ rest" 0] by simp

theorem topic_match_exact_witness:
  "is_topic_matched [0x61, CH_SLASH, 0x62] ([0x61, CH_SLASH, 0x63] @ [0])
     (length [0x61, CH_SLASH, 0x63 :: byte]) = Some ([0x61, CH_SLASH, 0x62] = [0x61, CH_SLASH, 0x63 :: byte])"
  by (rule topic_match_exact) simp_all


end
