(* ===== verification/Utils_List.thy ===== *)
theory Utils_List
  imports Prelude
begin

text \<open>
  The doubly linked list of \<^verbatim>\<open>utils_list.c\<close>, which holds the client's waiting lists. The
  nodes live in an explicit store of addresses; a pointer is \<open>None\<close> for NULL, and dereferencing
  NULL or an address that is not allocated gives \<open>None\<close>. The representation predicate relates a
  \<^verbatim>\<open>List\<close> and the store to the sequence of node addresses; each operation is shown to refine
  the operation on sequences. The interface \<open>wait_list\<close> states what the client needs of a
  waiting list (append a node, unlink a node, sweep out the nodes that are done).
\<close>

section \<open>Nodes, lists and iterators\<close>

type_synonym ptr = "nat option"

record 'v ListNode =
  node_prev :: ptr
  node_next :: ptr
  node_val :: 'v

text \<open>
  The store: the allocated nodes, and the values handed to the list's \<^verbatim>\<open>free\<close> function so far.
\<close>

record 'v node_mem =
  nodes :: "nat \<rightharpoonup> 'v ListNode"
  freed :: "'v list"

text \<open>
  \<^verbatim>\<open>List\<close>; \<open>list_free\<close> says whether the \<^verbatim>\<open>free\<close> pointer is set, \<open>list_match\<close> is the
  optional comparison.
\<close>

record 'v List =
  list_head :: ptr
  list_tail :: ptr
  list_len :: u32
  list_free :: bool
  list_match :: "('v \<Rightarrow> 'v \<Rightarrow> bool) option"

datatype ListDirection = LIST_HEAD | LIST_TAIL

record ListIterator =
  it_next :: ptr
  it_direction :: ListDirection

section \<open>Store accesses\<close>

definition deref :: "'v node_mem \<Rightarrow> ptr \<Rightarrow> 'v ListNode option" where
  "deref m p = Option.bind p (nodes m)"

definition set_node :: "'v node_mem \<Rightarrow> ptr \<Rightarrow> ('v ListNode \<Rightarrow> 'v ListNode) \<Rightarrow> 'v node_mem option" where
  "set_node m p f = do {
     a \<leftarrow> p;
     n \<leftarrow> nodes m a;
     Some (m\<lparr>nodes := (nodes m)(a \<mapsto> f n)\<rparr>)
   }"

abbreviation set_prev :: "'v node_mem \<Rightarrow> ptr \<Rightarrow> ptr \<Rightarrow> 'v node_mem option" where
  "set_prev m p v \<equiv> set_node m p (\<lambda>n. n\<lparr>node_prev := v\<rparr>)"

abbreviation set_next :: "'v node_mem \<Rightarrow> ptr \<Rightarrow> ptr \<Rightarrow> 'v node_mem option" where
  "set_next m p v \<equiv> set_node m p (\<lambda>n. n\<lparr>node_next := v\<rparr>)"

text \<open>\<^verbatim>\<open>HAL_Free\<close> of a node: freeing what is not allocated is undefined.\<close>

definition free_node :: "'v node_mem \<Rightarrow> ptr \<Rightarrow> 'v node_mem option" where
  "free_node m p = do {
     a \<leftarrow> p;
     n \<leftarrow> nodes m a;
     Some (m\<lparr>nodes := (nodes m)(a := None)\<rparr>)
   }"

definition free_val :: "'v List \<Rightarrow> 'v node_mem \<Rightarrow> 'v \<Rightarrow> 'v node_mem" where
  "free_val self m v = (if list_free self then m\<lparr>freed := freed m @ [v]\<rparr> else m)"

section \<open>Operations\<close>

text \<open>\<open>malloc\<close> is what \<^verbatim>\<open>HAL_Malloc\<close> returns: an address, or \<open>None\<close> for NULL.\<close>

definition list_new :: "bool \<Rightarrow> 'v List option" where
  "list_new malloc_ok =
     (if \<not> malloc_ok then None
      else Some \<lparr>list_head = None, list_tail = None, list_len = 0, list_free = False, list_match = None\<rparr>)"

definition list_node_new :: "ptr \<Rightarrow> 'v \<Rightarrow> 'v node_mem \<Rightarrow> ptr \<times> 'v node_mem" where
  "list_node_new malloc v m =
     (case malloc of
        None \<Rightarrow> (None, m)
      | Some a \<Rightarrow>
          (Some a, m\<lparr>nodes := (nodes m)(a \<mapsto> \<lparr>node_prev = None, node_next = None, node_val = v\<rparr>)\<rparr>))"

definition list_rpush :: "'v List \<Rightarrow> ptr \<Rightarrow> 'v node_mem \<Rightarrow> (ptr \<times> 'v List \<times> 'v node_mem) option" where
  "list_rpush self node m =
     (if node = None then Some (None, self, m)
      else if list_len self \<noteq> 0 then do {
        m \<leftarrow> set_prev m node (list_tail self);
        m \<leftarrow> set_next m node None;
        m \<leftarrow> set_next m (list_tail self) node;
        Some (node, self\<lparr>list_tail := node, list_len := list_len self + 1\<rparr>, m)
      } else do {
        m \<leftarrow> set_next m node None;
        m \<leftarrow> set_prev m node None;
        Some (node, self\<lparr>list_head := node, list_tail := node, list_len := list_len self + 1\<rparr>, m)
      })"

definition list_rpop :: "'v List \<Rightarrow> 'v node_mem \<Rightarrow> (ptr \<times> 'v List \<times> 'v node_mem) option" where
  "list_rpop self m =
     (if list_len self = 0 then Some (None, self, m)
      else do {
        let node = list_tail self;
        let self = self\<lparr>list_len := list_len self - 1\<rparr>;
        (self, m) \<leftarrow>
          (if list_len self \<noteq> 0 then do {
             n \<leftarrow> deref m node;
             let self = self\<lparr>list_tail := node_prev n\<rparr>;
             m \<leftarrow> set_next m (list_tail self) None;
             Some (self, m)
           } else Some (self\<lparr>list_tail := None, list_head := None\<rparr>, m));
        m \<leftarrow> set_prev m node None;
        m \<leftarrow> set_next m node None;
        Some (node, self, m)
      })"

definition list_lpop :: "'v List \<Rightarrow> 'v node_mem \<Rightarrow> (ptr \<times> 'v List \<times> 'v node_mem) option" where
  "list_lpop self m =
     (if list_len self = 0 then Some (None, self, m)
      else do {
        let node = list_head self;
        let self = self\<lparr>list_len := list_len self - 1\<rparr>;
        (self, m) \<leftarrow>
          (if list_len self \<noteq> 0 then do {
             n \<leftarrow> deref m node;
             let self = self\<lparr>list_head := node_next n\<rparr>;
             m \<leftarrow> set_prev m (list_head self) None;
             Some (self, m)
           } else Some (self\<lparr>list_head := None, list_tail := None\<rparr>, m));
        m \<leftarrow> set_prev m node None;
        m \<leftarrow> set_next m node None;
        Some (node, self, m)
      })"

definition list_lpush :: "'v List \<Rightarrow> ptr \<Rightarrow> 'v node_mem \<Rightarrow> (ptr \<times> 'v List \<times> 'v node_mem) option" where
  "list_lpush self node m =
     (if node = None then Some (None, self, m)
      else if list_len self \<noteq> 0 then do {
        m \<leftarrow> set_next m node (list_head self);
        m \<leftarrow> set_prev m node None;
        m \<leftarrow> set_prev m (list_head self) node;
        Some (node, self\<lparr>list_head := node, list_len := list_len self + 1\<rparr>, m)
      } else do {
        m \<leftarrow> set_next m node None;
        m \<leftarrow> set_prev m node None;
        Some (node, self\<lparr>list_head := node, list_tail := node, list_len := list_len self + 1\<rparr>, m)
      })"

definition list_iterator_new_from_node :: "bool \<Rightarrow> ptr \<Rightarrow> ListDirection \<Rightarrow> ListIterator option" where
  "list_iterator_new_from_node malloc_ok node direction =
     (if \<not> malloc_ok then None else Some \<lparr>it_next = node, it_direction = direction\<rparr>)"

definition list_iterator_new :: "bool \<Rightarrow> 'v List \<Rightarrow> ListDirection \<Rightarrow> ListIterator option" where
  "list_iterator_new malloc_ok list direction =
     (let node = (if direction = LIST_HEAD then list_head list else list_tail list)
      in list_iterator_new_from_node malloc_ok node direction)"

definition list_iterator_next :: "ListIterator \<Rightarrow> 'v node_mem \<Rightarrow> (ptr \<times> ListIterator) option" where
  "list_iterator_next self m =
     (let cur = it_next self in
      case cur of
        None \<Rightarrow> Some (cur, self)
      | Some _ \<Rightarrow> do {
          n \<leftarrow> deref m cur;
          Some (cur, self\<lparr>it_next := (if it_direction self = LIST_HEAD then node_next n else node_prev n)\<rparr>)
        })"

text \<open>The \<^verbatim>\<open>while (node)\<close> loop of \<^verbatim>\<open>list_find\<close>; on a cyclic store it would not return.\<close>

partial_function (option) list_find_loop ::
  "'v List \<Rightarrow> 'v \<Rightarrow> 'v node_mem \<Rightarrow> ListIterator \<Rightarrow> ptr \<Rightarrow> ptr option" where
  "list_find_loop self v m it node =
     (case node of
        None \<Rightarrow> Some None
      | Some _ \<Rightarrow> do {
          n \<leftarrow> deref m node;
          if (case list_match self of Some match \<Rightarrow> match v (node_val n) | None \<Rightarrow> v = node_val n)
          then Some node
          else do {
            (node, it) \<leftarrow> list_iterator_next it m;
            list_find_loop self v m it node
          }
        })"

definition list_find :: "bool \<Rightarrow> 'v List \<Rightarrow> 'v \<Rightarrow> 'v node_mem \<Rightarrow> ptr option" where
  "list_find malloc_ok self v m =
     (case list_iterator_new malloc_ok self LIST_HEAD of
        None \<Rightarrow> Some None
      | Some it \<Rightarrow> do {
          (node, it) \<leftarrow> list_iterator_next it m;
          list_find_loop self v m it node
        })"

text \<open>The \<^verbatim>\<open>while (index--)\<close> loop of \<^verbatim>\<open>list_at\<close>.\<close>

fun list_at_loop :: "nat \<Rightarrow> 'v node_mem \<Rightarrow> ListIterator \<Rightarrow> ptr \<Rightarrow> ptr option" where
  "list_at_loop 0 m it node = Some node"
| "list_at_loop (Suc index) m it node = do {
     (node, it) \<leftarrow> list_iterator_next it m;
     list_at_loop index m it node
   }"

definition list_at :: "bool \<Rightarrow> 'v List \<Rightarrow> int \<Rightarrow> 'v node_mem \<Rightarrow> ptr option" where
  "list_at malloc_ok self index m =
     (let direction = (if index < 0 then LIST_TAIL else LIST_HEAD);
          index = (if index < 0 then NOT index else index)
      in if nat index < unat (list_len self) then
           (case list_iterator_new malloc_ok self direction of
              None \<Rightarrow> Some None
            | Some it \<Rightarrow> do {
                (node, it) \<leftarrow> list_iterator_next it m;
                list_at_loop (nat index) m it node
              })
         else Some None)"

definition list_remove :: "'v List \<Rightarrow> ptr \<Rightarrow> 'v node_mem \<Rightarrow> ('v List \<times> 'v node_mem) option" where
  "list_remove self node m = do {
     n \<leftarrow> deref m node;
     (self, m) \<leftarrow>
       (if node_prev n \<noteq> None
        then do { m \<leftarrow> set_next m (node_prev n) (node_next n); Some (self, m) }
        else Some (self\<lparr>list_head := node_next n\<rparr>, m));
     n \<leftarrow> deref m node;
     (self, m) \<leftarrow>
       (if node_next n \<noteq> None
        then do { m \<leftarrow> set_prev m (node_next n) (node_prev n); Some (self, m) }
        else Some (self\<lparr>list_tail := node_prev n\<rparr>, m));
     let m = free_val self m (node_val n);
     m \<leftarrow> free_node m node;
     Some (if list_len self \<noteq> 0 then self\<lparr>list_len := list_len self - 1\<rparr> else self, m)
   }"

text \<open>\<^verbatim>\<open>while (len--)\<close> of \<^verbatim>\<open>list_destroy\<close>; the list object itself is released at the end.\<close>

fun list_destroy_loop :: "nat \<Rightarrow> 'v List \<Rightarrow> ptr \<Rightarrow> 'v node_mem \<Rightarrow> 'v node_mem option" where
  "list_destroy_loop 0 self cur m = Some m"
| "list_destroy_loop (Suc len) self cur m = do {
     n \<leftarrow> deref m cur;
     let nxt = node_next n;
     let m = free_val self m (node_val n);
     m \<leftarrow> free_node m cur;
     list_destroy_loop len self nxt m
   }"

definition list_destroy :: "'v List \<Rightarrow> 'v node_mem \<Rightarrow> 'v node_mem option" where
  "list_destroy self m = list_destroy_loop (unat (list_len self)) self (list_head self) m"

section \<open>Representation\<close>

fun first_or :: "nat list \<Rightarrow> ptr \<Rightarrow> ptr" where
  "first_or [] p = p"
| "first_or (a # as) p = Some a"

fun last_or :: "nat list \<Rightarrow> ptr \<Rightarrow> ptr" where
  "last_or [] p = p"
| "last_or (a # as) p = last_or as (Some a)"

text \<open>A segment of linked nodes between the neighbours \<open>p\<close> and \<open>q\<close>.\<close>

fun dseg :: "(nat \<rightharpoonup> 'v ListNode) \<Rightarrow> ptr \<Rightarrow> nat list \<Rightarrow> ptr \<Rightarrow> bool" where
  "dseg h p [] q \<longleftrightarrow> True"
| "dseg h p (a # as) q \<longleftrightarrow>
     h a \<noteq> None \<and> node_prev (the (h a)) = p \<and> node_next (the (h a)) = first_or as q \<and>
     dseg h (Some a) as q"

definition list_rep :: "'v List \<Rightarrow> 'v node_mem \<Rightarrow> nat list \<Rightarrow> bool" where
  "list_rep self m as \<longleftrightarrow> distinct as \<and> dseg (nodes m) None as None \<and>
     list_head self = first_or as None \<and> list_tail self = last_or as None \<and>
     length as < 2 ^ 32 \<and> list_len self = of_nat (length as)"

definition node_vals :: "'v node_mem \<Rightarrow> nat list \<Rightarrow> 'v list" where
  "node_vals m as = map (\<lambda>a. node_val (the (nodes m a))) as"

lemma first_or_append: "first_or (xs @ ys) p = first_or xs (first_or ys p)"
  by (cases xs) auto

lemma last_or_append: "last_or (xs @ ys) p = last_or ys (last_or xs p)"
  by (induction xs arbitrary: p) auto

lemma first_or_in: "as \<noteq> [] \<Longrightarrow> first_or as p = Some (hd as)"
  by (cases as) auto

lemma last_or_in: "as \<noteq> [] \<Longrightarrow> last_or as p = Some (last as)"
  by (induction as arbitrary: p) auto

lemma dseg_append:
  "dseg h p (xs @ ys) q \<longleftrightarrow> dseg h p xs (first_or ys q) \<and> dseg h (last_or xs p) ys q"
  by (induction xs arbitrary: p) (auto simp: first_or_append)

lemma dseg_frame [simp]: "a \<notin> set as \<Longrightarrow> dseg (h(a := x)) p as q = dseg h p as q"
  by (induction as arbitrary: p) auto

lemma u32_length_zero: "n < 4294967296 \<Longrightarrow> (of_nat n :: u32) = 0 \<longleftrightarrow> n = 0"
  by (auto simp: word_of_nat_eq_0_iff dest: nat_dvd_not_less)

lemma u32_Suc_nonzero:
  "n < 4294967295 \<Longrightarrow> 1 + (of_nat n :: u32) \<noteq> 0" "n < 4294967294 \<Longrightarrow> 2 + (of_nat n :: u32) \<noteq> 0"
  using u32_length_zero [of "1 + n"] u32_length_zero [of "2 + n"] by simp_all

lemma list_len_nonzero: "list_rep self m as \<Longrightarrow> list_len self = 0 \<longleftrightarrow> as = []"
  by (simp add: list_rep_def u32_length_zero)

lemma unat_list_len: "list_rep self m as \<Longrightarrow> unat (list_len self) = length as"
  by (simp add: list_rep_def unat_of_nat)

lemma list_rep_alloc: "list_rep self m as \<Longrightarrow> a \<in> set as \<Longrightarrow> \<exists>n. nodes m a = Some n"
  by (auto simp: list_rep_def dseg_append in_set_conv_decomp split: option.splits)

lemmas store_simps = deref_def set_node_def free_node_def free_val_def

section \<open>Refinement of the operations\<close>

text \<open>What an operation that neither allocates nor frees keeps of the store.\<close>

definition same_vals :: "'v node_mem \<Rightarrow> 'v node_mem \<Rightarrow> bool" where
  "same_vals m m' \<longleftrightarrow> freed m' = freed m \<and>
     (\<forall>b. map_option node_val (nodes m' b) = map_option node_val (nodes m b))"

lemma list_rpush_refines:
  assumes R: "list_rep self m as" and a: "a \<notin> set as" "nodes m a = Some n" and len: "length as + 1 < 2 ^ 32"
  shows "\<exists>self' m'. list_rpush self (Some a) m = Some (Some a, self', m') \<and> list_rep self' m' (as @ [a]) \<and>
    list_free self' = list_free self \<and> same_vals m m'"
proof (cases as rule: rev_cases)
  case Nil
  then show ?thesis
    using assms by (simp add: list_rpush_def list_len_nonzero [OF R] store_simps list_rep_def same_vals_def)
next
  case (snoc bs b)
  obtain nb where nb: "nodes m b = Some nb"
    using list_rep_alloc [OF R, of b] snoc by auto
  have "b \<noteq> a" "b \<notin> set bs" "a \<notin> set bs"
    using a R snoc by (auto simp: list_rep_def)
  then show ?thesis
    using assms snoc nb
    by (simp add: list_rpush_def list_len_nonzero [OF R] store_simps list_rep_def dseg_append
        first_or_append last_or_append same_vals_def u32_Suc_nonzero)
qed

lemma list_lpush_refines:
  assumes R: "list_rep self m as" and a: "a \<notin> set as" "nodes m a = Some n" and len: "length as + 1 < 2 ^ 32"
  shows "\<exists>self' m'. list_lpush self (Some a) m = Some (Some a, self', m') \<and> list_rep self' m' (a # as) \<and>
    list_free self' = list_free self \<and> same_vals m m'"
proof (cases as)
  case Nil
  then show ?thesis
    using assms by (simp add: list_lpush_def list_len_nonzero [OF R] store_simps list_rep_def same_vals_def)
next
  case (Cons b bs)
  obtain nb where nb: "nodes m b = Some nb"
    using list_rep_alloc [OF R, of b] Cons by auto
  have "b \<noteq> a" "b \<notin> set bs" "a \<notin> set bs"
    using a R Cons by (auto simp: list_rep_def)
  then show ?thesis
    using assms Cons nb
    by (simp add: list_lpush_def list_len_nonzero [OF R] store_simps list_rep_def same_vals_def u32_Suc_nonzero)
qed

lemma list_len_pred:
  assumes "list_rep self m as" and "length as = Suc (length bs)"
  shows "list_len self - 1 = of_nat (length bs)" and "list_len self - 1 = 0 \<longleftrightarrow> bs = []"
  using assms by (simp_all add: list_rep_def u32_length_zero)

lemma list_rpop_refines:
  assumes R: "list_rep self m (as @ [a])"
  shows "\<exists>self' m'. list_rpop self m = Some (Some a, self', m') \<and> list_rep self' m' as \<and>
    list_free self' = list_free self \<and> same_vals m m'"
proof (cases as rule: rev_cases)
  case Nil
  with R show ?thesis
    by (auto simp: list_rpop_def list_len_nonzero [OF R] store_simps list_rep_def same_vals_def)
next
  case (snoc bs b)
  obtain na nb where n: "nodes m a = Some na" "nodes m b = Some nb"
    using list_rep_alloc [OF R] snoc by fastforce
  have "b \<noteq> a" "b \<notin> set bs" "a \<notin> set bs"
    using R snoc by (auto simp: list_rep_def)
  then show ?thesis
    using R snoc n list_len_pred [OF R, of as]
    by (simp add: list_rpop_def list_len_nonzero [OF R] store_simps list_rep_def dseg_append
        first_or_append last_or_append same_vals_def u32_Suc_nonzero Let_def)
qed

lemma list_lpop_refines:
  assumes R: "list_rep self m (a # as)"
  shows "\<exists>self' m'. list_lpop self m = Some (Some a, self', m') \<and> list_rep self' m' as \<and>
    list_free self' = list_free self \<and> same_vals m m'"
proof (cases as)
  case Nil
  with R show ?thesis
    by (auto simp: list_lpop_def list_len_nonzero [OF R] store_simps list_rep_def same_vals_def)
next
  case (Cons b bs)
  obtain na nb where n: "nodes m a = Some na" "nodes m b = Some nb"
    using list_rep_alloc [OF R] Cons by fastforce
  have "b \<noteq> a" "b \<notin> set bs" "a \<notin> set bs"
    using R Cons by (auto simp: list_rep_def)
  then show ?thesis
    using R Cons n list_len_pred [OF R, of as]
    by (simp add: list_lpop_def list_len_nonzero [OF R] store_simps list_rep_def same_vals_def u32_Suc_nonzero Let_def)
qed

lemma list_remove_refines:
  assumes R: "list_rep self m (xs @ a # ys)" and n: "nodes m a = Some n"
  shows "\<exists>self' m'. list_remove self (Some a) m = Some (self', m') \<and> list_rep self' m' (xs @ ys) \<and>
    list_free self' = list_free self \<and>
    freed m' = freed m @ (if list_free self then [node_val n] else []) \<and> nodes m' a = None \<and>
    (\<forall>b. b \<noteq> a \<longrightarrow> map_option node_val (nodes m' b) = map_option node_val (nodes m b))"
proof -
  have n': "node_prev n = last_or xs None" "node_next n = first_or ys None"
    using R n by (simp_all add: list_rep_def dseg_append)
  have l: "list_len self - 1 = of_nat (length (xs @ ys))" "list_len self \<noteq> 0"
    using list_len_pred [OF R, of "xs @ ys"] list_len_nonzero [OF R] by simp_all
  have d: "a \<notin> set xs" "a \<notin> set ys"
    using R by (auto simp: list_rep_def)
  show ?thesis
  proof (cases xs rule: rev_cases)
    case xs: Nil
    show ?thesis
    proof (cases ys)
      case Nil
      with xs n n' l d R show ?thesis
        by (simp add: list_remove_def store_simps list_rep_def)
    next
      case (Cons y ys')
      obtain ny where ny: "nodes m y = Some ny" using list_rep_alloc [OF R] Cons by fastforce
      with Cons xs n n' l d R show ?thesis
        by (simp add: list_remove_def store_simps list_rep_def)
    qed
  next
    case xs: (snoc xs' x)
    obtain nx where nx: "nodes m x = Some nx" using list_rep_alloc [OF R] xs by fastforce
    show ?thesis
    proof (cases ys)
      case Nil
      with xs n nx n' l d R show ?thesis
        by (simp add: list_remove_def store_simps list_rep_def dseg_append first_or_append last_or_append)
    next
      case (Cons y ys')
      obtain ny where ny: "nodes m y = Some ny" using list_rep_alloc [OF R] Cons by fastforce
      have "x \<noteq> y" "x \<notin> set xs'" "y \<notin> set xs'" "y \<notin> set ys'" "x \<notin> set ys'"
        using R Cons xs by (auto simp: list_rep_def)
      with Cons xs n nx ny n' l d R show ?thesis
        by (simp add: list_remove_def store_simps list_rep_def dseg_append first_or_append last_or_append)
    qed
  qed
qed


text \<open>Iteration from the head visits the nodes in order, from the tail in reverse order.\<close>

lemma list_iterator_next_head:
  assumes "dseg (nodes m) p (a # as) None"
  shows "list_iterator_next \<lparr>it_next = Some a, it_direction = LIST_HEAD\<rparr> m =
    Some (Some a, \<lparr>it_next = first_or as None, it_direction = LIST_HEAD\<rparr>)"
  using assms by (auto simp: list_iterator_next_def deref_def)

lemma list_iterator_next_tail:
  assumes "dseg (nodes m) None (as @ [a]) q"
  shows "list_iterator_next \<lparr>it_next = Some a, it_direction = LIST_TAIL\<rparr> m =
    Some (Some a, \<lparr>it_next = last_or as None, it_direction = LIST_TAIL\<rparr>)"
  using assms by (auto simp: list_iterator_next_def deref_def dseg_append)

definition list_matches :: "'v List \<Rightarrow> 'v \<Rightarrow> 'v \<Rightarrow> bool" where
  "list_matches self v w = (case list_match self of Some match \<Rightarrow> match v w | None \<Rightarrow> v = w)"

lemma list_find_loop_correct:
  "dseg (nodes m) p (a # as) None \<Longrightarrow>
     list_find_loop self v m \<lparr>it_next = first_or as None, it_direction = LIST_HEAD\<rparr> (Some a) =
       Some (find (\<lambda>a. list_matches self v (node_val (the (nodes m a)))) (a # as))"
proof (induction as arbitrary: p a)
  case Nil
  then obtain n where "nodes m a = Some n" "node_next n = None"
    by auto
  then show ?case
    by (subst list_find_loop.simps, cases "list_match self")
      (auto simp: deref_def list_matches_def list_iterator_next_def list_find_loop.simps [of _ _ _ _ None])
next
  case (Cons b bs)
  have IH: "list_find_loop self v m \<lparr>it_next = first_or bs None, it_direction = LIST_HEAD\<rparr> (Some b) =
       Some (find (\<lambda>a. list_matches self v (node_val (the (nodes m a)))) (b # bs))"
    using Cons.prems by (intro Cons.IH [of "Some a"]) simp
  have "list_iterator_next \<lparr>it_next = Some b, it_direction = LIST_HEAD\<rparr> m =
    Some (Some b, \<lparr>it_next = first_or bs None, it_direction = LIST_HEAD\<rparr>)"
    using Cons.prems by (intro list_iterator_next_head [of _ "Some a"]) simp
  moreover obtain n where "nodes m a = Some n" "node_next n = Some b"
    using Cons.prems by auto
  ultimately show ?case
    using IH by (subst list_find_loop.simps, cases "list_match self") (auto simp: deref_def list_matches_def)
qed

lemma list_find_correct:
  assumes R: "list_rep self m as"
  shows "list_find True self v m = Some (find (\<lambda>a. list_matches self v (node_val (the (nodes m a)))) as)"
proof (cases as)
  case Nil
  with R show ?thesis
    by (simp add: list_find_def list_iterator_new_def list_iterator_new_from_node_def
        list_iterator_next_def list_rep_def list_find_loop.simps [of _ _ _ _ None])
next
  case (Cons b bs)
  with R have D: "dseg (nodes m) None (b # bs) None" and h: "list_head self = Some b"
    by (simp_all add: list_rep_def)
  show ?thesis
    using list_find_loop_correct [OF D] list_iterator_next_head [OF D] Cons h
    by (simp add: list_find_def list_iterator_new_def list_iterator_new_from_node_def)
qed

lemma list_at_loop_head:
  "dseg (nodes m) p (a # as) None \<Longrightarrow> k < length (a # as) \<Longrightarrow>
     list_at_loop k m \<lparr>it_next = first_or as None, it_direction = LIST_HEAD\<rparr> (Some a) = Some (Some ((a # as) ! k))"
proof (induction as arbitrary: p a k)
  case Nil
  then show ?case by simp
next
  case (Cons b bs)
  show ?case
  proof (cases k)
    case (Suc j)
    have "list_iterator_next \<lparr>it_next = Some b, it_direction = LIST_HEAD\<rparr> m =
      Some (Some b, \<lparr>it_next = first_or bs None, it_direction = LIST_HEAD\<rparr>)"
      using Cons.prems by (intro list_iterator_next_head [of _ "Some a"]) simp
    with Suc Cons.IH [of "Some a" b j] Cons.prems show ?thesis by simp
  qed simp
qed

lemma list_at_loop_tail:
  "dseg (nodes m) None (as @ [a]) q \<Longrightarrow> k < length (as @ [a]) \<Longrightarrow>
     list_at_loop k m \<lparr>it_next = last_or as None, it_direction = LIST_TAIL\<rparr> (Some a) =
       Some (Some (rev (as @ [a]) ! k))"
proof (induction as arbitrary: q a k rule: rev_induct)
  case Nil
  then show ?case by simp
next
  case (snoc b bs)
  show ?case
  proof (cases k)
    case (Suc j)
    have "list_iterator_next \<lparr>it_next = Some b, it_direction = LIST_TAIL\<rparr> m =
      Some (Some b, \<lparr>it_next = last_or bs None, it_direction = LIST_TAIL\<rparr>)"
      using snoc.prems by (intro list_iterator_next_tail [of _ _ _ "Some a"]) (simp add: dseg_append first_or_append)
    with Suc snoc.IH [of b "Some a" j] snoc.prems show ?thesis
      by (simp add: last_or_append dseg_append first_or_append)
  qed simp
qed

lemma list_at_correct:
  assumes R: "list_rep self m as"
  shows "list_at True self i m =
    Some (if 0 \<le> i \<and> i < int (length as) then Some (as ! nat i)
          else if i < 0 \<and> - i \<le> int (length as) then Some (rev as ! nat (- i - 1)) else None)"
proof (cases "i < 0")
  case neg: True
  show ?thesis
  proof (cases "- i \<le> int (length as)")
    case True
    with neg obtain bs b where bs: "as = bs @ [b]"
      by (cases as rule: rev_cases) auto
    with R have D: "dseg (nodes m) None (bs @ [b]) None" and h: "list_tail self = Some b"
      by (simp_all add: list_rep_def last_or_append)
    show ?thesis
      using list_at_loop_tail [OF D, of "nat (- i - 1)"] list_iterator_next_tail [OF D] h bs neg True
      by (simp add: list_at_def unat_list_len [OF R] list_iterator_new_def list_iterator_new_from_node_def
          not_int_def nat_less_iff)
  next
    case False
    with neg show ?thesis
      by (simp add: list_at_def unat_list_len [OF R] not_int_def nat_less_iff)
  qed
next
  case pos: False
  show ?thesis
  proof (cases "i < int (length as)")
    case True
    with pos obtain b bs where bs: "as = b # bs"
      by (cases as) auto
    with R have D: "dseg (nodes m) None (b # bs) None" and h: "list_head self = Some b"
      by (simp_all add: list_rep_def)
    show ?thesis
      using list_at_loop_head [OF D, of "nat i"] list_iterator_next_head [OF D] h bs pos True
      by (simp add: list_at_def unat_list_len [OF R] list_iterator_new_def list_iterator_new_from_node_def nat_less_iff)
  next
    case False
    with pos show ?thesis
      by (simp add: list_at_def unat_list_len [OF R] nat_less_iff)
  qed
qed

text \<open>Destroying a list frees every node once and every value in order, and nothing else.\<close>

lemma list_destroy_loop_correct:
  "dseg (nodes m) p as None \<Longrightarrow> distinct as \<Longrightarrow>
     list_destroy_loop (length as) self (first_or as None) m =
       Some (m\<lparr>nodes := (\<lambda>a. if a \<in> set as then None else nodes m a),
               freed := freed m @ (if list_free self then node_vals m as else [])\<rparr>)"
proof (induction as arbitrary: m p)
  case Nil
  then show ?case by (simp add: node_vals_def)
next
  case (Cons a as)
  then obtain n where n: "nodes m a = Some n" "node_next n = first_or as None"
    by auto
  let ?f = "freed m @ (if list_free self then [node_val n] else [])"
  let ?m = "m\<lparr>nodes := (nodes m)(a := None), freed := ?f\<rparr>"
  have step: "list_destroy_loop (Suc (length as)) self (Some a) m = list_destroy_loop (length as) self (first_or as None) ?m"
    using n by (cases m) (simp add: store_simps)
  have vals: "node_vals (m\<lparr>nodes := (nodes m)(a := None), freed := f\<rparr>) as = node_vals m as"
    "node_vals m (a # as) = node_val n # node_vals m as" for f
    using Cons.prems n by (auto simp: node_vals_def)
  have nodes: "nodes ?m = (nodes m)(a := None)" "freed ?m = ?f"
    by simp_all
  have "dseg (nodes ?m) (Some a) as None"
    unfolding nodes using Cons.prems by (subst dseg_frame) simp_all
  then have "list_destroy_loop (length as) self (first_or as None) ?m =
    Some (?m\<lparr>nodes := (\<lambda>b. if b \<in> set as then None else nodes ?m b),
               freed := freed ?m @ (if list_free self then node_vals ?m as else [])\<rparr>)"
    using Cons.prems(2) by (intro Cons.IH [of ?m "Some a"]) (simp_all only: distinct.simps)
  moreover have "(\<lambda>b. if b \<in> set as then None else nodes ?m b) = (\<lambda>b. if b \<in> set (a # as) then None else nodes m b)"
    by auto
  ultimately show ?case
    by (cases "list_free self") (simp_all add: step vals del: list_destroy_loop.simps)
qed

lemma list_destroy_correct:
  assumes R: "list_rep self m as"
  shows "list_destroy self m =
       Some (m\<lparr>nodes := (\<lambda>a. if a \<in> set as then None else nodes m a),
               freed := freed m @ (if list_free self then node_vals m as else [])\<rparr>)"
  using R list_destroy_loop_correct [of m None as self] unat_list_len [OF R]
  by (simp add: list_destroy_def list_rep_def)


section \<open>The interface of a waiting list\<close>

text \<open>
  What the client relies on: a waiting list holds nodes in the order they were appended, each with
  its address and value; a node can be appended at a fresh address and unlinked at any time.
  \<open>ok\<close> is the state's own condition for allocating a node at an address.
\<close>

fun fold_opt :: "('a \<Rightarrow> 's \<Rightarrow> 's option) \<Rightarrow> 'a list \<Rightarrow> 's \<Rightarrow> 's option" where
  "fold_opt f [] s = Some s"
| "fold_opt f (x # xs) s = Option.bind (f x s) (fold_opt f xs)"

locale wait_list =
  fixes contents :: "'s \<Rightarrow> (nat \<times> 'v) list \<Rightarrow> bool"
    and append :: "nat \<times> 'v \<Rightarrow> 's \<Rightarrow> 's option"
    and unlink :: "nat \<Rightarrow> 's \<Rightarrow> 's option"
    and capacity :: nat
  assumes contents_distinct: "contents s xs \<Longrightarrow> distinct (map fst xs)"
    and append_contents: "contents s xs \<Longrightarrow> fst x \<notin> fst ` set xs \<Longrightarrow> length xs < capacity \<Longrightarrow>
      \<exists>s'. append x s = Some s' \<and> contents s' (xs @ [x])"
    and unlink_contents: "contents s (xs @ x # ys) \<Longrightarrow> \<exists>s'. unlink (fst x) s = Some s' \<and> contents s' (xs @ ys)"
begin

lemma append_all:
  "contents s xs \<Longrightarrow> distinct (map fst (xs @ ys)) \<Longrightarrow> length xs + length ys \<le> capacity \<Longrightarrow>
     \<exists>s'. fold_opt append ys s = Some s' \<and> contents s' (xs @ ys)"
proof (induction ys arbitrary: xs s)
  case Nil
  then show ?case by simp
next
  case (Cons y ys)
  then obtain s1 where "append y s = Some s1" "contents s1 (xs @ [y])"
    using append_contents [of s xs y] by auto
  moreover from this obtain s' where "fold_opt append ys s1 = Some s'" "contents s' ((xs @ [y]) @ ys)"
    using Cons.IH [of s1 "xs @ [y]"] Cons.prems by auto
  ultimately show ?case by simp
qed

lemma unlink_filter:
  assumes "contents s xs" and "a \<in> fst ` set xs"
  shows "\<exists>s'. unlink a s = Some s' \<and> contents s' (filter (\<lambda>x. fst x \<noteq> a) xs)"
proof -
  obtain x ys zs where x: "xs = ys @ x # zs" "fst x = a"
    using assms(2) by (metis image_iff split_list)
  then have "fst ` set ys \<inter> {a} = {}" "fst ` set zs \<inter> {a} = {}"
    using contents_distinct [OF assms(1)] by auto
  then have "filter (\<lambda>x. fst x \<noteq> a) ys = ys" "filter (\<lambda>x. fst x \<noteq> a) zs = zs"
    by (auto simp: filter_id_conv)
  then show ?thesis
    using unlink_contents [of s ys x zs] assms(1) x by simp
qed

lemma sweep:
  "contents s xs \<Longrightarrow> distinct as \<Longrightarrow> set as \<subseteq> fst ` set xs \<Longrightarrow>
     \<exists>s'. fold_opt unlink as s = Some s' \<and> contents s' (filter (\<lambda>x. fst x \<notin> set as) xs)"
proof (induction as arbitrary: xs s)
  case Nil
  then show ?case by simp
next
  case (Cons a as)
  then obtain s1 where s1: "unlink a s = Some s1" "contents s1 (filter (\<lambda>x. fst x \<noteq> a) xs)"
    using unlink_filter [of s xs a] by auto
  have "set as \<subseteq> fst ` set (filter (\<lambda>x. fst x \<noteq> a) xs)"
  proof
    fix t assume "t \<in> set as"
    then have "t \<in> fst ` set xs" "t \<noteq> a"
      using Cons.prems by auto
    then show "t \<in> fst ` set (filter (\<lambda>x. fst x \<noteq> a) xs)" by auto
  qed
  with Cons.IH [OF s1(2)] Cons.prems obtain s' where
    "fold_opt unlink as s1 = Some s'" "contents s' (filter (\<lambda>x. fst x \<notin> set as) (filter (\<lambda>x. fst x \<noteq> a) xs))"
    by auto
  moreover have "filter (\<lambda>x. fst x \<notin> set as) (filter (\<lambda>x. fst x \<noteq> a) xs) = filter (\<lambda>x. fst x \<notin> set (a # as)) xs"
    by (simp add: conj_commute)
  ultimately show ?case
    using s1 by auto
qed

end

subsection \<open>The linked list provides it\<close>

definition llist_contents :: "'v List \<times> 'v node_mem \<Rightarrow> (nat \<times> 'v) list \<Rightarrow> bool" where
  "llist_contents s xs \<longleftrightarrow>
     list_rep (fst s) (snd s) (map fst xs) \<and> node_vals (snd s) (map fst xs) = map snd xs"

text \<open>\<^verbatim>\<open>list_node_new\<close> followed by \<^verbatim>\<open>list_rpush\<close>, as the client appends to its lists.\<close>

definition llist_append :: "nat \<times> 'v \<Rightarrow> 'v List \<times> 'v node_mem \<Rightarrow> ('v List \<times> 'v node_mem) option" where
  "llist_append x s =
     (let (node, m) = list_node_new (Some (fst x)) (snd x) (snd s)
      in map_option snd (list_rpush (fst s) node m))"

definition llist_unlink :: "nat \<Rightarrow> 'v List \<times> 'v node_mem \<Rightarrow> ('v List \<times> 'v node_mem) option" where
  "llist_unlink a s = list_remove (fst s) (Some a) (snd s)"

lemma dseg_fresh: "list_rep self m as \<Longrightarrow> a \<notin> set as \<Longrightarrow> list_rep self (m\<lparr>nodes := (nodes m)(a \<mapsto> n)\<rparr>) as"
  by (simp add: list_rep_def)

lemma node_vals_cong:
  assumes "\<And>a. a \<in> set as \<Longrightarrow> map_option node_val (nodes m' a) = map_option node_val (nodes m a)"
    and "\<And>a. a \<in> set as \<Longrightarrow> \<exists>n. nodes m' a = Some n"
  shows "node_vals m' as = node_vals m as"
proof -
  have "node_val (the (nodes m' a)) = node_val (the (nodes m a))" if "a \<in> set as" for a
    using assms(1) [OF that] assms(2) [OF that] by (metis map_option_eq_Some option.sel)
  then show ?thesis
    by (simp add: node_vals_def)
qed

lemma llist_append_contents:
  assumes C: "llist_contents s xs" and a: "fst x \<notin> fst ` set xs" and len: "length xs < 4294967295"
  shows "\<exists>s'. llist_append x s = Some s' \<and> llist_contents s' (xs @ [x])"
proof -
  obtain self m where s: "s = (self, m)" by (cases s)
  let ?n = "\<lparr>node_prev = None, node_next = None, node_val = snd x\<rparr>"
  let ?m = "m\<lparr>nodes := (nodes m)(fst x \<mapsto> ?n)\<rparr>"
  have R: "list_rep self ?m (map fst xs)"
    using C a s by (intro dseg_fresh) (auto simp: llist_contents_def)
  have "node_vals ?m (map fst xs) = node_vals m (map fst xs)"
    using a by (auto simp: node_vals_def image_iff)
  then have v: "node_vals ?m (map fst (xs @ [x])) = map snd (xs @ [x])"
    using C s by (simp add: llist_contents_def node_vals_def)
  obtain self' m' where p: "list_rpush self (Some (fst x)) ?m = Some (Some (fst x), self', m')"
      "list_rep self' m' (map fst xs @ [fst x])" "same_vals ?m m'"
    using list_rpush_refines [OF R, of "fst x" ?n] a len by auto
  have "node_vals m' (map fst (xs @ [x])) = node_vals ?m (map fst (xs @ [x]))"
    using p(3) list_rep_alloc [OF p(2)] by (intro node_vals_cong) (simp_all add: same_vals_def)
  with p v s show ?thesis
    by (simp add: llist_append_def list_node_new_def llist_contents_def)
qed

lemma llist_unlink_contents:
  assumes C: "llist_contents s (xs @ x # ys)"
  shows "\<exists>s'. llist_unlink (fst x) s = Some s' \<and> llist_contents s' (xs @ ys)"
proof -
  obtain self m where s: "s = (self, m)" by (cases s)
  have R: "list_rep self m (map fst xs @ fst x # map fst ys)"
    using C s by (simp add: llist_contents_def)
  obtain n where n: "nodes m (fst x) = Some n"
    using list_rep_alloc [OF R] by auto
  obtain self' m' where p: "list_remove self (Some (fst x)) m = Some (self', m')"
      "list_rep self' m' (map fst xs @ map fst ys)"
      "\<forall>b. b \<noteq> fst x \<longrightarrow> map_option node_val (nodes m' b) = map_option node_val (nodes m b)"
    using list_remove_refines [OF R n] by blast
  have "fst x \<notin> set (map fst xs @ map fst ys)"
    using R by (auto simp: list_rep_def)
  then have "node_vals m' (map fst xs @ map fst ys) = node_vals m (map fst xs @ map fst ys)"
    using p(3) list_rep_alloc [OF p(2)] by (intro node_vals_cong) metis+
  with p s C show ?thesis
    by (simp add: llist_unlink_def llist_contents_def node_vals_def)
qed

interpretation linked: wait_list llist_contents llist_append llist_unlink 4294967295
proof unfold_locales
  show "distinct (map fst xs)" if "llist_contents s xs" for s :: "'v List \<times> 'v node_mem" and xs
    using that by (simp add: llist_contents_def list_rep_def)
qed (use llist_append_contents llist_unlink_contents in blast)+


section \<open>Properties\<close>

text \<open>
  C19: A new list to which nodes are appended one by one and from which any set of them is then
  unlinked, in any order, represents the appended sequence without the unlinked nodes, in the
  original order and with the original values: no link is lost and no operation touches memory that is
  not allocated.
\<close>

theorem list_append_sweep:
  assumes "distinct (map fst xs)" and "length xs < 2 ^ 32" and "distinct as" and "set as \<subseteq> fst ` set xs"
  shows "\<exists>self self' m'. list_new True = Some self \<and>
    Option.bind (fold_opt llist_append xs (self, m)) (fold_opt llist_unlink as) = Some (self', m') \<and>
    llist_contents (self', m') (filter (\<lambda>x. fst x \<notin> set as) xs)"
proof -
  obtain self where self: "list_new True = Some (self :: 'a List)" "llist_contents (self, m) []"
    by (simp add: list_new_def llist_contents_def list_rep_def node_vals_def)
  obtain s1 where s1: "fold_opt llist_append xs (self, m) = Some s1" "llist_contents s1 xs"
    using linked.append_all [OF self(2), of xs] assms by auto
  obtain s2 where "fold_opt llist_unlink as s1 = Some s2" "llist_contents s2 (filter (\<lambda>x. fst x \<notin> set as) xs)"
    using linked.sweep [OF s1(2) assms(3,4)] by blast
  with self s1 show ?thesis
    by (cases s2) auto
qed

theorem list_append_sweep_witness:
  "\<exists>self self' m'. list_new True = Some self \<and>
    Option.bind (fold_opt llist_append [(5, True), (7, False), (9, True)] (self, \<lparr>nodes = Map.empty, freed = []\<rparr>))
      (fold_opt llist_unlink [7, 5]) = Some (self', m') \<and>
    llist_contents (self', m') (filter (\<lambda>x. fst x \<notin> set [7, 5]) [(5, True), (7, False), (9, True)])"
  by (rule list_append_sweep) auto

text \<open>
  On a well-formed list, \<^verbatim>\<open>list_find\<close> returns the first node that matches,
  \<^verbatim>\<open>list_at\<close> indexes from the head, or from the tail for a negative index, and
  \<^verbatim>\<open>list_destroy\<close> releases exactly the nodes of the list, handing each value to the list's
  free function in order.
\<close>

theorem list_lookup_destroy:
  assumes "list_rep self m as"
  shows "list_find True self v m = Some (find (\<lambda>a. list_matches self v (node_val (the (nodes m a)))) as) \<and>
    list_at True self i m =
      Some (if 0 \<le> i \<and> i < int (length as) then Some (as ! nat i)
            else if i < 0 \<and> - i \<le> int (length as) then Some (rev as ! nat (- i - 1)) else None) \<and>
    list_destroy self m =
      Some (m\<lparr>nodes := (\<lambda>a. if a \<in> set as then None else nodes m a),
              freed := freed m @ (if list_free self then node_vals m as else [])\<rparr>)"
  using assms by (simp only: list_find_correct list_at_correct list_destroy_correct simp_thms)

definition list_example :: "bool List \<times> bool node_mem" where
  "list_example =
     (\<lparr>list_head = Some 5, list_tail = Some 7, list_len = 2, list_free = True, list_match = None\<rparr>,
      \<lparr>nodes = [5 \<mapsto> \<lparr>node_prev = None, node_next = Some 7, node_val = True\<rparr>,
                7 \<mapsto> \<lparr>node_prev = Some 5, node_next = None, node_val = False\<rparr>], freed = []\<rparr>)"

theorem list_lookup_destroy_witness:
  "list_find True (fst list_example) False (snd list_example) =
      Some (find (\<lambda>a. list_matches (fst list_example) False (node_val (the (nodes (snd list_example) a)))) [5, 7]) \<and>
    list_at True (fst list_example) (- 1) (snd list_example) =
      Some (if 0 \<le> - (1 :: int) \<and> - (1 :: int) < int (length [5, 7 :: nat]) then Some ([5, 7] ! nat (- 1))
            else if - (1 :: int) < 0 \<and> - (- 1) \<le> int (length [5, 7 :: nat]) then Some (rev [5, 7] ! nat (- (- 1) - 1)) else None) \<and>
    list_destroy (fst list_example) (snd list_example) =
      Some ((snd list_example)\<lparr>nodes := (\<lambda>a. if a \<in> set [5, 7] then None else nodes (snd list_example) a),
              freed := freed (snd list_example) @
                (if list_free (fst list_example) then node_vals (snd list_example) [5, 7] else [])\<rparr>)"
  by (rule list_lookup_destroy) (simp add: list_rep_def list_example_def)

end
