(* ===== verification/Mqtt_State.thy ===== *)
theory Mqtt_State
  imports Mqtt_Connect_Packet Mqtt_Topic Hal_Timer Utils_List
begin

text \<open>
  The state of the MQTT client and the environment it runs in. \<open>Qcloud_IoT_Client\<close> is the client
  structure of \<^verbatim>\<open>mqtt_client.h\<close>; \<open>sys\<close> extends it with what lies outside: the heap of topic
  filter strings, the calls made to the application's callbacks, and the state \<open>'w\<close> of the
  environment. The environment (clock, network, \<^verbatim>\<open>malloc\<close>, \<^verbatim>\<open>rand\<close>) is a record of functions on
  \<open>'w\<close>.

  The waiting lists are sequences of nodes with their addresses: \<^verbatim>\<open>Utils_List\<close> shows that the
  linked list implements appending to and unlinking from such a sequence. Mutexes are flags: locking a
  mutex that is held, or releasing one that is not, has no result. A callback is recorded and changes
  no client state.
\<close>

section \<open>The client structure\<close>

datatype MQTTNodeState = MQTT_NODE_STATE_NORMANL | MQTT_NODE_STATE_INVALID

text \<open>The topic filter is the address of a heap string; handlers are identified by numbers.\<close>

record SubTopicHandle =
  topic_filter :: ptr
  message_handler :: "nat option"
  sub_event_handler :: "nat option"
  handler_user_data :: nat
  handle_qos :: QoS

definition null_handle :: SubTopicHandle where
  "null_handle = \<lparr>topic_filter = None, message_handler = None, sub_event_handler = None,
     handler_user_data = 0, handle_qos = QOS0\<rparr>"

record QcloudIotPubInfo =
  pub_start_time :: Timer
  pub_node_state :: MQTTNodeState
  pub_msg_id :: u16
  pub_len :: u32
  pub_buf :: "byte list"

record QcloudIotSubInfo =
  sub_type :: MessageTypes
  sub_msg_id :: u16
  sub_start_time :: Timer
  sub_node_state :: MQTTNodeState
  sub_handler :: SubTopicHandle
  sub_len :: u16
  sub_buf :: "byte list"

datatype MQTTEventType = MQTT_EVENT_UNDEF | MQTT_EVENT_DISCONNECT | MQTT_EVENT_RECONNECT
  | MQTT_EVENT_SUBCRIBE_SUCCESS | MQTT_EVENT_SUBCRIBE_TIMEOUT | MQTT_EVENT_SUBCRIBE_NACK
  | MQTT_EVENT_UNSUBCRIBE_SUCCESS | MQTT_EVENT_UNSUBCRIBE_TIMEOUT | MQTT_EVENT_UNSUBCRIBE_NACK
  | MQTT_EVENT_PUBLISH_SUCCESS | MQTT_EVENT_PUBLISH_TIMEOUT | MQTT_EVENT_PUBLISH_NACK
  | MQTT_EVENT_PUBLISH_RECVEIVED | MQTT_EVENT_CLIENT_DESTROY | MQTT_EVENT_UNSUBSCRIBE

text \<open>A received message: the topic buffer is a copy, the payload points into the read buffer.\<close>

record MQTTMessage =
  msg_qos :: QoS
  msg_retained :: byte
  msg_dup :: byte
  msg_id :: "u16 option"
  msg_topic :: "byte list"
  msg_topic_len :: nat
  msg_payload :: nat
  msg_payload_len :: size_t

text \<open>Calls of the application: the event handler, a topic's event handler, a topic's message handler.\<close>

datatype upcall = Event MQTTEventType "u16 option" | EventMessage MQTTMessage
  | SubEvent nat MQTTEventType nat | Message nat MQTTMessage nat

definition MAX_MESSAGE_HANDLERS :: nat where "MAX_MESSAGE_HANDLERS = 10"
definition MAX_REPUB_NUM :: nat where "MAX_REPUB_NUM = 20"
definition MQTT_MAX_REPEAT_BUF_LEN :: nat where "MQTT_MAX_REPEAT_BUF_LEN = 10"
definition MAX_SIZE_OF_CLOUD_TOPIC :: nat where "MAX_SIZE_OF_CLOUD_TOPIC = 128"
definition MAX_PACKET_ID :: u16 where "MAX_PACKET_ID = 65535"
definition MAX_RECONNECT_WAIT_INTERVAL :: u32 where "MAX_RECONNECT_WAIT_INTERVAL = 60000"
definition QCLOUD_IOT_MQTT_MAX_REMAIN_WAIT_MS :: int where "QCLOUD_IOT_MQTT_MAX_REMAIN_WAIT_MS = 2000"
definition MQTT_PING_RETRY_TIMES :: byte where "MQTT_PING_RETRY_TIMES = 2"

abbreviation (input) NOTCONNECTED :: byte where "NOTCONNECTED \<equiv> 0"
abbreviation (input) CONNECTED :: byte where "CONNECTED \<equiv> 1"

record Qcloud_IoT_Client =
  is_connected :: byte
  was_manually_disconnected :: byte
  is_ping_outstanding :: byte
  next_packet_id :: u16
  command_timeout_ms :: u32
  current_reconnect_wait_interval :: u32
  counter_network_disconnected :: u32
  write_buf_size :: nat
  read_buf_size :: nat
  write_buf :: "byte list"
  read_buf :: "byte list"
  lock_generic :: bool
  lock_write_buf :: bool
  lock_list_pub :: bool
  lock_list_sub :: bool
  list_pub_wait_ack :: "(nat \<times> QcloudIotPubInfo) list"
  list_sub_wait_ack :: "(nat \<times> QcloudIotSubInfo) list"
  event_handle :: bool
  options :: MQTTConnectParams
  ping_timer :: Timer
  reconnect_delay_timer :: Timer
  sub_handles :: "SubTopicHandle list"
  repeat_packet_id_buf :: "u16 list"
  current_packet_id_cnt :: nat
  thread_running :: bool
  thread_exit_code :: int

record 'w sys = Qcloud_IoT_Client +
  strings :: "nat \<rightharpoonup> cstr"
  next_addr :: nat
  trace :: "upcall list"
  world :: 'w

section \<open>The environment\<close>

text \<open>
  \<open>net_read\<close> is given the length and the timeout and returns the code and the bytes stored;
  \<open>net_write\<close> is given the bytes and the timeout and returns the code and the number of bytes
  written; \<open>hal_rand\<close> is the sequence of \<^verbatim>\<open>rand()\<close> results after \<^verbatim>\<open>srand\<close>.
\<close>

record 'w env =
  gettimeofday :: "'w \<Rightarrow> timeval \<times> 'w"
  net_read :: "nat \<Rightarrow> int \<Rightarrow> 'w \<Rightarrow> int \<times> byte list \<times> 'w"
  net_write :: "byte list \<Rightarrow> int \<Rightarrow> 'w \<Rightarrow> int \<times> nat \<times> 'w"
  net_connect :: "'w \<Rightarrow> int \<times> 'w"
  net_disconnect :: "'w \<Rightarrow> 'w"
  net_is_connected :: "'w \<Rightarrow> bool \<times> 'w"
  hal_malloc :: "'w \<Rightarrow> bool \<times> 'w"
  hal_rand :: "'w \<Rightarrow> (nat \<Rightarrow> nat) \<times> 'w"

definition time_now :: "'w env \<Rightarrow> 'w sys \<Rightarrow> timeval \<times> 'w sys" where
  "time_now env s = (let (t, w) = gettimeofday env (world s) in (t, s\<lparr>world := w\<rparr>))"

definition expired :: "'w env \<Rightarrow> Timer \<Rightarrow> 'w sys \<Rightarrow> bool \<times> 'w sys" where
  "expired env timer s = (let (t, s) = time_now env s in (HAL_Timer_expired t timer, s))"

definition left_ms :: "'w env \<Rightarrow> Timer \<Rightarrow> 'w sys \<Rightarrow> int \<times> 'w sys" where
  "left_ms env timer s = (let (t, s) = time_now env s in (HAL_Timer_remain t timer, s))"

definition countdown_ms :: "'w env \<Rightarrow> u32 \<Rightarrow> 'w sys \<Rightarrow> Timer \<times> 'w sys" where
  "countdown_ms env ms s = (let (t, s) = time_now env s in (HAL_Timer_countdown_ms t ms, s))"

definition countdown :: "'w env \<Rightarrow> u32 \<Rightarrow> 'w sys \<Rightarrow> Timer \<times> 'w sys" where
  "countdown env secs s = (let (t, s) = time_now env s in (HAL_Timer_countdown t secs, s))"

definition HAL_Malloc :: "'w env \<Rightarrow> 'w sys \<Rightarrow> ptr \<times> 'w sys" where
  "HAL_Malloc env s =
     (let (ok, w) = hal_malloc env (world s)
      in if ok then (Some (next_addr s), s\<lparr>next_addr := next_addr s + 1, world := w\<rparr>)
         else (None, s\<lparr>world := w\<rparr>))"

text \<open>Only topic filter strings are freed through this; freeing NULL does nothing.\<close>

definition HAL_Free :: "ptr \<Rightarrow> 'w sys \<Rightarrow> 'w sys option" where
  "HAL_Free p s =
     (case p of
        None \<Rightarrow> Some s
      | Some a \<Rightarrow> if strings s a = None then None else Some (s\<lparr>strings := (strings s)(a := None)\<rparr>))"

definition str_at :: "'w sys \<Rightarrow> ptr \<Rightarrow> cstr option" where
  "str_at s p = Option.bind p (strings s)"

definition store_str :: "ptr \<Rightarrow> cstr \<Rightarrow> 'w sys \<Rightarrow> 'w sys option" where
  "store_str p str s = do { a \<leftarrow> p; Some (s\<lparr>strings := (strings s)(a \<mapsto> str)\<rparr>) }"

section \<open>Mutexes and callbacks\<close>

datatype mutex = Generic | WriteBuf | ListPub | ListSub

fun lock_held :: "mutex \<Rightarrow> 'w sys \<Rightarrow> bool" where
  "lock_held Generic s = lock_generic s"
| "lock_held WriteBuf s = lock_write_buf s"
| "lock_held ListPub s = lock_list_pub s"
| "lock_held ListSub s = lock_list_sub s"

fun set_lock :: "mutex \<Rightarrow> bool \<Rightarrow> 'w sys \<Rightarrow> 'w sys" where
  "set_lock Generic b s = s\<lparr>lock_generic := b\<rparr>"
| "set_lock WriteBuf b s = s\<lparr>lock_write_buf := b\<rparr>"
| "set_lock ListPub b s = s\<lparr>lock_list_pub := b\<rparr>"
| "set_lock ListSub b s = s\<lparr>lock_list_sub := b\<rparr>"

definition HAL_MutexLock :: "mutex \<Rightarrow> 'w sys \<Rightarrow> 'w sys option" where
  "HAL_MutexLock m s = (if lock_held m s then None else Some (set_lock m True s))"

definition HAL_MutexUnlock :: "mutex \<Rightarrow> 'w sys \<Rightarrow> 'w sys option" where
  "HAL_MutexUnlock m s = (if lock_held m s then Some (set_lock m False s) else None)"

definition upcall :: "upcall \<Rightarrow> 'w sys \<Rightarrow> 'w sys" where
  "upcall c s = s\<lparr>trace := trace s @ [c]\<rparr>"

text \<open>\<^verbatim>\<open>if (NULL != h_fp) h_fp(...)\<close> and the same for a topic's event handler.\<close>

definition notify :: "upcall \<Rightarrow> 'w sys \<Rightarrow> 'w sys" where
  "notify c s = (if event_handle s then upcall c s else s)"

definition notify_sub :: "SubTopicHandle \<Rightarrow> MQTTEventType \<Rightarrow> 'w sys \<Rightarrow> 'w sys" where
  "notify_sub h ev s =
     (case sub_event_handler h of None \<Rightarrow> s | Some f \<Rightarrow> upcall (SubEvent f ev (handler_user_data h)) s)"

section \<open>Small operations on the client\<close>

definition get_next_packet_id :: "'w sys \<Rightarrow> (u16 \<times> 'w sys) option" where
  "get_next_packet_id s = do {
     s \<leftarrow> HAL_MutexLock Generic s;
     let s = s\<lparr>next_packet_id := (if MAX_PACKET_ID = next_packet_id s then 1 else next_packet_id s + 1)\<rparr>;
     s \<leftarrow> HAL_MutexUnlock Generic s;
     Some (next_packet_id s, s)
   }"

definition set_client_conn_state :: "byte \<Rightarrow> 'w sys \<Rightarrow> 'w sys option" where
  "set_client_conn_state connected s = do {
     s \<leftarrow> HAL_MutexLock Generic s;
     let s = s\<lparr>is_connected := connected\<rparr>;
     HAL_MutexUnlock Generic s
   }"

definition get_client_conn_state :: "'w sys \<Rightarrow> (byte \<times> 'w sys) option" where
  "get_client_conn_state s = do {
     s \<leftarrow> HAL_MutexLock Generic s;
     let c = is_connected s;
     s \<leftarrow> HAL_MutexUnlock Generic s;
     Some (c, s)
   }"

definition get_packet_id_in_repeat_buf :: "'w sys \<Rightarrow> u16 \<Rightarrow> int option" where
  "get_packet_id_in_repeat_buf s packet_id =
     (if length (repeat_packet_id_buf s) < MQTT_MAX_REPEAT_BUF_LEN then None
      else if packet_id \<in> set (take MQTT_MAX_REPEAT_BUF_LEN (repeat_packet_id_buf s))
      then Some (uint packet_id) else Some (- 1))"

definition add_packet_id_to_repeat_buf :: "u16 \<Rightarrow> 'w sys \<Rightarrow> 'w sys option" where
  "add_packet_id_to_repeat_buf packet_id s = do {
     r \<leftarrow> get_packet_id_in_repeat_buf s packet_id;
     if r > 0 then Some s
     else do {
       b \<leftarrow> wr (repeat_packet_id_buf s) (current_packet_id_cnt s) packet_id;
       let cnt = current_packet_id_cnt s + 1;
       let cnt = (if cnt \<ge> MQTT_MAX_REPEAT_BUF_LEN then cnt mod MQTT_MAX_REPEAT_BUF_LEN else cnt);
       Some (s\<lparr>repeat_packet_id_buf := b, current_packet_id_cnt := cnt\<rparr>)
     }
   }"

definition reset_repeat_packet_id_buffer :: "'w sys \<Rightarrow> 'w sys" where
  "reset_repeat_packet_id_buffer s =
     s\<lparr>repeat_packet_id_buf := replicate MQTT_MAX_REPEAT_BUF_LEN 0, current_packet_id_cnt := 0\<rparr>"

end
