(* ===== verification/Mqtt_Net.thy ===== *)
theory Mqtt_Net
  imports Mqtt_State
begin

text \<open>
  Sending and receiving packets: \<^verbatim>\<open>send_mqtt_packet\<close> and \<^verbatim>\<open>_read_mqtt_packet\<close> of
  \<^verbatim>\<open>mqtt_client_common.c\<close>. The two loops whose length depends on the network are partial
  functions: \<open>None\<close> also stands for a loop that never ends.
\<close>

section \<open>Sending\<close>

text \<open>
  The loop of \<^verbatim>\<open>send_mqtt_packet\<close> hands \<^verbatim>\<open>&write_buf[sent]\<close> with the full \<^verbatim>\<open>length\<close> to
  the network in every iteration.
\<close>

partial_function (option) send_loop ::
  "'w env \<Rightarrow> nat \<Rightarrow> Timer \<Rightarrow> int \<Rightarrow> nat \<Rightarrow> 'w sys \<Rightarrow> (int \<times> nat \<times> 'w sys) option" where
  "send_loop env len timer rc sent s =
     (if sent < len then
        (let (e, s) = expired env timer s in
         if \<not> e then
           (let (ms, s) = left_ms env timer s in
            do {
              bytes \<leftarrow> rd_bytes (write_buf s) sent len;
              let (rc, sentLen, w) = net_write env bytes ms (world s);
              let s = s\<lparr>world := w\<rparr>;
              if rc \<noteq> QCLOUD_RET_SUCCESS then Some (rc, sent, s)
              else send_loop env len timer rc (sent + sentLen) s
            })
         else Some (rc, sent, s))
      else Some (rc, sent, s))"

definition send_mqtt_packet :: "'w env \<Rightarrow> nat \<Rightarrow> Timer \<Rightarrow> 'w sys \<Rightarrow> (int \<times> 'w sys) option" where
  "send_mqtt_packet env len timer s =
     (if len \<ge> write_buf_size s then Some (QCLOUD_ERR_BUF_TOO_SHORT, s)
      else
        let (e, s) = expired env timer s in
        if e then Some (QCLOUD_ERR_MQTT_REQUEST_TIMEOUT, s)
        else do {
          (rc, sent, s) \<leftarrow> send_loop env len timer QCLOUD_RET_SUCCESS 0 s;
          if sent = len then Some (QCLOUD_RET_SUCCESS, s)
          else
            let (e, s) = (if rc = QCLOUD_RET_SUCCESS then expired env timer s else (False, s)) in
            if rc = QCLOUD_RET_SUCCESS \<and> e then Some (QCLOUD_ERR_MQTT_REQUEST_TIMEOUT, s)
            else Some (rc, s)
        })"

section \<open>Receiving\<close>

text \<open>
  Reading into the read buffer at an offset: the whole range handed to the network must lie in the
  buffer.
\<close>

definition net_read_buf :: "'w env \<Rightarrow> nat \<Rightarrow> nat \<Rightarrow> int \<Rightarrow> 'w sys \<Rightarrow> (int \<times> nat \<times> 'w sys) option" where
  "net_read_buf env off len timeout s =
     (if off + len > length (read_buf s) then None
      else do {
        let (rc, bytes, w) = net_read env len timeout (world s);
        b \<leftarrow> wr_bytes (read_buf s) off bytes;
        Some (rc, length bytes, s\<lparr>read_buf := b, world := w\<rparr>)
      })"

text \<open>
  \<^verbatim>\<open>_decode_packet_rem_len_with_net_read\<close>; the byte \<open>i\<close> keeps its value when the network
  reports success without storing one.
\<close>

fun decode_rem_len_net ::
  "'w env \<Rightarrow> nat \<Rightarrow> int \<Rightarrow> byte \<Rightarrow> u32 \<Rightarrow> u32 \<Rightarrow> 'w sys \<Rightarrow> u32 cres \<times> 'w sys" where
  "decode_rem_len_net env 0 timeout i multiplier value s = (Inl QCLOUD_ERR_MQTT_PACKET_READ, s)"
| "decode_rem_len_net env (Suc n) timeout i multiplier value s =
     (let (rc, bytes, w) = net_read env 1 timeout (world s);
          s = s\<lparr>world := w\<rparr>
      in if rc \<noteq> QCLOUD_RET_SUCCESS then (Inl QCLOUD_ERR_FAILURE, s)
         else
           let i = (case bytes of [] \<Rightarrow> i | b # _ \<Rightarrow> b);
               value = value + ucast (i AND 127) * multiplier;
               multiplier = multiplier * 128
           in if i AND 128 \<noteq> 0 then decode_rem_len_net env n timeout i multiplier value s
              else (Inr value, s))"

definition decode_packet_rem_len_with_net_read ::
  "'w env \<Rightarrow> byte \<Rightarrow> int \<Rightarrow> 'w sys \<Rightarrow> u32 cres \<times> 'w sys" where
  "decode_packet_rem_len_with_net_read env i timeout s =
     decode_rem_len_net env MAX_NO_OF_REMAINING_LENGTH_BYTES timeout i 1 0 s"

text \<open>The time left for reading: at least one millisecond.\<close>

definition timer_left_ms :: "'w env \<Rightarrow> Timer \<Rightarrow> 'w sys \<Rightarrow> int \<times> 'w sys" where
  "timer_left_ms env timer s =
     (let (ms, s) = left_ms env timer s in (if ms \<le> 0 then 1 else ms, s))"

text \<open>The loop that discards a packet larger than the read buffer.\<close>

partial_function (option) discard_loop ::
  "'w env \<Rightarrow> nat \<Rightarrow> int \<Rightarrow> nat \<Rightarrow> nat \<Rightarrow> 'w sys \<Rightarrow> 'w sys option" where
  "discard_loop env rem_len ms total_bytes_read bytes_to_be_read s = do {
     (ret_val, read_len, s) \<leftarrow> net_read_buf env 0 bytes_to_be_read ms s;
     let total = (if ret_val = QCLOUD_RET_SUCCESS then total_bytes_read + read_len else total_bytes_read);
     let todo =
       (if ret_val = QCLOUD_RET_SUCCESS then
          (if unat (of_nat rem_len - of_nat total :: size_t) \<ge> read_buf_size s then read_buf_size s
           else unat (of_nat rem_len - of_nat total :: size_t))
        else bytes_to_be_read);
     if total < rem_len \<and> ret_val = QCLOUD_RET_SUCCESS
     then discard_loop env rem_len ms total todo s
     else Some s
   }"

text \<open>\<^verbatim>\<open>_read_mqtt_packet\<close> from the check of the remaining length against the buffer on.\<close>

definition read_mqtt_body :: "'w env \<Rightarrow> Timer \<Rightarrow> u32 \<Rightarrow> 'w sys \<Rightarrow> (byte cres \<times> 'w sys) option" where
  "read_mqtt_body env timer rem_len s =
     (if unat rem_len \<ge> read_buf_size s then
        (let (ms, s) = timer_left_ms env timer s in
         do {
           s \<leftarrow> discard_loop env (unat rem_len) (ms + QCLOUD_IOT_MQTT_MAX_REMAIN_WAIT_MS) 0
                  (read_buf_size s) s;
           Some (Inl QCLOUD_ERR_BUF_TOO_SHORT, s)
         })
      else do {
        (b, n) \<leftarrow> mqtt_write_packet_rem_len (read_buf s) 1 rem_len;
        let s = s\<lparr>read_buf := b\<rparr>;
        let len = 1 + n;
        if rem_len > 0 \<and> len + unat rem_len > read_buf_size s then
          (let (ms, s) = timer_left_ms env timer s in
           do {
             (_, _, s) \<leftarrow> net_read_buf env 0 (unat rem_len) (ms + QCLOUD_IOT_MQTT_MAX_REMAIN_WAIT_MS) s;
             Some (Inl QCLOUD_ERR_BUF_TOO_SHORT, s)
           })
        else do {
          (rc, s) \<leftarrow>
            (if rem_len > 0 then
               (let (ms, s) = timer_left_ms env timer s in
                do {
                  (rc, _, s) \<leftarrow> net_read_buf env len (unat rem_len) (ms + QCLOUD_IOT_MQTT_MAX_REMAIN_WAIT_MS) s;
                  Some (rc, s)
                })
             else Some (QCLOUD_RET_SUCCESS, s));
          if rc \<noteq> QCLOUD_RET_SUCCESS then Some (Inl rc, s)
          else do {
            h \<leftarrow> rd (read_buf s) 0;
            Some (Inr (header_type h), s)
          }
        }
      })"

definition read_mqtt_packet :: "'w env \<Rightarrow> Timer \<Rightarrow> byte \<Rightarrow> 'w sys \<Rightarrow> (byte cres \<times> 'w sys) option" where
  "read_mqtt_packet env timer i s =
     (let (ms, s) = timer_left_ms env timer s in
      do {
        (rc, read_len, s) \<leftarrow> net_read_buf env 0 1 ms s;
        if rc = QCLOUD_ERR_SSL_NOTHING_TO_READ \<or> rc = QCLOUD_ERR_TCP_NOTHING_TO_READ
        then Some (Inl QCLOUD_ERR_MQTT_NOTHING_TO_READ, s)
        else if rc \<noteq> QCLOUD_RET_SUCCESS then Some (Inl rc, s)
        else
          let (ms, s) = timer_left_ms env timer s;
              (r, s) = decode_packet_rem_len_with_net_read env i (ms + QCLOUD_IOT_MQTT_MAX_REMAIN_WAIT_MS) s
          in case r of
               Inl rc \<Rightarrow> Some (Inl rc, s)
             | Inr rem_len \<Rightarrow> read_mqtt_body env timer rem_len s
      })"

section \<open>Frames\<close>

text \<open>The clock changes nothing but the state of the environment.\<close>

lemma expired_frame:
  obtains e w where "expired env timer s = (e, s\<lparr>world := w\<rparr>)"
  by (cases "gettimeofday env (world s)") (simp add: expired_def time_now_def)

lemma left_ms_frame:
  obtains ms w where "left_ms env timer s = (ms, s\<lparr>world := w\<rparr>)"
  by (cases "gettimeofday env (world s)") (simp add: left_ms_def time_now_def)

lemma timer_left_ms_frame:
  obtains ms w where "timer_left_ms env timer s = (ms, s\<lparr>world := w\<rparr>)"
  by (rule left_ms_frame [of env timer s]) (simp add: timer_left_ms_def)

lemma countdown_ms_frame:
  obtains t w where "countdown_ms env ms s = (t, s\<lparr>world := w\<rparr>)"
  by (cases "gettimeofday env (world s)") (simp add: countdown_ms_def time_now_def)

lemma countdown_frame:
  obtains t w where "countdown env secs s = (t, s\<lparr>world := w\<rparr>)"
  by (cases "gettimeofday env (world s)") (simp add: countdown_def time_now_def)

section \<open>The network contract\<close>

text \<open>
  What \<^verbatim>\<open>HAL_TLS_Read\<close>, \<^verbatim>\<open>HAL_TLS_Write\<close> and their TCP counterparts promise: a read
  stores at most the requested number of bytes and succeeds only with all of them, a write succeeds
  only when everything has been written and reports an error with a negative code.
\<close>

definition net_read_full :: "'w env \<Rightarrow> bool" where
  "net_read_full env \<longleftrightarrow> (\<forall>len ms w. case net_read env len ms w of
     (rc, bytes, w') \<Rightarrow> length bytes \<le> len \<and> (rc = QCLOUD_RET_SUCCESS \<longrightarrow> length bytes = len))"

definition net_write_full :: "'w env \<Rightarrow> bool" where
  "net_write_full env \<longleftrightarrow> (\<forall>bytes ms w. case net_write env bytes ms w of
     (rc, n, w') \<Rightarrow> rc \<le> 0 \<and> (rc = QCLOUD_RET_SUCCESS \<longrightarrow> n = length bytes))"

text \<open>The clock does not go back between two consecutive readings: a timer that has expired stays so.\<close>

definition clock_monotonic :: "'w env \<Rightarrow> bool" where
  "clock_monotonic env \<longleftrightarrow> (\<forall>w timer. case gettimeofday env w of (t, w') \<Rightarrow>
     HAL_Timer_expired t timer \<longrightarrow> HAL_Timer_expired (fst (gettimeofday env w')) timer)"

lemma expired_stays:
  assumes "clock_monotonic env" and "expired env timer s = (True, s')"
  shows "fst (expired env timer s')"
proof -
  obtain t w where g: "gettimeofday env (world s) = (t, w)"
    by (cases "gettimeofday env (world s)")
  with assms(2) have "s' = s\<lparr>world := w\<rparr>" "HAL_Timer_expired t timer"
    by (simp_all add: expired_def time_now_def)
  moreover from this have "HAL_Timer_expired (fst (gettimeofday env w)) timer"
    using assms(1) g unfolding clock_monotonic_def by (metis (mono_tags, lifting) case_prod_conv)
  ultimately show ?thesis
    by (simp add: expired_def time_now_def case_prod_unfold Let_def)
qed

lemma send_mqtt_packet_total:
  assumes "net_write_full env" and "clock_monotonic env" and "write_buf_size s \<le> length (write_buf s)"
  shows "\<exists>rc w. send_mqtt_packet env len timer s = Some (rc, s\<lparr>world := w\<rparr>) \<and> rc \<le> 0 \<and>
    (rc = QCLOUD_RET_SUCCESS \<longrightarrow> len < write_buf_size s \<and>
      (len = 0 \<or> (\<exists>ms w0. net_write env (take len (write_buf s)) ms w0 = (QCLOUD_RET_SUCCESS, len, w))))"
proof (cases "len \<ge> write_buf_size s")
  case True
  then show ?thesis
    by (simp add: send_mqtt_packet_def exI [of _ "world s"])
next
  case False
  obtain e1 w1 where e1: "expired env timer s = (e1, s\<lparr>world := w1\<rparr>)"
    by (rule expired_frame)
  obtain e2 w2 where e2: "expired env timer (s\<lparr>world := w1\<rparr>) = (e2, s\<lparr>world := w2\<rparr>)"
    using expired_frame [of env timer "s\<lparr>world := w1\<rparr>"] by auto
  obtain ms w3 where ms: "left_ms env timer (s\<lparr>world := w2\<rparr>) = (ms, s\<lparr>world := w3\<rparr>)"
    using left_ms_frame [of env timer "s\<lparr>world := w2\<rparr>"] by auto
  have bytes: "rd_bytes (write_buf s) 0 len = Some (take len (write_buf s))"
    using False assms(3) by (simp add: rd_bytes_def)
  obtain rc n w4 where wr: "net_write env (take len (write_buf s)) ms w3 = (rc, n, w4)"
    by (cases "net_write env (take len (write_buf s)) ms w3") auto
  obtain e5 w5 where e5: "expired env timer (s\<lparr>world := w2\<rparr>) = (e5, s\<lparr>world := w5\<rparr>)"
    using expired_frame [of env timer "s\<lparr>world := w2\<rparr>"] by auto
  have n: "rc = QCLOUD_RET_SUCCESS \<Longrightarrow> n = len" and neg: "rc \<le> 0"
    using assms(1,3) wr False by (auto simp: net_write_full_def dest!: spec [of _ "take len (write_buf s)"] spec [of _ ms] spec [of _ w3])
  have fin: "send_loop env len timer rc len s' = Some (rc, len, s')" for rc and s' :: "'a sys"
    by (subst send_loop.simps) simp
  show ?thesis
  proof (cases "e1")
    case True
    with False e1 show ?thesis
      by (auto simp: send_mqtt_packet_def)
  next
    case ne1: False
    have loop: "send_loop env len timer QCLOUD_RET_SUCCESS 0 (s\<lparr>world := w1\<rparr>) =
       (if len = 0 then Some (QCLOUD_RET_SUCCESS, 0, s\<lparr>world := w1\<rparr>)
        else if e2 then Some (QCLOUD_RET_SUCCESS, 0, s\<lparr>world := w2\<rparr>)
        else if rc = QCLOUD_RET_SUCCESS then Some (QCLOUD_RET_SUCCESS, len, s\<lparr>world := w4\<rparr>)
        else Some (rc, 0, s\<lparr>world := w4\<rparr>))"
      by (subst send_loop.simps) (simp add: e2 ms bytes wr n fin)
    have start: "send_mqtt_packet env len timer s =
        Option.bind (send_loop env len timer QCLOUD_RET_SUCCESS 0 (s\<lparr>world := w1\<rparr>)) (\<lambda>(rc, sent, s).
          if sent = len then Some (QCLOUD_RET_SUCCESS, s)
          else let (e, s) = (if rc = QCLOUD_RET_SUCCESS then expired env timer s else (False, s)) in
            if rc = QCLOUD_RET_SUCCESS \<and> e then Some (QCLOUD_ERR_MQTT_REQUEST_TIMEOUT, s) else Some (rc, s))"
      using False ne1 by (simp add: send_mqtt_packet_def e1)
    consider (empty) "len = 0" | (late) "len \<noteq> 0" "e2" | (sent) "len \<noteq> 0" "\<not> e2" "rc = QCLOUD_RET_SUCCESS"
      | (err) "len \<noteq> 0" "\<not> e2" "rc \<noteq> QCLOUD_RET_SUCCESS"
      by blast
    then show ?thesis
    proof cases
      case empty
      then have "send_mqtt_packet env len timer s = Some (QCLOUD_RET_SUCCESS, s\<lparr>world := w1\<rparr>)"
        unfolding start loop by simp
      with empty False show ?thesis by auto
    next
      case late
      then have "e5"
        using expired_stays [OF assms(2), of timer "s\<lparr>world := w1\<rparr>" "s\<lparr>world := w2\<rparr>"] e2 e5 by simp
      with late have "send_mqtt_packet env len timer s = Some (QCLOUD_ERR_MQTT_REQUEST_TIMEOUT, s\<lparr>world := w5\<rparr>)"
        unfolding start loop by (simp add: e5)
      then show ?thesis by auto
    next
      case sent
      then have "send_mqtt_packet env len timer s = Some (QCLOUD_RET_SUCCESS, s\<lparr>world := w4\<rparr>)"
        unfolding start loop by simp
      moreover have "len < write_buf_size s" "n = len"
        using False n sent(3) by simp_all
      ultimately show ?thesis
        using wr sent(3) by blast
    next
      case err
      then have "send_mqtt_packet env len timer s = Some (rc, s\<lparr>world := w4\<rparr>)"
        unfolding start loop by simp
      with err neg show ?thesis by blast
    qed
  qed
qed


section \<open>Reading a packet\<close>

lemma net_read_buf_total:
  assumes "net_read_full env" and "off + len \<le> length (read_buf s)"
  shows "\<exists>rc n b w. net_read_buf env off len ms s = Some (rc, n, s\<lparr>read_buf := b, world := w\<rparr>) \<and>
    length b = length (read_buf s) \<and> take off b = take off (read_buf s) \<and> (rc = QCLOUD_RET_SUCCESS \<longrightarrow> n = len)"
proof -
  obtain rc bytes w where r: "net_read env len ms (world s) = (rc, bytes, w)"
    by (cases "net_read env len ms (world s)") auto
  have n: "length bytes \<le> len" "rc = QCLOUD_RET_SUCCESS \<longrightarrow> length bytes = len"
    using assms(1) r by (auto simp: net_read_full_def dest!: spec [of _ len] spec [of _ ms] spec [of _ "world s"])
  then show ?thesis
    using assms(2) r
    by (intro exI [of _ rc] exI [of _ "length bytes"]
        exI [of _ "take off (read_buf s) @ bytes @ drop (off + length bytes) (read_buf s)"] exI [of _ w])
      (simp add: net_read_buf_def wr_bytes_def)
qed

lemma decode_rem_len_net_frame:
  "\<exists>w. snd (decode_rem_len_net env n timeout i multiplier v s) = s\<lparr>world := w\<rparr>"
proof (induction n arbitrary: i multiplier v s)
  case 0
  show ?case by (simp add: exI [of _ "world s"])
next
  case (Suc n)
  obtain rc bytes w where r: "net_read env (Suc 0) timeout (world s) = (rc, bytes, w)"
    by (cases "net_read env (Suc 0) timeout (world s)") auto
  show ?case
    using Suc.IH [of _ _ _ "s\<lparr>world := w\<rparr>"] by (auto simp: r Let_def)
qed

lemma discard_loop_total:
  assumes "net_read_full env" and "got < rem_len" and "rem_len < 2 ^ 32" and "0 < read_buf_size s"
    and "read_buf_size s \<le> length (read_buf s)" and "bytes = min (read_buf_size s) (rem_len - got)"
  shows "\<exists>b w. discard_loop env rem_len ms got bytes s = Some (s\<lparr>read_buf := b, world := w\<rparr>) \<and>
    length b = length (read_buf s)"
  using assms
proof (induction "rem_len - got" arbitrary: got bytes s rule: less_induct)
  case less
  have "0 + bytes \<le> length (read_buf s)"
    using less.prems by simp
  from net_read_buf_total [OF less.prems(1) this, of ms] obtain rc n b w where
    r: "net_read_buf env 0 bytes ms s = Some (rc, n, s\<lparr>read_buf := b, world := w\<rparr>)" "length b = length (read_buf s)"
      "rc = QCLOUD_RET_SUCCESS \<longrightarrow> n = bytes"
    by auto
  show ?case
  proof (cases "rc = QCLOUD_RET_SUCCESS \<and> got + bytes < rem_len")
    case True
    have "(of_nat rem_len - of_nat (got + bytes) :: size_t) = of_nat (rem_len - (got + bytes))"
      using True by (simp only: of_nat_diff less_imp_le)
    then have "unat (of_nat rem_len - of_nat (got + bytes) :: size_t) = rem_len - (got + bytes)"
      using less.prems(3) by (simp only:) (simp add: unat_of_nat del: of_nat_add of_nat_diff)
    moreover have "0 < bytes"
      using less.prems by simp
    ultimately show ?thesis
      using True r less.prems
        less.hyps [of "got + bytes" "s\<lparr>read_buf := b, world := w\<rparr>" "min (read_buf_size s) (rem_len - (got + bytes))"]
      by (subst discard_loop.simps) (auto simp: Let_def min_def)
  next
    case False
    with r show ?thesis
      by (subst discard_loop.simps) (auto simp: Let_def)
  qed
qed

text \<open>The read buffer holds a complete packet.\<close>

definition packet_in :: "byte list \<Rightarrow> bool" where
  "packet_in b \<longleftrightarrow>
     (case mqtt_read_packet_rem_len_form_buf b 1 of
        Some (Inr (v, n)) \<Rightarrow> 1 + unat n + unat v \<le> length b
      | _ \<Rightarrow> False)"


lemma packet_in_write:
  assumes "unat v < 268435456" and w: "mqtt_write_packet_rem_len b 1 v = Some (b1, n)"
    and "length b2 = length b1" and "take (1 + n) b2 = take (1 + n) b1" and "1 + n + unat v \<le> length b2"
  shows "packet_in b2"
proof -
  let ?bs = "rem_len_bytes (unat v)"
  have n: "n = length ?bs" and fit: "1 + length ?bs \<le> length b"
    and b1: "b1 = take 1 b @ ?bs @ drop (1 + length ?bs) b"
    using w by (auto simp: mqtt_write_packet_rem_len_eq wr_bytes_def split: if_splits)
  have "take (1 + n) b2 = take 1 b @ ?bs"
    using assms(4) fit by (simp add: b1 n)
  then have "b2 = take 1 b @ ?bs @ drop (1 + n) b2"
    by (metis append_assoc append_take_drop_id)
  then have "drop 1 b2 = ?bs @ drop (1 + n) b2"
    using fit by (metis append_eq_conv_conj length_take min.absorb2 add_leD1)
  then have "mqtt_read_packet_rem_len_form_buf b2 1 = Some (Inr (v, of_nat n))"
    using read_rem_len_drop [OF assms(1)] by (simp add: n)
  moreover have "unat (of_nat n :: u32) = n"
    using assms(1) by (simp add: n unat_length_rem_len_bytes)
  ultimately show ?thesis
    using assms(5) by (simp add: packet_in_def)
qed

definition read_result_ok :: "'w sys \<Rightarrow> (byte cres \<times> 'w sys) option \<Rightarrow> bool" where
  "read_result_ok s m \<longleftrightarrow> (\<exists>r b w. m = Some (r, s\<lparr>read_buf := b, world := w\<rparr>) \<and>
     length b = length (read_buf s) \<and> (\<forall>t. r = Inr t \<longrightarrow> packet_in b \<and> t = header_type (b ! 0)))"

lemma read_result_okI:
  "m = Some (r, s\<lparr>read_buf := b, world := w\<rparr>) \<Longrightarrow> length b = length (read_buf s) \<Longrightarrow>
     (\<And>t. r = Inr t \<Longrightarrow> packet_in b \<and> t = header_type (b ! 0)) \<Longrightarrow> read_result_ok s m"
  by (auto simp: read_result_ok_def)

lemma read_mqtt_body_total:
  assumes N: "net_read_full env" and size: "read_buf_size s = 2048" "length (read_buf s) = 2048"
  shows "read_result_ok s (read_mqtt_body env timer rem_len s)"
proof (cases "unat rem_len \<ge> 2048")
  case True
  obtain ms w where ms: "timer_left_ms env timer s = (ms, s\<lparr>world := w\<rparr>)"
    by (rule timer_left_ms_frame)
  let ?s = "s\<lparr>world := w\<rparr>"
  have "0 < unat rem_len" "unat rem_len < 2 ^ 32" "0 < read_buf_size ?s" "read_buf_size ?s \<le> length (read_buf ?s)"
    "2048 = min (read_buf_size ?s) (unat rem_len - 0)"
    using True size by simp_all
  from discard_loop_total [OF N this] obtain b w' where
    "discard_loop env (unat rem_len) (ms + QCLOUD_IOT_MQTT_MAX_REMAIN_WAIT_MS) 0 2048 ?s =
      Some (?s\<lparr>read_buf := b, world := w'\<rparr>)" "length b = length (read_buf ?s)"
    by blast
  then show ?thesis
    using True size ms by (intro read_result_okI [where r = "Inl QCLOUD_ERR_BUF_TOO_SHORT" and b = b and w = w'])
      (simp_all add: read_mqtt_body_def)
next
  case False
  let ?n = "length (rem_len_bytes (unat rem_len))"
  have n: "?n \<le> 2" "1 \<le> ?n"
    using False rem_len_bytes_pos [of "unat rem_len"] by (subst length_rem_len_bytes; simp)+
  obtain b1 where b1: "mqtt_write_packet_rem_len (read_buf s) 1 rem_len = Some (b1, ?n)" "length b1 = 2048"
    using n size by (auto simp: mqtt_write_packet_rem_len_eq wr_bytes_def)
  let ?s1 = "s\<lparr>read_buf := b1\<rparr>"
  obtain ms w where ms: "timer_left_ms env timer ?s1 = (ms, ?s1\<lparr>world := w\<rparr>)"
    by (rule timer_left_ms_frame)
  let ?s = "?s1\<lparr>world := w\<rparr>" and ?ms = "ms + QCLOUD_IOT_MQTT_MAX_REMAIN_WAIT_MS"
  have pkt: "packet_in b2" if "length b2 = 2048" "take (1 + ?n) b2 = take (1 + ?n) b1" "1 + ?n + unat rem_len \<le> 2048" for b2
    using packet_in_write [OF _ b1(1), of b2] that False b1(2) by simp
  consider (big) "rem_len > 0" "1 + ?n + unat rem_len > 2048" | (none) "rem_len = 0"
    | (fits) "rem_len > 0" "1 + ?n + unat rem_len \<le> 2048"
    by (metis linorder_not_less word_gt_0)
  then show ?thesis
  proof cases
    case big
    have "0 + unat rem_len \<le> length (read_buf ?s)"
      using False b1(2) by simp
    from net_read_buf_total [OF N this, of ?ms] obtain rc k b w' where
      "net_read_buf env 0 (unat rem_len) ?ms ?s = Some (rc, k, ?s\<lparr>read_buf := b, world := w'\<rparr>)"
      "length b = length (read_buf ?s)"
      by blast
    then show ?thesis
      using False big size ms b1 n
      by (intro read_result_okI [where r = "Inl QCLOUD_ERR_BUF_TOO_SHORT" and b = b and w = w']) (simp_all add: read_mqtt_body_def)
  next
    case none
    then show ?thesis
      using size b1 pkt [of b1] n
      by (intro read_result_okI [where r = "Inr (header_type (b1 ! 0))" and b = b1 and w = "world s"])
        (auto simp: read_mqtt_body_def rd_def Let_def)
  next
    case fits
    have "1 + ?n + unat rem_len \<le> length (read_buf ?s)"
      using fits b1(2) by simp
    from net_read_buf_total [OF N this, of ?ms] obtain rc k b w' where
      r: "net_read_buf env (1 + ?n) (unat rem_len) ?ms ?s = Some (rc, k, ?s\<lparr>read_buf := b, world := w'\<rparr>)"
        "length b = length (read_buf ?s)" "take (1 + ?n) b = take (1 + ?n) (read_buf ?s)"
      by blast
    then show ?thesis
      using False fits size ms b1 pkt [of b]
      by (intro read_result_okI [where r = "if rc = QCLOUD_RET_SUCCESS then Inr (header_type (b ! 0)) else Inl rc" and b = b and w = w'])
        (auto simp: read_mqtt_body_def rd_def Let_def split: if_splits)
  qed
qed

lemma read_mqtt_packet_total:
  assumes N: "net_read_full env" and size: "read_buf_size s = 2048" "length (read_buf s) = 2048"
  shows "read_result_ok s (read_mqtt_packet env timer i s)"
proof -
  obtain ms w where ms: "timer_left_ms env timer s = (ms, s\<lparr>world := w\<rparr>)"
    by (rule timer_left_ms_frame)
  have "0 + 1 \<le> length (read_buf (s\<lparr>world := w\<rparr>))"
    using size by simp
  from net_read_buf_total [OF N this, of ms] obtain rc n b w1 where
    r: "net_read_buf env 0 1 ms (s\<lparr>world := w\<rparr>) = Some (rc, n, s\<lparr>world := w\<rparr>\<lparr>read_buf := b, world := w1\<rparr>)"
      "length b = length (read_buf (s\<lparr>world := w\<rparr>))"
    by blast
  then have r: "net_read_buf env 0 1 ms (s\<lparr>world := w\<rparr>) = Some (rc, n, s\<lparr>read_buf := b, world := w1\<rparr>)" "length b = 2048"
    using size by simp_all
  let ?s1 = "s\<lparr>read_buf := b, world := w1\<rparr>"
  obtain ms2 w2 where ms2: "timer_left_ms env timer ?s1 = (ms2, ?s1\<lparr>world := w2\<rparr>)"
    by (rule timer_left_ms_frame)
  obtain r3 s3 where d: "decode_packet_rem_len_with_net_read env i (ms2 + QCLOUD_IOT_MQTT_MAX_REMAIN_WAIT_MS)
      (?s1\<lparr>world := w2\<rparr>) = (r3, s3)"
    by (cases "decode_packet_rem_len_with_net_read env i (ms2 + QCLOUD_IOT_MQTT_MAX_REMAIN_WAIT_MS) (?s1\<lparr>world := w2\<rparr>)")
  obtain w3 where s3: "s3 = s\<lparr>read_buf := b, world := w3\<rparr>"
    using decode_rem_len_net_frame [of env MAX_NO_OF_REMAINING_LENGTH_BYTES _ i 1 0 "?s1\<lparr>world := w2\<rparr>"] d
    by (auto simp: decode_packet_rem_len_with_net_read_def dest: arg_cong [of _ _ snd]) (metis snd_conv)
  consider (nothing) "rc = QCLOUD_ERR_SSL_NOTHING_TO_READ \<or> rc = QCLOUD_ERR_TCP_NOTHING_TO_READ"
    | (err) "rc \<noteq> QCLOUD_ERR_SSL_NOTHING_TO_READ" "rc \<noteq> QCLOUD_ERR_TCP_NOTHING_TO_READ" "rc \<noteq> QCLOUD_RET_SUCCESS"
    | (bad) x where "rc = QCLOUD_RET_SUCCESS" "r3 = Inl x"
    | (len) v where "rc = QCLOUD_RET_SUCCESS" "r3 = Inr v"
    by (cases r3) auto
  then show ?thesis
  proof cases
    case nothing
    then show ?thesis
      using ms r size by (intro read_result_okI [where r = "Inl QCLOUD_ERR_MQTT_NOTHING_TO_READ" and b = b and w = w1])
        (auto simp: read_mqtt_packet_def)
  next
    case err
    then show ?thesis
      using ms r size by (intro read_result_okI [where r = "Inl rc" and b = b and w = w1]) (auto simp: read_mqtt_packet_def)
  next
    case (bad x)
    then show ?thesis
      using ms r size ms2 d s3 by (intro read_result_okI [where r = "Inl x" and b = b and w = w3]) (auto simp: read_mqtt_packet_def)
  next
    case (len v)
    have "read_mqtt_packet env timer i s = read_mqtt_body env timer v s3"
      using len ms r ms2 d by (simp add: read_mqtt_packet_def read_mqtt_body_def)
    moreover have "read_result_ok s3 (read_mqtt_body env timer v s3)"
      using read_mqtt_body_total [OF N, of s3 timer v] size r(2) s3 by simp
    ultimately show ?thesis
      using s3 r(2) size by (auto simp: read_result_ok_def)
  qed
qed


section \<open>A network for examples\<close>

text \<open>
  The world of examples: bytes still to arrive, bytes sent so far. Reads succeed while enough bytes
  are there, writes always succeed, time stands still.
\<close>

definition stream_env :: "(byte list \<times> byte list) env" where
  "stream_env = \<lparr>gettimeofday = (\<lambda>w. (\<lparr>tv_sec = 0, tv_usec = 0\<rparr>, w)),
     net_read = (\<lambda>len ms w. if len \<le> length (fst w) then (QCLOUD_RET_SUCCESS, take len (fst w), (drop len (fst w), snd w))
       else (QCLOUD_ERR_SSL_NOTHING_TO_READ, [], w)),
     net_write = (\<lambda>bytes ms w. (QCLOUD_RET_SUCCESS, length bytes, (fst w, snd w @ bytes))),
     net_connect = (\<lambda>w. (QCLOUD_RET_SUCCESS, w)), net_disconnect = (\<lambda>w. w), net_is_connected = (\<lambda>w. (True, w)),
     hal_malloc = (\<lambda>w. (True, w)), hal_rand = (\<lambda>w. ((\<lambda>k. k), w))\<rparr>"

definition client_example :: "byte list \<Rightarrow> (byte list \<times> byte list) sys" where
  "client_example input = \<lparr>is_connected = 1, was_manually_disconnected = 0, is_ping_outstanding = 0,
     next_packet_id = 7, command_timeout_ms = 5000, current_reconnect_wait_interval = 0,
     counter_network_disconnected = 0, write_buf_size = 2048, read_buf_size = 2048,
     write_buf = replicate 2048 0, read_buf = replicate 2048 0, lock_generic = False,
     lock_write_buf = False, lock_list_pub = False, lock_list_sub = False,
     list_pub_wait_ack = [], list_sub_wait_ack = [], event_handle = True,
     options = connect_params_example, ping_timer = HAL_Timer_init, reconnect_delay_timer = HAL_Timer_init,
     sub_handles = replicate 10 null_handle, repeat_packet_id_buf = replicate 10 0,
     current_packet_id_cnt = 0, thread_running = False, thread_exit_code = 0,
     strings = Map.empty, next_addr = 0, trace = [], world = (input, [])\<rparr>"

definition timer_example :: Timer where
  "timer_example = \<lparr>end_time = \<lparr>tv_sec = 5, tv_usec = 0\<rparr>\<rparr>"

lemma stream_env_ok: "net_read_full stream_env" "net_write_full stream_env" "clock_monotonic stream_env"
  by (simp_all add: net_read_full_def net_write_full_def clock_monotonic_def stream_env_def)

section \<open>Properties\<close>

text \<open>
  C24: Reading a packet from a network that keeps its contract always returns, changes only the read
  buffer, never writes outside it even when the announced length exceeds it, and on success leaves a
  complete packet in the buffer whose type is the one returned.
\<close>

theorem read_mqtt_packet_safe:
  assumes "net_read_full env" and "read_buf_size s = QCLOUD_IOT_MQTT_RX_BUF_LEN"
    and "length (read_buf s) = QCLOUD_IOT_MQTT_RX_BUF_LEN"
  shows "\<exists>r b w. read_mqtt_packet env timer i s = Some (r, s\<lparr>read_buf := b, world := w\<rparr>) \<and>
    length b = QCLOUD_IOT_MQTT_RX_BUF_LEN \<and>
    (\<forall>t. r = Inr t \<longrightarrow> packet_in b \<and> t = header_type (b ! 0))"
  using read_mqtt_packet_total [OF assms, of timer i] assms(3) unfolding read_result_ok_def by simp

theorem read_mqtt_packet_safe_witness:
  "\<exists>r b w. read_mqtt_packet stream_env timer_example 0 (client_example [0x40, 2, 0, 7]) =
      Some (r, (client_example [0x40, 2, 0, 7])\<lparr>read_buf := b, world := w\<rparr>) \<and>
    length b = QCLOUD_IOT_MQTT_RX_BUF_LEN \<and>
    (\<forall>t. r = Inr t \<longrightarrow> packet_in b \<and> t = header_type (b ! 0))"
  by (rule read_mqtt_packet_safe) (simp_all add: stream_env_ok client_example_def)



definition chunk_env :: "(byte list \<times> byte list) env" where
  "chunk_env = stream_env\<lparr>net_write := (\<lambda>bytes ms w.
     (QCLOUD_RET_SUCCESS, length (take 3 bytes), (fst w, snd w @ take 3 bytes)))\<rparr>"

definition chunk_client :: "(byte list \<times> byte list) sys" where
  "chunk_client = (client_example [])\<lparr>write_buf := [1, 2, 3, 4, 5, 6, 7, 8], write_buf_size := 8\<rparr>"


end
