(* ===== verification/Mqtt_Handlers.thy ===== *)
theory Mqtt_Handlers
  imports Mqtt_Net
begin

text \<open>
  Handling of received packets (\<^verbatim>\<open>mqtt_client_common.c\<close>): delivery of messages to the
  application, the waiting lists for acknowledgements, one handler per packet type, and
  \<^verbatim>\<open>cycle_for_read\<close> and \<^verbatim>\<open>wait_for_read\<close>, which read a packet and dispatch it.
\<close>

section \<open>Uninitialised variables\<close>

text \<open>
  Two local variables are read without having been written on some paths: the byte of the
  remaining-length reader and the handle in \<^verbatim>\<open>_handle_unsuback_packet\<close>. Their initial values are
  arguments.
\<close>

record junk =
  junk_byte :: byte
  junk_handle :: SubTopicHandle

section \<open>Delivery\<close>

text \<open>
  The loop of \<^verbatim>\<open>_deliver_message\<close> over the subscriptions from index \<open>i\<close> on; the result says
  whether a message handler was called, in which case the generic lock has been released.
\<close>

fun deliver_loop :: "nat \<Rightarrow> nat \<Rightarrow> MQTTMessage \<Rightarrow> 'w sys \<Rightarrow> (bool \<times> 'w sys) option" where
  "deliver_loop 0 i message s = Some (False, s)"
| "deliver_loop (Suc n) i message s = do {
     h \<leftarrow> rd (sub_handles s) i;
     if topic_filter h = None then deliver_loop n (i + 1) message s
     else do {
       f \<leftarrow> str_at s (topic_filter h);
       eq \<leftarrow> is_topic_equals (msg_topic message) f;
       matched \<leftarrow> (if eq then Some True else is_topic_matched f (msg_topic message) (msg_topic_len message));
       if \<not> matched then deliver_loop n (i + 1) message s
       else do {
         s \<leftarrow> HAL_MutexUnlock Generic s;
         case message_handler h of
           Some cb \<Rightarrow> Some (True, upcall (Message cb message (handler_user_data h)) s)
         | None \<Rightarrow> do {
             s \<leftarrow> HAL_MutexLock Generic s;
             deliver_loop n (i + 1) message s
           }
       }
     }
   }"

definition deliver_message :: "MQTTMessage \<Rightarrow> 'w sys \<Rightarrow> (int \<times> 'w sys) option" where
  "deliver_message message s = do {
     s \<leftarrow> HAL_MutexLock Generic s;
     (delivered, s) \<leftarrow> deliver_loop MAX_MESSAGE_HANDLERS 0 message s;
     if delivered then Some (QCLOUD_RET_SUCCESS, s)
     else do {
       s \<leftarrow> HAL_MutexUnlock Generic s;
       Some (QCLOUD_RET_SUCCESS, notify (EventMessage message) s)
     }
   }"

section \<open>The waiting lists\<close>

text \<open>\<^verbatim>\<open>_mask_pubInfo_from\<close>: every node of the packet id is marked; the iterator is allocated.\<close>

definition mask_pub_node :: "u16 \<Rightarrow> nat \<times> QcloudIotPubInfo \<Rightarrow> nat \<times> QcloudIotPubInfo" where
  "mask_pub_node msgId x =
     (if pub_msg_id (snd x) = msgId
      then (fst x, (snd x)\<lparr>pub_node_state := MQTT_NODE_STATE_INVALID\<rparr>) else x)"

definition mask_pubInfo_from :: "'w env \<Rightarrow> u16 \<Rightarrow> 'w sys \<Rightarrow> (int \<times> 'w sys) option" where
  "mask_pubInfo_from env msgId s = do {
     s \<leftarrow> HAL_MutexLock ListPub s;
     let (iter, s) = (if list_pub_wait_ack s \<noteq> [] then HAL_Malloc env s else (None, s));
     let s = (if iter \<noteq> None
              then s\<lparr>list_pub_wait_ack := map (mask_pub_node msgId) (list_pub_wait_ack s)\<rparr> else s);
     s \<leftarrow> HAL_MutexUnlock ListPub s;
     Some (QCLOUD_RET_SUCCESS, s)
   }"

text \<open>
  The loop of \<^verbatim>\<open>_mask_sub_info_from\<close> runs from the tail; the handle returned is that of the last
  node it marks.
\<close>

fun mask_sub_nodes :: "u16 \<Rightarrow> (nat \<times> QcloudIotSubInfo) list \<Rightarrow> SubTopicHandle \<Rightarrow>
    (nat \<times> QcloudIotSubInfo) list \<times> SubTopicHandle" where
  "mask_sub_nodes msgId [] h = ([], h)"
| "mask_sub_nodes msgId ((a, i) # ns) h =
     (let (ns, h) = mask_sub_nodes msgId ns h in
      if sub_msg_id i = msgId
      then ((a, i\<lparr>sub_node_state := MQTT_NODE_STATE_INVALID\<rparr>) # ns, sub_handler i)
      else ((a, i) # ns, h))"

definition mask_sub_info_from ::
  "'w env \<Rightarrow> u16 \<Rightarrow> SubTopicHandle \<Rightarrow> 'w sys \<Rightarrow> (SubTopicHandle \<times> 'w sys) option" where
  "mask_sub_info_from env msgId messageHandler s = do {
     s \<leftarrow> HAL_MutexLock ListSub s;
     let (iter, s) = (if list_sub_wait_ack s \<noteq> [] then HAL_Malloc env s else (None, s));
     let (ns, h) = (if iter \<noteq> None then mask_sub_nodes msgId (list_sub_wait_ack s) messageHandler
                    else (list_sub_wait_ack s, messageHandler));
     s \<leftarrow> HAL_MutexUnlock ListSub (s\<lparr>list_sub_wait_ack := ns\<rparr>);
     Some (h, s)
   }"

text \<open>
  \<^verbatim>\<open>push_sub_info_to\<close> and \<^verbatim>\<open>_mask_push_pubInfo_to\<close>: a node with a copy of the packet is
  appended. The result is the code and the address of the node.
\<close>

definition push_sub_info_to ::
  "'w env \<Rightarrow> nat \<Rightarrow> u16 \<Rightarrow> MessageTypes \<Rightarrow> SubTopicHandle \<Rightarrow> 'w sys \<Rightarrow> (nat cres \<times> 'w sys) option" where
  "push_sub_info_to env len msgId type handler s = do {
     s \<leftarrow> HAL_MutexLock ListSub s;
     if length (list_sub_wait_ack s) \<ge> MAX_MESSAGE_HANDLERS then do {
       s \<leftarrow> HAL_MutexUnlock ListSub s;
       Some (Inl QCLOUD_ERR_MQTT_MAX_SUBSCRIPTIONS, s)
     } else
       let (sub_info, s) = HAL_Malloc env s in
       if sub_info = None then do {
         s \<leftarrow> HAL_MutexUnlock ListSub s;
         Some (Inl QCLOUD_ERR_FAILURE, s)
       } else do {
         let (timer, s) = countdown_ms env (command_timeout_ms s) s;
         buf \<leftarrow> rd_bytes (write_buf s) 0 len;
         let info = \<lparr>sub_type = type, sub_msg_id = msgId, sub_start_time = timer,
           sub_node_state = MQTT_NODE_STATE_NORMANL, sub_handler = handler,
           sub_len = of_nat len, sub_buf = buf\<rparr>;
         let (node, s) = HAL_Malloc env s;
         case node of
           None \<Rightarrow> do {
             s \<leftarrow> HAL_MutexUnlock ListSub s;
             Some (Inl QCLOUD_ERR_FAILURE, s)
           }
         | Some a \<Rightarrow> do {
             let s = s\<lparr>list_sub_wait_ack := list_sub_wait_ack s @ [(a, info)]\<rparr>;
             s \<leftarrow> HAL_MutexUnlock ListSub s;
             Some (Inr a, s)
           }
       }
   }"

definition mask_push_pubInfo_to ::
  "'w env \<Rightarrow> nat \<Rightarrow> u16 \<Rightarrow> 'w sys \<Rightarrow> (nat cres \<times> 'w sys) option" where
  "mask_push_pubInfo_to env len msgId s =
     (if len > write_buf_size s then Some (Inl QCLOUD_ERR_FAILURE, s)
      else do {
        s \<leftarrow> HAL_MutexLock ListPub s;
        if length (list_pub_wait_ack s) \<ge> MAX_REPUB_NUM then do {
          s \<leftarrow> HAL_MutexUnlock ListPub s;
          Some (Inl QCLOUD_ERR_FAILURE, s)
        } else
          let (repubInfo, s) = HAL_Malloc env s in
          if repubInfo = None then do {
            s \<leftarrow> HAL_MutexUnlock ListPub s;
            Some (Inl QCLOUD_ERR_FAILURE, s)
          } else do {
            let (timer, s) = countdown_ms env (command_timeout_ms s) s;
            buf \<leftarrow> rd_bytes (write_buf s) 0 len;
            let info = \<lparr>pub_start_time = timer, pub_node_state = MQTT_NODE_STATE_NORMANL,
              pub_msg_id = msgId, pub_len = of_nat len, pub_buf = buf\<rparr>;
            let (node, s) = HAL_Malloc env s;
            case node of
              None \<Rightarrow> do {
                s \<leftarrow> HAL_MutexUnlock ListPub s;
                Some (Inl QCLOUD_ERR_FAILURE, s)
              }
            | Some a \<Rightarrow> do {
                let s = s\<lparr>list_pub_wait_ack := list_pub_wait_ack s @ [(a, info)]\<rparr>;
                s \<leftarrow> HAL_MutexUnlock ListPub s;
                Some (Inr a, s)
              }
          }
      })"

section \<open>Acknowledgements\<close>

definition handle_puback_packet :: "'w env \<Rightarrow> 'w sys \<Rightarrow> (int \<times> 'w sys) option" where
  "handle_puback_packet env s = do {
     r \<leftarrow> deserialize_ack_packet (read_buf s) (read_buf_size s);
     case r of
       Inl rc \<Rightarrow> Some (rc, s)
     | Inr (type, dup, packet_id) \<Rightarrow> do {
         (_, s) \<leftarrow> mask_pubInfo_from env packet_id s;
         Some (QCLOUD_RET_SUCCESS, notify (Event MQTT_EVENT_PUBLISH_SUCCESS (Some packet_id)) s)
       }
   }"

text \<open>\<^verbatim>\<open>_check_handle_is_identical\<close>: True for the C result 0.\<close>

definition handle_is_identical :: "'w sys \<Rightarrow> SubTopicHandle \<Rightarrow> SubTopicHandle \<Rightarrow> bool option" where
  "handle_is_identical s h1 h2 = do {
     t1 \<leftarrow> str_at s (topic_filter h1);
     t2 \<leftarrow> str_at s (topic_filter h2);
     Some (t1 = t2 \<and> message_handler h1 = message_handler h2 \<and> sub_event_handler h1 = sub_event_handler h2)
   }"

text \<open>
  The scan of \<^verbatim>\<open>_handle_suback_packet\<close>: the index of an identical subscription, if any, and the
  first free slot.
\<close>

fun suback_scan :: "'w sys \<Rightarrow> SubTopicHandle \<Rightarrow> SubTopicHandle list \<Rightarrow> nat \<Rightarrow> nat option \<Rightarrow>
    (nat option \<times> nat option) option" where
  "suback_scan s h [] i i_free = Some (None, i_free)"
| "suback_scan s h (x # xs) i i_free =
     (if topic_filter x \<noteq> None then do {
        same \<leftarrow> handle_is_identical s x h;
        if same then Some (Some i, i_free) else suback_scan s h xs (i + 1) i_free
      } else suback_scan s h xs (i + 1) (if i_free = None then Some i else i_free))"

definition install_handle :: "SubTopicHandle \<Rightarrow> 'w sys \<Rightarrow> (int \<times> 'w sys) option" where
  "install_handle sub_handle s = do {
     (dup, i_free) \<leftarrow> suback_scan s sub_handle (take MAX_MESSAGE_HANDLERS (sub_handles s)) 0 None;
     case dup of
       Some i \<Rightarrow> do {
         let s = s\<lparr>sub_handles := (sub_handles s)[i := (sub_handles s ! i)
           \<lparr>handler_user_data := handler_user_data sub_handle\<rparr>]\<rparr>;
         s \<leftarrow> HAL_Free (topic_filter sub_handle) s;
         Some (QCLOUD_RET_SUCCESS, s)
       }
     | None \<Rightarrow>
         (case i_free of
            None \<Rightarrow> Some (QCLOUD_ERR_FAILURE, s)
          | Some i \<Rightarrow> Some (QCLOUD_RET_SUCCESS, s\<lparr>sub_handles := (sub_handles s)[i := sub_handle]\<rparr>))
   }"

text \<open>\<^verbatim>\<open>_handle_suback_packet\<close> from the check of the handle on; the generic lock is held on entry.\<close>

definition finish_suback :: "u16 \<Rightarrow> bool \<Rightarrow> SubTopicHandle \<Rightarrow> 'w sys \<Rightarrow> (int \<times> 'w sys) option" where
  "finish_suback packet_id sub_nack sub_handle s =
    (if topic_filter sub_handle = None then do {
       s \<leftarrow> HAL_MutexUnlock Generic s;
       Some (QCLOUD_ERR_MQTT_SUB, s)
     } else if sub_nack then do {
       s \<leftarrow> HAL_MutexUnlock Generic s;
       let s = notify_sub sub_handle MQTT_EVENT_SUBCRIBE_NACK s;
       s \<leftarrow> HAL_Free (topic_filter sub_handle) s;
       Some (QCLOUD_ERR_MQTT_SUB, s)
     } else do {
       (rc, s) \<leftarrow> install_handle sub_handle s;
       s \<leftarrow> HAL_MutexUnlock Generic s;
       if rc \<noteq> QCLOUD_RET_SUCCESS then Some (rc, s)
       else do {
         let s = notify (Event MQTT_EVENT_SUBCRIBE_SUCCESS (Some packet_id)) s;
         Some (QCLOUD_RET_SUCCESS, notify_sub sub_handle MQTT_EVENT_SUBCRIBE_SUCCESS s)
       }
     })"

definition handle_suback_packet :: "'w env \<Rightarrow> 'w sys \<Rightarrow> (int \<times> 'w sys) option" where
  "handle_suback_packet env s = do {
     r \<leftarrow> deserialize_suback_packet 1 [QOS0, QOS0, QOS0] (read_buf s) (read_buf_size s);
     case r of
       Inl rc \<Rightarrow> Some (rc, s)
     | Inr (packet_id, count, grantedQoS) \<Rightarrow> do {
         g \<leftarrow> rd grantedQoS 0;
         let sub_nack = (g = 0x80);
         s \<leftarrow> (if sub_nack then
                 (if event_handle s then Some (upcall (Event MQTT_EVENT_SUBCRIBE_NACK (Some packet_id)) s) else None)
               else Some s);
         s \<leftarrow> HAL_MutexLock Generic s;
         (sub_handle, s) \<leftarrow> mask_sub_info_from env packet_id null_handle s;
         finish_suback packet_id sub_nack sub_handle s
       }
   }"

definition handle_unsuback_packet :: "'w env \<Rightarrow> junk \<Rightarrow> 'w sys \<Rightarrow> (int \<times> 'w sys) option" where
  "handle_unsuback_packet env j s = do {
     r \<leftarrow> deserialize_unsuback_packet (read_buf s) (read_buf_size s);
     case r of
       Inl rc \<Rightarrow> Some (rc, s)
     | Inr packet_id \<Rightarrow> do {
         (messageHandler, s) \<leftarrow> mask_sub_info_from env packet_id (junk_handle j) s;
         s \<leftarrow> HAL_MutexLock Generic s;
         s \<leftarrow> HAL_Free (topic_filter messageHandler) s;
         let s = notify (Event MQTT_EVENT_UNSUBCRIBE_SUCCESS (Some packet_id)) s;
         s \<leftarrow> HAL_MutexUnlock Generic s;
         Some (QCLOUD_RET_SUCCESS, s)
       }
   }"

section \<open>Messages\<close>

text \<open>Serializing an acknowledgement into the write buffer and sending it, under the buffer's lock.\<close>

definition send_pub_ack ::
  "'w env \<Rightarrow> MessageTypes \<Rightarrow> u16 \<Rightarrow> Timer \<Rightarrow> 'w sys \<Rightarrow> (int \<times> Timer \<times> 'w sys) option" where
  "send_pub_ack env type packet_id timer s = do {
     s \<leftarrow> HAL_MutexLock WriteBuf s;
     r \<leftarrow> serialize_pub_ack_packet (write_buf s) (write_buf_size s) type 0 packet_id;
     case r of
       Inl rc \<Rightarrow> do {
         s \<leftarrow> HAL_MutexUnlock WriteBuf s;
         Some (rc, timer, s)
       }
     | Inr (b, len) \<Rightarrow> do {
         let s = s\<lparr>write_buf := b\<rparr>;
         let (e, s) = expired env timer s;
         let (timer, s) = (if e then countdown_ms env 100 s else (timer, s));
         (rc, s) \<leftarrow> send_mqtt_packet env len timer s;
         s \<leftarrow> HAL_MutexUnlock WriteBuf s;
         Some (rc, timer, s)
       }
   }"

text \<open>
  The copy of the topic into a zeroed array: a topic longer than the array is cut, one of exactly its
  size is not.
\<close>

definition fix_topic_of :: "byte list \<Rightarrow> publish_info \<Rightarrow> (byte list \<times> nat) option" where
  "fix_topic_of buf p = do {
     let topic_len = (if unat (pub_topic_len p) > MAX_SIZE_OF_CLOUD_TOPIC
                      then MAX_SIZE_OF_CLOUD_TOPIC - 1 else unat (pub_topic_len p));
     t \<leftarrow> rd_bytes buf (pub_topic p) topic_len;
     fix_topic \<leftarrow> wr_bytes (replicate MAX_SIZE_OF_CLOUD_TOPIC 0) 0 t;
     Some (fix_topic, topic_len)
   }"

definition handle_publish_packet :: "'w env \<Rightarrow> Timer \<Rightarrow> 'w sys \<Rightarrow> (int \<times> Timer \<times> 'w sys) option" where
  "handle_publish_packet env timer s = do {
     r \<leftarrow> deserialize_publish_packet (read_buf s) (read_buf_size s);
     case r of
       Inl rc \<Rightarrow> Some (rc, timer, s)
     | Inr p \<Rightarrow> do {
         (fix_topic, topic_len) \<leftarrow> fix_topic_of (read_buf s) p;
         let msg = \<lparr>msg_qos = pub_qos p, msg_retained = pub_retained p, msg_dup = pub_dup p,
           msg_id = pub_id p, msg_topic = fix_topic, msg_topic_len = topic_len,
           msg_payload = pub_payload p, msg_payload_len = pub_payload_len p\<rparr>;
         if pub_qos p = QOS0 then do {
           (rc, s) \<leftarrow> deliver_message msg s;
           Some (rc, timer, s)
         } else do {
           packet_id \<leftarrow> pub_id p;
           repeat_id \<leftarrow> get_packet_id_in_repeat_buf s packet_id;
           (rc, s) \<leftarrow> (if repeat_id < 0 then deliver_message msg s else Some (QCLOUD_RET_SUCCESS, s));
           if rc \<noteq> QCLOUD_RET_SUCCESS then Some (rc, timer, s)
           else do {
             s \<leftarrow> add_packet_id_to_repeat_buf packet_id s;
             send_pub_ack env (if pub_qos p = QOS1 then PUBACK else PUBREC) packet_id timer s
           }
         }
       }
   }"

definition handle_pubrec_packet :: "'w env \<Rightarrow> Timer \<Rightarrow> 'w sys \<Rightarrow> (int \<times> Timer \<times> 'w sys) option" where
  "handle_pubrec_packet env timer s = do {
     r \<leftarrow> deserialize_ack_packet (read_buf s) (read_buf_size s);
     case r of
       Inl rc \<Rightarrow> Some (rc, timer, s)
     | Inr (type, dup, packet_id) \<Rightarrow> send_pub_ack env PUBREL packet_id timer s
   }"

definition handle_pingresp_packet :: "'w env \<Rightarrow> 'w sys \<Rightarrow> 'w sys option" where
  "handle_pingresp_packet env s = do {
     s \<leftarrow> HAL_MutexLock Generic s;
     let s = s\<lparr>is_ping_outstanding := 0\<rparr>;
     let (t, s) = countdown env (ucast (keep_alive_interval (options s))) s;
     HAL_MutexUnlock Generic (s\<lparr>ping_timer := t\<rparr>)
   }"

section \<open>Dispatch\<close>

text \<open>The first switch of \<^verbatim>\<open>cycle_for_read\<close>; \<open>None\<close> in the code's place is its default case.\<close>

definition dispatch_packet ::
  "'w env \<Rightarrow> junk \<Rightarrow> byte \<Rightarrow> Timer \<Rightarrow> 'w sys \<Rightarrow> (int option \<times> Timer \<times> 'w sys) option" where
  "dispatch_packet env j type timer s =
     (if type = MessageTypes_val CONNACK then Some (Some QCLOUD_RET_SUCCESS, timer, s)
      else if type = MessageTypes_val PUBACK then do {
        (rc, s) \<leftarrow> handle_puback_packet env s; Some (Some rc, timer, s) }
      else if type = MessageTypes_val SUBACK then do {
        (rc, s) \<leftarrow> handle_suback_packet env s; Some (Some rc, timer, s) }
      else if type = MessageTypes_val UNSUBACK then do {
        (rc, s) \<leftarrow> handle_unsuback_packet env j s; Some (Some rc, timer, s) }
      else if type = MessageTypes_val PUBLISH then do {
        (rc, timer, s) \<leftarrow> handle_publish_packet env timer s; Some (Some rc, timer, s) }
      else if type = MessageTypes_val PUBREC then do {
        (rc, timer, s) \<leftarrow> handle_pubrec_packet env timer s; Some (Some rc, timer, s) }
      else if type = MessageTypes_val PUBREL \<or> type = MessageTypes_val PUBCOMP \<or> type = MessageTypes_val PINGRESP
      then Some (Some QCLOUD_RET_SUCCESS, timer, s)
      else Some (None, timer, s))"

text \<open>
  \<^verbatim>\<open>cycle_for_read\<close>: \<open>packet_type\<close> is the caller's variable, unchanged unless a packet was read.
\<close>

definition cycle_for_read ::
  "'w env \<Rightarrow> junk \<Rightarrow> Timer \<Rightarrow> byte \<Rightarrow> 'w sys \<Rightarrow> (int \<times> byte \<times> Timer \<times> 'w sys) option" where
  "cycle_for_read env j timer packet_type s = do {
     (r, s) \<leftarrow> read_mqtt_packet env timer (junk_byte j) s;
     case r of
       Inl rc \<Rightarrow>
         Some (if rc = QCLOUD_ERR_MQTT_NOTHING_TO_READ then QCLOUD_RET_SUCCESS else rc, packet_type, timer, s)
     | Inr packet_type \<Rightarrow> do {
         (rc, timer, s) \<leftarrow> dispatch_packet env j packet_type timer s;
         case rc of
           None \<Rightarrow> Some (QCLOUD_ERR_RX_MESSAGE_INVAL, packet_type, timer, s)
         | Some rc \<Rightarrow> do {
             s \<leftarrow> (if packet_type \<in> set (map MessageTypes_val [PUBACK, SUBACK, UNSUBACK, PINGRESP])
                  then handle_pingresp_packet env s
                  else if packet_type = MessageTypes_val PUBLISH then do {
                    s \<leftarrow> HAL_MutexLock Generic s;
                    HAL_MutexUnlock Generic (s\<lparr>is_ping_outstanding := 0\<rparr>)
                  } else Some s);
             Some (rc, packet_type, timer, s)
           }
       }
   }"

partial_function (option) wait_loop ::
  "'w env \<Rightarrow> junk \<Rightarrow> byte \<Rightarrow> Timer \<Rightarrow> byte \<Rightarrow> 'w sys \<Rightarrow> (int \<times> Timer \<times> 'w sys) option" where
  "wait_loop env j packet_type timer read_packet_type s =
     (let (e, s) = expired env timer s in
      if e then Some (QCLOUD_ERR_MQTT_REQUEST_TIMEOUT, timer, s)
      else do {
        (rc, read_packet_type, timer, s) \<leftarrow> cycle_for_read env j timer read_packet_type s;
        if rc = QCLOUD_RET_SUCCESS \<and> read_packet_type \<noteq> packet_type
        then wait_loop env j packet_type timer read_packet_type s
        else Some (rc, timer, s)
      })"

definition wait_for_read :: "'w env \<Rightarrow> junk \<Rightarrow> byte \<Rightarrow> Timer \<Rightarrow> 'w sys \<Rightarrow> (int \<times> Timer \<times> 'w sys) option" where
  "wait_for_read env j packet_type timer s = wait_loop env j packet_type timer 0 s"

end
