(* ===== verification/Mqtt_Api.thy ===== *)
theory Mqtt_Api
  imports Mqtt_Handlers
begin

text \<open>
  The operations of the MQTT client an application calls: connect and disconnect
  (\<^verbatim>\<open>mqtt_client_connect.c\<close>), publish, subscribe and unsubscribe (the files of those names).
  A NULL argument is \<open>None\<close>.
\<close>

section \<open>Connecting\<close>

text \<open>
  What \<^verbatim>\<open>_serialize_connect_packet\<close> takes from the environment: the time in seconds, whether
  the user name could be allocated, and the random numbers for the connection id.
\<close>

definition connect_inputs :: "'w env \<Rightarrow> 'w sys \<Rightarrow> (int \<times> bool \<times> (nat \<Rightarrow> nat)) \<times> 'w sys" where
  "connect_inputs env s =
     (if client_id (options s) = None \<or> client_id (options s) = Some [] then ((0, False, \<lambda>k. 0), s)
      else
        let (now, s) = time_now env s;
            (p, s) = HAL_Malloc env s
        in if p = None then ((tv_sec now, False, \<lambda>k. 0), s)
           else let (rand, w) = hal_rand env (world s) in ((tv_sec now, True, rand), s\<lparr>world := w\<rparr>))"

text \<open>The parameters of a connection: the client's own options on reconnection.\<close>

datatype params_arg = OwnOptions | Params MQTTConnectParams

fun apply_params :: "params_arg \<Rightarrow> 'w sys \<Rightarrow> 'w sys" where
  "apply_params OwnOptions s = s\<lparr>options := copy_connect_params True (options s) (options s)\<rparr>"
| "apply_params (Params p) s = s\<lparr>options := copy_connect_params False (options s) p\<rparr>"

text \<open>The end of \<^verbatim>\<open>_mqtt_connect\<close>: the CONNACK is in the read buffer.\<close>

definition finish_connect :: "'w env \<Rightarrow> 'w sys \<Rightarrow> (int \<times> 'w sys) option" where
  "finish_connect env s = do {
     c \<leftarrow> deserialize_connack_packet (read_buf s) (read_buf_size s);
     case c of
       Inl rc \<Rightarrow> Some (rc, s)
     | Inr (sessionPresent, connack_rc) \<Rightarrow>
         if connack_rc \<noteq> QCLOUD_RET_MQTT_CONNACK_CONNECTION_ACCEPTED then Some (connack_rc, s)
         else do {
           s \<leftarrow> set_client_conn_state CONNECTED s;
           s \<leftarrow> HAL_MutexLock Generic s;
           let s = s\<lparr>was_manually_disconnected := 0, is_ping_outstanding := 0\<rparr>;
           let (t, s) = countdown env (ucast (keep_alive_interval (options s))) s;
           s \<leftarrow> HAL_MutexUnlock Generic (s\<lparr>ping_timer := t\<rparr>);
           Some (QCLOUD_RET_SUCCESS, s)
         }
   }"

definition mqtt_connect :: "'w env \<Rightarrow> junk \<Rightarrow> params_arg \<Rightarrow> 'w sys \<Rightarrow> (int \<times> 'w sys) option" where
  "mqtt_connect env j params s = do {
     let (connect_timer, s) = countdown_ms env (command_timeout_ms s) s;
     let s = apply_params params s;
     let (rc, w) = net_connect env (world s);
     let s = s\<lparr>world := w\<rparr>;
     if rc \<noteq> QCLOUD_RET_SUCCESS then Some (rc, s)
     else do {
       s \<leftarrow> HAL_MutexLock WriteBuf s;
       let ((now, malloc_ok, rand), s) = connect_inputs env s;
       (r, opts) \<leftarrow> serialize_connect_packet now malloc_ok rand (write_buf s) (write_buf_size s) (options s);
       let s = s\<lparr>options := opts\<rparr>;
       case r of
         Inl rc \<Rightarrow> do {
           s \<leftarrow> HAL_MutexUnlock WriteBuf s;
           Some (rc, s)
         }
       | Inr (b, len) \<Rightarrow> do {
           let s = s\<lparr>write_buf := b\<rparr>;
           if len = 0 then do {
             s \<leftarrow> HAL_MutexUnlock WriteBuf s;
             Some (QCLOUD_RET_SUCCESS, s)
           } else do {
             (rc, s) \<leftarrow> send_mqtt_packet env len connect_timer s;
             s \<leftarrow> HAL_MutexUnlock WriteBuf s;
             if rc \<noteq> QCLOUD_RET_SUCCESS then Some (rc, s)
             else do {
               (rc, connect_timer, s) \<leftarrow> wait_for_read env j (MessageTypes_val CONNACK) connect_timer s;
               if rc \<noteq> QCLOUD_RET_SUCCESS then Some (rc, s) else finish_connect env s
             }
           }
         }
     }
   }"

definition qcloud_iot_mqtt_connect ::
  "'w env \<Rightarrow> junk \<Rightarrow> params_arg option \<Rightarrow> 'w sys \<Rightarrow> (int \<times> 'w sys) option" where
  "qcloud_iot_mqtt_connect env j pParams s =
     (case pParams of
        None \<Rightarrow> Some (QCLOUD_ERR_INVAL, s)
      | Some params \<Rightarrow> do {
          (c, s) \<leftarrow> get_client_conn_state s;
          if c \<noteq> 0 then Some (QCLOUD_RET_MQTT_ALREADY_CONNECTED, s)
          else do {
            (rc, s) \<leftarrow> mqtt_connect env j params s;
            let s = (if rc \<noteq> QCLOUD_RET_SUCCESS then s\<lparr>world := net_disconnect env (world s)\<rparr> else s);
            Some (rc, s)
          }
        })"

definition qcloud_iot_mqtt_disconnect :: "'w env \<Rightarrow> 'w sys \<Rightarrow> (int \<times> 'w sys) option" where
  "qcloud_iot_mqtt_disconnect env s = do {
     (c, s) \<leftarrow> get_client_conn_state s;
     if c = 0 then Some (QCLOUD_ERR_MQTT_NO_CONN, s)
     else do {
       s \<leftarrow> HAL_MutexLock WriteBuf s;
       r \<leftarrow> serialize_packet_with_zero_payload (write_buf s) (write_buf_size s) DISCONNECT;
       case r of
         Inl rc \<Rightarrow> do {
           s \<leftarrow> HAL_MutexUnlock WriteBuf s;
           Some (rc, s)
         }
       | Inr (b, len) \<Rightarrow> do {
           let (timer, s) = countdown_ms env (command_timeout_ms s) (s\<lparr>write_buf := b\<rparr>);
           (rc, s) \<leftarrow> (if len > 0 then send_mqtt_packet env len timer s else Some (QCLOUD_RET_SUCCESS, s));
           s \<leftarrow> HAL_MutexUnlock WriteBuf s;
           if rc \<noteq> QCLOUD_RET_SUCCESS then Some (rc, s)
           else do {
             let s = s\<lparr>world := net_disconnect env (world s)\<rparr>;
             s \<leftarrow> set_client_conn_state NOTCONNECTED s;
             Some (QCLOUD_RET_SUCCESS, s\<lparr>was_manually_disconnected := 1\<rparr>)
           }
         }
     }
   }"

section \<open>Publishing\<close>

record PublishParams =
  pp_qos :: QoS
  pp_retained :: byte
  pp_id :: u16
  pp_payload :: "byte list option"
  pp_payload_len :: size_t

text \<open>\<^verbatim>\<open>list_remove\<close> on a waiting list: the node at the address, which must be in the list.\<close>

definition list_unlink :: "nat \<Rightarrow> (nat \<times> 'v) list \<Rightarrow> (nat \<times> 'v) list option" where
  "list_unlink a ns = (if a \<in> fst ` set ns then Some (filter (\<lambda>x. fst x \<noteq> a) ns) else None)"

text \<open>
  The part of \<^verbatim>\<open>qcloud_iot_mqtt_publish\<close> from the serialization on; the write buffer's lock is held on
  entry. The result is the code, which is the packet id on success, and the parameters.
\<close>

definition publish_and_send ::
  "'w env \<Rightarrow> cstr \<Rightarrow> PublishParams \<Rightarrow> Timer \<Rightarrow> 'w sys \<Rightarrow> (int \<times> PublishParams option \<times> 'w sys) option" where
  "publish_and_send env topic p timer s = do {
     r \<leftarrow> serialize_publish_packet (write_buf s) (write_buf_size s) 0 (pp_qos p) (pp_retained p)
           (pp_id p) topic (pp_payload p) (pp_payload_len p);
     case r of
       Inl rc \<Rightarrow> do {
         s \<leftarrow> HAL_MutexUnlock WriteBuf s;
         Some (rc, Some p, s)
       }
     | Inr (b, len) \<Rightarrow> do {
         let s = s\<lparr>write_buf := b\<rparr>;
         (node, s) \<leftarrow> (if pp_qos p > QOS0 then do {
                         (n, s) \<leftarrow> mask_push_pubInfo_to env len (pp_id p) s;
                         Some (map_sum id Some n, s)
                       } else Some (Inr None, s));
         case node of
           Inl rc \<Rightarrow> do {
             s \<leftarrow> HAL_MutexUnlock WriteBuf s;
             Some (rc, Some p, s)
           }
         | Inr node \<Rightarrow> do {
             (rc, s) \<leftarrow> send_mqtt_packet env len timer s;
             if rc \<noteq> QCLOUD_RET_SUCCESS then do {
               s \<leftarrow> (if pp_qos p > QOS0 then do {
                       s \<leftarrow> HAL_MutexLock ListPub s;
                       a \<leftarrow> node;
                       ns \<leftarrow> list_unlink a (list_pub_wait_ack s);
                       HAL_MutexUnlock ListPub (s\<lparr>list_pub_wait_ack := ns\<rparr>)
                     } else Some s);
               s \<leftarrow> HAL_MutexUnlock WriteBuf s;
               Some (rc, Some p, s)
             } else do {
               s \<leftarrow> HAL_MutexUnlock WriteBuf s;
               Some (uint (pp_id p), Some p, s)
             }
           }
       }
   }"

text \<open>The result is the code, which is the packet id on success, and the updated parameters.\<close>

definition qcloud_iot_mqtt_publish ::
  "'w env \<Rightarrow> cstr option \<Rightarrow> PublishParams option \<Rightarrow> 'w sys \<Rightarrow> (int \<times> PublishParams option \<times> 'w sys) option" where
  "qcloud_iot_mqtt_publish env topicName pParams s =
     (case pParams of
        None \<Rightarrow> Some (QCLOUD_ERR_INVAL, pParams, s)
      | Some p \<Rightarrow>
          (case topicName of
             None \<Rightarrow> Some (QCLOUD_ERR_INVAL, pParams, s)
           | Some topic \<Rightarrow>
               if length topic = 0 then Some (QCLOUD_ERR_INVAL, pParams, s)
               else if length topic > MAX_SIZE_OF_CLOUD_TOPIC then Some (QCLOUD_ERR_MAX_TOPIC_LENGTH, pParams, s)
               else if pp_qos p = QOS2 then Some (QCLOUD_ERR_MQTT_QOS_NOT_SUPPORT, pParams, s)
               else do {
                 (c, s) \<leftarrow> get_client_conn_state s;
                 if c = 0 then Some (QCLOUD_ERR_MQTT_NO_CONN, pParams, s)
                 else do {
                   let (timer, s) = countdown_ms env (command_timeout_ms s) s;
                   s \<leftarrow> HAL_MutexLock WriteBuf s;
                   (p, s) \<leftarrow> (if pp_qos p = QOS1 then do {
                                (i, s) \<leftarrow> get_next_packet_id s;
                                Some (p\<lparr>pp_id := i\<rparr>, s)
                              } else Some (p, s));
                   publish_and_send env topic p timer s
                 }
               }))"

section \<open>Subscribing\<close>

record SubscribeParams =
  sp_qos :: QoS
  on_message_handler :: "nat option"
  on_sub_event_handler :: "nat option"
  user_data :: nat

text \<open>
  Registering a request and sending it: the part \<^verbatim>\<open>qcloud_iot_mqtt_subscribe\<close> and
  \<^verbatim>\<open>qcloud_iot_mqtt_unsubscribe\<close> have in common, from the serialized packet on. The write
  buffer's lock is held on entry.
\<close>

definition push_and_send ::
  "'w env \<Rightarrow> nat \<Rightarrow> u16 \<Rightarrow> MessageTypes \<Rightarrow> SubTopicHandle \<Rightarrow> Timer \<Rightarrow> 'w sys \<Rightarrow> (int \<times> 'w sys) option" where
  "push_and_send env len packet_id type handle timer s = do {
     (node, s) \<leftarrow> push_sub_info_to env len packet_id type handle s;
     case node of
       Inl rc \<Rightarrow> do {
         s \<leftarrow> HAL_MutexUnlock WriteBuf s;
         s \<leftarrow> HAL_Free (topic_filter handle) s;
         Some (rc, s)
       }
     | Inr a \<Rightarrow> do {
         (rc, s) \<leftarrow> send_mqtt_packet env len timer s;
         if rc \<noteq> QCLOUD_RET_SUCCESS then do {
           s \<leftarrow> HAL_MutexLock ListSub s;
           ns \<leftarrow> list_unlink a (list_sub_wait_ack s);
           s \<leftarrow> HAL_MutexUnlock ListSub (s\<lparr>list_sub_wait_ack := ns\<rparr>);
           s \<leftarrow> HAL_MutexUnlock WriteBuf s;
           s \<leftarrow> HAL_Free (topic_filter handle) s;
           Some (rc, s)
         } else do {
           s \<leftarrow> HAL_MutexUnlock WriteBuf s;
           Some (uint packet_id, s)
         }
       }
   }"

definition qcloud_iot_mqtt_subscribe ::
  "'w env \<Rightarrow> cstr option \<Rightarrow> SubscribeParams option \<Rightarrow> 'w sys \<Rightarrow> (int \<times> 'w sys) option" where
  "qcloud_iot_mqtt_subscribe env topicFilter pParams s =
     (case pParams of
        None \<Rightarrow> Some (QCLOUD_ERR_INVAL, s)
      | Some p \<Rightarrow>
          (case topicFilter of
             None \<Rightarrow> Some (QCLOUD_ERR_INVAL, s)
           | Some topic \<Rightarrow>
               if length topic = 0 then Some (QCLOUD_ERR_INVAL, s)
               else if length topic > MAX_SIZE_OF_CLOUD_TOPIC then Some (QCLOUD_ERR_MAX_TOPIC_LENGTH, s)
               else if sp_qos p = QOS2 then Some (QCLOUD_ERR_MQTT_QOS_NOT_SUPPORT, s)
               else do {
                 (c, s) \<leftarrow> get_client_conn_state s;
                 if c = 0 then Some (QCLOUD_ERR_MQTT_NO_CONN, s)
                 else
                   let (topic_filter_stored, s) = HAL_Malloc env s in
                   if topic_filter_stored = None then Some (QCLOUD_ERR_FAILURE, s)
                   else do {
                     s \<leftarrow> store_str topic_filter_stored topic s;
                     let (timer, s) = countdown_ms env (command_timeout_ms s) s;
                     s \<leftarrow> HAL_MutexLock WriteBuf s;
                     (packet_id, s) \<leftarrow> get_next_packet_id s;
                     r \<leftarrow> serialize_subscribe_packet (write_buf s) (write_buf_size s) 0 packet_id 1 topic [sp_qos p];
                     case r of
                       Inl rc \<Rightarrow> do {
                         s \<leftarrow> HAL_MutexUnlock WriteBuf s;
                         s \<leftarrow> HAL_Free topic_filter_stored s;
                         Some (rc, s)
                       }
                     | Inr (b, len) \<Rightarrow>
                         push_and_send env len packet_id SUBSCRIBE
                           \<lparr>topic_filter = topic_filter_stored, message_handler = on_message_handler p,
                            sub_event_handler = on_sub_event_handler p, handler_user_data = user_data p,
                            handle_qos = sp_qos p\<rparr>
                           timer (s\<lparr>write_buf := b\<rparr>)
                   }
               }))"

fun resubscribe_loop :: "'w env \<Rightarrow> nat \<Rightarrow> nat \<Rightarrow> 'w sys \<Rightarrow> (int \<times> 'w sys) option" where
  "resubscribe_loop env 0 itr s = Some (QCLOUD_RET_SUCCESS, s)"
| "resubscribe_loop env (Suc n) itr s = do {
     h \<leftarrow> rd (sub_handles s) itr;
     if topic_filter h = None then resubscribe_loop env n (itr + 1) s
     else do {
       topic \<leftarrow> str_at s (topic_filter h);
       (rc, s) \<leftarrow> qcloud_iot_mqtt_subscribe env (Some topic)
         (Some \<lparr>sp_qos = handle_qos h, on_message_handler = message_handler h,
           on_sub_event_handler = sub_event_handler h, user_data = handler_user_data h\<rparr>) s;
       if rc < 0 then Some (rc, s) else resubscribe_loop env n (itr + 1) s
     }
   }"

definition qcloud_iot_mqtt_resubscribe :: "'w env \<Rightarrow> 'w sys \<Rightarrow> (int \<times> 'w sys) option" where
  "qcloud_iot_mqtt_resubscribe env s = do {
     (c, s) \<leftarrow> get_client_conn_state s;
     if c = 0 then Some (QCLOUD_ERR_MQTT_NO_CONN, s)
     else resubscribe_loop env MAX_MESSAGE_HANDLERS 0 s
   }"

text \<open>\<^verbatim>\<open>strstr\<close> for a pattern of two characters.\<close>

fun strstr2 :: "byte \<Rightarrow> byte \<Rightarrow> cstr \<Rightarrow> bool" where
  "strstr2 a b (x # y # s) \<longleftrightarrow> (x = a \<and> y = b) \<or> strstr2 a b (y # s)"
| "strstr2 a b s \<longleftrightarrow> False"

definition has_wildcard :: "cstr \<Rightarrow> bool" where
  "has_wildcard topic \<longleftrightarrow> strstr2 CH_SLASH CH_HASH topic \<or> strstr2 CH_SLASH CH_PLUS topic"

text \<open>Whether a subscription is for the filter: no string is compared for a free slot.\<close>

definition handle_for :: "'w sys \<Rightarrow> SubTopicHandle \<Rightarrow> cstr \<Rightarrow> bool option" where
  "handle_for s h topic =
     (if topic_filter h = None then Some False else map_option ((=) topic) (str_at s (topic_filter h)))"

fun sub_ready_loop :: "nat \<Rightarrow> nat \<Rightarrow> cstr \<Rightarrow> 'w sys \<Rightarrow> bool option" where
  "sub_ready_loop 0 i topic s = Some False"
| "sub_ready_loop (Suc n) i topic s = do {
     h \<leftarrow> rd (sub_handles s) i;
     same \<leftarrow> handle_for s h topic;
     if same \<or> has_wildcard topic then Some True else sub_ready_loop n (i + 1) topic s
   }"

definition qcloud_iot_mqtt_is_sub_ready :: "cstr option \<Rightarrow> 'w sys \<Rightarrow> (bool \<times> 'w sys) option" where
  "qcloud_iot_mqtt_is_sub_ready topicFilter s =
     (case topicFilter of
        None \<Rightarrow> Some (False, s)
      | Some topic \<Rightarrow>
          if length topic = 0 \<or> length topic > MAX_SIZE_OF_CLOUD_TOPIC then Some (False, s)
          else do {
            s \<leftarrow> HAL_MutexLock Generic s;
            b \<leftarrow> sub_ready_loop MAX_MESSAGE_HANDLERS 0 topic s;
            s \<leftarrow> HAL_MutexUnlock Generic s;
            Some (b, s)
          })"

section \<open>Unsubscribing\<close>

fun unsub_loop :: "nat \<Rightarrow> nat \<Rightarrow> cstr \<Rightarrow> bool \<Rightarrow> 'w sys \<Rightarrow> (bool \<times> 'w sys) option" where
  "unsub_loop 0 i topic suber_exists s = Some (suber_exists, s)"
| "unsub_loop (Suc n) i topic suber_exists s = do {
     h \<leftarrow> rd (sub_handles s) i;
     same \<leftarrow> handle_for s h topic;
     if same \<or> has_wildcard topic then do {
       let s = notify_sub h MQTT_EVENT_UNSUBSCRIBE s;
       s \<leftarrow> HAL_Free (topic_filter h) s;
       unsub_loop n (i + 1) topic True (s\<lparr>sub_handles := (sub_handles s)[i := h\<lparr>topic_filter := None\<rparr>]\<rparr>)
     } else unsub_loop n (i + 1) topic suber_exists s
   }"

text \<open>The part of \<^verbatim>\<open>qcloud_iot_mqtt_unsubscribe\<close> after the subscriptions have been removed.\<close>

definition unsubscribe_request :: "'w env \<Rightarrow> junk \<Rightarrow> cstr \<Rightarrow> 'w sys \<Rightarrow> (int \<times> 'w sys) option" where
  "unsubscribe_request env j topic s = do {
     (c, s) \<leftarrow> get_client_conn_state s;
     if c = 0 then Some (QCLOUD_ERR_MQTT_NO_CONN, s)
     else
       let (topic_filter_stored, s) = HAL_Malloc env s in
       if topic_filter_stored = None then Some (QCLOUD_ERR_FAILURE, s)
       else do {
         s \<leftarrow> store_str topic_filter_stored topic s;
         let (timer, s) = countdown_ms env (command_timeout_ms s) s;
         s \<leftarrow> HAL_MutexLock WriteBuf s;
         (packet_id, s) \<leftarrow> get_next_packet_id s;
         r \<leftarrow> serialize_unsubscribe_packet (write_buf s) (write_buf_size s) 0 packet_id 1 topic;
         case r of
           Inl rc \<Rightarrow> do {
             s \<leftarrow> HAL_MutexUnlock WriteBuf s;
             s \<leftarrow> HAL_Free topic_filter_stored s;
             Some (rc, s)
           }
         | Inr (b, len) \<Rightarrow>
             push_and_send env len packet_id UNSUBSCRIBE
               \<lparr>topic_filter = topic_filter_stored, message_handler = None,
                sub_event_handler = None, handler_user_data = 0,
                handle_qos = handle_qos (junk_handle j)\<rparr>
               timer (s\<lparr>write_buf := b\<rparr>)
       }
   }"

definition qcloud_iot_mqtt_unsubscribe ::
  "'w env \<Rightarrow> junk \<Rightarrow> cstr option \<Rightarrow> 'w sys \<Rightarrow> (int \<times> 'w sys) option" where
  "qcloud_iot_mqtt_unsubscribe env j topicFilter s =
     (case topicFilter of
        None \<Rightarrow> Some (QCLOUD_ERR_INVAL, s)
      | Some topic \<Rightarrow>
          if length topic = 0 then Some (QCLOUD_ERR_INVAL, s)
          else if length topic > MAX_SIZE_OF_CLOUD_TOPIC then Some (QCLOUD_ERR_MAX_TOPIC_LENGTH, s)
          else do {
            s \<leftarrow> HAL_MutexLock Generic s;
            (suber_exists, s) \<leftarrow> unsub_loop MAX_MESSAGE_HANDLERS 0 topic False s;
            s \<leftarrow> HAL_MutexUnlock Generic s;
            if \<not> suber_exists then Some (QCLOUD_ERR_MQTT_UNSUB_FAIL, s)
            else unsubscribe_request env j topic s
          })"

section \<open>Reconnecting\<close>

definition qcloud_iot_mqtt_attempt_reconnect :: "'w env \<Rightarrow> junk \<Rightarrow> 'w sys \<Rightarrow> (int \<times> 'w sys) option" where
  "qcloud_iot_mqtt_attempt_reconnect env j s = do {
     (c, s) \<leftarrow> get_client_conn_state s;
     if c \<noteq> 0 then Some (QCLOUD_RET_MQTT_ALREADY_CONNECTED, s)
     else do {
       (rc, s) \<leftarrow> qcloud_iot_mqtt_connect env j (Some OwnOptions) s;
       (c, s) \<leftarrow> get_client_conn_state s;
       if c = 0 then Some (rc, s)
       else do {
         (rc, s) \<leftarrow> qcloud_iot_mqtt_resubscribe env s;
         if rc \<noteq> QCLOUD_RET_SUCCESS then Some (rc, s)
         else Some (QCLOUD_RET_MQTT_RECONNECTED, s)
       }
     }
   }"

end
