(* ===== verification/Mqtt_Yield.thy ===== *)
theory Mqtt_Yield
  imports Mqtt_Api
begin

text \<open>
  The client's main loop (\<^verbatim>\<open>mqtt_client_yield.c\<close>): reading and handling packets, expiry of
  unacknowledged requests, keep-alive, and reconnection with an exponentially growing delay.
\<close>

section \<open>Expiry of requests\<close>

text \<open>
  The loop of \<^verbatim>\<open>qcloud_iot_mqtt_pub_info_proc\<close> runs from the tail and keeps or removes each
  node; the list's lock is released and taken again around a removal by timeout.
\<close>

fun pub_proc_nodes :: "'w env \<Rightarrow> (nat \<times> QcloudIotPubInfo) list \<Rightarrow> 'w sys \<Rightarrow>
    ((nat \<times> QcloudIotPubInfo) list \<times> 'w sys) option" where
  "pub_proc_nodes env [] s = Some ([], s)"
| "pub_proc_nodes env ((a, i) # ns) s = do {
     (ns, s) \<leftarrow> pub_proc_nodes env ns s;
     if pub_node_state i = MQTT_NODE_STATE_INVALID then Some (ns, s)
     else if is_connected s = 0 then Some ((a, i) # ns, s)
     else do {
       let (ms, s) = left_ms env (pub_start_time i) s;
       if ms > 0 then Some ((a, i) # ns, s)
       else do {
         s \<leftarrow> HAL_MutexUnlock ListPub s;
         let (t, s) = countdown_ms env (command_timeout_ms s) s;
         s \<leftarrow> HAL_MutexLock ListPub s;
         Some (ns, notify (Event MQTT_EVENT_PUBLISH_TIMEOUT (Some (pub_msg_id i))) s)
       }
     }
   }"

definition qcloud_iot_mqtt_pub_info_proc :: "'w env \<Rightarrow> 'w sys \<Rightarrow> (int \<times> 'w sys) option" where
  "qcloud_iot_mqtt_pub_info_proc env s = do {
     s \<leftarrow> HAL_MutexLock ListPub s;
     let (iter, s) = (if list_pub_wait_ack s = [] then (None, s) else HAL_Malloc env s);
     s \<leftarrow> (if iter = None then Some s
           else do {
             (ns, s) \<leftarrow> pub_proc_nodes env (list_pub_wait_ack s) s;
             Some (s\<lparr>list_pub_wait_ack := ns\<rparr>)
           });
     s \<leftarrow> HAL_MutexUnlock ListPub s;
     Some (QCLOUD_RET_SUCCESS, s)
   }"

fun sub_proc_nodes :: "'w env \<Rightarrow> (nat \<times> QcloudIotSubInfo) list \<Rightarrow> 'w sys \<Rightarrow>
    ((nat \<times> QcloudIotSubInfo) list \<times> 'w sys) option" where
  "sub_proc_nodes env [] s = Some ([], s)"
| "sub_proc_nodes env ((a, i) # ns) s = do {
     (ns, s) \<leftarrow> sub_proc_nodes env ns s;
     if sub_node_state i = MQTT_NODE_STATE_INVALID then Some (ns, s)
     else if is_connected s = 0 then Some ((a, i) # ns, s)
     else do {
       let (ms, s) = left_ms env (sub_start_time i) s;
       if ms > 0 then Some ((a, i) # ns, s)
       else do {
         let s =
           (if event_handle s then
              (if sub_type i = SUBSCRIBE
               then upcall (Event MQTT_EVENT_SUBCRIBE_TIMEOUT (Some (sub_msg_id i)))
                      (notify_sub (sub_handler i) MQTT_EVENT_SUBCRIBE_TIMEOUT s)
               else upcall (Event MQTT_EVENT_UNSUBCRIBE_TIMEOUT (Some (sub_msg_id i))) s)
            else s);
         s \<leftarrow> HAL_Free (topic_filter (sub_handler i)) s;
         Some (ns, s)
       }
     }
   }"

definition qcloud_iot_mqtt_sub_info_proc :: "'w env \<Rightarrow> 'w sys \<Rightarrow> (int \<times> 'w sys) option" where
  "qcloud_iot_mqtt_sub_info_proc env s = do {
     s \<leftarrow> HAL_MutexLock ListSub s;
     let (iter, s) = (if list_sub_wait_ack s = [] then (None, s) else HAL_Malloc env s);
     s \<leftarrow> (if iter = None then Some s
           else do {
             (ns, s) \<leftarrow> sub_proc_nodes env (list_sub_wait_ack s) s;
             Some (s\<lparr>list_sub_wait_ack := ns\<rparr>)
           });
     s \<leftarrow> HAL_MutexUnlock ListSub s;
     Some (QCLOUD_RET_SUCCESS, s)
   }"

section \<open>Losing and regaining the connection\<close>

definition get_random_interval :: "'w env \<Rightarrow> 'w sys \<Rightarrow> u32 \<times> 'w sys" where
  "get_random_interval env s =
     (let (rand, w) = hal_rand env (world s)
      in (of_nat ((rand 0 mod 100 + 100) * 10), s\<lparr>world := w\<rparr>))"

definition iot_disconnect_callback :: "'w sys \<Rightarrow> 'w sys" where
  "iot_disconnect_callback s = notify (Event MQTT_EVENT_DISCONNECT None) s"

definition reconnect_callback :: "'w sys \<Rightarrow> 'w sys" where
  "reconnect_callback s = notify (Event MQTT_EVENT_RECONNECT None) s"

definition handle_disconnect :: "'w env \<Rightarrow> 'w sys \<Rightarrow> (int \<times> 'w sys) option" where
  "handle_disconnect env s = do {
     (c, s) \<leftarrow> get_client_conn_state s;
     if c = 0 then Some (QCLOUD_ERR_MQTT_NO_CONN, s)
     else do {
       (rc, s) \<leftarrow> qcloud_iot_mqtt_disconnect env s;
       s \<leftarrow> (if rc \<noteq> QCLOUD_RET_SUCCESS
             then set_client_conn_state NOTCONNECTED (s\<lparr>world := net_disconnect env (world s)\<rparr>)
             else Some s);
       let s = iot_disconnect_callback s;
       Some (QCLOUD_ERR_MQTT_NO_CONN, s\<lparr>was_manually_disconnected := 0\<rparr>)
     }
   }"

definition handle_reconnect :: "'w env \<Rightarrow> junk \<Rightarrow> 'w sys \<Rightarrow> (int \<times> 'w sys) option" where
  "handle_reconnect env j s =
     (let (e, s) = expired env (reconnect_delay_timer s) s in
      if \<not> e then Some (QCLOUD_ERR_MQTT_ATTEMPTING_RECONNECT, s)
      else do {
        let (up, w) = net_is_connected env (world s);
        let s = s\<lparr>world := w\<rparr>;
        (rc, s) \<leftarrow> (if up then qcloud_iot_mqtt_attempt_reconnect env j s
                   else Some (QCLOUD_ERR_MQTT_ATTEMPTING_RECONNECT, s));
        if up \<and> rc = QCLOUD_RET_MQTT_RECONNECTED then Some (rc, reconnect_callback s)
        else do {
          let rc = (if up then QCLOUD_ERR_MQTT_ATTEMPTING_RECONNECT else QCLOUD_RET_MQTT_RECONNECTED);
          let s = s\<lparr>current_reconnect_wait_interval := current_reconnect_wait_interval s * 2\<rparr>;
          if MAX_RECONNECT_WAIT_INTERVAL < current_reconnect_wait_interval s
          then Some (QCLOUD_ERR_MQTT_RECONNECT_TIMEOUT, s)
          else do {
            let (t, s) = countdown_ms env (current_reconnect_wait_interval s) s;
            Some (rc, s\<lparr>reconnect_delay_timer := t\<rparr>)
          }
        }
      })"

section \<open>Keep-alive\<close>

text \<open>The \<^verbatim>\<open>do ... while\<close> loop that sends a PINGREQ; \<open>n\<close> retries are left.\<close>

fun ping_loop :: "'w env \<Rightarrow> nat \<Rightarrow> nat \<Rightarrow> 'w sys \<Rightarrow> (int \<times> 'w sys) option" where
  "ping_loop env 0 len s = do {
     let (timer, s) = countdown_ms env (command_timeout_ms s) s;
     send_mqtt_packet env len timer s
   }"
| "ping_loop env (Suc n) len s = do {
     let (timer, s) = countdown_ms env (command_timeout_ms s) s;
     (rc, s) \<leftarrow> send_mqtt_packet env len timer s;
     if rc \<noteq> QCLOUD_RET_SUCCESS then ping_loop env n len s else Some (rc, s)
   }"

definition mqtt_keep_alive :: "'w env \<Rightarrow> 'w sys \<Rightarrow> (int \<times> 'w sys) option" where
  "mqtt_keep_alive env s =
     (if keep_alive_interval (options s) = 0 then Some (QCLOUD_RET_SUCCESS, s)
      else
        let (e, s) = expired env (ping_timer s) s in
        if \<not> e then Some (QCLOUD_RET_SUCCESS, s)
        else if is_ping_outstanding s \<ge> MQTT_PING_RETRY_TIMES then handle_disconnect env s
        else do {
          s \<leftarrow> HAL_MutexLock WriteBuf s;
          r \<leftarrow> serialize_packet_with_zero_payload (write_buf s) (write_buf_size s) PINGREQ;
          case r of
            Inl rc \<Rightarrow> do {
              s \<leftarrow> HAL_MutexUnlock WriteBuf s;
              Some (rc, s)
            }
          | Inr (b, len) \<Rightarrow> do {
              (rc, s) \<leftarrow> ping_loop env 3 len (s\<lparr>write_buf := b\<rparr>);
              s \<leftarrow> HAL_MutexUnlock WriteBuf s;
              if rc \<noteq> QCLOUD_RET_SUCCESS then handle_disconnect env s
              else do {
                s \<leftarrow> HAL_MutexLock Generic s;
                let s = s\<lparr>is_ping_outstanding := is_ping_outstanding s + 1\<rparr>;
                let (t, s) = countdown env (min 5 (ucast (keep_alive_interval (options s) div 2))) s;
                s \<leftarrow> HAL_MutexUnlock Generic (s\<lparr>ping_timer := t\<rparr>);
                Some (QCLOUD_RET_SUCCESS, s)
              }
            }
        })"

section \<open>The main loop\<close>

text \<open>
  One iteration of \<^verbatim>\<open>qcloud_iot_mqtt_yield\<close> for a connected client: the code, the timer, and
  whether the loop ends.
\<close>

definition yield_step ::
  "'w env \<Rightarrow> junk \<Rightarrow> Timer \<Rightarrow> byte \<Rightarrow> 'w sys \<Rightarrow> (int \<times> bool \<times> Timer \<times> byte \<times> 'w sys) option" where
  "yield_step env j timer packet_type s = do {
     (rc, packet_type, timer, s) \<leftarrow> cycle_for_read env j timer packet_type s;
     (rc, s) \<leftarrow>
       (if rc = QCLOUD_RET_SUCCESS then do {
          (_, s) \<leftarrow> qcloud_iot_mqtt_pub_info_proc env s;
          (_, s) \<leftarrow> qcloud_iot_mqtt_sub_info_proc env s;
          mqtt_keep_alive env s
        } else if rc = QCLOUD_ERR_SSL_READ_TIMEOUT \<or> rc = QCLOUD_ERR_SSL_READ \<or>
                  rc = QCLOUD_ERR_TCP_PEER_SHUTDOWN \<or> rc = QCLOUD_ERR_TCP_READ_FAIL
        then handle_disconnect env s
        else Some (rc, s));
     if rc = QCLOUD_ERR_MQTT_NO_CONN then do {
       let s = s\<lparr>counter_network_disconnected := counter_network_disconnected s + 1\<rparr>;
       if auto_connect_enable (options s) = 1 then do {
         let (interval, s) = get_random_interval env s;
         let (t, s) = countdown_ms env interval (s\<lparr>current_reconnect_wait_interval := interval\<rparr>);
         Some (QCLOUD_ERR_MQTT_ATTEMPTING_RECONNECT, False, timer, packet_type, s\<lparr>reconnect_delay_timer := t\<rparr>)
       } else Some (rc, True, timer, packet_type, s)
     } else Some (rc, rc \<noteq> QCLOUD_RET_SUCCESS, timer, packet_type, s)
   }"

partial_function (option) yield_loop ::
  "'w env \<Rightarrow> junk \<Rightarrow> Timer \<Rightarrow> byte \<Rightarrow> int \<Rightarrow> 'w sys \<Rightarrow> (int \<times> 'w sys) option" where
  "yield_loop env j timer packet_type rc s =
     (let (e, s) = expired env timer s in
      if e then Some (rc, s)
      else do {
        (c, s) \<leftarrow> get_client_conn_state s;
        if c = 0 then
          if current_reconnect_wait_interval s > MAX_RECONNECT_WAIT_INTERVAL
          then Some (QCLOUD_ERR_MQTT_RECONNECT_TIMEOUT, s)
          else do {
            (rc, s) \<leftarrow> handle_reconnect env j s;
            yield_loop env j timer packet_type rc s
          }
        else do {
          (rc, finished, timer, packet_type, s) \<leftarrow> yield_step env j timer packet_type s;
          if finished then Some (rc, s) else yield_loop env j timer packet_type rc s
        }
      })"

definition qcloud_iot_mqtt_yield :: "'w env \<Rightarrow> junk \<Rightarrow> u32 \<Rightarrow> 'w sys \<Rightarrow> (int \<times> 'w sys) option" where
  "qcloud_iot_mqtt_yield env j timeout_ms s =
     (if timeout_ms = 0 then Some (QCLOUD_ERR_INVAL, s)
      else do {
        (c, s) \<leftarrow> get_client_conn_state s;
        if c = 0 \<and> was_manually_disconnected s = 1 then Some (QCLOUD_RET_MQTT_MANUALLY_DISCONNECTED, s)
        else do {
          (c, s) \<leftarrow> get_client_conn_state s;
          if c = 0 \<and> auto_connect_enable (options s) = 0 then Some (QCLOUD_ERR_MQTT_NO_CONN, s)
          else do {
            let (timer, s) = countdown_ms env timeout_ms s;
            yield_loop env j timer 0 QCLOUD_RET_SUCCESS s
          }
        }
      })"

text \<open>\<^verbatim>\<open>qcloud_iot_mqtt_yield_mt\<close>; sleeping is left to the environment's clock.\<close>

definition qcloud_iot_mqtt_yield_mt :: "'w env \<Rightarrow> junk \<Rightarrow> u32 \<Rightarrow> 'w sys \<Rightarrow> (int \<times> 'w sys) option" where
  "qcloud_iot_mqtt_yield_mt env j timeout_ms s =
     (if timeout_ms = 0 then Some (QCLOUD_ERR_INVAL, s)
      else if thread_running s then Some (QCLOUD_RET_SUCCESS, s)
      else qcloud_iot_mqtt_yield env j timeout_ms s)"

end
