(* ===== verification/Mqtt_Invariant.thy ===== *)
theory Mqtt_Invariant
  imports Mqtt_Yield
begin

text \<open>
  The invariant of the MQTT client between two calls: no lock is held, the arrays have their sizes, the
  waiting lists are bounded and their nodes distinct, and every topic filter the client refers to is an
  allocated string that nothing else refers to. With it come the facts the components that follow share:
  what delivering a message does, and what the operations on the waiting lists do.
\<close>

section \<open>The invariant\<close>

definition unlocked :: "'w sys \<Rightarrow> bool" where
  "unlocked s \<longleftrightarrow> \<not> lock_generic s \<and> \<not> lock_write_buf s \<and> \<not> lock_list_pub s \<and> \<not> lock_list_sub s"

text \<open>The fixed-size arrays have their sizes, and the duplicate buffer's index is inside it.\<close>

definition arrays_ok :: "'w sys \<Rightarrow> bool" where
  "arrays_ok s \<longleftrightarrow> write_buf_size s = 2048 \<and> length (write_buf s) = 2048 \<and>
     read_buf_size s = 2048 \<and> length (read_buf s) = 2048 \<and>
     length (sub_handles s) = MAX_MESSAGE_HANDLERS \<and>
     length (repeat_packet_id_buf s) = MQTT_MAX_REPEAT_BUF_LEN \<and>
     current_packet_id_cnt s < MQTT_MAX_REPEAT_BUF_LEN"

text \<open>The waiting lists are bounded; their nodes have distinct addresses below the next free one.\<close>

definition lists_ok :: "'w sys \<Rightarrow> bool" where
  "lists_ok s \<longleftrightarrow> length (list_pub_wait_ack s) \<le> MAX_REPUB_NUM \<and>
     length (list_sub_wait_ack s) \<le> MAX_MESSAGE_HANDLERS \<and>
     distinct (map fst (list_pub_wait_ack s)) \<and> distinct (map fst (list_sub_wait_ack s)) \<and>
     (\<forall>a \<in> fst ` set (list_pub_wait_ack s) \<union> fst ` set (list_sub_wait_ack s). a < next_addr s)"

text \<open>
  The topic filters the client owns: those of its subscriptions and those of the requests that wait
  for an acknowledgement. Each is a heap string of its own.
\<close>

definition handle_filters :: "SubTopicHandle list \<Rightarrow> nat list" where
  "handle_filters hs = concat (map (\<lambda>h. case topic_filter h of None \<Rightarrow> [] | Some a \<Rightarrow> [a]) hs)"

definition pending_filters :: "(nat \<times> QcloudIotSubInfo) list \<Rightarrow> nat list" where
  "pending_filters ns =
     handle_filters (map (sub_handler \<circ> snd) (filter (\<lambda>x. sub_node_state (snd x) = MQTT_NODE_STATE_NORMANL) ns))"

definition heap_ok :: "'w sys \<Rightarrow> bool" where
  "heap_ok s \<longleftrightarrow> distinct (handle_filters (sub_handles s) @ pending_filters (list_sub_wait_ack s)) \<and>
     set (handle_filters (sub_handles s) @ pending_filters (list_sub_wait_ack s)) \<subseteq> dom (strings s) \<and>
     (\<forall>a \<in> dom (strings s). a < next_addr s)"

definition client_inv :: "'w sys \<Rightarrow> bool" where
  "client_inv s \<longleftrightarrow> unlocked s \<and> arrays_ok s \<and> lists_ok s \<and> heap_ok s"

lemma handle_filters_simps [simp]:
  "handle_filters [] = []"
  "handle_filters (h # hs) = (case topic_filter h of None \<Rightarrow> [] | Some a \<Rightarrow> [a]) @ handle_filters hs"
  "handle_filters (hs @ hs') = handle_filters hs @ handle_filters hs'"
  by (simp_all add: handle_filters_def)

lemma pending_filters_simps [simp]:
  "pending_filters [] = []"
  "pending_filters (x # ns) =
     (if sub_node_state (snd x) = MQTT_NODE_STATE_NORMANL
      then (case topic_filter (sub_handler (snd x)) of None \<Rightarrow> [] | Some a \<Rightarrow> [a]) else []) @ pending_filters ns"
  "pending_filters (ns @ ns') = pending_filters ns @ pending_filters ns'"
  by (simp_all add: pending_filters_def)

lemma set_handle_filters: "set (handle_filters hs) = {a. \<exists>h \<in> set hs. topic_filter h = Some a}"
  by (induction hs) (auto split: option.splits)

text \<open>An operation that takes and releases a lock leaves the state as it was.\<close>

lemma lock_restore [simp]:
  "\<not> lock_generic s \<Longrightarrow> s\<lparr>lock_generic := False\<rparr> = s"
  "\<not> lock_write_buf s \<Longrightarrow> s\<lparr>lock_write_buf := False\<rparr> = s"
  "\<not> lock_list_pub s \<Longrightarrow> s\<lparr>lock_list_pub := False\<rparr> = s"
  "\<not> lock_list_sub s \<Longrightarrow> s\<lparr>lock_list_sub := False\<rparr> = s"
  by (cases s; simp)+

lemma lock_held_again [simp]:
  "lock_generic s \<Longrightarrow> s\<lparr>lock_generic := True\<rparr> = s"
  "lock_write_buf s \<Longrightarrow> s\<lparr>lock_write_buf := True\<rparr> = s"
  "lock_list_pub s \<Longrightarrow> s\<lparr>lock_list_pub := True\<rparr> = s"
  "lock_list_sub s \<Longrightarrow> s\<lparr>lock_list_sub := True\<rparr> = s"
  by (cases s; simp)+

lemmas mutex_simps = HAL_MutexLock_def HAL_MutexUnlock_def

lemma get_client_conn_state_ok:
  "\<not> lock_generic s \<Longrightarrow> get_client_conn_state s = Some (is_connected s, s)"
  by (simp add: get_client_conn_state_def mutex_simps)

lemma set_client_conn_state_ok:
  "\<not> lock_generic s \<Longrightarrow> set_client_conn_state c s = Some (s\<lparr>is_connected := c\<rparr>)"
  by (simp add: set_client_conn_state_def mutex_simps)


text \<open>The packet id after \<open>x\<close>: 65535 is followed by 1.\<close>

definition next_id :: "u16 \<Rightarrow> u16" where
  "next_id x = (if MAX_PACKET_ID = x then 1 else x + 1)"

lemma get_next_packet_id_ok:
  assumes "\<not> lock_generic s"
  shows "get_next_packet_id s = Some (next_id (next_packet_id s), s\<lparr>next_packet_id := next_id (next_packet_id s)\<rparr>)"
  using assms unfolding get_next_packet_id_def next_id_def [symmetric] by (simp add: mutex_simps Let_def)

text \<open>Allocation changes the environment and the next free address.\<close>

lemma HAL_Malloc_cases:
  obtains (fail) w where "HAL_Malloc env s = (None, s\<lparr>world := w\<rparr>)" and "\<not> fst (hal_malloc env (world s))"
  | (addr) w where "HAL_Malloc env s = (Some (next_addr s), s\<lparr>next_addr := next_addr s + 1, world := w\<rparr>)"
      and "fst (hal_malloc env (world s))"
proof -
  obtain b w where m: "hal_malloc env (world s) = (b, w)"
    by (cases "hal_malloc env (world s)")
  have malloc: "HAL_Malloc env s = (if b then (Some (next_addr s), s\<lparr>next_addr := next_addr s + 1, world := w\<rparr>)
      else (None, s\<lparr>world := w\<rparr>))"
    by (simp add: HAL_Malloc_def m)
  show thesis
  proof (cases b)
    case True
    show thesis
      by (rule addr [of w]) (simp_all only: malloc True if_True m fst_conv)
  next
    case False
    show thesis
      by (rule fail [of w]) (simp_all only: malloc False if_False m fst_conv not_False_eq_True)
  qed
qed

section \<open>Topic matching is total\<close>

lemma skip_level_total: "n \<le> length name \<Longrightarrow> curn < n \<Longrightarrow> \<exists>p. skip_level name n curn = Some p \<and> p < n"
proof (induction "n - curn" arbitrary: curn rule: less_induct)
  case less
  show ?case
  proof (cases "curn + 1 < n")
    case True
    then have "n - (curn + 1) < n - curn" by simp
    from less.hyps [OF this less.prems(1) True] True less.prems show ?thesis
      by (subst skip_level.simps) (auto simp: rd_def)
  next
    case False
    with less.prems show ?thesis
      by (subst skip_level.simps) simp
  qed
qed

lemma topic_match_loop_total:
  "n \<le> length name \<Longrightarrow> curn \<le> n \<Longrightarrow> 0 < n \<Longrightarrow>
     ok (topic_match_loop f name n curn) (\<lambda>r. match_result name n r \<noteq> None)"
proof (induction f arbitrary: curn)
  case Nil
  then show ?case by (simp add: match_result_def)
next
  case (Cons c cs)
  have stop: "match_result name n (c # cs, p) \<noteq> None" if "p \<le> n" "c = CH_PLUS \<longrightarrow> p \<noteq> 0" for p
    using that Cons.prems by (auto simp: match_result_def rd_def)
  show ?case
  proof (cases "curn < n")
    case True
    then have rd: "rd name curn = Some (name ! curn)"
      using Cons.prems by (simp add: rd_def)
    obtain p where "skip_level name n curn = Some p" "p < n"
      using skip_level_total Cons.prems True by blast
    with True rd stop Cons.IH Cons.prems show ?thesis
      by (simp add: ok_bind)
  next
    case False
    with Cons.prems stop [of curn] show ?thesis by simp
  qed
qed

lemma is_topic_matched_total:
  "n \<le> length name \<Longrightarrow> 0 < n \<Longrightarrow> \<exists>b. is_topic_matched f name n = Some b"
  using topic_match_loop_total [of n name 0 f] by (auto simp: is_topic_matched_alt dest!: ok_D)

section \<open>Delivering a message\<close>

text \<open>A message whose topic can be compared: not empty, inside its buffer and NUL-terminated.\<close>

definition topic_ok :: "MQTTMessage \<Rightarrow> bool" where
  "topic_ok msg \<longleftrightarrow> 0 < msg_topic_len msg \<and> msg_topic_len msg \<le> length (msg_topic msg) \<and>
     buf_str (msg_topic msg) \<noteq> None"

text \<open>Which subscription a message belongs to: the first that matches and has a message handler.\<close>

definition handle_matches :: "'w sys \<Rightarrow> MQTTMessage \<Rightarrow> SubTopicHandle \<Rightarrow> bool" where
  "handle_matches s msg h \<longleftrightarrow>
     (case str_at s (topic_filter h) of
        None \<Rightarrow> False
      | Some f \<Rightarrow> is_topic_equals (msg_topic msg) f = Some True \<or>
                 is_topic_matched f (msg_topic msg) (msg_topic_len msg) = Some True)"

definition delivery :: "'w sys \<Rightarrow> MQTTMessage \<Rightarrow> SubTopicHandle list \<Rightarrow> upcall option" where
  "delivery s msg hs =
     map_option (\<lambda>h. Message (the (message_handler h)) msg (handler_user_data h))
       (find (\<lambda>h. handle_matches s msg h \<and> message_handler h \<noteq> None) hs)"

lemma deliver_loop_correct:
  assumes "topic_ok msg" and "\<forall>h \<in> set (sub_handles s). topic_filter h \<noteq> None \<longrightarrow> str_at s (topic_filter h) \<noteq> None"
    and "i + n \<le> length (sub_handles s)" and "lock_generic s"
  shows "deliver_loop n i msg s = Some (case delivery s msg (take n (drop i (sub_handles s))) of
      None \<Rightarrow> (False, s) | Some c \<Rightarrow> (True, upcall c (s\<lparr>lock_generic := False\<rparr>)))"
  using assms(3)
proof (induction n arbitrary: i)
  case 0
  then show ?case by (simp add: delivery_def)
next
  case (Suc n)
  let ?h = "sub_handles s ! i"
  have dr: "take (Suc n) (drop i (sub_handles s)) = ?h # take n (drop (i + 1) (sub_handles s))"
    using Suc.prems by (simp add: Cons_nth_drop_Suc [symmetric])
  have rd: "rd (sub_handles s) i = Some ?h"
    using Suc.prems by (simp add: rd_def)
  have IH: "deliver_loop n (i + 1) msg s = Some (case delivery s msg (take n (drop (i + 1) (sub_handles s))) of
      None \<Rightarrow> (False, s) | Some c \<Rightarrow> (True, upcall c (s\<lparr>lock_generic := False\<rparr>)))"
    using Suc by simp
  show ?case
  proof (cases "topic_filter ?h")
    case None
    then show ?thesis
      using rd IH dr by (simp add: delivery_def handle_matches_def str_at_def)
  next
    case (Some a)
    then obtain f where f: "str_at s (topic_filter ?h) = Some f"
      using assms(2) Suc.prems nth_mem [of i "sub_handles s"] by fastforce
    obtain eq where eq: "is_topic_equals (msg_topic msg) f = Some eq"
      using assms(1) by (auto simp: is_topic_equals_def topic_ok_def)
    obtain m where m: "is_topic_matched f (msg_topic msg) (msg_topic_len msg) = Some m"
      using assms(1) is_topic_matched_total [of "msg_topic_len msg" "msg_topic msg" f] by (auto simp: topic_ok_def)
    have hm: "handle_matches s msg ?h \<longleftrightarrow> eq \<or> m"
      by (simp add: handle_matches_def f eq m)
    have matched: "(if eq then Some True else is_topic_matched f (msg_topic msg) (msg_topic_len msg)) = Some (eq \<or> m)"
      using m by simp
    show ?thesis
    proof (cases "(eq \<or> m) \<and> message_handler ?h \<noteq> None")
      case True
      then show ?thesis
        using rd dr f eq hm Some assms(4) by (auto simp: delivery_def mutex_simps matched)
    next
      case False
      then have "delivery s msg (take (Suc n) (drop i (sub_handles s))) =
          delivery s msg (take n (drop (i + 1) (sub_handles s)))"
        using dr hm by (auto simp: delivery_def)
      with False show ?thesis
        using rd IH f eq hm Some assms(4) by (auto simp: mutex_simps matched)
    qed
  qed
qed

lemma deliver_message_correct:
  assumes "topic_ok msg" and "heap_ok s" and "length (sub_handles s) = MAX_MESSAGE_HANDLERS" and "\<not> lock_generic s"
  shows "deliver_message msg s = Some (QCLOUD_RET_SUCCESS,
    case delivery s msg (sub_handles s) of
      Some c \<Rightarrow> upcall c s | None \<Rightarrow> notify (EventMessage msg) s)"
proof -
  let ?s = "s\<lparr>lock_generic := True\<rparr>"
  have alloc: "\<forall>h \<in> set (sub_handles ?s). topic_filter h \<noteq> None \<longrightarrow> str_at ?s (topic_filter h) \<noteq> None"
    using assms(2) by (auto simp: heap_ok_def set_handle_filters str_at_def)
  have str: "str_at ?s = str_at s"
    by (simp add: str_at_def fun_eq_iff)
  have "deliver_loop MAX_MESSAGE_HANDLERS 0 msg ?s = Some (case delivery ?s msg (sub_handles ?s) of
      None \<Rightarrow> (False, ?s) | Some c \<Rightarrow> (True, upcall c (?s\<lparr>lock_generic := False\<rparr>)))"
    using deliver_loop_correct [OF assms(1) alloc, of 0 MAX_MESSAGE_HANDLERS] assms(3) by simp
  moreover have "delivery ?s msg = delivery s msg"
    by (simp add: delivery_def handle_matches_def str fun_eq_iff)
  ultimately show ?thesis
    using assms(4) by (simp add: deliver_message_def mutex_simps split: option.split)
qed


section \<open>Acknowledgements\<close>

text \<open>Acknowledged requests are marked, unless the iterator over the list cannot be allocated.\<close>

lemma mask_pubInfo_from_correct:
  assumes "\<not> lock_list_pub s"
  shows "\<exists>w a ns. mask_pubInfo_from env msgId s =
      Some (QCLOUD_RET_SUCCESS, s\<lparr>list_pub_wait_ack := ns, next_addr := a, world := w\<rparr>) \<and>
    next_addr s \<le> a \<and> (ns = list_pub_wait_ack s \<and> \<not> fst (hal_malloc env (world s)) \<or>
      ns = map (mask_pub_node msgId) (list_pub_wait_ack s))"
proof (cases "list_pub_wait_ack s = []")
  case True
  then show ?thesis
    using assms
    by (intro exI [of _ "world s"] exI [of _ "next_addr s"] exI [of _ "[]"])
      (simp add: mask_pubInfo_from_def mutex_simps)
next
  case False
  let ?s = "s\<lparr>lock_list_pub := True\<rparr>"
  show ?thesis
  proof (cases rule: HAL_Malloc_cases [of env ?s])
    case (fail w)
    then show ?thesis
      using assms False
      by (intro exI [of _ w] exI [of _ "next_addr s"] exI [of _ "list_pub_wait_ack s"])
        (simp add: mask_pubInfo_from_def mutex_simps)
  next
    case (addr w)
    then show ?thesis
      using assms False
      by (intro exI [of _ w] exI [of _ "next_addr s + 1"] exI [of _ "map (mask_pub_node msgId) (list_pub_wait_ack s)"])
        (simp add: mask_pubInfo_from_def mutex_simps)
  qed
qed

lemma mask_sub_info_from_correct:
  assumes "\<not> lock_list_sub s"
  shows "\<exists>w a r. mask_sub_info_from env msgId h s =
      Some (snd r, s\<lparr>list_sub_wait_ack := fst r, next_addr := a, world := w\<rparr>) \<and>
    next_addr s \<le> a \<and>
    (r = (list_sub_wait_ack s, h) \<and> \<not> fst (hal_malloc env (world s)) \<or>
     r = mask_sub_nodes msgId (list_sub_wait_ack s) h)"
proof (cases "list_sub_wait_ack s = []")
  case True
  then show ?thesis
    using assms
    by (intro exI [of _ "world s"] exI [of _ "next_addr s"] exI [of _ "([], h)"])
      (simp add: mask_sub_info_from_def mutex_simps)
next
  case False
  let ?s = "s\<lparr>lock_list_sub := True\<rparr>"
  show ?thesis
  proof (cases rule: HAL_Malloc_cases [of env ?s])
    case (fail w)
    then show ?thesis
      using assms False
      by (intro exI [of _ w] exI [of _ "next_addr s"] exI [of _ "(list_sub_wait_ack s, h)"])
        (simp add: mask_sub_info_from_def mutex_simps)
  next
    case (addr w)
    then show ?thesis
      using assms False
      by (intro exI [of _ w] exI [of _ "next_addr s + 1"] exI [of _ "mask_sub_nodes msgId (list_sub_wait_ack s) h"])
        (simp add: mask_sub_info_from_def mutex_simps split: prod.split)
  qed
qed

end
