(* ===== verification/Mqtt_Publish.thy ===== *)
theory Mqtt_Publish
  imports Mqtt_Invariant
begin

text \<open>
  What publishing does: the packet handed to the network, the copy that waits for its
  acknowledgement, and the invariant. The cases of the functions that register a request and send a
  packet are shared with subscribing.
\<close>

section \<open>Registering a request\<close>

text \<open>What a node of a waiting list records about the request.\<close>

definition pub_node_for :: "u16 \<Rightarrow> byte list \<Rightarrow> QcloudIotPubInfo \<Rightarrow> bool" where
  "pub_node_for packet_id packet i \<longleftrightarrow> pub_node_state i = MQTT_NODE_STATE_NORMANL \<and>
     pub_msg_id i = packet_id \<and> pub_buf i = packet"

definition sub_node_for :: "MessageTypes \<Rightarrow> u16 \<Rightarrow> SubTopicHandle \<Rightarrow> byte list \<Rightarrow> QcloudIotSubInfo \<Rightarrow> bool" where
  "sub_node_for type packet_id h packet i \<longleftrightarrow> sub_node_state i = MQTT_NODE_STATE_NORMANL \<and>
     sub_type i = type \<and> sub_msg_id i = packet_id \<and> sub_handler i = h \<and> sub_buf i = packet"

lemma rd_bytes_prefix: "len \<le> length b \<Longrightarrow> rd_bytes b 0 len = Some (take len b)"
  by (simp add: rd_bytes_def)

lemma mask_push_pubInfo_to_cases:
  assumes "\<not> lock_list_pub s" and "len \<le> length (write_buf s)"
  obtains (fail) e w a where "mask_push_pubInfo_to env len packet_id s = Some (Inl e, s\<lparr>next_addr := a, world := w\<rparr>)"
      and "e < 0" and "next_addr s \<le> a"
  | (pushed) i w where "mask_push_pubInfo_to env len packet_id s =
        Some (Inr (next_addr s + 1), s\<lparr>list_pub_wait_ack := list_pub_wait_ack s @ [(next_addr s + 1, i)],
          next_addr := next_addr s + 2, world := w\<rparr>)"
      and "length (list_pub_wait_ack s) < MAX_REPUB_NUM" and "pub_node_for packet_id (take len (write_buf s)) i"
proof (cases "len \<le> write_buf_size s \<and> length (list_pub_wait_ack s) < MAX_REPUB_NUM")
  case False
  show thesis
    by (rule fail [of QCLOUD_ERR_FAILURE "world s" "next_addr s"])
      (use False assms in \<open>auto simp: mask_push_pubInfo_to_def mutex_simps\<close>)
next
  case True
  let ?s = "s\<lparr>lock_list_pub := True\<rparr>"
  have go: "\<not> write_buf_size s < len" "\<not> MAX_REPUB_NUM \<le> length (list_pub_wait_ack s)"
    using True by auto
  show thesis
  proof (cases rule: HAL_Malloc_cases [of env ?s])
    case (fail w)
    show thesis
      by (rule that(1) [of QCLOUD_ERR_FAILURE w "next_addr s"])
        (use go assms fail in \<open>simp_all add: mask_push_pubInfo_to_def mutex_simps\<close>)
  next
    case (addr w)
    let ?s1 = "?s\<lparr>next_addr := next_addr s + 1, world := w\<rparr>"
    obtain t w1 where t: "countdown_ms env (command_timeout_ms s) ?s1 = (t, ?s1\<lparr>world := w1\<rparr>)"
      by (rule countdown_ms_frame)
    let ?s2 = "?s\<lparr>next_addr := next_addr s + 1, world := w1\<rparr>"
    show thesis
    proof (cases rule: HAL_Malloc_cases [of env ?s2])
      case (fail w2)
      show thesis
        by (rule that(1) [of QCLOUD_ERR_FAILURE w2 "next_addr s + 1"])
          (use go assms addr t fail in \<open>simp_all add: mask_push_pubInfo_to_def mutex_simps rd_bytes_prefix\<close>)
    next
      case (addr w2)
      note addr2 = this
      show thesis
        by (rule that(2) [where i = "\<lparr>pub_start_time = t, pub_node_state = MQTT_NODE_STATE_NORMANL,
              pub_msg_id = packet_id, pub_len = of_nat len, pub_buf = take len (write_buf s)\<rparr>" and w = w2])
          (use go assms \<open>HAL_Malloc env ?s = _\<close> t addr2 in
            \<open>simp_all add: mask_push_pubInfo_to_def mutex_simps rd_bytes_prefix pub_node_for_def\<close>)
    qed
  qed
qed

lemma push_sub_info_to_cases:
  assumes "\<not> lock_list_sub s" and "len \<le> length (write_buf s)"
  obtains (fail) e w a where "push_sub_info_to env len packet_id type h s = Some (Inl e, s\<lparr>next_addr := a, world := w\<rparr>)"
      and "e < 0" and "next_addr s \<le> a"
  | (pushed) i w where "push_sub_info_to env len packet_id type h s =
        Some (Inr (next_addr s + 1), s\<lparr>list_sub_wait_ack := list_sub_wait_ack s @ [(next_addr s + 1, i)],
          next_addr := next_addr s + 2, world := w\<rparr>)"
      and "length (list_sub_wait_ack s) < MAX_MESSAGE_HANDLERS"
      and "sub_node_for type packet_id h (take len (write_buf s)) i"
proof (cases "length (list_sub_wait_ack s) < MAX_MESSAGE_HANDLERS")
  case False
  show thesis
    by (rule fail [of QCLOUD_ERR_MQTT_MAX_SUBSCRIPTIONS "world s" "next_addr s"])
      (use False assms in \<open>auto simp: push_sub_info_to_def mutex_simps\<close>)
next
  case True
  let ?s = "s\<lparr>lock_list_sub := True\<rparr>"
  have go: "\<not> MAX_MESSAGE_HANDLERS \<le> length (list_sub_wait_ack s)"
    using True by auto
  show thesis
  proof (cases rule: HAL_Malloc_cases [of env ?s])
    case (fail w)
    show thesis
      by (rule that(1) [of QCLOUD_ERR_FAILURE w "next_addr s"])
        (use go assms fail in \<open>simp_all add: push_sub_info_to_def mutex_simps\<close>)
  next
    case (addr w)
    let ?s1 = "?s\<lparr>next_addr := next_addr s + 1, world := w\<rparr>"
    obtain t w1 where t: "countdown_ms env (command_timeout_ms s) ?s1 = (t, ?s1\<lparr>world := w1\<rparr>)"
      by (rule countdown_ms_frame)
    let ?s2 = "?s\<lparr>next_addr := next_addr s + 1, world := w1\<rparr>"
    show thesis
    proof (cases rule: HAL_Malloc_cases [of env ?s2])
      case (fail w2)
      show thesis
        by (rule that(1) [of QCLOUD_ERR_FAILURE w2 "next_addr s + 1"])
          (use go assms addr t fail in \<open>simp_all add: push_sub_info_to_def mutex_simps rd_bytes_prefix\<close>)
    next
      case (addr w2)
      note addr2 = this
      show thesis
        by (rule that(2) [where i = "\<lparr>sub_type = type, sub_msg_id = packet_id, sub_start_time = t,
              sub_node_state = MQTT_NODE_STATE_NORMANL, sub_handler = h,
              sub_len = of_nat len, sub_buf = take len (write_buf s)\<rparr>" and w = w2])
          (use go assms \<open>HAL_Malloc env ?s = _\<close> t addr2 in
            \<open>simp_all add: push_sub_info_to_def mutex_simps rd_bytes_prefix sub_node_for_def\<close>)
    qed
  qed
qed


section \<open>Publishing\<close>

text \<open>The network and clock contracts an operation of the client relies on.\<close>

definition env_ok :: "'w env \<Rightarrow> bool" where
  "env_ok env \<longleftrightarrow> net_read_full env \<and> net_write_full env \<and> clock_monotonic env"

lemma send_mqtt_packet_cases:
  assumes "env_ok env" and "arrays_ok s"
  obtains (fail) rc w where "send_mqtt_packet env len timer s = Some (rc, s\<lparr>world := w\<rparr>)" and "rc < 0"
  | (sent) ms w0 w where "send_mqtt_packet env len timer s = Some (QCLOUD_RET_SUCCESS, s\<lparr>world := w\<rparr>)"
      and "len = 0 \<or> net_write env (take len (write_buf s)) ms w0 = (QCLOUD_RET_SUCCESS, len, w)"
proof -
  obtain rc w where r: "send_mqtt_packet env len timer s = Some (rc, s\<lparr>world := w\<rparr>)" "rc \<le> 0"
      "rc = QCLOUD_RET_SUCCESS \<longrightarrow>
         len = 0 \<or> (\<exists>ms w0. net_write env (take len (write_buf s)) ms w0 = (QCLOUD_RET_SUCCESS, len, w))"
    using send_mqtt_packet_total [of env s len timer] assms by (auto simp: env_ok_def arrays_ok_def)
  show thesis
  proof (cases "rc = QCLOUD_RET_SUCCESS")
    case True
    with r sent show thesis by blast
  next
    case False
    show thesis
      by (rule fail [OF r(1)]) (use r(2) False in simp)
  qed
qed

text \<open>The heap part of the invariant depends on four components of the state.\<close>

lemma heap_ok_frame:
  assumes "heap_ok s" and "strings s' = strings s" and "sub_handles s' = sub_handles s"
    and "list_sub_wait_ack s' = list_sub_wait_ack s" and "next_addr s \<le> next_addr s'"
  shows "heap_ok s'"
  using assms unfolding heap_ok_def by (metis less_le_trans)

text \<open>
  A state that differs from one with the invariant in the write buffer, the next packet id, the
  environment and a node appended to the publish list has the invariant.
\<close>

definition pub_extends :: "(nat \<times> QcloudIotPubInfo) list \<Rightarrow> nat \<Rightarrow> (nat \<times> QcloudIotPubInfo) list \<Rightarrow> nat \<Rightarrow> bool" where
  "pub_extends ns a ns' a' \<longleftrightarrow> a \<le> a' \<and> (ns' = ns \<or>
     length ns < MAX_REPUB_NUM \<and> (\<exists>x i. ns' = ns @ [(x, i)] \<and> a \<le> x \<and> x < a'))"

lemma client_inv_pub_extends:
  assumes "client_inv s" and "length b = 2048" and "pub_extends (list_pub_wait_ack s) (next_addr s) ns a"
  shows "client_inv (s\<lparr>write_buf := b, next_packet_id := k, list_pub_wait_ack := ns, next_addr := a, world := w\<rparr>)"
proof -
  let ?s = "s\<lparr>write_buf := b, next_packet_id := k, list_pub_wait_ack := ns, next_addr := a, world := w\<rparr>"
  have "unlocked ?s" "arrays_ok ?s"
    using assms(1,2) by (simp_all add: client_inv_def unlocked_def arrays_ok_def)
  moreover have "heap_ok ?s"
    by (rule heap_ok_frame [of s]) (use assms(1,3) in \<open>simp_all add: client_inv_def pub_extends_def\<close>)
  moreover have "lists_ok ?s"
  proof -
    have old: "lists_ok s" and le: "next_addr s \<le> a"
      using assms(1,3) by (simp_all add: client_inv_def pub_extends_def)
    have below: "\<forall>y \<in> fst ` set (list_pub_wait_ack s) \<union> fst ` set (list_sub_wait_ack s). y < next_addr s"
      using old by (simp add: lists_ok_def)
    with le have "\<forall>y \<in> fst ` set (list_pub_wait_ack s) \<union> fst ` set (list_sub_wait_ack s). y < a"
      by (meson less_le_trans)
    with old below assms(3) show ?thesis
      by (auto simp: lists_ok_def pub_extends_def ball_Un) fastforce+
  qed
  ultimately show ?thesis
    by (simp add: client_inv_def)
qed

text \<open>What a successful publish has put on the wire, and in the waiting list for QoS 1.\<close>

definition publish_sent :: "'w env \<Rightarrow> cstr \<Rightarrow> byte list \<Rightarrow> PublishParams \<Rightarrow> 'w sys \<Rightarrow> 'w sys \<Rightarrow> bool" where
  "publish_sent env topic payload p s s' \<longleftrightarrow>
     (\<exists>h ms w0. let packet = publish_packet h (pp_qos p) (pp_id p) topic payload in
        mqtt_init_packet_header PUBLISH (pp_qos p) 0 (pp_retained p) = Inr h \<and>
        net_write env packet ms w0 = (QCLOUD_RET_SUCCESS, length packet, world s') \<and>
        (if pp_qos p = QOS1 then \<exists>x i. list_pub_wait_ack s' = list_pub_wait_ack s @ [(x, i)] \<and> pub_node_for (pp_id p) packet i
         else list_pub_wait_ack s' = list_pub_wait_ack s))"



lemma publish_sent_cong:
  assumes "list_pub_wait_ack s = list_pub_wait_ack t" and "list_pub_wait_ack s' = list_pub_wait_ack t'"
    and "world s' = world t'"
  shows "publish_sent env topic payload p s s' \<longleftrightarrow> publish_sent env topic payload p t t'"
  by (simp only: publish_sent_def assms)

lemma next_id_pos: "next_id x \<noteq> 0"
proof
  assume "next_id x = 0"
  then have "x + 1 = 0" "x \<noteq> 65535"
    by (auto simp: next_id_def MAX_PACKET_ID_def split: if_splits)
  then have "x = - 1"
    by (simp add: eq_neg_iff_add_eq_0)
  with \<open>x \<noteq> 65535\<close> show False
    by simp
qed

lemma serialize_publish_packet_cases:
  assumes "arrays_ok s" and "length topic + length payload + 4 < 268435456"
  obtains (short) "serialize_publish_packet (write_buf s) (write_buf_size s) 0 qos retained packet_id topic
      (Some payload) (of_nat (length payload)) = Some (Inl QCLOUD_ERR_BUF_TOO_SHORT)"
  | (fits) h where "mqtt_init_packet_header PUBLISH qos 0 retained = Inr h"
      and "serialize_publish_packet (write_buf s) (write_buf_size s) 0 qos retained packet_id topic
        (Some payload) (of_nat (length payload)) =
        Some (Inr (put (write_buf s) (publish_packet h qos packet_id topic payload),
          length (publish_packet h qos packet_id topic payload)))"
      and "length (publish_packet h qos packet_id topic payload) \<le> 2048"
proof -
  let ?body = "utf8_bytes topic @ (if qos > 0 then u16_bytes packet_id else []) @ payload"
  have n: "length ?body < 268435456"
    using assms(2) by auto
  have rem: "unat (get_publish_packet_len qos topic (of_nat (length payload))) = length ?body"
    using assms(2) by (intro unat_get_publish_packet_len) simp
  have buf: "write_buf_size s = 2048" "write_buf_size s \<le> length (write_buf s)"
    using assms(1) by (simp_all add: arrays_ok_def)
  show thesis
  proof (cases "get_mqtt_packet_len (length ?body) \<le> write_buf_size s")
    case True
    obtain h where h: "mqtt_init_packet_header PUBLISH qos 0 retained = Inr h"
        "serialize_publish_packet (write_buf s) (write_buf_size s) 0 qos retained packet_id topic
          (Some payload) (of_nat (length payload)) =
         Some (Inr (put (write_buf s) (publish_packet h qos packet_id topic payload),
           length (publish_packet h qos packet_id topic payload)))"
      using serialize_publish_packet_ok [OF True buf(2) assms(2), of 0 retained] by blast
    have "length (publish_packet h qos packet_id topic payload) \<le> 2048"
      using get_mqtt_packet_len_ge [OF n] True buf(1) by (simp add: publish_packet_def Let_def)
    with h show thesis by (rule fits)
  next
    case False
    then show thesis
      by (intro short) (simp add: serialize_publish_packet_def Let_def rem del: length_append)
  qed
qed

lemma take_put: "length xs \<le> length buf \<Longrightarrow> take (length xs) (put buf xs) = xs"
  by (simp add: put_def)

lemma unlink_last:
  assumes "a \<notin> fst ` set ns"
  shows "list_unlink a (ns @ [(a, i)]) = Some ns"
proof -
  have "filter (\<lambda>x. fst x \<noteq> a) ns = ns"
    using assms by (intro filter_True) force
  then show ?thesis
    by (simp add: list_unlink_def)
qed

lemma publish_packet_nonempty: "length (publish_packet h qos i topic payload) \<noteq> 0"
  by (simp add: publish_packet_def Let_def)

text \<open>
  The result of \<^const>\<open>publish_and_send\<close>: only the write buffer, its lock, the waiting list, the
  allocator and the environment change; after an error the list is unchanged, after a success the
  packet has been sent.
\<close>

definition publish_result :: "'w env \<Rightarrow> cstr \<Rightarrow> byte list \<Rightarrow> PublishParams \<Rightarrow> 'w sys \<Rightarrow>
    (int \<times> PublishParams option \<times> 'w sys) option \<Rightarrow> bool" where
  "publish_result env topic payload p s r \<longleftrightarrow> (\<exists>rc b ns a w.
     r = Some (rc, Some p, s\<lparr>lock_write_buf := False, write_buf := b, list_pub_wait_ack := ns, next_addr := a, world := w\<rparr>) \<and>
     length b = 2048 \<and> pub_extends (list_pub_wait_ack s) (next_addr s) ns a \<and>
     (if rc < 0 then ns = list_pub_wait_ack s
      else rc = uint (pp_id p) \<and> publish_sent env topic payload p s (s\<lparr>list_pub_wait_ack := ns, world := w\<rparr>)))"

lemma publish_result_fail:
  assumes "rc < 0" and "length b = 2048" and "next_addr s \<le> a"
  shows "publish_result env topic payload p s (Some (rc, Some p,
    s\<lparr>lock_write_buf := False, write_buf := b, next_addr := a, world := w\<rparr>))"
  unfolding publish_result_def
  by (intro exI [of _ rc] exI [of _ b] exI [of _ "list_pub_wait_ack s"] exI [of _ a] exI [of _ w])
    (use assms in \<open>simp add: pub_extends_def\<close>)

lemma publish_result_sent:
  assumes "length b = 2048" and "pub_extends (list_pub_wait_ack s) (next_addr s) ns a"
    and "mqtt_init_packet_header PUBLISH (pp_qos p) 0 (pp_retained p) = Inr h"
    and "packet = publish_packet h (pp_qos p) (pp_id p) topic payload"
    and "net_write env packet ms w0 = (QCLOUD_RET_SUCCESS, length packet, w)"
    and "if pp_qos p = QOS1 then \<exists>x i. ns = list_pub_wait_ack s @ [(x, i)] \<and> pub_node_for (pp_id p) packet i
         else ns = list_pub_wait_ack s"
  shows "publish_result env topic payload p s (Some (uint (pp_id p), Some p,
    s\<lparr>lock_write_buf := False, write_buf := b, list_pub_wait_ack := ns, next_addr := a, world := w\<rparr>))"
proof -
  have "publish_sent env topic payload p s (s\<lparr>list_pub_wait_ack := ns, world := w\<rparr>)"
    unfolding publish_sent_def Let_def
    by (rule exI [of _ h], rule exI [of _ ms], rule exI [of _ w0], unfold assms(4) [symmetric]) (use assms(3,5,6) in simp)
  then show ?thesis
    unfolding publish_result_def
    by (intro exI [of _ "uint (pp_id p)"] exI [of _ b] exI [of _ ns] exI [of _ a] exI [of _ w])
      (use assms(1,2) in simp)
qed

text \<open>The packet after serialization: what the two sending lemmas below start from.\<close>

definition publish_ready :: "'w sys \<Rightarrow> cstr \<Rightarrow> PublishParams \<Rightarrow> byte list \<Rightarrow> byte list \<Rightarrow> bool" where
  "publish_ready s topic p b packet \<longleftrightarrow> length b = 2048 \<and> packet \<noteq> [] \<and> length packet \<le> 2048 \<and>
     take (length packet) b = packet \<and>
     serialize_publish_packet (write_buf s) (write_buf_size s) 0 (pp_qos p) (pp_retained p) (pp_id p) topic
       (pp_payload p) (pp_payload_len p) = Some (Inr (b, length packet))"

lemma publish_qos0_sends:
  assumes "env_ok env" and "lock_write_buf s" and "arrays_ok s" and "pp_qos p = QOS0"
    and h: "mqtt_init_packet_header PUBLISH (pp_qos p) 0 (pp_retained p) = Inr h"
    and packet: "packet = publish_packet h (pp_qos p) (pp_id p) topic payload"
    and ready: "publish_ready s topic p b packet"
  shows "publish_result env topic payload p s (publish_and_send env topic p timer s)"
proof -
  have b: "length b = 2048" "take (length packet) b = packet" "packet \<noteq> []"
    and ser: "serialize_publish_packet (write_buf s) (write_buf_size s) 0 (pp_qos p) (pp_retained p) (pp_id p) topic
       (pp_payload p) (pp_payload_len p) = Some (Inr (b, length packet))"
    using ready by (simp_all add: publish_ready_def)
  have arr: "arrays_ok (s\<lparr>write_buf := b\<rparr>)"
    using assms(3) b(1) by (simp add: arrays_ok_def)
  from assms(1) arr show ?thesis
  proof (cases rule: send_mqtt_packet_cases [where len = "length packet" and timer = timer])
    case (fail rc w)
    then have run: "publish_and_send env topic p timer s = Some (rc, Some p,
        s\<lparr>lock_write_buf := False, write_buf := b, next_addr := next_addr s, world := w\<rparr>)"
      using assms(2,4) ser by (simp add: publish_and_send_def mutex_simps)
    show ?thesis
      unfolding run by (rule publish_result_fail [OF fail(2) b(1)]) simp
  next
    case (sent ms w0 w)
    then have "net_write env packet ms w0 = (QCLOUD_RET_SUCCESS, length packet, w)"
      using b by simp
    moreover have run: "publish_and_send env topic p timer s = Some (uint (pp_id p), Some p, s\<lparr>lock_write_buf := False,
        write_buf := b, list_pub_wait_ack := list_pub_wait_ack s, next_addr := next_addr s, world := w\<rparr>)"
      using assms(2,4) ser sent(1) by (simp add: publish_and_send_def mutex_simps)
    ultimately show ?thesis
      unfolding run using assms(4) by (intro publish_result_sent [OF b(1) _ h packet]) (simp_all add: pub_extends_def)
  qed
qed

lemma publish_qos1_sends:
  assumes "env_ok env" and "lock_write_buf s" and "\<not> lock_list_pub s" and "arrays_ok s" and "lists_ok s"
    and qos: "pp_qos p = QOS1"
    and h: "mqtt_init_packet_header PUBLISH (pp_qos p) 0 (pp_retained p) = Inr h"
    and packet: "packet = publish_packet h (pp_qos p) (pp_id p) topic payload"
    and ready: "publish_ready s topic p b packet"
  shows "publish_result env topic payload p s (publish_and_send env topic p timer s)"
proof -
  have b: "length b = 2048" "take (length packet) b = packet" "packet \<noteq> []"
    and ser: "serialize_publish_packet (write_buf s) (write_buf_size s) 0 (pp_qos p) (pp_retained p) (pp_id p) topic
       (pp_payload p) (pp_payload_len p) = Some (Inr (b, length packet))"
    using ready by (simp_all add: publish_ready_def)
  let ?s = "s\<lparr>write_buf := b\<rparr>"
  have "\<not> lock_list_pub ?s" "length packet \<le> length (write_buf ?s)"
    using assms(3) ready by (simp_all add: publish_ready_def)
  then show ?thesis
  proof (cases rule: mask_push_pubInfo_to_cases [where env = env and packet_id = "pp_id p"])
    case (fail e w a)
    then have run: "publish_and_send env topic p timer s = Some (e, Some p,
        s\<lparr>lock_write_buf := False, write_buf := b, next_addr := a, world := w\<rparr>)"
      using assms(2,3) ser qos by (simp add: publish_and_send_def mutex_simps)
    show ?thesis
      unfolding run by (rule publish_result_fail [OF fail(2) b(1)]) (use fail(3) in simp)
  next
    case (pushed i w)
    let ?ns = "list_pub_wait_ack s @ [(next_addr s + 1, i)]"
    let ?s2 = "?s\<lparr>list_pub_wait_ack := ?ns, next_addr := next_addr s + 2, world := w\<rparr>"
    have arr: "arrays_ok ?s2"
      using assms(4) b(1) by (simp add: arrays_ok_def)
    have fresh: "list_unlink (next_addr s + 1) ?ns = Some (list_pub_wait_ack s)"
      using assms(5) unfolding lists_ok_def by (intro unlink_last) (metis UnI1 not_add_less1)
    from assms(1) arr show ?thesis
    proof (cases rule: send_mqtt_packet_cases [where len = "length packet" and timer = timer])
      case (fail rc w2)
      then have run: "publish_and_send env topic p timer s = Some (rc, Some p,
          s\<lparr>lock_write_buf := False, write_buf := b, next_addr := next_addr s + 2, world := w2\<rparr>)"
        using assms(2,3) ser qos pushed(1) fresh by (simp add: publish_and_send_def mutex_simps)
      show ?thesis
        unfolding run by (rule publish_result_fail [OF fail(2) b(1)]) simp
    next
      case (sent ms w0 w2)
      then have "net_write env packet ms w0 = (QCLOUD_RET_SUCCESS, length packet, w2)"
        using b by simp
      moreover have run: "publish_and_send env topic p timer s = Some (uint (pp_id p), Some p, s\<lparr>lock_write_buf := False,
          write_buf := b, list_pub_wait_ack := ?ns, next_addr := next_addr s + 2, world := w2\<rparr>)"
        using assms(2,3) ser qos pushed(1) sent(1) by (simp add: publish_and_send_def mutex_simps)
      ultimately show ?thesis
        unfolding run using qos pushed(2,3) b(2)
        by (intro publish_result_sent [OF b(1) _ h packet]) (simp_all add: pub_extends_def)
    qed
  qed
qed

lemma publish_and_send_correct:
  assumes "env_ok env" and "lock_write_buf s" and "\<not> lock_list_pub s" and "arrays_ok s" and "lists_ok s"
    and "length topic \<le> MAX_SIZE_OF_CLOUD_TOPIC" and "pp_qos p = QOS0 \<or> pp_qos p = QOS1"
    and "pp_payload p = Some payload" and "pp_payload_len p = of_nat (length payload)"
    and "length payload < 2 ^ 20"
  shows "publish_result env topic payload p s (publish_and_send env topic p timer s)"
proof -
  have wb: "length (write_buf s) = 2048"
    using assms(4) by (simp add: arrays_ok_def)
  have small: "length topic + length payload + 4 < 268435456"
    using assms(6,10) by (simp add: MAX_SIZE_OF_CLOUD_TOPIC_def)
  from assms(4) small show ?thesis
  proof (cases rule: serialize_publish_packet_cases [where qos = "pp_qos p" and retained = "pp_retained p" and packet_id = "pp_id p"])
    case short
    then have run: "publish_and_send env topic p timer s = Some (QCLOUD_ERR_BUF_TOO_SHORT, Some p,
        s\<lparr>lock_write_buf := False, write_buf := write_buf s, next_addr := next_addr s, world := world s\<rparr>)"
      using assms by (simp add: publish_and_send_def mutex_simps)
    show ?thesis
      unfolding run by (rule publish_result_fail [OF _ wb]) simp_all
  next
    case (fits h)
    let ?packet = "publish_packet h (pp_qos p) (pp_id p) topic payload"
    have "publish_ready s topic p (put (write_buf s) ?packet) ?packet"
      using fits wb assms(8,9) publish_packet_nonempty by (auto simp: publish_ready_def take_put)
    then show ?thesis
      using assms(7) publish_qos0_sends [OF assms(1,2,4) _ fits(1) refl]
        publish_qos1_sends [OF assms(1-5) _ fits(1) refl] by blast
  qed
qed


text \<open>The example client of \<^const>\<open>client_example\<close> satisfies the invariant, its environment the contracts.\<close>

lemma handle_filters_null: "handle_filters (replicate n null_handle) = []"
  by (induction n) (simp_all add: null_handle_def)

lemma client_example_inv: "client_inv (client_example input)"
  by (simp add: client_inv_def unlocked_def arrays_ok_def lists_ok_def heap_ok_def client_example_def
      handle_filters_null MAX_MESSAGE_HANDLERS_def MQTT_MAX_REPEAT_BUF_LEN_def)

lemma stream_env_contracts: "env_ok stream_env"
  by (simp add: env_ok_def stream_env_ok)

definition publish_params_example :: PublishParams where
  "publish_params_example = \<lparr>pp_qos = QOS1, pp_retained = 0, pp_id = 0, pp_payload = Some [1, 2, 3], pp_payload_len = 3\<rparr>"

section \<open>Properties\<close>

lemma publish_correct:
  assumes "env_ok env" and "client_inv s" and "is_connected s \<noteq> 0"
    and "topic \<noteq> []" and "length topic \<le> MAX_SIZE_OF_CLOUD_TOPIC" and "pp_qos p = QOS0 \<or> pp_qos p = QOS1"
    and "pp_payload p = Some payload" and "pp_payload_len p = of_nat (length payload)"
    and "length payload < 2 ^ 20"
  shows "\<exists>rc p' s'. qcloud_iot_mqtt_publish env (Some topic) (Some p) s = Some (rc, Some p', s') \<and> client_inv s' \<and>
    p' = p\<lparr>pp_id := (if pp_qos p = QOS1 then next_id (next_packet_id s) else pp_id p)\<rparr> \<and>
    list_sub_wait_ack s' = list_sub_wait_ack s \<and> sub_handles s' = sub_handles s \<and> trace s' = trace s \<and>
    (if rc < 0 then list_pub_wait_ack s' = list_pub_wait_ack s
     else rc = uint (pp_id p') \<and> publish_sent env topic payload p' s s')"
proof -
  define p' where "p' = p\<lparr>pp_id := (if pp_qos p = QOS1 then next_id (next_packet_id s) else pp_id p)\<rparr>"
  define k where "k = (if pp_qos p = QOS1 then next_id (next_packet_id s) else next_packet_id s)"
  have inv: "unlocked s" "arrays_ok s" "lists_ok s"
    using assms(2) by (simp_all add: client_inv_def)
  obtain t w1 where t: "countdown_ms env (command_timeout_ms s) s = (t, s\<lparr>world := w1\<rparr>)"
    by (rule countdown_ms_frame)
  define s1 where "s1 = (if pp_qos p = QOS1 then s\<lparr>world := w1, lock_write_buf := True, next_packet_id := k\<rparr>
    else s\<lparr>world := w1, lock_write_buf := True\<rparr>)"
  have same: "list_pub_wait_ack s1 = list_pub_wait_ack s" "next_addr s1 = next_addr s"
    by (simp_all add: s1_def)
  have "publish_result env topic payload p' s1 (publish_and_send env topic p' t s1)"
    using assms inv unfolding s1_def p'_def
    by (intro publish_and_send_correct) (simp_all add: arrays_ok_def lists_ok_def unlocked_def)
  then obtain rc b ns a w where r: "publish_and_send env topic p' t s1 = Some (rc, Some p', s1\<lparr>lock_write_buf := False,
        write_buf := b, list_pub_wait_ack := ns, next_addr := a, world := w\<rparr>)"
      "length b = 2048" "pub_extends (list_pub_wait_ack s1) (next_addr s1) ns a"
      "if rc < 0 then ns = list_pub_wait_ack s1
       else rc = uint (pp_id p') \<and> publish_sent env topic payload p' s1 (s1\<lparr>list_pub_wait_ack := ns, world := w\<rparr>)"
    unfolding publish_result_def by blast
  define s' where "s' = s\<lparr>write_buf := b, next_packet_id := k, list_pub_wait_ack := ns, next_addr := a, world := w\<rparr>"
  have "qcloud_iot_mqtt_publish env (Some topic) (Some p) s = publish_and_send env topic p' t s1"
    using assms(3-6) inv(1) t
    by (cases "pp_qos p = QOS1")
      (simp_all add: qcloud_iot_mqtt_publish_def get_client_conn_state_ok get_next_packet_id_ok unlocked_def
        mutex_simps p'_def s1_def k_def)
  also have "\<dots> = Some (rc, Some p', s')"
    unfolding r(1) using inv(1) by (simp add: s1_def s'_def unlocked_def k_def)
  finally have "qcloud_iot_mqtt_publish env (Some topic) (Some p) s = Some (rc, Some p', s')" .
  moreover have "client_inv s'"
    unfolding s'_def using assms(2) r(2,3) by (intro client_inv_pub_extends) (simp_all add: same)
  moreover have "if rc < 0 then list_pub_wait_ack s' = list_pub_wait_ack s
      else rc = uint (pp_id p') \<and> publish_sent env topic payload p' s s'"
    using r(4) publish_sent_cong [of s s1 s' "s1\<lparr>list_pub_wait_ack := ns, world := w\<rparr>" env topic payload p']
    by (simp add: same s'_def split: if_splits)
  ultimately show ?thesis
    by (intro exI [of _ rc] exI [of _ p'] exI [of _ s']) (simp add: p'_def s'_def)
qed

text \<open>
  C5: On a connected client that satisfies the invariant, publishing a message at QoS 0 or 1 returns and
  keeps the invariant. It either reports an error, which leaves the waiting list as it was, or
  it returns the packet id after handing the exact PUBLISH packet to the network; at QoS 1 the id is the
  next one of the client and a copy of the packet waits for its acknowledgement.
\<close>

theorem publish_preserves_client:
  assumes "env_ok env" and "client_inv s" and "is_connected s \<noteq> 0"
    and "topic \<noteq> []" and "length topic \<le> MAX_SIZE_OF_CLOUD_TOPIC" and "pp_qos p = QOS0 \<or> pp_qos p = QOS1"
    and "pp_payload p = Some payload" and "pp_payload_len p = of_nat (length payload)"
    and "length payload < 2 ^ 20"
  shows "\<exists>rc p' s'. qcloud_iot_mqtt_publish env (Some topic) (Some p) s = Some (rc, Some p', s') \<and> client_inv s' \<and>
    p' = p\<lparr>pp_id := (if pp_qos p = QOS1 then next_id (next_packet_id s) else pp_id p)\<rparr> \<and>
    list_sub_wait_ack s' = list_sub_wait_ack s \<and> sub_handles s' = sub_handles s \<and> trace s' = trace s \<and>
    (if rc < 0 then list_pub_wait_ack s' = list_pub_wait_ack s
     else rc = uint (pp_id p') \<and> publish_sent env topic payload p' s s')"
  using assms by (rule publish_correct)

theorem publish_preserves_client_witness:
  "\<exists>rc p' s'. qcloud_iot_mqtt_publish stream_env (Some [0x61]) (Some publish_params_example) (client_example []) =
      Some (rc, Some p', s') \<and> client_inv s' \<and>
    p' = publish_params_example\<lparr>pp_id := (if pp_qos publish_params_example = QOS1
      then next_id (next_packet_id (client_example [])) else pp_id publish_params_example)\<rparr> \<and>
    list_sub_wait_ack s' = list_sub_wait_ack (client_example []) \<and> sub_handles s' = sub_handles (client_example []) \<and>
    trace s' = trace (client_example []) \<and>
    (if rc < 0 then list_pub_wait_ack s' = list_pub_wait_ack (client_example [])
     else rc = uint (pp_id p') \<and> publish_sent stream_env [0x61] [1, 2, 3] p' (client_example []) s')"
  by (rule publish_preserves_client)
    (simp_all add: stream_env_contracts client_example_inv publish_params_example_def MAX_SIZE_OF_CLOUD_TOPIC_def,
     simp_all add: client_example_def)

end
