(* ===== verification/Mqtt_Subscribe.thy ===== *)
theory Mqtt_Subscribe
  imports Mqtt_Publish
begin

text \<open>
  What subscribing and unsubscribing do: the request handed to the network, the node that waits for
  its acknowledgement, the heap string that holds the filter, and the invariant.
\<close>

section \<open>Sending a subscribe or unsubscribe request\<close>

lemma HAL_Free_allocated: "strings s a = Some t \<Longrightarrow> HAL_Free (Some a) s = Some (s\<lparr>strings := (strings s)(a := None)\<rparr>)"
  by (simp add: HAL_Free_def)

text \<open>
  With the write buffer's lock held: on an error the node is gone again and the filter is released; on
  success the node is in the list and the packet with the network.
\<close>

lemma push_and_send_cases:
  assumes "env_ok env" and "lock_write_buf s" and "\<not> lock_list_sub s" and "arrays_ok s" and "lists_ok s"
    and "topic_filter h = Some f" and "strings s f = Some t" and "0 < len" and "len \<le> length (write_buf s)"
  obtains (fail) rc a w where "push_and_send env len packet_id type h timer s = Some (rc,
        s\<lparr>lock_write_buf := False, strings := (strings s)(f := None), next_addr := a, world := w\<rparr>)"
      and "rc < 0" and "next_addr s \<le> a"
  | (sent) i ms w0 w where "push_and_send env len packet_id type h timer s = Some (uint packet_id,
        s\<lparr>lock_write_buf := False, list_sub_wait_ack := list_sub_wait_ack s @ [(next_addr s + 1, i)],
          next_addr := next_addr s + 2, world := w\<rparr>)"
      and "length (list_sub_wait_ack s) < MAX_MESSAGE_HANDLERS"
      and "sub_node_for type packet_id h (take len (write_buf s)) i"
      and "net_write env (take len (write_buf s)) ms w0 = (QCLOUD_RET_SUCCESS, len, w)"
  using assms(3,9)
proof (cases rule: push_sub_info_to_cases [where env = env and packet_id = packet_id and type = type and h = h])
  case (fail e w a)
  show thesis
    by (rule that(1) [where rc = e and a = a and w = w]) (use fail assms in \<open>simp_all add: push_and_send_def mutex_simps HAL_Free_allocated\<close>)
next
  case (pushed i w)
  let ?ns = "list_sub_wait_ack s @ [(next_addr s + 1, i)]"
  let ?s2 = "s\<lparr>list_sub_wait_ack := ?ns, next_addr := next_addr s + 2, world := w\<rparr>"
  have arr: "arrays_ok ?s2"
    using assms(4) by (simp add: arrays_ok_def)
  have fresh: "list_unlink (next_addr s + 1) ?ns = Some (list_sub_wait_ack s)"
    using assms(5) unfolding lists_ok_def by (intro unlink_last) (metis UnI2 not_add_less1)
  from assms(1) arr show thesis
  proof (cases rule: send_mqtt_packet_cases [where len = len and timer = timer])
    case (fail rc w2)
    show thesis
      by (rule that(1) [where rc = rc and a = "next_addr s + 2" and w = w2])
        (use fail pushed(1) fresh assms in \<open>simp_all add: push_and_send_def mutex_simps HAL_Free_allocated\<close>)
  next
    case (sent ms w0 w2)
    show thesis
      by (rule that(2) [where i = i and w = w2 and ms = ms and ?w0.0 = w0])
        (use sent pushed assms in \<open>simp_all add: push_and_send_def mutex_simps\<close>)
  qed
qed


section \<open>Subscribing\<close>

text \<open>
  The state after a filter has been stored and a request registered for it, and the state after
  that has been undone.
\<close>

lemma client_inv_request:
  assumes "client_inv s" and "length b = 2048" and "length (list_sub_wait_ack s) < MAX_MESSAGE_HANDLERS"
    and "sub_node_state i = MQTT_NODE_STATE_NORMANL" and "topic_filter (sub_handler i) = Some (next_addr s)"
  shows "client_inv (s\<lparr>write_buf := b, next_packet_id := k, strings := (strings s)(next_addr s \<mapsto> t),
    list_sub_wait_ack := list_sub_wait_ack s @ [(next_addr s + 2, i)], next_addr := next_addr s + 3, world := w\<rparr>)"
    (is "client_inv ?s")
proof -
  have inv: "unlocked s" "arrays_ok s" "lists_ok s" "heap_ok s"
    using assms(1) by (simp_all add: client_inv_def)
  have "unlocked ?s" "arrays_ok ?s"
    using inv assms(2) by (simp_all add: unlocked_def arrays_ok_def)
  moreover have "lists_ok ?s"
  proof -
    have below: "\<forall>y \<in> fst ` set (list_pub_wait_ack s) \<union> fst ` set (list_sub_wait_ack s). y < next_addr s"
      using inv(3) by (simp add: lists_ok_def)
    then have "next_addr s + 2 \<notin> fst ` set (list_sub_wait_ack s)"
      by (metis UnI2 not_add_less1)
    with inv(3) below assms(3) show ?thesis
      by (auto simp: lists_ok_def ball_Un)
  qed
  moreover have "heap_ok ?s"
  proof -
    have below: "\<forall>a \<in> dom (strings s). a < next_addr s"
      and old: "set (handle_filters (sub_handles s) @ pending_filters (list_sub_wait_ack s)) \<subseteq> dom (strings s)"
      using inv(4) unfolding heap_ok_def by blast+
    then have "next_addr s \<notin> set (handle_filters (sub_handles s) @ pending_filters (list_sub_wait_ack s))"
      by blast
    moreover from below have "\<forall>a \<in> dom (strings s). a < next_addr s + 3"
      by (simp add: trans_less_add1)
    ultimately show ?thesis
      using inv(4) old assms(4,5) by (auto simp: heap_ok_def dom_def)
  qed
  ultimately show ?thesis
    by (simp add: client_inv_def)
qed

lemma client_inv_grow:
  assumes "client_inv s" and "length b = 2048" and "next_addr s \<le> a"
  shows "client_inv (s\<lparr>write_buf := b, next_packet_id := k, next_addr := a, world := w\<rparr>)"
  using client_inv_pub_extends [OF assms(1,2), of "list_pub_wait_ack s" a] assms(3)
  by (simp add: pub_extends_def)

lemma fresh_string: "client_inv s \<Longrightarrow> strings s (next_addr s) = None"
  unfolding client_inv_def heap_ok_def by (metis domIff less_irrefl)

text \<open>What a request that was sent has left behind.\<close>

definition request_sent :: "'w env \<Rightarrow> MessageTypes \<Rightarrow> u16 \<Rightarrow> SubTopicHandle \<Rightarrow> cstr \<Rightarrow> byte list \<Rightarrow> 'w sys \<Rightarrow> 'w sys \<Rightarrow> bool" where
  "request_sent env type packet_id h topic packet s s' \<longleftrightarrow>
     (\<exists>f. topic_filter h = Some f \<and> strings s f = None \<and> strings s' = (strings s)(f \<mapsto> topic)) \<and>
     (\<exists>a i. list_sub_wait_ack s' = list_sub_wait_ack s @ [(a, i)] \<and> sub_node_for type packet_id h packet i) \<and>
     (\<exists>ms w0. net_write env packet ms w0 = (QCLOUD_RET_SUCCESS, length packet, world s'))"

text \<open>
  The common end of both operations: \<open>s\<close> is the state before the filter was stored, \<open>s3\<close> the state in
  which the request is registered and sent.
\<close>

definition request_result :: "'w env \<Rightarrow> MessageTypes \<Rightarrow> u16 \<Rightarrow> SubTopicHandle \<Rightarrow> cstr \<Rightarrow> byte list \<Rightarrow> 'w sys \<Rightarrow>
    (int \<times> 'w sys) option \<Rightarrow> bool" where
  "request_result env type packet_id h topic packet s r \<longleftrightarrow> (\<exists>rc s'. r = Some (rc, s') \<and> client_inv s' \<and>
     list_pub_wait_ack s' = list_pub_wait_ack s \<and> sub_handles s' = sub_handles s \<and> trace s' = trace s \<and>
     (if rc < 0 then list_sub_wait_ack s' = list_sub_wait_ack s \<and> strings s' = strings s
      else rc = uint packet_id \<and> request_sent env type packet_id h topic packet s s'))"

lemma push_and_send_request:
  assumes "env_ok env" and "client_inv s" and "packet \<noteq> []" and "length packet \<le> 2048"
    and "topic_filter h = Some (next_addr s)"
  shows "request_result env type k h topic packet s (push_and_send env (length packet) k type h timer
    (s\<lparr>next_addr := next_addr s + 1, strings := (strings s)(next_addr s \<mapsto> topic), world := w,
      lock_write_buf := True, next_packet_id := k, write_buf := put (write_buf s) packet\<rparr>))"
proof -
  define b where "b = put (write_buf s) packet"
  define s3 where s3: "s3 = s\<lparr>next_addr := next_addr s + 1, strings := (strings s)(next_addr s \<mapsto> topic), world := w,
      lock_write_buf := True, next_packet_id := k, write_buf := b\<rparr>"
  have inv: "unlocked s" "arrays_ok s" "lists_ok s"
    using assms(2) by (simp_all add: client_inv_def)
  have b: "length b = 2048" "take (length packet) b = packet" "0 < length packet"
    using assms(3,4) inv(2) by (simp_all add: b_def arrays_ok_def take_put)
  have pre: "lock_write_buf s3" "\<not> lock_list_sub s3" "arrays_ok s3" "strings s3 (next_addr s) = Some topic"
      "length packet \<le> length (write_buf s3)"
    using inv b(1) assms(4) by (simp_all add: s3 unlocked_def arrays_ok_def)
  have lists: "lists_ok s3"
    using inv(3) by (auto simp: s3 lists_ok_def intro: less_SucI)
  have fr: "strings s (next_addr s) = None"
    using assms(2) by (rule fresh_string)
  from assms(1) pre(1-3) lists assms(5) pre(4) b(3) pre(5)
  have "request_result env type k h topic packet s (push_and_send env (length packet) k type h timer s3)"
  proof (cases rule: push_and_send_cases [where packet_id = k and type = type and timer = timer])
    case (fail rc a w1)
    define s' where "s' = s\<lparr>write_buf := b, next_packet_id := k, next_addr := a, world := w1\<rparr>"
    have "push_and_send env (length packet) k type h timer s3 = Some (rc, s')"
      unfolding fail(1) using inv(1) fr by (simp add: s3 s'_def unlocked_def fun_upd_idem)
    moreover have "client_inv s'"
      unfolding s'_def using assms(2) b(1) fail(3) by (intro client_inv_grow) (simp_all add: s3)
    ultimately show ?thesis
      using fail(2) unfolding request_result_def
      by (intro exI [of _ rc] exI [of _ s']) (simp add: s'_def)
  next
    case (sent i ms w0 w1)
    define s' where "s' = s\<lparr>write_buf := b, next_packet_id := k, strings := (strings s)(next_addr s \<mapsto> topic),
      list_sub_wait_ack := list_sub_wait_ack s @ [(next_addr s + 2, i)], next_addr := next_addr s + 3, world := w1\<rparr>"
    have node: "sub_node_for type k h packet i"
      using sent(3) b(2) by (simp add: s3)
    have "push_and_send env (length packet) k type h timer s3 = Some (uint k, s')"
      unfolding sent(1) using inv(1) by (simp add: s3 s'_def unlocked_def)
    moreover have "client_inv s'"
      unfolding s'_def using assms(2,5) b(1) sent(2) node
      by (intro client_inv_request) (simp_all add: s3 sub_node_for_def)
    moreover have "request_sent env type k h topic packet s s'"
      unfolding request_sent_def using assms(5) b(2) fr node sent(4) by (auto simp: s'_def s3)
    ultimately show ?thesis
      unfolding request_result_def by (intro exI [of _ "uint k"] exI [of _ s']) (simp add: s'_def)
  qed
  then show ?thesis
    unfolding s3 b_def .
qed

lemma subscribe_serialized:
  assumes "arrays_ok s" and "length topic \<le> MAX_SIZE_OF_CLOUD_TOPIC"
  obtains h where "mqtt_init_packet_header SUBSCRIBE 1 0 0 = Inr h"
    and "serialize_subscribe_packet (write_buf s) (write_buf_size s) 0 packet_id 1 topic [q] =
      Some (Inr (put (write_buf s) (mqtt_packet h (u16_bytes packet_id @ utf8_bytes topic @ [q])),
        length (mqtt_packet h (u16_bytes packet_id @ utf8_bytes topic @ [q]))))"
    and "length (mqtt_packet h (u16_bytes packet_id @ utf8_bytes topic @ [q])) \<le> 2048"
proof -
  obtain h where h: "mqtt_init_packet_header SUBSCRIBE 1 0 0 = Inr h"
    by (simp add: mqtt_init_packet_header_def)
  have len: "length topic \<le> 128"
    using assms(2) by (simp add: MAX_SIZE_OF_CLOUD_TOPIC_def)
  have rem: "length (rem_len_bytes (5 + length topic)) \<le> 4"
    using len by (intro length_rem_len_bytes_le_4) simp
  then have fit: "get_mqtt_packet_len (5 + length topic) \<le> write_buf_size s" "write_buf_size s \<le> length (write_buf s)"
    using assms(1) len get_mqtt_packet_len_le [of "5 + length topic"] by (simp_all add: arrays_ok_def)
  have body: "length (u16_bytes packet_id @ utf8_bytes topic @ [q]) = 5 + length topic"
    by simp
  have "length (mqtt_packet h (u16_bytes packet_id @ utf8_bytes topic @ [q])) \<le> 2048"
    unfolding length_mqtt_packet body using rem len by linarith
  with h show thesis
    using serialize_subscribe_packet_ok [OF fit _ h, of packet_id q] len by (intro that) simp_all
qed


lemma countdown_after_store:
  obtains t w1 where "countdown_ms env ms (s\<lparr>next_addr := n, world := w, strings := st\<rparr>) =
    (t, s\<lparr>next_addr := n, strings := st, world := w1\<rparr>)"
  using countdown_ms_frame [of env ms "s\<lparr>next_addr := n, world := w, strings := st\<rparr>"] by auto

text \<open>The state in which the request is registered, and that a failed allocation changes nothing.\<close>

lemma request_result_no_memory:
  assumes "client_inv s"
  shows "request_result env type k h topic packet s (Some (QCLOUD_ERR_FAILURE, s\<lparr>world := w\<rparr>))"
proof -
  have "client_inv (s\<lparr>write_buf := write_buf s, next_packet_id := next_packet_id s, next_addr := next_addr s, world := w\<rparr>)"
    using assms by (intro client_inv_grow) (simp_all add: client_inv_def arrays_ok_def)
  then show ?thesis
    unfolding request_result_def by (intro exI [of _ QCLOUD_ERR_FAILURE] exI [of _ "s\<lparr>world := w\<rparr>"]) simp
qed

section \<open>Unsubscribing\<close>

text \<open>
  Which subscriptions an unsubscribe request removes: those for the same filter, and all of them when
  the filter has a wildcard.
\<close>

definition unsub_match :: "(nat \<rightharpoonup> cstr) \<Rightarrow> cstr \<Rightarrow> SubTopicHandle \<Rightarrow> bool" where
  "unsub_match st topic h \<longleftrightarrow> has_wildcard topic \<or> (\<exists>a. topic_filter h = Some a \<and> st a = Some topic)"

definition unsub_clear :: "(nat \<rightharpoonup> cstr) \<Rightarrow> cstr \<Rightarrow> SubTopicHandle \<Rightarrow> SubTopicHandle" where
  "unsub_clear st topic h = (if unsub_match st topic h then h\<lparr>topic_filter := None\<rparr> else h)"

definition unsub_freed :: "(nat \<rightharpoonup> cstr) \<Rightarrow> cstr \<Rightarrow> SubTopicHandle list \<Rightarrow> nat set" where
  "unsub_freed st topic hs = set (handle_filters (filter (unsub_match st topic) hs))"

definition unsub_events :: "(nat \<rightharpoonup> cstr) \<Rightarrow> cstr \<Rightarrow> SubTopicHandle list \<Rightarrow> upcall list" where
  "unsub_events st topic hs = concat (map (\<lambda>h. case sub_event_handler h of None \<Rightarrow> []
     | Some f \<Rightarrow> [SubEvent f MQTT_EVENT_UNSUBSCRIBE (handler_user_data h)]) (filter (unsub_match st topic) hs))"

lemma unsub_match_restrict:
  "a \<notin> set (handle_filters hs) \<Longrightarrow> h \<in> set hs \<Longrightarrow> unsub_match (st(a := None)) topic h = unsub_match st topic h"
  by (auto simp: unsub_match_def set_handle_filters)

lemma unsub_restrict:
  assumes "a \<notin> set (handle_filters hs)"
  shows "map (unsub_clear (st(a := None)) topic) hs = map (unsub_clear st topic) hs"
    and "filter (unsub_match (st(a := None)) topic) hs = filter (unsub_match st topic) hs"
    and "(\<exists>h \<in> set hs. unsub_match (st(a := None)) topic h) \<longleftrightarrow> (\<exists>h \<in> set hs. unsub_match st topic h)"
  using unsub_match_restrict [OF assms, of _ st topic] by (auto simp: unsub_clear_def cong: filter_cong)

text \<open>Removing the first subscription of the list, and then those of the rest.\<close>

definition free_filter :: "SubTopicHandle \<Rightarrow> (nat \<rightharpoonup> cstr) \<Rightarrow> (nat \<rightharpoonup> cstr)" where
  "free_filter h st = (case topic_filter h of None \<Rightarrow> st | Some a \<Rightarrow> st(a := None))"

lemma unsub_after_free:
  assumes "distinct (handle_filters (h # hs))" and "unsub_match st topic h"
  shows "map (unsub_clear (free_filter h st) topic) hs = map (unsub_clear st topic) hs"
    and "unsub_events (free_filter h st) topic hs = unsub_events st topic hs"
    and "(\<lambda>a. if a \<in> unsub_freed (free_filter h st) topic hs then None else free_filter h st a) =
      (\<lambda>a. if a \<in> unsub_freed st topic (h # hs) then None else st a)"
proof -
  show "map (unsub_clear (free_filter h st) topic) hs = map (unsub_clear st topic) hs"
    using assms(1) unsub_restrict(1) [of _ hs st topic] by (auto simp: free_filter_def split: option.splits)
  have f: "filter (unsub_match (free_filter h st) topic) hs = filter (unsub_match st topic) hs"
    using assms(1) unsub_restrict(2) [of _ hs st topic] by (auto simp: free_filter_def split: option.splits)
  then show "unsub_events (free_filter h st) topic hs = unsub_events st topic hs"
    by (simp add: unsub_events_def)
  from f assms(2) show "(\<lambda>a. if a \<in> unsub_freed (free_filter h st) topic hs then None else free_filter h st a) =
      (\<lambda>a. if a \<in> unsub_freed st topic (h # hs) then None else st a)"
    by (auto simp: unsub_freed_def free_filter_def fun_eq_iff split: option.splits)
qed

lemma notify_sub_eq:
  "notify_sub h ev s = s\<lparr>trace := trace s @ (case sub_event_handler h of None \<Rightarrow> []
     | Some f \<Rightarrow> [SubEvent f ev (handler_user_data h)])\<rparr>"
  by (simp add: notify_sub_def upcall_def split: option.split)

lemma unsub_loop_correct:
  assumes "i + n = length (sub_handles s)" and "distinct (handle_filters (drop i (sub_handles s)))"
    and "set (handle_filters (drop i (sub_handles s))) \<subseteq> dom (strings s)"
  shows "unsub_loop n i topic ex s = Some (ex \<or> (\<exists>h \<in> set (drop i (sub_handles s)). unsub_match (strings s) topic h),
    s\<lparr>sub_handles := take i (sub_handles s) @ map (unsub_clear (strings s) topic) (drop i (sub_handles s)),
      strings := (\<lambda>a. if a \<in> unsub_freed (strings s) topic (drop i (sub_handles s)) then None else strings s a),
      trace := trace s @ unsub_events (strings s) topic (drop i (sub_handles s))\<rparr>)"
  using assms
proof (induction n arbitrary: i ex s)
  case 0
  then show ?case
    by (simp add: unsub_freed_def unsub_events_def)
next
  case (Suc n)
  let ?h = "sub_handles s ! i"
  have dr: "drop i (sub_handles s) = ?h # drop (i + 1) (sub_handles s)"
    using Suc.prems(1) by (simp add: Cons_nth_drop_Suc)
  have rd: "rd (sub_handles s) i = Some ?h"
    using Suc.prems(1) by (simp add: rd_def)
  have tk: "take (Suc i) (sub_handles s) = take i (sub_handles s) @ [?h]"
    using Suc.prems(1) by (simp add: take_Suc_conv_app_nth)
  define same where "same \<longleftrightarrow> (\<exists>a. topic_filter ?h = Some a \<and> strings s a = Some topic)"
  have hf: "handle_for s ?h topic = Some same"
    using Suc.prems(3) by (auto simp: same_def handle_for_def dr str_at_def split: option.splits)
  have match: "unsub_match (strings s) topic ?h \<longleftrightarrow> same \<or> has_wildcard topic"
    by (auto simp: unsub_match_def same_def)
  let ?rest = "drop (Suc i) (sub_handles s)"
  have rest: "distinct (handle_filters ?rest)" "set (handle_filters ?rest) \<subseteq> dom (strings s)"
    using Suc.prems(2,3) by (simp_all add: dr)
  show ?case
  proof (cases "unsub_match (strings s) topic ?h")
    case False
    have "unsub_loop (Suc n) i topic ex s = unsub_loop n (Suc i) topic ex s"
      using False by (simp add: rd hf match)
    also have "\<dots> = Some (ex \<or> (\<exists>h \<in> set ?rest. unsub_match (strings s) topic h),
        s\<lparr>sub_handles := take (Suc i) (sub_handles s) @ map (unsub_clear (strings s) topic) ?rest,
          strings := (\<lambda>a. if a \<in> unsub_freed (strings s) topic ?rest then None else strings s a),
          trace := trace s @ unsub_events (strings s) topic ?rest\<rparr>)"
      using Suc.prems(1) rest by (intro Suc.IH) simp_all
    finally show ?thesis
      using False unfolding dr tk by (simp add: unsub_clear_def unsub_freed_def unsub_events_def)
  next
    case True
    define st where "st = free_filter ?h (strings s)"
    define ev where "ev = (case sub_event_handler ?h of None \<Rightarrow> []
      | Some f \<Rightarrow> [SubEvent f MQTT_EVENT_UNSUBSCRIBE (handler_user_data ?h)])"
    define s1 where "s1 = s\<lparr>trace := trace s @ ev, strings := st, sub_handles := (sub_handles s)[i := ?h\<lparr>topic_filter := None\<rparr>]\<rparr>"
    have free: "HAL_Free (topic_filter ?h) (notify_sub ?h MQTT_EVENT_UNSUBSCRIBE s) = Some (s\<lparr>trace := trace s @ ev, strings := st\<rparr>)"
      using Suc.prems(3) by (auto simp: HAL_Free_def notify_sub_eq st_def free_filter_def ev_def dr split: option.splits)
    have s1_simps: "take (Suc i) (sub_handles s1) = take i (sub_handles s) @ [?h\<lparr>topic_filter := None\<rparr>]"
        "drop (Suc i) (sub_handles s1) = ?rest" "strings s1 = st" "trace s1 = trace s @ ev"
        "length (sub_handles s1) = length (sub_handles s)"
      using Suc.prems(1) by (simp_all add: s1_def take_Suc_conv_app_nth)
    have sub: "set (handle_filters ?rest) \<subseteq> dom st"
      using Suc.prems(2,3) by (auto simp: dr st_def free_filter_def split: option.splits)
    have "unsub_loop (Suc n) i topic ex s = unsub_loop n (Suc i) topic True s1"
      using True free by (simp add: rd hf match s1_def)
    also have "\<dots> = Some (True \<or> (\<exists>h \<in> set ?rest. unsub_match st topic h),
        s1\<lparr>sub_handles := take (Suc i) (sub_handles s1) @ map (unsub_clear st topic) ?rest,
          strings := (\<lambda>a. if a \<in> unsub_freed st topic ?rest then None else st a),
          trace := trace s1 @ unsub_events st topic ?rest\<rparr>)"
      unfolding s1_simps(2-3) [symmetric] using Suc.prems(1) rest(1) sub by (intro Suc.IH) (simp_all add: s1_simps)
    finally have run: "unsub_loop (Suc n) i topic ex s = Some (True \<or> (\<exists>h \<in> set ?rest. unsub_match st topic h),
        s1\<lparr>sub_handles := take (Suc i) (sub_handles s1) @ map (unsub_clear st topic) ?rest,
          strings := (\<lambda>a. if a \<in> unsub_freed st topic ?rest then None else st a),
          trace := trace s1 @ unsub_events st topic ?rest\<rparr>)" .
    have "distinct (handle_filters (?h # ?rest))"
      using Suc.prems(2) by (simp add: dr)
    from unsub_after_free [OF this True] have after: "map (unsub_clear st topic) ?rest = map (unsub_clear (strings s) topic) ?rest"
        "unsub_events st topic ?rest = unsub_events (strings s) topic ?rest"
        "(\<lambda>a. if a \<in> unsub_freed st topic ?rest then None else st a) =
         (\<lambda>a. if a \<in> unsub_freed (strings s) topic (?h # ?rest) then None else strings s a)"
      by (simp_all only: st_def)
    have "unsub_events (strings s) topic (?h # ?rest) = ev @ unsub_events (strings s) topic ?rest"
        "unsub_clear (strings s) topic ?h = ?h\<lparr>topic_filter := None\<rparr>"
      using True by (simp_all add: unsub_events_def ev_def unsub_clear_def)
    with True show ?thesis
      unfolding run after dr s1_simps(1,4) by (simp add: s1_def)
  qed
qed


text \<open>The client after the subscriptions have been removed.\<close>

definition unsubscribed :: "cstr \<Rightarrow> 'w sys \<Rightarrow> 'w sys" where
  "unsubscribed topic s =
     s\<lparr>sub_handles := map (unsub_clear (strings s) topic) (sub_handles s),
       strings := (\<lambda>a. if a \<in> unsub_freed (strings s) topic (sub_handles s) then None else strings s a),
       trace := trace s @ unsub_events (strings s) topic (sub_handles s)\<rparr>"

lemma handle_filters_clear:
  "handle_filters (map (unsub_clear st topic) hs) = handle_filters (filter (\<lambda>h. \<not> unsub_match st topic h) hs)"
  by (induction hs) (simp_all add: unsub_clear_def)

lemma handle_filters_filter:
  assumes "distinct (handle_filters hs)"
  shows "distinct (handle_filters (filter P hs)) \<and> set (handle_filters (filter P hs)) \<subseteq> set (handle_filters hs) \<and>
    set (handle_filters (filter P hs)) \<inter> set (handle_filters (filter (\<lambda>h. \<not> P h) hs)) = {}"
  using assms
proof (induction hs)
  case Nil
  then show ?case by simp
next
  case (Cons h hs)
  then show ?case
    using set_handle_filters [of "filter (\<lambda>h. \<not> P h) hs"] set_handle_filters [of hs]
    by (auto split: option.splits)
qed

lemma client_inv_unsubscribed:
  assumes "client_inv s"
  shows "client_inv (unsubscribed topic s)"
proof -
  have inv: "unlocked s" "arrays_ok s" "lists_ok s" "heap_ok s"
    using assms by (simp_all add: client_inv_def)
  let ?hs = "sub_handles s" and ?P = "\<lambda>h. \<not> unsub_match (strings s) topic h"
  have d: "distinct (handle_filters ?hs)" "set (handle_filters ?hs) \<inter> set (pending_filters (list_sub_wait_ack s)) = {}"
    using inv(4) by (auto simp: heap_ok_def)
  have f: "distinct (handle_filters (filter ?P ?hs))" "set (handle_filters (filter ?P ?hs)) \<subseteq> set (handle_filters ?hs)"
      "set (handle_filters (filter ?P ?hs)) \<inter> unsub_freed (strings s) topic ?hs = {}"
    using handle_filters_filter [OF d(1), of ?P] by (simp_all add: unsub_freed_def)
  have g: "unsub_freed (strings s) topic ?hs \<subseteq> set (handle_filters ?hs)"
    using handle_filters_filter [OF d(1), of "unsub_match (strings s) topic"] by (simp add: unsub_freed_def)
  have "heap_ok (unsubscribed topic s)"
    using inv(4) d(2) f g unfolding heap_ok_def unsubscribed_def
    by (auto simp: handle_filters_clear dom_def)
  then show ?thesis
    using inv(1-3) by (simp add: client_inv_def unsubscribed_def unlocked_def arrays_ok_def lists_ok_def)
qed


lemma unsubscribe_serialized:
  assumes "arrays_ok s" and "length topic \<le> MAX_SIZE_OF_CLOUD_TOPIC"
  obtains h where "mqtt_init_packet_header UNSUBSCRIBE 1 0 0 = Inr h"
    and "serialize_unsubscribe_packet (write_buf s) (write_buf_size s) 0 packet_id 1 topic =
      Some (Inr (put (write_buf s) (mqtt_packet h (u16_bytes packet_id @ utf8_bytes topic)),
        length (mqtt_packet h (u16_bytes packet_id @ utf8_bytes topic))))"
    and "length (mqtt_packet h (u16_bytes packet_id @ utf8_bytes topic)) \<le> 2048"
proof -
  obtain h where h: "mqtt_init_packet_header UNSUBSCRIBE 1 0 0 = Inr h"
    by (simp add: mqtt_init_packet_header_def)
  have len: "length topic \<le> 128"
    using assms(2) by (simp add: MAX_SIZE_OF_CLOUD_TOPIC_def)
  have rem: "length (rem_len_bytes (4 + length topic)) \<le> 4"
    using len by (intro length_rem_len_bytes_le_4) simp
  then have fit: "get_mqtt_packet_len (4 + length topic) \<le> write_buf_size s" "write_buf_size s \<le> length (write_buf s)"
    using assms(1) len get_mqtt_packet_len_le [of "4 + length topic"] by (simp_all add: arrays_ok_def)
  have body: "length (u16_bytes packet_id @ utf8_bytes topic) = 4 + length topic"
    by simp
  have "length (mqtt_packet h (u16_bytes packet_id @ utf8_bytes topic)) \<le> 2048"
    unfolding length_mqtt_packet body using rem len by linarith
  with h show thesis
    using serialize_unsubscribe_packet_ok [OF fit _ h, of packet_id] len by (intro that) simp_all
qed

definition unsub_handle :: "junk \<Rightarrow> ptr \<Rightarrow> SubTopicHandle" where
  "unsub_handle j f = \<lparr>topic_filter = f, message_handler = None, sub_event_handler = None,
     handler_user_data = 0, handle_qos = handle_qos (junk_handle j)\<rparr>"

lemma unsubscribe_request_correct:
  assumes "env_ok env" and "client_inv s" and "is_connected s \<noteq> 0" and "length topic \<le> MAX_SIZE_OF_CLOUD_TOPIC"
  shows "\<exists>h f. mqtt_init_packet_header UNSUBSCRIBE 1 0 0 = Inr h \<and>
    request_result env UNSUBSCRIBE (next_id (next_packet_id s)) (unsub_handle j f) topic
      (mqtt_packet h (u16_bytes (next_id (next_packet_id s)) @ utf8_bytes topic)) s (unsubscribe_request env j topic s)"
proof -
  define k where "k = next_id (next_packet_id s)"
  define hd where "hd = unsub_handle j (Some (next_addr s))"
  have inv: "unlocked s" "arrays_ok s"
    using assms(2) by (simp_all add: client_inv_def)
  from inv(2) assms(4) obtain h where h: "mqtt_init_packet_header UNSUBSCRIBE 1 0 0 = Inr h"
      "serialize_unsubscribe_packet (write_buf s) (write_buf_size s) 0 k 1 topic =
        Some (Inr (put (write_buf s) (mqtt_packet h (u16_bytes k @ utf8_bytes topic)),
          length (mqtt_packet h (u16_bytes k @ utf8_bytes topic))))"
      "length (mqtt_packet h (u16_bytes k @ utf8_bytes topic)) \<le> 2048"
    by (rule unsubscribe_serialized [where packet_id = k])
  define packet where "packet = mqtt_packet h (u16_bytes k @ utf8_bytes topic)"
  have "request_result env UNSUBSCRIBE k hd topic packet s (unsubscribe_request env j topic s)"
  proof (cases rule: HAL_Malloc_cases [of env s])
    case (fail w)
    then have "unsubscribe_request env j topic s = Some (QCLOUD_ERR_FAILURE, s\<lparr>world := w\<rparr>)"
      using assms(3) inv(1) by (simp add: unsubscribe_request_def get_client_conn_state_ok unlocked_def)
    with request_result_no_memory [OF assms(2)] show ?thesis
      by simp
  next
    case (addr w)
    obtain t w1 where t: "countdown_ms env (command_timeout_ms s)
        (s\<lparr>next_addr := next_addr s + 1, world := w, strings := (strings s)(next_addr s \<mapsto> topic)\<rparr>) =
        (t, s\<lparr>next_addr := next_addr s + 1, strings := (strings s)(next_addr s \<mapsto> topic), world := w1\<rparr>)"
      by (rule countdown_after_store)
    have "unsubscribe_request env j topic s =
        push_and_send env (length packet) k UNSUBSCRIBE hd t
          (s\<lparr>next_addr := next_addr s + 1, strings := (strings s)(next_addr s \<mapsto> topic), world := w1,
            lock_write_buf := True, next_packet_id := k, write_buf := put (write_buf s) packet\<rparr>)"
      using assms(3) inv(1) h(2) addr t
      by (simp add: unsubscribe_request_def get_client_conn_state_ok get_next_packet_id_ok unlocked_def
          store_str_def mutex_simps k_def [symmetric] hd_def unsub_handle_def packet_def)
    moreover have "packet \<noteq> []"
      by (simp add: packet_def mqtt_packet_def)
    ultimately show ?thesis
      using push_and_send_request [OF assms(1,2), of packet hd] h(3) by (simp add: packet_def hd_def unsub_handle_def)
  qed
  then show ?thesis
    using h(1) unfolding k_def hd_def packet_def by blast
qed

section \<open>Properties\<close>

definition subscribe_params_example :: SubscribeParams where
  "subscribe_params_example = \<lparr>sp_qos = QOS1, on_message_handler = Some 1, on_sub_event_handler = Some 2, user_data = 3\<rparr>"

text \<open>An example with one subscription, to the topic \<^verbatim>\<open>a\<close>.\<close>

definition subscribed_example :: "(byte list \<times> byte list) sys" where
  "subscribed_example = (client_example [])\<lparr>strings := [0 \<mapsto> [0x61]], next_addr := 1,
     sub_handles := \<lparr>topic_filter = Some 0, message_handler = Some 1, sub_event_handler = Some 2,
       handler_user_data = 3, handle_qos = QOS1\<rparr> # replicate 9 null_handle\<rparr>"

lemma subscribed_example_inv: "client_inv subscribed_example"
  by (simp add: client_inv_def unlocked_def arrays_ok_def lists_ok_def heap_ok_def subscribed_example_def
      client_example_def handle_filters_null MAX_MESSAGE_HANDLERS_def MQTT_MAX_REPEAT_BUF_LEN_def)

lemma subscribe_correct:
  assumes "env_ok env" and "client_inv s" and "is_connected s \<noteq> 0"
    and "topic \<noteq> []" and "length topic \<le> MAX_SIZE_OF_CLOUD_TOPIC" and "sp_qos p \<noteq> QOS2"
  shows "\<exists>h f. mqtt_init_packet_header SUBSCRIBE 1 0 0 = Inr h \<and>
    request_result env SUBSCRIBE (next_id (next_packet_id s))
      \<lparr>topic_filter = f, message_handler = on_message_handler p, sub_event_handler = on_sub_event_handler p,
       handler_user_data = user_data p, handle_qos = sp_qos p\<rparr> topic
      (mqtt_packet h (u16_bytes (next_id (next_packet_id s)) @ utf8_bytes topic @ [sp_qos p])) s
      (qcloud_iot_mqtt_subscribe env (Some topic) (Some p) s)"
proof -
  define k where "k = next_id (next_packet_id s)"
  define hd where "hd = \<lparr>topic_filter = Some (next_addr s), message_handler = on_message_handler p,
    sub_event_handler = on_sub_event_handler p, handler_user_data = user_data p, handle_qos = sp_qos p\<rparr>"
  have inv: "unlocked s" "arrays_ok s"
    using assms(2) by (simp_all add: client_inv_def)
  from inv(2) assms(5) obtain h where h: "mqtt_init_packet_header SUBSCRIBE 1 0 0 = Inr h"
      "serialize_subscribe_packet (write_buf s) (write_buf_size s) 0 k 1 topic [sp_qos p] =
        Some (Inr (put (write_buf s) (mqtt_packet h (u16_bytes k @ utf8_bytes topic @ [sp_qos p])),
          length (mqtt_packet h (u16_bytes k @ utf8_bytes topic @ [sp_qos p]))))"
      "length (mqtt_packet h (u16_bytes k @ utf8_bytes topic @ [sp_qos p])) \<le> 2048"
    by (rule subscribe_serialized [where packet_id = k and q = "sp_qos p"])
  define packet where "packet = mqtt_packet h (u16_bytes k @ utf8_bytes topic @ [sp_qos p])"
  have "request_result env SUBSCRIBE k hd topic packet s (qcloud_iot_mqtt_subscribe env (Some topic) (Some p) s)"
  proof (cases rule: HAL_Malloc_cases [of env s])
    case (fail w)
    then have "qcloud_iot_mqtt_subscribe env (Some topic) (Some p) s = Some (QCLOUD_ERR_FAILURE, s\<lparr>world := w\<rparr>)"
      using assms(3-6) inv(1) by (simp add: qcloud_iot_mqtt_subscribe_def get_client_conn_state_ok unlocked_def)
    with request_result_no_memory [OF assms(2)] show ?thesis
      by simp
  next
    case (addr w)
    obtain t w1 where t: "countdown_ms env (command_timeout_ms s)
        (s\<lparr>next_addr := next_addr s + 1, world := w, strings := (strings s)(next_addr s \<mapsto> topic)\<rparr>) =
        (t, s\<lparr>next_addr := next_addr s + 1, strings := (strings s)(next_addr s \<mapsto> topic), world := w1\<rparr>)"
      by (rule countdown_after_store)
    have "qcloud_iot_mqtt_subscribe env (Some topic) (Some p) s =
        push_and_send env (length packet) k SUBSCRIBE hd t
          (s\<lparr>next_addr := next_addr s + 1, strings := (strings s)(next_addr s \<mapsto> topic), world := w1,
            lock_write_buf := True, next_packet_id := k, write_buf := put (write_buf s) packet\<rparr>)"
      using assms(3-6) inv(1) h(2) addr t
      by (simp add: qcloud_iot_mqtt_subscribe_def get_client_conn_state_ok get_next_packet_id_ok unlocked_def
          store_str_def mutex_simps k_def [symmetric] hd_def packet_def)
    moreover have "packet \<noteq> []"
      by (simp add: packet_def mqtt_packet_def)
    ultimately show ?thesis
      using push_and_send_request [OF assms(1,2), of packet hd] h(3) by (simp add: packet_def hd_def)
  qed
  then show ?thesis
    using h(1) unfolding k_def hd_def packet_def by blast
qed

text \<open>
  C8: On a connected client with the invariant, subscribing returns and keeps the invariant. An error
  leaves the waiting list and the heap of filters as they were: the copy of the filter is released. On success the
  result is the next packet id, the exact SUBSCRIBE packet has been handed to the network, and the
  request waits with a fresh copy of the filter and the caller's handlers.
\<close>

theorem subscribe_preserves_client:
  assumes "env_ok env" and "client_inv s" and "is_connected s \<noteq> 0"
    and "topic \<noteq> []" and "length topic \<le> MAX_SIZE_OF_CLOUD_TOPIC" and "sp_qos p \<noteq> QOS2"
  shows "\<exists>h f. mqtt_init_packet_header SUBSCRIBE 1 0 0 = Inr h \<and>
    request_result env SUBSCRIBE (next_id (next_packet_id s))
      \<lparr>topic_filter = f, message_handler = on_message_handler p, sub_event_handler = on_sub_event_handler p,
       handler_user_data = user_data p, handle_qos = sp_qos p\<rparr> topic
      (mqtt_packet h (u16_bytes (next_id (next_packet_id s)) @ utf8_bytes topic @ [sp_qos p])) s
      (qcloud_iot_mqtt_subscribe env (Some topic) (Some p) s)"
  using assms by (rule subscribe_correct)


theorem subscribe_preserves_client_witness:
  "\<exists>h f. mqtt_init_packet_header SUBSCRIBE 1 0 0 = Inr h \<and>
    request_result stream_env SUBSCRIBE (next_id (next_packet_id (client_example [])))
      \<lparr>topic_filter = f, message_handler = on_message_handler subscribe_params_example,
       sub_event_handler = on_sub_event_handler subscribe_params_example,
       handler_user_data = user_data subscribe_params_example, handle_qos = sp_qos subscribe_params_example\<rparr> [0x61]
      (mqtt_packet h (u16_bytes (next_id (next_packet_id (client_example []))) @ utf8_bytes [0x61] @
         [sp_qos subscribe_params_example])) (client_example [])
      (qcloud_iot_mqtt_subscribe stream_env (Some [0x61]) (Some subscribe_params_example) (client_example []))"
  by (rule subscribe_preserves_client)
    (simp_all add: stream_env_contracts client_example_inv subscribe_params_example_def MAX_SIZE_OF_CLOUD_TOPIC_def,
     simp_all add: client_example_def)

lemma unsubscribe_correct:
  assumes "env_ok env" and "client_inv s" and "topic \<noteq> []" and "length topic \<le> MAX_SIZE_OF_CLOUD_TOPIC"
  shows "client_inv (unsubscribed topic s) \<and>
    (if \<not> (\<exists>h \<in> set (sub_handles s). unsub_match (strings s) topic h) then
       qcloud_iot_mqtt_unsubscribe env j (Some topic) s = Some (QCLOUD_ERR_MQTT_UNSUB_FAIL, s)
     else if is_connected s = 0 then
       qcloud_iot_mqtt_unsubscribe env j (Some topic) s = Some (QCLOUD_ERR_MQTT_NO_CONN, unsubscribed topic s)
     else \<exists>h f. mqtt_init_packet_header UNSUBSCRIBE 1 0 0 = Inr h \<and>
       request_result env UNSUBSCRIBE (next_id (next_packet_id s)) (unsub_handle j f) topic
         (mqtt_packet h (u16_bytes (next_id (next_packet_id s)) @ utf8_bytes topic)) (unsubscribed topic s)
         (qcloud_iot_mqtt_unsubscribe env j (Some topic) s))"
proof -
  have inv: "unlocked s" "arrays_ok s" "heap_ok s"
    using assms(2) by (simp_all add: client_inv_def)
  define ex where "ex \<longleftrightarrow> (\<exists>h \<in> set (sub_handles s). unsub_match (strings s) topic h)"
  have loop: "unsub_loop MAX_MESSAGE_HANDLERS 0 topic False (s\<lparr>lock_generic := True\<rparr>) =
      Some (ex, (unsubscribed topic s)\<lparr>lock_generic := True\<rparr>)"
    using unsub_loop_correct [of 0 MAX_MESSAGE_HANDLERS "s\<lparr>lock_generic := True\<rparr>" topic False] inv
    by (simp add: arrays_ok_def heap_ok_def unsubscribed_def ex_def cong: if_cong)
  have unl: "\<not> lock_generic (unsubscribed topic s)"
    using inv(1) by (simp add: unsubscribed_def unlocked_def)
  have run: "qcloud_iot_mqtt_unsubscribe env j (Some topic) s =
      (if \<not> ex then Some (QCLOUD_ERR_MQTT_UNSUB_FAIL, unsubscribed topic s)
       else unsubscribe_request env j topic (unsubscribed topic s))"
    using assms(3,4) inv(1) loop unl
    by (simp add: qcloud_iot_mqtt_unsubscribe_def mutex_simps unlocked_def)
  have none: "unsubscribed topic s = s" if "\<not> ex"
  proof -
    have "filter (unsub_match (strings s) topic) (sub_handles s) = []"
      using that by (simp add: ex_def)
    moreover have "map (unsub_clear (strings s) topic) (sub_handles s) = sub_handles s"
      using that by (intro map_idI) (auto simp: ex_def unsub_clear_def)
    ultimately show ?thesis
      by (simp add: unsubscribed_def unsub_freed_def unsub_events_def)
  qed
  have conn: "is_connected (unsubscribed topic s) = is_connected s" "next_packet_id (unsubscribed topic s) = next_packet_id s"
    by (simp_all add: unsubscribed_def)
  have offline: "unsubscribe_request env j topic (unsubscribed topic s) = Some (QCLOUD_ERR_MQTT_NO_CONN, unsubscribed topic s)"
    if "is_connected s = 0"
    using that unl conn by (simp add: unsubscribe_request_def get_client_conn_state_ok)
  note req = unsubscribe_request_correct [OF assms(1) client_inv_unsubscribed [OF assms(2)] _ assms(4), of topic j, unfolded conn]
  show ?thesis
    unfolding run ex_def [symmetric] using client_inv_unsubscribed [OF assms(2)] none offline req by auto
qed

text \<open>
  C9: Unsubscribing first removes every subscription for the filter (every subscription at all when the filter has a
  wildcard), releasing each filter once and telling each subscriber; this keeps the invariant. When there is none the
  call fails and changes nothing; when the client is not connected it fails after the removal; otherwise an
  UNSUBSCRIBE request is registered and sent, or undone, as for subscribing.
\<close>

theorem unsubscribe_preserves_client:
  assumes "env_ok env" and "client_inv s" and "topic \<noteq> []" and "length topic \<le> MAX_SIZE_OF_CLOUD_TOPIC"
  shows "client_inv (unsubscribed topic s) \<and>
    (if \<not> (\<exists>h \<in> set (sub_handles s). unsub_match (strings s) topic h) then
       qcloud_iot_mqtt_unsubscribe env j (Some topic) s = Some (QCLOUD_ERR_MQTT_UNSUB_FAIL, s)
     else if is_connected s = 0 then
       qcloud_iot_mqtt_unsubscribe env j (Some topic) s = Some (QCLOUD_ERR_MQTT_NO_CONN, unsubscribed topic s)
     else \<exists>h f. mqtt_init_packet_header UNSUBSCRIBE 1 0 0 = Inr h \<and>
       request_result env UNSUBSCRIBE (next_id (next_packet_id s)) (unsub_handle j f) topic
         (mqtt_packet h (u16_bytes (next_id (next_packet_id s)) @ utf8_bytes topic)) (unsubscribed topic s)
         (qcloud_iot_mqtt_unsubscribe env j (Some topic) s))"
  using assms by (rule unsubscribe_correct)

theorem unsubscribe_preserves_client_witness:
  "client_inv (unsubscribed [0x61] subscribed_example) \<and>
    (if \<not> (\<exists>h \<in> set (sub_handles subscribed_example). unsub_match (strings subscribed_example) [0x61] h) then
       qcloud_iot_mqtt_unsubscribe stream_env \<lparr>junk_byte = 0, junk_handle = null_handle\<rparr> (Some [0x61]) subscribed_example =
         Some (QCLOUD_ERR_MQTT_UNSUB_FAIL, subscribed_example)
     else if is_connected subscribed_example = 0 then
       qcloud_iot_mqtt_unsubscribe stream_env \<lparr>junk_byte = 0, junk_handle = null_handle\<rparr> (Some [0x61]) subscribed_example =
         Some (QCLOUD_ERR_MQTT_NO_CONN, unsubscribed [0x61] subscribed_example)
     else \<exists>h f. mqtt_init_packet_header UNSUBSCRIBE 1 0 0 = Inr h \<and>
       request_result stream_env UNSUBSCRIBE (next_id (next_packet_id subscribed_example))
         (unsub_handle \<lparr>junk_byte = 0, junk_handle = null_handle\<rparr> f) [0x61]
         (mqtt_packet h (u16_bytes (next_id (next_packet_id subscribed_example)) @ utf8_bytes [0x61]))
         (unsubscribed [0x61] subscribed_example)
         (qcloud_iot_mqtt_unsubscribe stream_env \<lparr>junk_byte = 0, junk_handle = null_handle\<rparr> (Some [0x61]) subscribed_example))"
  by (rule unsubscribe_preserves_client)
    (simp_all add: stream_env_contracts subscribed_example_inv MAX_SIZE_OF_CLOUD_TOPIC_def)

end
