(* ===== verification/Mqtt_Receive.thy ===== *)
theory Mqtt_Receive
  imports Mqtt_Subscribe
begin

text \<open>
  What the client does with a received PUBLISH packet: the message handed to the application, the
  suppression of duplicates, and the acknowledgement.
\<close>

section \<open>Acknowledging a message\<close>

lemma send_pub_ack_cases:
  fixes packet_id :: u16
  assumes "env_ok env" and "unlocked s" and "arrays_ok s"
    and "mqtt_init_packet_header type (if type = PUBREL then 1 else 0) 0 0 = Inr h"
  defines "packet \<equiv> mqtt_packet h (u16_bytes packet_id)"
  obtains rc t w where "send_pub_ack env type packet_id timer s =
      Some (rc, t, s\<lparr>write_buf := put (write_buf s) packet, world := w\<rparr>)"
    and "rc < 0 \<or> rc = QCLOUD_RET_SUCCESS \<and> (\<exists>ms w0. net_write env packet ms w0 = (QCLOUD_RET_SUCCESS, 4, w))"
proof -
  have wb: "write_buf_size s = 2048" "length (write_buf s) = 2048"
    using assms(3) by (simp_all add: arrays_ok_def)
  have packet: "length packet = 4"
    by (simp add: packet_def mqtt_packet_def rem_len_bytes_small)
  define b where "b = put (write_buf s) packet"
  have b: "length b = 2048" "take 4 b = packet"
    using wb packet take_put [of packet "write_buf s"] by (simp_all add: b_def)
  have ser: "serialize_pub_ack_packet (write_buf s) (write_buf_size s) type 0 packet_id = Some (Inr (b, 4))"
    using serialize_pub_ack_packet_ok [OF _ _ assms(4)] wb by (simp add: b_def packet_def)
  define s1 where "s1 = s\<lparr>lock_write_buf := True, write_buf := b\<rparr>"
  obtain e w1 where e: "expired env timer s1 = (e, s1\<lparr>world := w1\<rparr>)"
    by (rule expired_frame)
  obtain t0 w2 where t0: "countdown_ms env 100 (s1\<lparr>world := w1\<rparr>) = (t0, s1\<lparr>world := w2\<rparr>)"
    using countdown_ms_frame [of env 100 "s1\<lparr>world := w1\<rparr>"] by auto
  define t where "t = (if e then t0 else timer)"
  define w3 where "w3 = (if e then w2 else w1)"
  have run: "send_pub_ack env type packet_id timer s = Option.bind (send_mqtt_packet env 4 t (s1\<lparr>world := w3\<rparr>))
      (\<lambda>(rc, s). Option.bind (HAL_MutexUnlock WriteBuf s) (\<lambda>s. Some (rc, t, s)))"
    using assms(2) ser e t0 by (simp add: send_pub_ack_def mutex_simps unlocked_def s1_def t_def w3_def split: if_splits)
  have arr: "arrays_ok (s1\<lparr>world := w3\<rparr>)"
    using assms(3) b(1) by (simp add: s1_def arrays_ok_def)
  from assms(1) arr show thesis
  proof (cases rule: send_mqtt_packet_cases [where len = 4 and timer = t])
    case (fail rc w)
    show thesis
      by (rule that [of rc t w]) (use fail assms(2) in \<open>simp_all add: run s1_def b_def mutex_simps unlocked_def\<close>)
  next
    case (sent ms w0 w)
    show thesis
      by (rule that [of QCLOUD_RET_SUCCESS t w])
        (use sent assms(2) b(2) in \<open>auto simp: run s1_def b_def mutex_simps unlocked_def\<close>)
  qed
qed

section \<open>PUBLISH packets\<close>

text \<open>
  What the handler needs of a PUBLISH packet: its topic is neither empty nor exactly as long as the
  topic array, and with a QoS above zero the packet is long enough for its packet id.
\<close>

definition publish_acceptable :: "byte list \<Rightarrow> bool" where
  "publish_acceptable b \<longleftrightarrow>
     (case mqtt_read_packet_rem_len_form_buf b 1 of
        Some (Inr (v, n)) \<Rightarrow>
          (case mqtt_read_uint16_t b (1 + unat n) of
             Some (l, _) \<Rightarrow> l \<noteq> 0 \<and> unat l \<noteq> MAX_SIZE_OF_CLOUD_TOPIC \<and>
               (header_qos (b ! 0) \<noteq> QOS0 \<longrightarrow> unat l + 4 \<le> unat v)
           | None \<Rightarrow> True)
      | _ \<Rightarrow> True)"

definition publish_info_ok :: "byte list \<Rightarrow> publish_info \<Rightarrow> bool" where
  "publish_info_ok b p \<longleftrightarrow> 0 < unat (pub_topic_len p) \<and> unat (pub_topic_len p) \<noteq> MAX_SIZE_OF_CLOUD_TOPIC \<and>
     pub_topic p + unat (pub_topic_len p) \<le> length b \<and> (pub_qos p \<noteq> QOS0 \<longrightarrow> (\<exists>i. pub_id p = Some i))"

lemma deserialize_publish_acceptable:
  assumes "length b = 2048" and "packet_in b" and "publish_acceptable b"
  obtains (err) rc where "deserialize_publish_packet b 2048 = Some (Inl rc)"
  | (ok) p where "deserialize_publish_packet b 2048 = Some (Inr p)" and "publish_info_ok b p"
proof -
  obtain v n where vn: "mqtt_read_packet_rem_len_form_buf b 1 = Some (Inr (v, n))" "1 + unat n + unat v \<le> length b"
    using assms(2) by (auto simp: packet_in_def split: option.splits sum.splits)
  have "unat n \<le> 4"
    using read_rem_len_safe [of 1 b] assms(1) vn(1) by fastforce
  then have room: "1 + unat n + 2 \<le> length b"
    using assms(1) by simp
  have hd: "mqtt_read_char b 0 = Some (b ! 0, 1)"
    using assms(1) by (simp add: mqtt_read_char_def rd_in_range)
  obtain l where l: "mqtt_read_uint16_t b (1 + unat n) = Some (l, 1 + unat n + 2)"
    using read_uint16_safe [OF room] by blast
  have acc: "l \<noteq> 0" "unat l \<noteq> MAX_SIZE_OF_CLOUD_TOPIC" "header_qos (b ! 0) \<noteq> QOS0 \<longrightarrow> unat l + 4 \<le> unat v"
    using assms(3) vn(1) l by (simp_all add: publish_acceptable_def)
  show thesis
  proof (cases "header_type (b ! 0) = MessageTypes_val PUBLISH")
    case False
    then have "deserialize_publish_packet b 2048 = Some (Inl QCLOUD_ERR_FAILURE)"
      by (simp add: deserialize_publish_packet_def hd)
    then show thesis by (rule err)
  next
    case True
    from room show thesis
    proof (cases rule: read_string_with_len_safe [where enddata = "1 + unat n + unat v"])
      case (err rc)
      with True have "deserialize_publish_packet b 2048 = Some (Inl QCLOUD_ERR_FAILURE)"
        using vn(1) by (simp add: deserialize_publish_packet_def hd)
      then show thesis by (rule that(1))
    next
      case (ok l')
      then have "l' = l"
        using l by (simp add: read_string_with_len_def split: if_splits)
      define q where "q = 1 + unat n + 2 + unat l"
      have str: "read_string_with_len b (1 + unat n) (1 + unat n + unat v) = Some (Inr (1 + unat n + 2, l, q))"
        and fin: "q \<le> 1 + unat n + unat v"
        using ok \<open>l' = l\<close> by (simp_all add: q_def)
      obtain i q' where i: "(if QOS0 \<noteq> header_qos (b ! 0) then Option.bind (mqtt_read_uint16_t b q)
            (\<lambda>(i, c). Some (Some i, c)) else Some (None, q)) = Some (i, q')"
          "header_qos (b ! 0) \<noteq> QOS0 \<longrightarrow> (\<exists>x. i = Some x)"
      proof (cases "header_qos (b ! 0) = QOS0")
        case True
        then show thesis by (intro that [of None q]) simp_all
      next
        case False
        then obtain x where "mqtt_read_uint16_t b q = Some (x, q + 2)"
          using read_uint16_safe [of q b] acc(3) vn(2) by (auto simp: q_def)
        with False show thesis by (intro that [of "Some x" "q + 2"]) simp_all
      qed
      define p where "p = \<lparr>pub_dup = header_dup (b ! 0), pub_qos = header_qos (b ! 0),
        pub_retained = header_retained (b ! 0), pub_id = i, pub_topic = 1 + unat n + 2, pub_topic_len = l,
        pub_payload = q', pub_payload_len = word_of_int (int (1 + unat n + unat v) - int q')\<rparr>"
      have "deserialize_publish_packet b 2048 = Some (Inr p)"
        using True vn(1) str fin i(1) by (simp add: deserialize_publish_packet_def hd p_def Let_def)
      moreover have "publish_info_ok b p"
        using acc i(2) fin vn(2) by (simp add: publish_info_ok_def p_def q_def unat_gt_0)
      ultimately show thesis by (rule that(2))
    qed
  qed
qed


lemma fix_topic_of_ok:
  assumes "publish_info_ok b p"
  obtains t n where "fix_topic_of b p = Some (t, n)" and "0 < n" and "n \<le> length t" and "buf_str t \<noteq> None"
proof -
  define n where "n = (if unat (pub_topic_len p) > MAX_SIZE_OF_CLOUD_TOPIC then MAX_SIZE_OF_CLOUD_TOPIC - 1
    else unat (pub_topic_len p))"
  define t where "t = take n (drop (pub_topic p) b) @ replicate (MAX_SIZE_OF_CLOUD_TOPIC - n) (0 :: byte)"
  have n: "0 < n" "n < MAX_SIZE_OF_CLOUD_TOPIC" "pub_topic p + n \<le> length b"
    using assms by (auto simp: n_def publish_info_ok_def MAX_SIZE_OF_CLOUD_TOPIC_def)
  have "fix_topic_of b p = Some (t, n)"
    using n unfolding fix_topic_of_def n_def [symmetric] Let_def
    by (simp add: rd_bytes_def wr_bytes_0 t_def drop_replicate)
  moreover have "n \<le> length t" "0 \<in> set t"
    using n by (simp_all add: t_def)
  ultimately show thesis
    using n(1) buf_str_total by (intro that)
qed

text \<open>The message the application is given, and what delivering it does.\<close>

definition received_message :: "byte list \<Rightarrow> publish_info \<Rightarrow> MQTTMessage option" where
  "received_message b p = map_option (\<lambda>(t, n).
     \<lparr>msg_qos = pub_qos p, msg_retained = pub_retained p, msg_dup = pub_dup p,
      msg_id = pub_id p, msg_topic = t, msg_topic_len = n,
      msg_payload = pub_payload p, msg_payload_len = pub_payload_len p\<rparr>) (fix_topic_of b p)"

definition delivered_to :: "MQTTMessage \<Rightarrow> 'w sys \<Rightarrow> upcall list" where
  "delivered_to msg s = (case delivery s msg (sub_handles s) of
     Some c \<Rightarrow> [c] | None \<Rightarrow> if event_handle s then [EventMessage msg] else [])"

lemma deliver_message_trace:
  assumes "topic_ok msg" and "client_inv s"
  shows "deliver_message msg s = Some (QCLOUD_RET_SUCCESS, s\<lparr>trace := trace s @ delivered_to msg s\<rparr>)"
proof -
  have "deliver_message msg s = Some (QCLOUD_RET_SUCCESS,
      case delivery s msg (sub_handles s) of Some c \<Rightarrow> upcall c s | None \<Rightarrow> notify (EventMessage msg) s)"
    using assms by (intro deliver_message_correct) (simp_all add: client_inv_def arrays_ok_def unlocked_def)
  then show ?thesis
    by (simp add: delivered_to_def upcall_def notify_def split: option.split)
qed

section \<open>Duplicate suppression\<close>

text \<open>The buffer of recent packet ids after a packet with id \<open>x\<close> was handled.\<close>

definition remember :: "u16 \<Rightarrow> u16 list \<times> nat \<Rightarrow> u16 list \<times> nat" where
  "remember x = (\<lambda>(buf, cnt). if x \<in> set buf \<and> x \<noteq> 0 then (buf, cnt)
     else (buf[cnt := x], (cnt + 1) mod MQTT_MAX_REPEAT_BUF_LEN))"

lemma add_packet_id_correct:
  assumes "arrays_ok s" and "remember x (repeat_packet_id_buf s, current_packet_id_cnt s) = (buf, cnt)"
  shows "add_packet_id_to_repeat_buf x s = Some (s\<lparr>repeat_packet_id_buf := buf, current_packet_id_cnt := cnt\<rparr>)"
    and "length buf = MQTT_MAX_REPEAT_BUF_LEN" and "cnt < MQTT_MAX_REPEAT_BUF_LEN" and "x \<in> set buf"
proof -
  have len: "length (repeat_packet_id_buf s) = MQTT_MAX_REPEAT_BUF_LEN" "current_packet_id_cnt s < MQTT_MAX_REPEAT_BUF_LEN"
    using assms(1) by (simp_all add: arrays_ok_def)
  have get: "get_packet_id_in_repeat_buf s x = Some (if x \<in> set (repeat_packet_id_buf s) then uint x else - 1)"
    using len(1) by (simp add: get_packet_id_in_repeat_buf_def)
  have wrap: "(if MQTT_MAX_REPEAT_BUF_LEN \<le> c then c mod MQTT_MAX_REPEAT_BUF_LEN else c) = c mod MQTT_MAX_REPEAT_BUF_LEN" for c
    by simp
  show "add_packet_id_to_repeat_buf x s = Some (s\<lparr>repeat_packet_id_buf := buf, current_packet_id_cnt := cnt\<rparr>)"
  proof (cases "x \<in> set (repeat_packet_id_buf s) \<and> x \<noteq> 0")
    case True
    then have "0 < uint x"
      using word_gt_0 [of x] unfolding word_less_def by simp
    with True assms(2) show ?thesis
      by (simp add: remember_def add_packet_id_to_repeat_buf_def get)
  next
    case False
    then have "\<not> 0 < (if x \<in> set (repeat_packet_id_buf s) then uint x else - 1)"
      by auto
    with False assms(2) len show ?thesis
      by (auto simp: remember_def add_packet_id_to_repeat_buf_def get wr_def wrap Let_def simp del: if_split)
  qed
  show "length buf = MQTT_MAX_REPEAT_BUF_LEN" "cnt < MQTT_MAX_REPEAT_BUF_LEN"
    using assms(2) len by (auto simp: remember_def MQTT_MAX_REPEAT_BUF_LEN_def split: if_splits)
  show "x \<in> set buf"
    using assms(2) len by (auto simp: remember_def set_update_memI split: if_splits)
qed


text \<open>The slot that holds an id is the last of the ten to be overwritten.\<close>

lemma window_step:
  assumes "length buf = 10" and "c < 10" and "buf ! c = x" and "j < 9" and "remember y (buf, (c + 1 + j) mod 10) = (buf', cnt')"
  shows "length buf' = 10 \<and> buf' ! c = x \<and> (cnt' = (c + 1 + j) mod 10 \<or> cnt' = (c + 1 + Suc j) mod 10)"
proof -
  have ne: "(c + 1 + j) mod 10 \<noteq> c"
    using assms(2,4) by (cases "c + 1 + j < 10") (auto simp: mod_if)
  have "((c + 1 + j) mod 10 + 1) mod 10 = (c + 1 + Suc j) mod 10"
    by (simp add: mod_Suc_eq)
  with ne assms show ?thesis
    by (auto simp: remember_def MQTT_MAX_REPEAT_BUF_LEN_def split: if_splits)
qed

lemma fold_add_packet_id:
  assumes "arrays_ok s" and "c < 10" and "repeat_packet_id_buf s ! c = x"
    and "current_packet_id_cnt s = (c + 1 + j) mod 10" and "j + length xs \<le> 9"
  shows "\<exists>s'. fold_opt add_packet_id_to_repeat_buf xs s = Some s' \<and> arrays_ok s' \<and> x \<in> set (repeat_packet_id_buf s')"
  using assms
proof (induction xs arbitrary: s j)
  case Nil
  then show ?case
    by (auto simp: arrays_ok_def MQTT_MAX_REPEAT_BUF_LEN_def intro!: nth_mem)
next
  case (Cons y ys)
  obtain buf cnt where r: "remember y (repeat_packet_id_buf s, current_packet_id_cnt s) = (buf, cnt)"
    by (cases "remember y (repeat_packet_id_buf s, current_packet_id_cnt s)")
  note add = add_packet_id_correct [OF Cons.prems(1) r]
  define s1 where "s1 = s\<lparr>repeat_packet_id_buf := buf, current_packet_id_cnt := cnt\<rparr>"
  have arr: "arrays_ok s1"
    using Cons.prems(1) add(2,3) by (simp add: s1_def arrays_ok_def)
  have len: "length (repeat_packet_id_buf s) = 10"
    using Cons.prems(1) by (simp add: arrays_ok_def MQTT_MAX_REPEAT_BUF_LEN_def)
  have "buf ! c = x" "cnt = (c + 1 + j) mod 10 \<or> cnt = (c + 1 + Suc j) mod 10"
    using window_step [OF len Cons.prems(2,3), of j y buf cnt] r Cons.prems(4,5) by auto
  then have "\<exists>s'. fold_opt add_packet_id_to_repeat_buf ys s1 = Some s' \<and> arrays_ok s' \<and> x \<in> set (repeat_packet_id_buf s')"
    using Cons.IH [OF arr Cons.prems(2), of j] Cons.IH [OF arr Cons.prems(2), of "Suc j"] Cons.prems(5)
    by (auto simp: s1_def)
  with add(1) show ?case
    by (simp add: s1_def)
qed

section \<open>Handling a PUBLISH packet\<close>

lemma received_message_ok:
  assumes "publish_info_ok b p"
  obtains msg where "received_message b p = Some msg" and "topic_ok msg"
  using assms by (rule fix_topic_of_ok) (auto simp: received_message_def topic_ok_def)

text \<open>
  At QoS 1 and 2 an id that is not among the recent ones is delivered; the id is then among them, and the
  packet is acknowledged.
\<close>

lemma handle_publish_acks:
  assumes "client_inv s" and "deserialize_publish_packet (read_buf s) 2048 = Some (Inr p)" and "pub_qos p \<noteq> QOS0"
    and "pub_id p = Some i" and "received_message (read_buf s) p = Some msg" and "topic_ok msg"
    and "remember i (repeat_packet_id_buf s, current_packet_id_cnt s) = (buf, cnt)"
  shows "handle_publish_packet env timer s = send_pub_ack env (if pub_qos p = QOS1 then PUBACK else PUBREC) i timer
    (s\<lparr>trace := trace s @ (if i \<in> set (repeat_packet_id_buf s) then [] else delivered_to msg s),
      repeat_packet_id_buf := buf, current_packet_id_cnt := cnt\<rparr>)"
proof -
  have arr: "arrays_ok s" and rb: "read_buf_size s = 2048"
    using assms(1) by (simp_all add: client_inv_def arrays_ok_def)
  obtain t n where ft: "fix_topic_of (read_buf s) p = Some (t, n)"
      "msg = \<lparr>msg_qos = pub_qos p, msg_retained = pub_retained p, msg_dup = pub_dup p,
        msg_id = pub_id p, msg_topic = t, msg_topic_len = n,
        msg_payload = pub_payload p, msg_payload_len = pub_payload_len p\<rparr>"
    using assms(5) by (auto simp: received_message_def)
  define s1 where "s1 = s\<lparr>trace := trace s @ (if i \<in> set (repeat_packet_id_buf s) then [] else delivered_to msg s)\<rparr>"
  have get: "get_packet_id_in_repeat_buf s i = Some (if i \<in> set (repeat_packet_id_buf s) then uint i else - 1)"
    using arr by (simp add: get_packet_id_in_repeat_buf_def arrays_ok_def)
  define again where "again \<longleftrightarrow> i \<in> set (repeat_packet_id_buf s)"
  have deliver: "again \<Longrightarrow> s1 = s" "\<not> again \<Longrightarrow> deliver_message msg s = Some (QCLOUD_RET_SUCCESS, s1)"
    using deliver_message_trace [OF assms(6,1)] by (simp_all add: s1_def again_def)
  have "arrays_ok s1" "remember i (repeat_packet_id_buf s1, current_packet_id_cnt s1) = (buf, cnt)"
    using arr assms(7) by (simp_all add: s1_def arrays_ok_def)
  then have add: "add_packet_id_to_repeat_buf i s1 = Some (s1\<lparr>repeat_packet_id_buf := buf, current_packet_id_cnt := cnt\<rparr>)"
    by (rule add_packet_id_correct)
  have "handle_publish_packet env timer s = send_pub_ack env (if pub_qos p = QOS1 then PUBACK else PUBREC) i timer
      (s1\<lparr>repeat_packet_id_buf := buf, current_packet_id_cnt := cnt\<rparr>)"
    using assms(2-4) ft(1) get deliver add unfolding again_def [symmetric] handle_publish_packet_def rb ft(2)
    by (cases again) (simp_all del: if_split)
  then show ?thesis
    by (simp add: s1_def)
qed

lemma handle_publish_cases:
  assumes "env_ok env" and "client_inv s" and "packet_in (read_buf s)" and "publish_acceptable (read_buf s)"
  obtains (rejected) rc where "deserialize_publish_packet (read_buf s) 2048 = Some (Inl rc)"
      and "handle_publish_packet env timer s = Some (rc, timer, s)"
  | (at_most_once) p msg where "deserialize_publish_packet (read_buf s) 2048 = Some (Inr p)" and "pub_qos p = QOS0"
      and "received_message (read_buf s) p = Some msg"
      and "handle_publish_packet env timer s = Some (QCLOUD_RET_SUCCESS, timer, s\<lparr>trace := trace s @ delivered_to msg s\<rparr>)"
  | (acknowledged) p msg i h rc t buf cnt w where "deserialize_publish_packet (read_buf s) 2048 = Some (Inr p)"
      and "pub_qos p \<noteq> QOS0" and "pub_id p = Some i" and "received_message (read_buf s) p = Some msg"
      and "remember i (repeat_packet_id_buf s, current_packet_id_cnt s) = (buf, cnt)"
      and "mqtt_init_packet_header (if pub_qos p = QOS1 then PUBACK else PUBREC) 0 0 0 = Inr h"
      and "handle_publish_packet env timer s = Some (rc, t,
        s\<lparr>trace := trace s @ (if i \<in> set (repeat_packet_id_buf s) then [] else delivered_to msg s),
          repeat_packet_id_buf := buf, current_packet_id_cnt := cnt,
          write_buf := put (write_buf s) (mqtt_packet h (u16_bytes i)), world := w\<rparr>)"
      and "rc < 0 \<or> rc = QCLOUD_RET_SUCCESS \<and>
        (\<exists>ms w0. net_write env (mqtt_packet h (u16_bytes i)) ms w0 = (QCLOUD_RET_SUCCESS, 4, w))"
proof -
  have inv: "unlocked s" "arrays_ok s"
    using assms(2) by (simp_all add: client_inv_def)
  then have rb: "length (read_buf s) = 2048" "read_buf_size s = 2048"
    by (simp_all add: arrays_ok_def)
  from rb(1) assms(3,4) show thesis
  proof (cases rule: deserialize_publish_acceptable)
    case (err rc)
    then show thesis
      by (intro that(1) [of rc]) (simp_all add: handle_publish_packet_def rb)
  next
    case (ok p)
    obtain msg where msg: "received_message (read_buf s) p = Some msg" "topic_ok msg"
      using ok(2) by (rule received_message_ok)
    then obtain t n where ft: "fix_topic_of (read_buf s) p = Some (t, n)"
        "msg = \<lparr>msg_qos = pub_qos p, msg_retained = pub_retained p, msg_dup = pub_dup p,
          msg_id = pub_id p, msg_topic = t, msg_topic_len = n,
          msg_payload = pub_payload p, msg_payload_len = pub_payload_len p\<rparr>"
      by (auto simp: received_message_def)
    note deliver = deliver_message_trace [OF msg(2) assms(2)]
    show thesis
    proof (cases "pub_qos p = QOS0")
      case True
      then show thesis
        using ok(1) msg(1) ft deliver rb
        by (intro that(2) [of p msg]) (simp_all add: handle_publish_packet_def)
    next
      case False
      obtain i where i: "pub_id p = Some i"
        using ok(2) False by (auto simp: publish_info_ok_def)
      obtain buf cnt where r: "remember i (repeat_packet_id_buf s, current_packet_id_cnt s) = (buf, cnt)"
        by (cases "remember i (repeat_packet_id_buf s, current_packet_id_cnt s)")
      define type where "type = (if pub_qos p = QOS1 then PUBACK else PUBREC)"
      obtain h where h: "mqtt_init_packet_header type 0 0 0 = Inr h"
        by (cases "pub_qos p = QOS1") (simp_all add: type_def mqtt_init_packet_header_def)
      define s1 where "s1 = s\<lparr>trace := trace s @ (if i \<in> set (repeat_packet_id_buf s) then [] else delivered_to msg s),
        repeat_packet_id_buf := buf, current_packet_id_cnt := cnt\<rparr>"
      have s1: "unlocked s1" "arrays_ok s1"
        using inv add_packet_id_correct(2,3) [OF inv(2) r] by (simp_all add: s1_def unlocked_def arrays_ok_def)
      have h': "mqtt_init_packet_header type (if type = PUBREL then 1 else 0) 0 0 = Inr h"
        using h by (simp add: type_def)
      obtain rc t' w where ack: "send_pub_ack env type i timer s1 =
            Some (rc, t', s1\<lparr>write_buf := put (write_buf s1) (mqtt_packet h (u16_bytes i)), world := w\<rparr>)"
          "rc < 0 \<or> rc = QCLOUD_RET_SUCCESS \<and>
            (\<exists>ms w0. net_write env (mqtt_packet h (u16_bytes i)) ms w0 = (QCLOUD_RET_SUCCESS, 4, w))"
        using assms(1) s1 h' by (rule send_pub_ack_cases)
      show thesis
        by (rule that(3) [OF ok(1) False i msg(1) r h [unfolded type_def] _ ack(2)])
          (use handle_publish_acks [OF assms(2) ok(1) False i msg r, of env timer] ack(1) in
            \<open>simp add: s1_def type_def\<close>)
    qed
  qed
qed


section \<open>A PUBLISH packet in the read buffer\<close>

text \<open>The message the application gets for a packet with the given topic and payload.\<close>

definition message_of :: "byte list \<Rightarrow> QoS \<Rightarrow> u16 \<Rightarrow> cstr \<Rightarrow> byte list \<Rightarrow> MQTTMessage \<Rightarrow> bool" where
  "message_of b qos i topic payload msg \<longleftrightarrow> msg_qos msg = qos \<and> msg_id msg = (if qos > 0 then Some i else None) \<and>
     msg_topic msg = topic @ replicate (MAX_SIZE_OF_CLOUD_TOPIC - length topic) 0 \<and> msg_topic_len msg = length topic \<and>
     rd_bytes b (msg_payload msg) (unat (msg_payload_len msg)) = Some payload"

lemma publish_packet_received:
  assumes h: "header_type h = MessageTypes_val PUBLISH" and q: "header_qos h = qos"
    and topic: "0 < length topic" "length topic < MAX_SIZE_OF_CLOUD_TOPIC"
    and b: "b = publish_packet h qos i topic payload @ rest" "length b = 2048"
  shows "packet_in b" and "publish_acceptable b"
    and "\<exists>p msg. deserialize_publish_packet b 2048 = Some (Inr p) \<and> pub_qos p = qos \<and>
      pub_id p = (if qos > 0 then Some i else None) \<and> received_message b p = Some msg \<and> message_of b qos i topic payload msg"
proof -
  let ?id = "if qos > 0 then u16_bytes i else []"
  define body where "body = utf8_bytes topic @ ?id @ payload"
  define pos where "pos = 1 + length (rem_len_bytes (length body))"
  have B: "b = h # rem_len_bytes (length body) @ body @ rest"
    by (simp add: b(1) publish_packet_def body_def Let_def)
  have t128: "length topic < 128"
    using topic(2) by (simp add: MAX_SIZE_OF_CLOUD_TOPIC_def)
  have len: "pos + length body \<le> 2048"
    using b(2) by (simp add: B pos_def)
  then have n: "length body < 268435456" and pl: "length payload < 2048"
    by (simp_all add: pos_def body_def)
  have rem: "mqtt_read_packet_rem_len_form_buf b 1 = Some (Inr (of_nat (length body), of_nat (length (rem_len_bytes (length body)))))"
    by (rule read_rem_len_drop [OF n, of _ _ "body @ rest"]) (simp add: B)
  have u: "unat (of_nat (length body) :: u32) = length body"
      "1 + unat (of_nat (length (rem_len_bytes (length body))) :: u32) = pos"
    using n by (simp_all add: unat_of_nat_small unat_length_rem_len_bytes pos_def)
  show "packet_in b"
    using len unfolding packet_in_def rem option.case sum.case prod.case u b(2) .
  have tl: "unat (of_nat (length topic) :: u16) = length topic"
    using t128 by (simp add: unat_of_nat)
  have d: "drop pos b = u16_bytes (of_nat (length topic)) @ topic @ ?id @ payload @ rest"
    by (simp add: B pos_def body_def utf8_bytes_def)
  have q0: "qos \<noteq> 0 \<Longrightarrow> 0 < qos"
    by (simp add: word_greater_zero_iff)
  show "publish_acceptable b"
    unfolding publish_acceptable_def rem option.case sum.case prod.case u read_uint16_drop [OF d] tl
    using topic t128 q q0 tl by (auto simp: B body_def MAX_SIZE_OF_CLOUD_TOPIC_def)
  show "\<exists>p msg. deserialize_publish_packet b 2048 = Some (Inr p) \<and> pub_qos p = qos \<and>
      pub_id p = (if qos > 0 then Some i else None) \<and> received_message b p = Some msg \<and> message_of b qos i topic payload msg"
  proof -
    define p where "p = \<lparr>pub_dup = header_dup h, pub_qos = qos, pub_retained = header_retained h,
      pub_id = (if qos > 0 then Some i else None), pub_topic = pos + 2, pub_topic_len = of_nat (length topic),
      pub_payload = pos + length body - length payload, pub_payload_len = of_nat (length payload)\<rparr>"
    have des: "deserialize_publish_packet b 2048 = Some (Inr p)"
      unfolding p_def pos_def body_def using h q _ _ b(1)
      by (rule deserialize_publish_packet_ok) (use t128 pl in simp_all)
    have "rd_bytes b (pos + 2) (length topic) = Some topic"
      by (simp add: B pos_def body_def utf8_bytes_def rd_bytes_def)
    then have ft: "fix_topic_of b p = Some (topic @ replicate (MAX_SIZE_OF_CLOUD_TOPIC - length topic) 0, length topic)"
      using topic(2) by (simp add: fix_topic_of_def p_def tl wr_bytes_0 drop_replicate Let_def)
    have pu: "unat (of_nat (length payload) :: size_t) = length payload"
      using pl by (simp add: unat_of_nat)
    have "b = (h # rem_len_bytes (length body) @ utf8_bytes topic @ ?id) @ payload @ rest"
      by (simp add: B body_def)
    then have "rd_bytes b (pos + length body - length payload) (length payload) = Some payload"
      using rd_bytes_append [of "h # rem_len_bytes (length body) @ utf8_bytes topic @ ?id" "pos + length body - length payload" payload]
      by (simp add: pos_def body_def)
    with des ft pu show ?thesis
      by (intro exI [of _ p] exI [of _ "\<lparr>msg_qos = pub_qos p, msg_retained = pub_retained p, msg_dup = pub_dup p,
        msg_id = pub_id p, msg_topic = topic @ replicate (MAX_SIZE_OF_CLOUD_TOPIC - length topic) 0,
        msg_topic_len = length topic, msg_payload = pub_payload p, msg_payload_len = pub_payload_len p\<rparr>"])
        (simp add: received_message_def message_of_def, simp add: p_def)
  qed
qed


section \<open>Properties\<close>

lemma client_inv_received:
  assumes "client_inv s" and "length b = 2048" and "length buf = MQTT_MAX_REPEAT_BUF_LEN" and "cnt < MQTT_MAX_REPEAT_BUF_LEN"
  shows "client_inv (s\<lparr>trace := tr, repeat_packet_id_buf := buf, current_packet_id_cnt := cnt, write_buf := b, world := w\<rparr>)"
  using assms by (simp add: client_inv_def unlocked_def arrays_ok_def lists_ok_def heap_ok_def)

text \<open>
  C6: A PUBLISH packet of QoS 1 or 2 in the read buffer is delivered to the application exactly if its packet
  id is not among the last ones received, with the topic and payload of the packet; in both cases the id is remembered and, on success, the PUBACK (QoS 1)
  or PUBREC (QoS 2) with that id has been sent. The invariant is kept.
\<close>

theorem publish_delivered_once:
  assumes "env_ok env" and "client_inv s"
    and "header_type h = MessageTypes_val PUBLISH" and "header_qos h = qos" and "qos \<noteq> QOS0"
    and "0 < length topic" and "length topic < MAX_SIZE_OF_CLOUD_TOPIC"
    and "read_buf s = publish_packet h qos i topic payload @ rest"
  shows "\<exists>msg rc t s' a. handle_publish_packet env timer s = Some (rc, t, s') \<and> client_inv s' \<and>
    message_of (read_buf s) qos i topic payload msg \<and>
    trace s' = trace s @ (if i \<in> set (repeat_packet_id_buf s) then [] else delivered_to msg s) \<and>
    i \<in> set (repeat_packet_id_buf s') \<and>
    mqtt_init_packet_header (if qos = QOS1 then PUBACK else PUBREC) 0 0 0 = Inr a \<and>
    (rc < 0 \<or> rc = QCLOUD_RET_SUCCESS \<and>
      (\<exists>ms w0. net_write env (mqtt_packet a (u16_bytes i)) ms w0 = (QCLOUD_RET_SUCCESS, 4, world s')))"
proof -
  have rb: "length (read_buf s) = 2048" "length (write_buf s) = 2048" "arrays_ok s"
    using assms(2) by (simp_all add: client_inv_def arrays_ok_def)
  note got = publish_packet_received [OF assms(3,4,6,7,8) rb(1)]
  from got(3) obtain p msg where p: "deserialize_publish_packet (read_buf s) 2048 = Some (Inr p)" "pub_qos p = qos"
      "pub_id p = (if qos > 0 then Some i else None)" "received_message (read_buf s) p = Some msg"
      "message_of (read_buf s) qos i topic payload msg"
    by blast
  from assms(1,2) got(1,2) show ?thesis
  proof (cases rule: handle_publish_cases [where timer = timer])
    case (rejected rc)
    then show ?thesis
      using p(1) by simp
  next
    case (at_most_once p' msg')
    then show ?thesis
      using p(1,2) assms(5) by simp
  next
    case (acknowledged p' msg' i' a rc t buf cnt w)
    have eq: "p' = p" "msg' = msg" "i' = i"
      using acknowledged(1-4) p assms(5) by (auto split: if_splits)
    define s' where "s' = s\<lparr>trace := trace s @ (if i \<in> set (repeat_packet_id_buf s) then [] else delivered_to msg s),
      repeat_packet_id_buf := buf, current_packet_id_cnt := cnt,
      write_buf := put (write_buf s) (mqtt_packet a (u16_bytes i)), world := w\<rparr>"
    note buf = add_packet_id_correct(2-4) [OF rb(3) acknowledged(5)]
    have "length (mqtt_packet a (u16_bytes i)) = 4"
      by (simp add: mqtt_packet_def rem_len_bytes_small)
    then have "client_inv s'"
      unfolding s'_def using buf rb(2) by (intro client_inv_received [OF assms(2)]) simp_all
    with acknowledged(6-8) p(2,5) buf(3) show ?thesis
      unfolding eq by (intro exI [of _ msg] exI [of _ rc] exI [of _ t] exI [of _ s'] exI [of _ a]) (simp add: s'_def)
  qed
qed

text \<open>A QoS 1 message with payload \<^verbatim>\<open>01 02\<close> on the topic \<^verbatim>\<open>a\<close>, and the client that has received it.\<close>

definition received_example :: "(byte list \<times> byte list) sys" where
  "received_example = (client_example [])\<lparr>read_buf := publish_packet 0x32 QOS1 9 [0x61] [1, 2] @ replicate 2039 0\<rparr>"

lemma received_example_inv: "client_inv received_example"
  using client_example_inv [of "[]"]
  by (simp add: received_example_def client_inv_def unlocked_def arrays_ok_def lists_ok_def heap_ok_def
      publish_packet_def Let_def rem_len_bytes_small)

theorem publish_delivered_once_witness:
  "\<exists>msg rc t s' a. handle_publish_packet stream_env timer_example received_example = Some (rc, t, s') \<and> client_inv s' \<and>
    message_of (read_buf received_example) QOS1 9 [0x61] [1, 2] msg \<and>
    trace s' = trace received_example @
      (if 9 \<in> set (repeat_packet_id_buf received_example) then [] else delivered_to msg received_example) \<and>
    9 \<in> set (repeat_packet_id_buf s') \<and>
    mqtt_init_packet_header (if QOS1 = QOS1 then PUBACK else PUBREC) 0 0 0 = Inr a \<and>
    (rc < 0 \<or> rc = QCLOUD_RET_SUCCESS \<and>
      (\<exists>ms w0. net_write stream_env (mqtt_packet a (u16_bytes 9)) ms w0 = (QCLOUD_RET_SUCCESS, 4, world s')))"
  by (rule publish_delivered_once [where h = "0x32" and rest = "replicate 2039 0"])
    (simp_all add: stream_env_contracts received_example_inv MAX_SIZE_OF_CLOUD_TOPIC_def header_type_def header_qos_def,
     simp add: received_example_def)

text \<open>
  C27: The memory for duplicates reaches back ten packets: an id that was new when it was recorded is still recognised
  after up to nine other ids have been recorded, whatever they are and wherever the buffer's index stood.
\<close>

theorem repeat_window:
  assumes "arrays_ok s" and "get_packet_id_in_repeat_buf s x = Some (- 1)" and "length xs \<le> 9"
  shows "\<exists>s'. fold_opt add_packet_id_to_repeat_buf (x # xs) s = Some s' \<and>
    get_packet_id_in_repeat_buf s' x = Some (uint x)"
proof -
  have len: "length (repeat_packet_id_buf s) = 10" "current_packet_id_cnt s < 10"
    using assms(1) by (simp_all add: arrays_ok_def MQTT_MAX_REPEAT_BUF_LEN_def)
  have new: "x \<notin> set (repeat_packet_id_buf s)"
  proof
    assume "x \<in> set (repeat_packet_id_buf s)"
    then have "uint x = - 1"
      using assms(2) len(1) by (simp add: get_packet_id_in_repeat_buf_def MQTT_MAX_REPEAT_BUF_LEN_def)
    then show False
      using uint_ge_0 [of x] by linarith
  qed
  define c where "c = current_packet_id_cnt s"
  define s1 where "s1 = s\<lparr>repeat_packet_id_buf := (repeat_packet_id_buf s)[c := x], current_packet_id_cnt := (c + 1) mod 10\<rparr>"
  have r: "remember x (repeat_packet_id_buf s, current_packet_id_cnt s) =
      ((repeat_packet_id_buf s)[c := x], (c + 1) mod 10)"
    using new by (simp add: remember_def c_def MQTT_MAX_REPEAT_BUF_LEN_def)
  have add: "add_packet_id_to_repeat_buf x s = Some s1"
    unfolding s1_def by (rule add_packet_id_correct(1) [OF assms(1) r])
  have "arrays_ok s1"
    using assms(1) by (simp add: s1_def arrays_ok_def MQTT_MAX_REPEAT_BUF_LEN_def)
  then obtain s' where s': "fold_opt add_packet_id_to_repeat_buf xs s1 = Some s'" "arrays_ok s'" "x \<in> set (repeat_packet_id_buf s')"
    using fold_add_packet_id [of s1 c x 0 xs] assms(3) len by (auto simp: s1_def c_def)
  then have "get_packet_id_in_repeat_buf s' x = Some (uint x)"
    by (simp add: get_packet_id_in_repeat_buf_def arrays_ok_def)
  with add s'(1) show ?thesis
    by simp
qed

theorem repeat_window_witness:
  "\<exists>s'. fold_opt add_packet_id_to_repeat_buf (7 # [8, 9, 7, 10]) (client_example []) = Some s' \<and>
    get_packet_id_in_repeat_buf s' 7 = Some (uint (7 :: u16))"
  by (rule repeat_window)
    (simp_all add: arrays_ok_def client_example_def get_packet_id_in_repeat_buf_def MQTT_MAX_REPEAT_BUF_LEN_def
      MAX_MESSAGE_HANDLERS_def)

end
