(* ===== verification/Mqtt_Acks.thy ===== *)
theory Mqtt_Acks
  imports Mqtt_Receive
begin

text \<open>
  What the client does with acknowledgements: a SUBACK turns a waiting request into an active subscription, an
  UNSUBACK releases the filter of its request, a PUBACK ends the wait of a message. The last section shows that
  handling one packet of any type keeps the client's invariant.
\<close>

section \<open>Marking the requests of a packet id\<close>

definition mask_sub_node :: "u16 \<Rightarrow> nat \<times> QcloudIotSubInfo \<Rightarrow> nat \<times> QcloudIotSubInfo" where
  "mask_sub_node packet_id x =
     (if sub_msg_id (snd x) = packet_id then (fst x, (snd x)\<lparr>sub_node_state := MQTT_NODE_STATE_INVALID\<rparr>) else x)"

lemma mask_sub_nodes_eq:
  "mask_sub_nodes packet_id ns h = (map (mask_sub_node packet_id) ns,
     case find (\<lambda>x. sub_msg_id (snd x) = packet_id) ns of None \<Rightarrow> h | Some x \<Rightarrow> sub_handler (snd x))"
  by (induction packet_id ns h rule: mask_sub_nodes.induct) (auto simp: mask_sub_node_def)

lemma fst_mask_sub_node [simp]: "fst (mask_sub_node packet_id x) = fst x"
  by (simp add: mask_sub_node_def)

lemma pending_filters_mask:
  "pending_filters (map (mask_sub_node packet_id) ns) = pending_filters (filter (\<lambda>x. sub_msg_id (snd x) \<noteq> packet_id) ns)"
  by (induction ns) (auto simp: mask_sub_node_def)

text \<open>No request with the id has been acknowledged before.\<close>

definition not_acknowledged :: "u16 \<Rightarrow> (nat \<times> QcloudIotSubInfo) list \<Rightarrow> bool" where
  "not_acknowledged packet_id ns \<longleftrightarrow>
     (\<forall>x \<in> set ns. sub_msg_id (snd x) = packet_id \<longrightarrow> sub_node_state (snd x) = MQTT_NODE_STATE_NORMANL)"

text \<open>The filters of the requests that still wait, as a concatenation.\<close>

definition filter_of :: "nat \<times> QcloudIotSubInfo \<Rightarrow> nat list" where
  "filter_of x = (if sub_node_state (snd x) = MQTT_NODE_STATE_NORMANL
     then (case topic_filter (sub_handler (snd x)) of None \<Rightarrow> [] | Some a \<Rightarrow> [a]) else [])"

lemma pending_filters_concat: "pending_filters ns = concat (map filter_of ns)"
  by (induction ns) (simp_all add: filter_of_def)

lemma concat_filter_distinct:
  assumes "distinct (concat (map g xs))"
  shows "distinct (concat (map g (filter P xs))) \<and> set (concat (map g (filter P xs))) \<subseteq> set (concat (map g xs)) \<and>
    (\<forall>x \<in> set xs. \<not> P x \<longrightarrow> set (g x) \<inter> set (concat (map g (filter P xs))) = {})"
  using assms by (induction xs) auto

text \<open>
  The filter of the request that is acknowledged is allocated and, once the request is marked, referred to by
  nothing else.
\<close>

lemma acknowledged_filter:
  assumes "heap_ok s" and "not_acknowledged packet_id (list_sub_wait_ack s)"
    and "find (\<lambda>x. sub_msg_id (snd x) = packet_id) (list_sub_wait_ack s) = Some x"
    and "topic_filter (sub_handler (snd x)) = Some f"
  defines "ns \<equiv> map (mask_sub_node packet_id) (list_sub_wait_ack s)"
  shows "distinct (f # handle_filters (sub_handles s) @ pending_filters ns)"
    and "set (f # handle_filters (sub_handles s) @ pending_filters ns) \<subseteq> dom (strings s)"
proof -
  have x: "x \<in> set (list_sub_wait_ack s)" "sub_msg_id (snd x) = packet_id"
    using assms(3) by (auto simp: find_Some_iff)
  with assms(2) have normal: "sub_node_state (snd x) = MQTT_NODE_STATE_NORMANL"
    by (simp add: not_acknowledged_def)
  let ?P = "\<lambda>x. sub_msg_id (snd x) \<noteq> packet_id"
  have g: "filter_of x = [f]"
    using normal assms(4) by (simp add: filter_of_def)
  then have f: "f \<in> set (pending_filters (list_sub_wait_ack s))"
    using x(1) by (auto simp: pending_filters_concat intro!: bexI [of _ x])
  have d: "distinct (concat (map filter_of (list_sub_wait_ack s)))"
    using assms(1) by (simp add: heap_ok_def pending_filters_concat)
  have ns: "pending_filters ns = concat (map filter_of (filter ?P (list_sub_wait_ack s)))"
    unfolding ns_def pending_filters_mask by (rule pending_filters_concat)
  note flt = concat_filter_distinct [OF d, of ?P, folded ns, folded pending_filters_concat]
  have "set (filter_of x) \<inter> set (pending_filters ns) = {}"
    using flt x by blast
  then have "f \<notin> set (pending_filters ns)"
    by (simp add: g)
  then show "distinct (f # handle_filters (sub_handles s) @ pending_filters ns)"
      "set (f # handle_filters (sub_handles s) @ pending_filters ns) \<subseteq> dom (strings s)"
    using assms(1) f flt unfolding heap_ok_def by auto
qed


section \<open>Installing a subscription\<close>

text \<open>
  The scan succeeds when every filter of the table and the new one are allocated; a duplicate it
  finds is in the table, a free slot is free.
\<close>

lemma suback_scan_ok:
  assumes "\<forall>x \<in> set hs. topic_filter x \<noteq> None \<longrightarrow> str_at s (topic_filter x) \<noteq> None" and "str_at s (topic_filter h) \<noteq> None"
    and "sub_handles s = pre @ hs" and "i = length pre"
    and "\<forall>k. i_free = Some k \<longrightarrow> k < length (sub_handles s) \<and> topic_filter (sub_handles s ! k) = None"
  shows "\<exists>dup fr. suback_scan s h hs i i_free = Some (dup, fr) \<and>
    (\<forall>k. dup = Some k \<longrightarrow> k < length (sub_handles s) \<and> handle_is_identical s (sub_handles s ! k) h = Some True) \<and>
    (\<forall>k. fr = Some k \<longrightarrow> k < length (sub_handles s) \<and> topic_filter (sub_handles s ! k) = None) \<and>
    (dup = None \<longrightarrow> fr = None \<longrightarrow> i_free = None \<and> (\<forall>x \<in> set hs. topic_filter x \<noteq> None))"
  using assms
proof (induction hs arbitrary: i i_free pre)
  case Nil
  then show ?case by simp
next
  case (Cons x xs)
  have pre: "sub_handles s = (pre @ [x]) @ xs" "Suc i = length (pre @ [x])" "sub_handles s ! i = x" "i < length (sub_handles s)"
    using Cons.prems(3,4) by (simp_all add: nth_append)
  have rest: "\<forall>x \<in> set xs. topic_filter x \<noteq> None \<longrightarrow> str_at s (topic_filter x) \<noteq> None"
    using Cons.prems(1) by simp
  note IH = Cons.IH [OF rest Cons.prems(2) pre(1,2)]
  show ?case
  proof (cases "topic_filter x = None")
    case True
    have "\<forall>k. (if i_free = None then Some i else i_free) = Some k \<longrightarrow>
        k < length (sub_handles s) \<and> topic_filter (sub_handles s ! k) = None"
      using True pre(3,4) Cons.prems(5) by simp
    from IH [OF this] obtain dup fr where "suback_scan s h xs (Suc i) (if i_free = None then Some i else i_free) = Some (dup, fr)"
        "\<forall>k. dup = Some k \<longrightarrow> k < length (sub_handles s) \<and> handle_is_identical s (sub_handles s ! k) h = Some True"
        "\<forall>k. fr = Some k \<longrightarrow> k < length (sub_handles s) \<and> topic_filter (sub_handles s ! k) = None"
        "dup = None \<longrightarrow> fr \<noteq> None"
      by (auto split: if_split_asm)
    then show ?thesis
      using True by (intro exI [of _ dup] exI [of _ fr]) simp
  next
    case False
    then obtain same where same: "handle_is_identical s x h = Some same"
      using Cons.prems(1,2) by (auto simp: handle_is_identical_def)
    show ?thesis
    proof (cases same)
      case True
      with False same pre(3,4) Cons.prems(5) show ?thesis by simp
    next
      case f: False
      from IH [OF Cons.prems(5)] False same f show ?thesis by simp
    qed
  qed
qed


lemma install_handle_cases:
  assumes "length (sub_handles s) = MAX_MESSAGE_HANDLERS" and "topic_filter h = Some f"
    and "set (f # handle_filters (sub_handles s)) \<subseteq> dom (strings s)"
  obtains (identical) i where "install_handle h s = Some (QCLOUD_RET_SUCCESS,
        s\<lparr>sub_handles := (sub_handles s)[i := (sub_handles s ! i)\<lparr>handler_user_data := handler_user_data h\<rparr>],
          strings := (strings s)(f := None)\<rparr>)"
      and "i < length (sub_handles s)" and "handle_is_identical s (sub_handles s ! i) h = Some True"
  | (full) "install_handle h s = Some (QCLOUD_ERR_FAILURE, s)" and "\<forall>x \<in> set (sub_handles s). topic_filter x \<noteq> None"
  | (slot) i where "install_handle h s = Some (QCLOUD_RET_SUCCESS, s\<lparr>sub_handles := (sub_handles s)[i := h]\<rparr>)"
      and "i < length (sub_handles s)" and "topic_filter (sub_handles s ! i) = None"
proof -
  have alloc: "\<forall>x \<in> set (sub_handles s). topic_filter x \<noteq> None \<longrightarrow> str_at s (topic_filter x) \<noteq> None"
    using assms(3) by (auto simp: set_handle_filters str_at_def)
  obtain t where f: "str_at s (topic_filter h) \<noteq> None" "strings s f = Some t"
    using assms(2,3) by (auto simp: str_at_def)
  have hs: "take MAX_MESSAGE_HANDLERS (sub_handles s) = sub_handles s"
    using assms(1) by simp
  obtain dup fr where scan: "suback_scan s h (sub_handles s) 0 None = Some (dup, fr)"
      "\<forall>k. dup = Some k \<longrightarrow> k < length (sub_handles s) \<and> handle_is_identical s (sub_handles s ! k) h = Some True"
      "\<forall>k. fr = Some k \<longrightarrow> k < length (sub_handles s) \<and> topic_filter (sub_handles s ! k) = None"
      "dup = None \<longrightarrow> fr = None \<longrightarrow> (\<forall>x \<in> set (sub_handles s). topic_filter x \<noteq> None)"
    using suback_scan_ok [OF alloc f(1), of "[]" 0 None] by auto
  consider (1) i where "dup = Some i" | (2) "dup = None" "fr = None" | (3) i where "dup = None" "fr = Some i"
    by (cases dup; cases fr) auto
  then show thesis
  proof cases
    case (1 i)
    then show thesis
      using scan f(2) assms(2) hs by (intro identical [of i]) (simp_all add: install_handle_def HAL_Free_def Let_def)
  next
    case 2
    then show thesis
      using scan(1,4) hs by (intro full) (simp_all add: install_handle_def)
  next
    case (3 i)
    then show thesis
      using scan hs by (intro slot [of i]) (simp_all add: install_handle_def)
  qed
qed

lemma handle_filters_update:
  "i < length hs \<Longrightarrow> handle_filters (hs[i := x]) =
     handle_filters (take i hs) @ handle_filters [x] @ handle_filters (drop (Suc i) hs)"
  by (simp add: upd_conv_take_nth_drop)

lemma handle_filters_split:
  "i < length hs \<Longrightarrow> handle_filters hs = handle_filters (take i hs) @ handle_filters [hs ! i] @ handle_filters (drop (Suc i) hs)"
  using handle_filters_update [of i hs "hs ! i"] by simp

text \<open>
  Either way the heap stays in order; \<open>s\<close> is the state in which the request has been marked, so that
  its filter \<open>f\<close> belongs to nobody.
\<close>

lemma heap_ok_install:
  assumes "distinct (f # handle_filters (sub_handles s) @ pending_filters (list_sub_wait_ack s))"
    and "set (f # handle_filters (sub_handles s) @ pending_filters (list_sub_wait_ack s)) \<subseteq> dom (strings s)"
    and "\<forall>a \<in> dom (strings s). a < next_addr s" and "i < length (sub_handles s)"
  shows "heap_ok s" and "heap_ok (s\<lparr>strings := (strings s)(f := None)\<rparr>)"
    and "topic_filter x = topic_filter (sub_handles s ! i) \<Longrightarrow>
      heap_ok (s\<lparr>sub_handles := (sub_handles s)[i := x], strings := (strings s)(f := None)\<rparr>)"
    and "topic_filter x = Some f \<Longrightarrow> topic_filter (sub_handles s ! i) = None \<Longrightarrow> heap_ok (s\<lparr>sub_handles := (sub_handles s)[i := x]\<rparr>)"
proof -
  show "heap_ok s" "heap_ok (s\<lparr>strings := (strings s)(f := None)\<rparr>)"
    using assms(1-3) by (auto simp: heap_ok_def)
  show "heap_ok (s\<lparr>sub_handles := (sub_handles s)[i := x], strings := (strings s)(f := None)\<rparr>)"
    if "topic_filter x = topic_filter (sub_handles s ! i)"
  proof -
    have "handle_filters ((sub_handles s)[i := x]) = handle_filters (sub_handles s)"
      using handle_filters_split [OF assms(4)] handle_filters_update [OF assms(4), of x] that by simp
    then show ?thesis
      using assms(1-3) by (auto simp: heap_ok_def)
  qed
  show "heap_ok (s\<lparr>sub_handles := (sub_handles s)[i := x]\<rparr>)"
    if "topic_filter x = Some f" "topic_filter (sub_handles s ! i) = None"
    using assms(1-3) handle_filters_split [OF assms(4)] handle_filters_update [OF assms(4), of x] that
    by (auto simp: heap_ok_def)
qed


section \<open>SUBACK packets\<close>

lemma client_inv_mask:
  assumes "client_inv s" and "next_addr s \<le> a"
  shows "client_inv (s\<lparr>trace := tr, list_sub_wait_ack := map (mask_sub_node packet_id) (list_sub_wait_ack s), next_addr := a, world := w\<rparr>)"
    (is "client_inv ?s")
proof -
  have inv: "unlocked s" "arrays_ok s" "lists_ok s" "heap_ok s"
    using assms(1) by (simp_all add: client_inv_def)
  let ?ns = "map (mask_sub_node packet_id) (list_sub_wait_ack s)"
  have ns: "pending_filters ?ns = concat (map filter_of (filter (\<lambda>x. sub_msg_id (snd x) \<noteq> packet_id) (list_sub_wait_ack s)))"
    unfolding pending_filters_mask by (rule pending_filters_concat)
  have "distinct (concat (map filter_of (list_sub_wait_ack s)))"
    using inv(4) by (simp add: heap_ok_def pending_filters_concat)
  then have "distinct (pending_filters ?ns)" "set (pending_filters ?ns) \<subseteq> set (pending_filters (list_sub_wait_ack s))"
    using concat_filter_distinct [of filter_of "list_sub_wait_ack s" "\<lambda>x. sub_msg_id (snd x) \<noteq> packet_id"]
    unfolding ns pending_filters_concat [of "list_sub_wait_ack s"] by blast+
  moreover have "\<forall>y \<in> dom (strings s). y < a"
    using inv(4) assms(2) unfolding heap_ok_def by (meson less_le_trans)
  ultimately have "heap_ok ?s"
    using inv(4) by (auto simp: heap_ok_def)
  moreover have "\<forall>y \<in> fst ` set (list_pub_wait_ack s) \<union> fst ` set (list_sub_wait_ack s). y < a"
    using inv(3) assms(2) unfolding lists_ok_def by (meson less_le_trans)
  then have "lists_ok ?s"
    using inv(3) by (simp add: lists_ok_def image_image comp_def)
  ultimately show ?thesis
    using inv(1,2) by (simp add: client_inv_def unlocked_def arrays_ok_def)
qed


text \<open>The requests are left alone when there are none or no iterator could be allocated.\<close>

lemma mask_sub_info_from_cases:
  assumes "\<not> lock_list_sub s"
  obtains (skipped) a w where "mask_sub_info_from env packet_id h s = Some (h, s\<lparr>next_addr := a, world := w\<rparr>)"
      and "next_addr s \<le> a" and "\<not> fst (hal_malloc env (world s))"
  | (marked) a w where "mask_sub_info_from env packet_id h s =
        Some (case find (\<lambda>x. sub_msg_id (snd x) = packet_id) (list_sub_wait_ack s) of None \<Rightarrow> h | Some x \<Rightarrow> sub_handler (snd x),
          s\<lparr>list_sub_wait_ack := map (mask_sub_node packet_id) (list_sub_wait_ack s), next_addr := a, world := w\<rparr>)"
      and "next_addr s \<le> a"
proof -
  from mask_sub_info_from_correct [OF assms, of env packet_id h]
  obtain w a r where r: "mask_sub_info_from env packet_id h s =
        Some (snd r, s\<lparr>list_sub_wait_ack := fst r, next_addr := a, world := w\<rparr>)" "next_addr s \<le> a"
      "r = (list_sub_wait_ack s, h) \<and> \<not> fst (hal_malloc env (world s)) \<or> r = mask_sub_nodes packet_id (list_sub_wait_ack s) h"
    by blast
  from r(3) show thesis
  proof
    assume "r = (list_sub_wait_ack s, h) \<and> \<not> fst (hal_malloc env (world s))"
    with r(1) skipped [OF _ r(2), of w] show thesis by simp
  next
    assume "r = mask_sub_nodes packet_id (list_sub_wait_ack s) h"
    with r(1) marked [OF _ r(2), of w] show thesis by (simp add: mask_sub_nodes_eq)
  qed
qed

text \<open>
  A subscription is active when a slot of the table has the filter's text, the message handler and the user data
  of the request. What a SUBACK leads to is a relation between the state before and after: \<open>g\<close> is the
  first return code of the packet. An error has one of five reasons: the server's refusal, no request with the
  packet's id, a request without a filter, no memory for the iterator, or a full table.
\<close>

definition suback_active :: "SubTopicHandle \<Rightarrow> 'w sys \<Rightarrow> 'w sys \<Rightarrow> bool" where
  "suback_active h s s' \<longleftrightarrow> (\<exists>h' \<in> set (sub_handles s'). str_at s' (topic_filter h') = str_at s (topic_filter h) \<and>
     message_handler h' = message_handler h \<and> handler_user_data h' = handler_user_data h)"

definition acknowledged_handle :: "u16 \<Rightarrow> 'w sys \<Rightarrow> SubTopicHandle" where
  "acknowledged_handle packet_id s =
     (case find (\<lambda>x. sub_msg_id (snd x) = packet_id) (list_sub_wait_ack s) of
        None \<Rightarrow> null_handle | Some x \<Rightarrow> sub_handler (snd x))"

definition suback_effect :: "'w env \<Rightarrow> u16 \<Rightarrow> QoS \<Rightarrow> 'w sys \<Rightarrow> int \<Rightarrow> 'w sys \<Rightarrow> bool" where
  "suback_effect env packet_id g s rc s' \<longleftrightarrow> client_inv s' \<and> list_pub_wait_ack s' = list_pub_wait_ack s \<and>
     (if rc = QCLOUD_RET_SUCCESS then
        g \<noteq> 0x80 \<and> suback_active (acknowledged_handle packet_id s) s s' \<and>
        list_sub_wait_ack s' = map (mask_sub_node packet_id) (list_sub_wait_ack s)
      else g = 0x80 \<or> topic_filter (acknowledged_handle packet_id s) = None \<or> \<not> fst (hal_malloc env (world s)) \<or>
        (\<forall>x \<in> set (sub_handles s). topic_filter x \<noteq> None))"

lemma suback_install:
  assumes inv: "client_inv s1" and "distinct (f # handle_filters (sub_handles s1) @ pending_filters (list_sub_wait_ack s1))"
    and "set (f # handle_filters (sub_handles s1) @ pending_filters (list_sub_wait_ack s1)) \<subseteq> dom (strings s1)"
    and "topic_filter h = Some f" and "strings s1 = strings s" 
  shows "\<exists>rc s2. install_handle h (s1\<lparr>lock_generic := True\<rparr>) = Some (rc, s2\<lparr>lock_generic := True\<rparr>) \<and> client_inv s2 \<and>
    list_pub_wait_ack s2 = list_pub_wait_ack s1 \<and> list_sub_wait_ack s2 = list_sub_wait_ack s1 \<and>
    trace s2 = trace s1 \<and> event_handle s2 = event_handle s1 \<and>
    (if rc = QCLOUD_RET_SUCCESS then suback_active h s s2 else \<forall>x \<in> set (sub_handles s1). topic_filter x \<noteq> None)"
proof -
  let ?s = "s1\<lparr>lock_generic := True\<rparr>"
  have parts: "unlocked s1" "arrays_ok s1" "lists_ok s1" "\<forall>a \<in> dom (strings s1). a < next_addr s1"
    using inv by (simp_all add: client_inv_def heap_ok_def)
  have len: "length (sub_handles ?s) = MAX_MESSAGE_HANDLERS" "set (f # handle_filters (sub_handles ?s)) \<subseteq> dom (strings ?s)"
    using parts(2) assms(3) by (auto simp: arrays_ok_def)
  have keep: "client_inv (s1\<lparr>sub_handles := hs, strings := st\<rparr>)"
    if "heap_ok (s1\<lparr>sub_handles := hs, strings := st\<rparr>)" "length hs = MAX_MESSAGE_HANDLERS" for hs st
    using parts that by (simp add: client_inv_def unlocked_def arrays_ok_def lists_ok_def)
  note heap = heap_ok_install [OF assms(2,3) parts(4)]
  from len(1) assms(4) len(2) show ?thesis
  proof (cases rule: install_handle_cases)
    case (identical i)
    define s2 where "s2 = s1\<lparr>sub_handles := (sub_handles s1)[i := (sub_handles s1 ! i)\<lparr>handler_user_data := handler_user_data h\<rparr>],
      strings := (strings s1)(f := None)\<rparr>"
    have "client_inv s2"
      unfolding s2_def using identical(2) len(1) by (intro keep heap(3)) simp_all
    moreover have "suback_active h s s2"
    proof -
      let ?h = "sub_handles s1 ! i"
      have h: "?h \<in> set (sub_handles s1)"
        using identical(2) by simp
      have same: "str_at s1 (topic_filter ?h) = str_at s1 (Some f)" "str_at s1 (topic_filter ?h) \<noteq> None"
          "message_handler ?h = message_handler h"
        using identical(3) assms(4) by (auto simp: handle_is_identical_def str_at_def bind_Some_iff)
      have "topic_filter ?h \<noteq> Some f"
        using assms(2) h by (auto simp: set_handle_filters)
      then have "str_at s2 (topic_filter ?h) = str_at s (topic_filter h)"
        using same(1,2) assms(4,5) by (cases "topic_filter ?h") (simp_all add: s2_def str_at_def)
      then show ?thesis
        unfolding suback_active_def using identical(2) same(3)
        by (intro bexI [of _ "?h\<lparr>handler_user_data := handler_user_data h\<rparr>"]) (simp_all add: s2_def set_update_memI)
    qed
    ultimately show ?thesis
      using identical(1) by (intro exI [of _ QCLOUD_RET_SUCCESS] exI [of _ s2]) (simp add: s2_def)
  next
    case full
    then show ?thesis
      using inv by (intro exI [of _ QCLOUD_ERR_FAILURE] exI [of _ s1]) simp
  next
    case (slot i)
    define s2 where "s2 = s1\<lparr>sub_handles := (sub_handles s1)[i := h]\<rparr>"
    have "client_inv (s1\<lparr>sub_handles := (sub_handles s1)[i := h], strings := strings s1\<rparr>)"
      using slot(2,3) len(1) assms(4) heap(4) [of i h] by (intro keep) simp_all
    moreover have "suback_active h s s2"
      unfolding suback_active_def using slot(2) assms(5)
      by (intro bexI [of _ h]) (simp_all add: s2_def str_at_def set_update_memI)
    ultimately show ?thesis
      using slot(1) by (intro exI [of _ QCLOUD_RET_SUCCESS] exI [of _ s2]) (simp add: s2_def)
  qed
qed


lemma client_inv_trace [simp]: "client_inv (s\<lparr>trace := tr\<rparr>) = client_inv s"
  by (simp add: client_inv_def unlocked_def arrays_ok_def lists_ok_def heap_ok_def)

lemma client_inv_idle:
  assumes "client_inv s" and "next_addr s \<le> a"
  shows "client_inv (s\<lparr>trace := tr, next_addr := a, world := w\<rparr>)"
proof -
  have "client_inv ((s\<lparr>trace := tr\<rparr>)\<lparr>write_buf := write_buf s, next_packet_id := next_packet_id s, next_addr := a, world := w\<rparr>)"
    using assms by (intro client_inv_grow) (simp_all, simp_all add: client_inv_def arrays_ok_def)
  then show ?thesis by simp
qed

lemma notify_eq: "notify c s = s\<lparr>trace := trace s @ (if event_handle s then [c] else [])\<rparr>"
  by (simp add: notify_def upcall_def)

lemma finish_suback_pending:
  assumes inv: "client_inv s1" and d: "distinct (f # handle_filters (sub_handles s1) @ pending_filters (list_sub_wait_ack s1))"
    and a: "set (f # handle_filters (sub_handles s1) @ pending_filters (list_sub_wait_ack s1)) \<subseteq> dom (strings s1)"
    and f: "topic_filter h = Some f" and st: "strings s1 = strings s"
  shows "\<exists>rc s'. finish_suback packet_id sub_nack h (s1\<lparr>lock_generic := True\<rparr>) = Some (rc, s') \<and> client_inv s' \<and>
    list_pub_wait_ack s' = list_pub_wait_ack s1 \<and> list_sub_wait_ack s' = list_sub_wait_ack s1 \<and>
    (if rc = QCLOUD_RET_SUCCESS then \<not> sub_nack \<and> suback_active h s s'
     else sub_nack \<or> (\<forall>x \<in> set (sub_handles s1). topic_filter x \<noteq> None))"
proof (cases sub_nack)
  case True
  have parts: "unlocked s1" "arrays_ok s1" "lists_ok s1" "\<forall>a \<in> dom (strings s1). a < next_addr s1"
    using inv by (simp_all add: client_inv_def heap_ok_def)
  obtain t where t: "strings s1 f = Some t"
    using a by auto
  define s2 where "s2 = s1\<lparr>trace := trace s1 @ (case sub_event_handler h of None \<Rightarrow> []
      | Some f \<Rightarrow> [SubEvent f MQTT_EVENT_SUBCRIBE_NACK (handler_user_data h)]), strings := (strings s1)(f := None)\<rparr>"
  have "heap_ok (s1\<lparr>strings := (strings s1)(f := None)\<rparr>)"
    using parts(2) by (intro heap_ok_install(2) [OF d a parts(4), of 0]) (simp add: arrays_ok_def MAX_MESSAGE_HANDLERS_def)
  then have "heap_ok s2"
    by (rule heap_ok_frame) (simp_all add: s2_def)
  then have "client_inv s2"
    using parts by (simp add: s2_def client_inv_def unlocked_def arrays_ok_def lists_ok_def)
  then show ?thesis
    using True f t parts(1) by (simp add: finish_suback_def mutex_simps notify_sub_eq HAL_Free_def s2_def unlocked_def)
next
  case False
  from suback_install [OF inv d a f st] obtain rc s2 where
    r: "install_handle h (s1\<lparr>lock_generic := True\<rparr>) = Some (rc, s2\<lparr>lock_generic := True\<rparr>)" "client_inv s2"
      "list_pub_wait_ack s2 = list_pub_wait_ack s1" "list_sub_wait_ack s2 = list_sub_wait_ack s1"
      "if rc = QCLOUD_RET_SUCCESS then suback_active h s s2 else \<forall>x \<in> set (sub_handles s1). topic_filter x \<noteq> None"
    by blast
  have unl: "\<not> lock_generic s2"
    using r(2) by (simp add: client_inv_def unlocked_def)
  define tr where "tr = (if rc \<noteq> QCLOUD_RET_SUCCESS then trace s2
     else trace (notify_sub h MQTT_EVENT_SUBCRIBE_SUCCESS (notify (Event MQTT_EVENT_SUBCRIBE_SUCCESS (Some packet_id)) s2)))"
  have "finish_suback packet_id sub_nack h (s1\<lparr>lock_generic := True\<rparr>) = Some (rc, s2\<lparr>trace := tr\<rparr>)"
    using False f r(1) unl by (simp add: finish_suback_def mutex_simps notify_sub_eq notify_eq tr_def)
  moreover have "if rc = QCLOUD_RET_SUCCESS then suback_active h s (s2\<lparr>trace := tr\<rparr>)
      else \<forall>x \<in> set (sub_handles s1). topic_filter x \<noteq> None"
    using r(5) by (simp add: suback_active_def str_at_def split: if_split_asm)
  ultimately show ?thesis
    using False r(2-4) by (intro exI [of _ rc] exI [of _ "s2\<lparr>trace := tr\<rparr>"]) simp
qed

lemma handle_suback_correct:
  assumes "client_inv s" and des: "deserialize_suback_packet 1 [QOS0, QOS0, QOS0] (read_buf s) (read_buf_size s) = Some (Inr (packet_id, count, g # gs))"
    and nack: "g = 0x80 \<longrightarrow> event_handle s" and na: "not_acknowledged packet_id (list_sub_wait_ack s)"
  shows "\<exists>rc s'. handle_suback_packet env s = Some (rc, s') \<and> suback_effect env packet_id g s rc s'"
proof -
  define tr where "tr = trace s @ (if g = 0x80 then [Event MQTT_EVENT_SUBCRIBE_NACK (Some packet_id)] else [])"
  define s0 where "s0 = s\<lparr>trace := tr, lock_generic := True\<rparr>"
  have unl: "\<not> lock_generic s" "\<not> lock_list_sub s0"
    using assms(1) by (simp_all add: client_inv_def unlocked_def s0_def)
  have run: "handle_suback_packet env s = Option.bind (mask_sub_info_from env packet_id null_handle s0)
      (\<lambda>(h, s). finish_suback packet_id (g = 0x80) h s)"
    using des nack unl(1) by (simp add: handle_suback_packet_def rd_def mutex_simps tr_def s0_def upcall_def)
  from unl(2) show ?thesis
  proof (cases rule: mask_sub_info_from_cases [where env = env and packet_id = packet_id and h = null_handle])
    case (skipped a w)
    have "client_inv (s\<lparr>trace := tr, next_addr := a, world := w\<rparr>)"
      using assms(1) skipped(2) by (intro client_inv_idle) (simp_all add: s0_def)
    then show ?thesis
      using skipped unl(1) by (simp add: run finish_suback_def null_handle_def mutex_simps suback_effect_def s0_def)
  next
    case (marked a w)
    let ?ns = "map (mask_sub_node packet_id) (list_sub_wait_ack s)"
    define s1 where "s1 = s\<lparr>trace := tr, list_sub_wait_ack := ?ns, next_addr := a, world := w\<rparr>"
    have inv1: "client_inv s1"
      unfolding s1_def using assms(1) marked(2) by (intro client_inv_mask) (simp_all add: s0_def)
    define h where "h = acknowledged_handle packet_id s"
    have "mask_sub_info_from env packet_id null_handle s0 = Some (h, s1\<lparr>lock_generic := True\<rparr>)"
      unfolding marked(1) by (simp add: s1_def s0_def h_def acknowledged_handle_def)
    then have run1: "handle_suback_packet env s = finish_suback packet_id (g = 0x80) h (s1\<lparr>lock_generic := True\<rparr>)"
      unfolding run by simp
    show ?thesis
    proof (cases "topic_filter h")
      case None
      then have "handle_suback_packet env s = Some (QCLOUD_ERR_MQTT_SUB, s1)"
        using unl(1) by (simp add: run1 finish_suback_def mutex_simps s1_def)
      then show ?thesis
        using inv1 None by (simp add: suback_effect_def s1_def h_def)
    next
      case (Some f)
      then obtain x where x: "find (\<lambda>x. sub_msg_id (snd x) = packet_id) (list_sub_wait_ack s) = Some x" "h = sub_handler (snd x)"
        by (auto simp: h_def acknowledged_handle_def null_handle_def split: option.splits)
      have heap: "heap_ok s"
        using assms(1) by (simp add: client_inv_def)
      note own = acknowledged_filter [OF heap na x(1) Some [unfolded x(2)]]
      obtain rc s' where "finish_suback packet_id (g = 0x80) h (s1\<lparr>lock_generic := True\<rparr>) = Some (rc, s')" "client_inv s'"
          "list_pub_wait_ack s' = list_pub_wait_ack s1" "list_sub_wait_ack s' = list_sub_wait_ack s1"
          "if rc = QCLOUD_RET_SUCCESS then \<not> g = 0x80 \<and> suback_active h s s'
           else g = 0x80 \<or> (\<forall>x \<in> set (sub_handles s1). topic_filter x \<noteq> None)"
        using finish_suback_pending [OF inv1, of f h s packet_id "g = 0x80"] own Some by (simp add: s1_def) blast
      then show ?thesis
        unfolding run1 suback_effect_def h_def by (intro exI [of _ rc] exI [of _ s']) (auto simp: s1_def split: if_splits)
    qed
  qed
qed


section \<open>UNSUBACK, PUBACK and PUBREC packets\<close>

lemma client_inv_string_free:
  assumes "client_inv s" and "distinct (f # handle_filters (sub_handles s) @ pending_filters (list_sub_wait_ack s))"
    and "set (f # handle_filters (sub_handles s) @ pending_filters (list_sub_wait_ack s)) \<subseteq> dom (strings s)"
  shows "client_inv (s\<lparr>strings := (strings s)(f := None)\<rparr>)"
proof -
  have parts: "unlocked s" "arrays_ok s" "lists_ok s" "\<forall>a \<in> dom (strings s). a < next_addr s"
    using assms(1) by (simp_all add: client_inv_def heap_ok_def)
  then have "heap_ok (s\<lparr>strings := (strings s)(f := None)\<rparr>)"
    by (intro heap_ok_install(2) [OF assms(2,3) parts(4), of 0]) (simp add: arrays_ok_def MAX_MESSAGE_HANDLERS_def)
  with parts show ?thesis
    by (simp add: client_inv_def unlocked_def arrays_ok_def lists_ok_def)
qed

definition unsuback_effect :: "'w env \<Rightarrow> u16 \<Rightarrow> 'w sys \<Rightarrow> 'w sys \<Rightarrow> bool" where
  "unsuback_effect env packet_id s s' \<longleftrightarrow> client_inv s' \<and> sub_handles s' = sub_handles s \<and>
     list_pub_wait_ack s' = list_pub_wait_ack s \<and>
     trace s' = trace s @ (if event_handle s then [Event MQTT_EVENT_UNSUBCRIBE_SUCCESS (Some packet_id)] else []) \<and>
     (fst (hal_malloc env (world s)) \<longrightarrow>
        list_sub_wait_ack s' = map (mask_sub_node packet_id) (list_sub_wait_ack s) \<and>
        str_at s' (topic_filter (acknowledged_handle packet_id s)) = None)"

lemma handle_unsuback_correct:
  assumes "client_inv s" and des: "deserialize_unsuback_packet (read_buf s) (read_buf_size s) = Some (Inr packet_id)"
    and junk: "topic_filter (junk_handle j) = None" and na: "not_acknowledged packet_id (list_sub_wait_ack s)"
  shows "\<exists>s'. handle_unsuback_packet env j s = Some (QCLOUD_RET_SUCCESS, s') \<and> unsuback_effect env packet_id s s'"
proof -
  have unl: "\<not> lock_generic s" "\<not> lock_list_sub s" and heap: "heap_ok s"
    using assms(1) by (simp_all add: client_inv_def unlocked_def)
  define tr where "tr = trace s @ (if event_handle s then [Event MQTT_EVENT_UNSUBCRIBE_SUCCESS (Some packet_id)] else [])"
  from unl(2) show ?thesis
  proof (cases rule: mask_sub_info_from_cases [where env = env and packet_id = packet_id and h = "junk_handle j"])
    case (skipped a w)
    have "handle_unsuback_packet env j s = Some (QCLOUD_RET_SUCCESS, s\<lparr>trace := tr, next_addr := a, world := w\<rparr>)"
      using des junk unl(1) skipped(1)
      by (simp add: handle_unsuback_packet_def mutex_simps HAL_Free_def notify_eq tr_def)
    moreover have "client_inv (s\<lparr>trace := tr, next_addr := a, world := w\<rparr>)"
      using assms(1) skipped(2) by (rule client_inv_idle)
    ultimately show ?thesis
      using skipped(3) by (simp add: unsuback_effect_def tr_def)
  next
    case (marked a w)
    define s1 where "s1 = s\<lparr>trace := tr, list_sub_wait_ack := map (mask_sub_node packet_id) (list_sub_wait_ack s),
      next_addr := a, world := w\<rparr>"
    have inv1: "client_inv s1"
      unfolding s1_def using assms(1) marked(2) by (rule client_inv_mask)
    obtain h where h: "mask_sub_info_from env packet_id (junk_handle j) s = Some (h,
          s\<lparr>list_sub_wait_ack := map (mask_sub_node packet_id) (list_sub_wait_ack s), next_addr := a, world := w\<rparr>)"
        "topic_filter h = topic_filter (acknowledged_handle packet_id s)"
      using marked(1) junk by (cases "find (\<lambda>x. sub_msg_id (snd x) = packet_id) (list_sub_wait_ack s)")
        (simp_all add: acknowledged_handle_def null_handle_def)
    show ?thesis
    proof (cases "topic_filter (acknowledged_handle packet_id s)")
      case None
      then have "handle_unsuback_packet env j s = Some (QCLOUD_RET_SUCCESS, s1)"
        using des unl(1) h by (simp add: handle_unsuback_packet_def mutex_simps HAL_Free_def notify_eq tr_def s1_def)
      then show ?thesis
        using inv1 None by (simp add: unsuback_effect_def s1_def tr_def str_at_def)
    next
      case (Some f)
      then obtain x where x: "find (\<lambda>x. sub_msg_id (snd x) = packet_id) (list_sub_wait_ack s) = Some x"
          "topic_filter (sub_handler (snd x)) = Some f"
        by (auto simp: acknowledged_handle_def null_handle_def split: option.splits)
      note own = acknowledged_filter [OF heap na x]
      define s2 where "s2 = s1\<lparr>strings := (strings s1)(f := None)\<rparr>"
      have "client_inv s2"
        unfolding s2_def using inv1 own by (intro client_inv_string_free) (simp_all add: s1_def)
      moreover obtain t where "strings s f = Some t"
        using own(2) by auto
      then have "handle_unsuback_packet env j s = Some (QCLOUD_RET_SUCCESS, s2)"
        using des unl(1) h Some
        by (simp add: handle_unsuback_packet_def mutex_simps HAL_Free_def notify_eq tr_def s1_def s2_def)
      ultimately show ?thesis
        using Some by (simp add: unsuback_effect_def s1_def s2_def tr_def str_at_def)
    qed
  qed
qed

lemma client_inv_mask_pub:
  assumes "client_inv s" and "next_addr s \<le> a" and "ns = list_pub_wait_ack s \<or> ns = map (mask_pub_node packet_id) (list_pub_wait_ack s)"
  shows "client_inv (s\<lparr>trace := tr, list_pub_wait_ack := ns, next_addr := a, world := w\<rparr>)"
proof -
  have "map fst ns = map fst (list_pub_wait_ack s)"
    using assms(3) by (auto simp: comp_def case_prod_beta mask_pub_node_def)
  then have ns: "map fst ns = map fst (list_pub_wait_ack s)" "fst ` set ns = fst ` set (list_pub_wait_ack s)"
      "length ns = length (list_pub_wait_ack s)"
    by (simp, metis set_map, metis length_map)
  have inv: "client_inv (s\<lparr>trace := tr, next_addr := a, world := w\<rparr>)"
    using assms(1,2) by (rule client_inv_idle)
  then have "heap_ok (s\<lparr>trace := tr, list_pub_wait_ack := ns, next_addr := a, world := w\<rparr>)"
    unfolding client_inv_def by (auto simp: heap_ok_def)
  with inv ns show ?thesis
    by (simp add: client_inv_def unlocked_def arrays_ok_def lists_ok_def)
qed

definition puback_effect :: "'w env \<Rightarrow> u16 \<Rightarrow> 'w sys \<Rightarrow> 'w sys \<Rightarrow> bool" where
  "puback_effect env packet_id s s' \<longleftrightarrow> client_inv s' \<and> sub_handles s' = sub_handles s \<and>
     list_sub_wait_ack s' = list_sub_wait_ack s \<and>
     trace s' = trace s @ (if event_handle s then [Event MQTT_EVENT_PUBLISH_SUCCESS (Some packet_id)] else []) \<and>
     (fst (hal_malloc env (world s)) \<longrightarrow> list_pub_wait_ack s' = map (mask_pub_node packet_id) (list_pub_wait_ack s))"

lemma handle_puback_correct:
  assumes "client_inv s" and "deserialize_ack_packet (read_buf s) (read_buf_size s) = Some (Inr (type, dup, packet_id))"
  shows "\<exists>s'. handle_puback_packet env s = Some (QCLOUD_RET_SUCCESS, s') \<and> puback_effect env packet_id s s'"
proof -
  have "\<not> lock_list_pub s"
    using assms(1) by (simp add: client_inv_def unlocked_def)
  from mask_pubInfo_from_correct [OF this, of env packet_id] obtain w a ns where
    m: "mask_pubInfo_from env packet_id s = Some (QCLOUD_RET_SUCCESS, s\<lparr>list_pub_wait_ack := ns, next_addr := a, world := w\<rparr>)"
      "next_addr s \<le> a"
      "ns = list_pub_wait_ack s \<and> \<not> fst (hal_malloc env (world s)) \<or> ns = map (mask_pub_node packet_id) (list_pub_wait_ack s)"
    by blast
  define tr where "tr = trace s @ (if event_handle s then [Event MQTT_EVENT_PUBLISH_SUCCESS (Some packet_id)] else [])"
  define s' where "s' = s\<lparr>trace := tr, list_pub_wait_ack := ns, next_addr := a, world := w\<rparr>"
  have "client_inv s'"
    unfolding s'_def using assms(1) m(2,3) by (intro client_inv_mask_pub) auto
  moreover have "handle_puback_packet env s = Some (QCLOUD_RET_SUCCESS, s')"
    using assms(2) m(1) by (simp add: handle_puback_packet_def notify_eq s'_def tr_def)
  ultimately show ?thesis
    using m(3) by (auto simp: puback_effect_def s'_def tr_def)
qed


section \<open>One packet\<close>

text \<open>
  What the handlers need of a received packet, by its type: an acknowledgement of a subscription is not a repetition
  of an earlier one, its refusal finds an event handler, an UNSUBACK finds the uninitialised handle of the code's
  local variable without a filter, and a PUBLISH is as its handler needs it.
\<close>

definition packet_expected :: "junk \<Rightarrow> byte \<Rightarrow> 'w sys \<Rightarrow> bool" where
  "packet_expected j type s \<longleftrightarrow>
     (type = MessageTypes_val SUBACK \<longrightarrow>
        (case deserialize_suback_packet 1 [QOS0, QOS0, QOS0] (read_buf s) (read_buf_size s) of
           Some (Inr (packet_id, _, g)) \<Rightarrow>
             not_acknowledged packet_id (list_sub_wait_ack s) \<and> (g ! 0 = 0x80 \<longrightarrow> event_handle s)
         | _ \<Rightarrow> True)) \<and>
     (type = MessageTypes_val UNSUBACK \<longrightarrow> topic_filter (junk_handle j) = None \<and>
        (case deserialize_unsuback_packet (read_buf s) (read_buf_size s) of
           Some (Inr packet_id) \<Rightarrow> not_acknowledged packet_id (list_sub_wait_ack s)
         | _ \<Rightarrow> True)) \<and>
     (type = MessageTypes_val PUBLISH \<longrightarrow> publish_acceptable (read_buf s))"

lemma suback_read_payload_length:
  "suback_read_payload buf curdata enddata max_count count granted = Some (Inr (n, g)) \<Longrightarrow> length g = length granted"
proof (induction "enddata - curdata" arbitrary: curdata count granted rule: less_induct)
  case less
  have IH: "curdata < enddata \<Longrightarrow>
      suback_read_payload buf (Suc curdata) enddata max_count (Suc count) granted' = Some (Inr (n, g)) \<Longrightarrow> length g = length granted'"
    for granted'
    using less.hyps [of "Suc curdata" "Suc count" granted'] by simp
  from less.prems show ?case
    by (subst (asm) suback_read_payload.simps) (auto split: if_split_asm simp: bind_Some_iff wr_def dest!: IH)
qed

lemma deserialize_suback_granted:
  assumes "deserialize_suback_packet max_count granted buf buf_len = Some (Inr (packet_id, n, g))"
  shows "length g = length granted"
proof -
  obtain h c where h: "mqtt_read_char buf 0 = Some (h, c)"
    using assms by (cases "mqtt_read_char buf 0") (auto simp: deserialize_suback_packet_def split: if_splits)
  then obtain r where r: "mqtt_read_packet_rem_len_form_buf buf c = Some r"
    using assms by (cases "mqtt_read_packet_rem_len_form_buf buf c") (auto simp: deserialize_suback_packet_def split: if_splits)
  then obtain v k where k: "mqtt_read_packet_rem_len_form_buf buf c = Some (Inr (v, k))"
    using assms h by (cases r) (auto simp: deserialize_suback_packet_def split: if_splits)
  then obtain p c' where p: "mqtt_read_uint16_t buf (c + unat k) = Some (p, c')"
    using assms h by (cases "mqtt_read_uint16_t buf (c + unat k)")
      (auto simp: deserialize_suback_packet_def Let_def split: if_splits)
  let ?r = "suback_read_payload buf c' (c + unat k + unat v) max_count 0 granted"
  have "?r = Some (Inr (n, g))"
    using assms h k p by (cases ?r) (auto simp: deserialize_suback_packet_def Let_def split: if_splits sum.split_asm)
  then show ?thesis
    by (rule suback_read_payload_length)
qed

lemma handle_publish_keeps:
  assumes "env_ok env" and "client_inv s" and "packet_in (read_buf s)" and "publish_acceptable (read_buf s)"
  shows "\<exists>rc t s'. handle_publish_packet env timer s = Some (rc, t, s') \<and> client_inv s'"
proof -
  have rb: "length (repeat_packet_id_buf s) = MQTT_MAX_REPEAT_BUF_LEN" "current_packet_id_cnt s < MQTT_MAX_REPEAT_BUF_LEN"
      "length (write_buf s) = 2048" and arr: "arrays_ok s"
    using assms(2) by (simp_all add: client_inv_def arrays_ok_def)
  from assms show ?thesis
  proof (cases rule: handle_publish_cases [where timer = timer])
    case (acknowledged p msg i h rc t buf cnt w)
    note buf = add_packet_id_correct(2-4) [OF arr acknowledged(5)]
    have "length (mqtt_packet h (u16_bytes i)) = 4"
      by (simp add: mqtt_packet_def rem_len_bytes_small)
    with buf rb acknowledged(7) show ?thesis
      by (simp add: client_inv_received [OF assms(2)])
  qed (use assms(2) in simp_all)
qed


lemma handle_pubrec_keeps:
  assumes "env_ok env" and "client_inv s" and "deserialize_ack_packet (read_buf s) (read_buf_size s) \<noteq> None"
  shows "\<exists>rc t s'. handle_pubrec_packet env timer s = Some (rc, t, s') \<and> client_inv s'"
proof -
  obtain r where r: "deserialize_ack_packet (read_buf s) (read_buf_size s) = Some r"
    using assms(3) by blast
  have inv: "unlocked s" "arrays_ok s"
    using assms(2) by (simp_all add: client_inv_def)
  show ?thesis
  proof (cases r)
    case (Inr x)
    obtain type dup packet_id where x: "x = (type, dup, packet_id)"
      by (cases x)
    obtain h where h: "mqtt_init_packet_header PUBREL (if PUBREL = PUBREL then 1 else 0) 0 0 = Inr h"
      by (simp add: mqtt_init_packet_header_def)
    obtain rc t w where a: "send_pub_ack env PUBREL packet_id timer s =
        Some (rc, t, s\<lparr>write_buf := put (write_buf s) (mqtt_packet h (u16_bytes packet_id)), world := w\<rparr>)"
      using assms(1) inv h by (rule send_pub_ack_cases)
    have "client_inv (s\<lparr>write_buf := put (write_buf s) (mqtt_packet h (u16_bytes packet_id)), world := w\<rparr>)"
      using assms(2) by (simp add: client_inv_def unlocked_def arrays_ok_def lists_ok_def heap_ok_def
          mqtt_packet_def rem_len_bytes_small)
    with r Inr x a show ?thesis
      by (simp add: handle_pubrec_packet_def)
  qed (use assms(2) r in \<open>simp add: handle_pubrec_packet_def\<close>)
qed

lemma handle_puback_keeps:
  assumes "client_inv s" and "deserialize_ack_packet (read_buf s) (read_buf_size s) \<noteq> None"
  shows "\<exists>rc s'. handle_puback_packet env s = Some (rc, s') \<and> client_inv s'"
proof -
  obtain r where r: "deserialize_ack_packet (read_buf s) (read_buf_size s) = Some r"
    using assms(2) by blast
  show ?thesis
  proof (cases r)
    case (Inr x)
    then obtain type dup packet_id where "deserialize_ack_packet (read_buf s) (read_buf_size s) = Some (Inr (type, dup, packet_id))"
      using r by (cases x) simp
    from handle_puback_correct [OF assms(1) this, of env] show ?thesis
      by (auto simp: puback_effect_def)
  qed (use assms(1) r in \<open>simp add: handle_puback_packet_def\<close>)
qed

lemma handle_suback_keeps:
  assumes "client_inv s" and "deserialize_suback_packet 1 [QOS0, QOS0, QOS0] (read_buf s) (read_buf_size s) \<noteq> None"
    and "packet_expected j (MessageTypes_val SUBACK) s"
  shows "\<exists>rc s'. handle_suback_packet env s = Some (rc, s') \<and> client_inv s'"
proof -
  obtain r where r: "deserialize_suback_packet 1 [QOS0, QOS0, QOS0] (read_buf s) (read_buf_size s) = Some r"
    using assms(2) by blast
  show ?thesis
  proof (cases r)
    case (Inr x)
    obtain packet_id count g gs where x: "x = (packet_id, count, g # gs)"
    proof (cases x)
      case (fields packet_id count g)
      with r Inr have "length g = length [QOS0, QOS0, QOS0]"
        by (intro deserialize_suback_granted) simp
      then show thesis
        using fields that by (cases g) auto
    qed
    then show ?thesis
      using handle_suback_correct [OF assms(1), of packet_id count g gs env] assms(3) r Inr
      by (auto simp: packet_expected_def suback_effect_def)
  qed (use assms(1) r in \<open>simp add: handle_suback_packet_def\<close>)
qed

lemma handle_unsuback_keeps:
  assumes "client_inv s" and "deserialize_unsuback_packet (read_buf s) (read_buf_size s) \<noteq> None"
    and "packet_expected j (MessageTypes_val UNSUBACK) s"
  shows "\<exists>rc s'. handle_unsuback_packet env j s = Some (rc, s') \<and> client_inv s'"
proof -
  obtain r where r: "deserialize_unsuback_packet (read_buf s) (read_buf_size s) = Some r"
    using assms(2) by blast
  show ?thesis
  proof (cases r)
    case (Inr packet_id)
    then show ?thesis
      using handle_unsuback_correct [OF assms(1), of packet_id j env] assms(3) r
      by (auto simp: packet_expected_def unsuback_effect_def)
  qed (use assms(1) r in \<open>simp add: handle_unsuback_packet_def\<close>)
qed

lemma dispatch_keeps:
  assumes "env_ok env" and "client_inv s" and "packet_in (read_buf s)" and "packet_expected j type s"
  shows "\<exists>rc t s'. dispatch_packet env j type timer s = Some (rc, t, s') \<and> client_inv s'"
proof -
  have rb: "length (read_buf s) = 2048" "read_buf_size s = 2048"
    using assms(2) by (simp_all add: client_inv_def arrays_ok_def)
  have room: "1 + unat n + unat v \<le> length (read_buf s)"
    if "mqtt_read_packet_rem_len_form_buf (read_buf s) 1 = Some (Inr (v, n))" for v n
    using assms(3) that by (simp add: packet_in_def)
  have ack: "deserialize_ack_packet (read_buf s) (read_buf_size s) \<noteq> None"
    using rb by (intro deserialize_ack_packet_safe) simp
  then have unsub: "deserialize_unsuback_packet (read_buf s) (read_buf_size s) \<noteq> None"
    by (auto simp: deserialize_unsuback_packet_def split: sum.splits)
  have sub: "deserialize_suback_packet 1 [QOS0, QOS0, QOS0] (read_buf s) (read_buf_size s) \<noteq> None"
    using rb room by (intro deserialize_suback_packet_safe) simp_all
  have publish: "type = MessageTypes_val PUBLISH \<Longrightarrow> publish_acceptable (read_buf s)"
    using assms(4) by (simp add: packet_expected_def)
  note keeps = handle_puback_keeps [OF assms(2) ack, of env] handle_suback_keeps [OF assms(2) sub, of j env]
    handle_unsuback_keeps [OF assms(2) unsub, of j env] handle_pubrec_keeps [OF assms(1,2) ack, of timer]
    handle_publish_keeps [OF assms(1-3), of timer, OF publish]
  show ?thesis
    unfolding dispatch_packet_def using keeps assms(2,4) by (elim exE conjE) (auto split: if_splits)
qed

lemma pingresp_keeps:
  assumes "client_inv s"
  shows "\<exists>s'. handle_pingresp_packet env s = Some s' \<and> client_inv s'"
proof -
  obtain t w where "countdown env (ucast (keep_alive_interval (options s)))
      (s\<lparr>lock_generic := True, is_ping_outstanding := 0\<rparr>) = (t, s\<lparr>lock_generic := True, is_ping_outstanding := 0, world := w\<rparr>)"
    by (rule countdown_frame)
  with assms show ?thesis
    by (simp add: handle_pingresp_packet_def mutex_simps client_inv_def unlocked_def arrays_ok_def lists_ok_def heap_ok_def)
qed

definition reads_expected :: "'w env \<Rightarrow> junk \<Rightarrow> Timer \<Rightarrow> 'w sys \<Rightarrow> bool" where
  "reads_expected env j timer s \<longleftrightarrow>
     (case read_mqtt_packet env timer (junk_byte j) s of
        Some (Inr type, s1) \<Rightarrow> packet_expected j type s1
      | _ \<Rightarrow> True)"

lemma cycle_for_read_keeps:
  assumes "env_ok env" and "client_inv s" and "reads_expected env j timer s"
  shows "\<exists>rc type t s'. cycle_for_read env j timer packet_type s = Some (rc, type, t, s') \<and> client_inv s'"
proof -
  have rb: "read_buf_size s = 2048" "length (read_buf s) = 2048" "net_read_full env"
    using assms(1,2) by (simp_all add: client_inv_def arrays_ok_def env_ok_def)
  obtain r b w where r: "read_mqtt_packet env timer (junk_byte j) s = Some (r, s\<lparr>read_buf := b, world := w\<rparr>)"
      "length b = 2048" "\<forall>t. r = Inr t \<longrightarrow> packet_in b"
    using read_mqtt_packet_total [OF rb(3,1,2), of timer "junk_byte j"] rb(2) by (auto simp: read_result_ok_def)
  define s1 where "s1 = s\<lparr>read_buf := b, world := w\<rparr>"
  have inv1: "client_inv s1"
    using assms(2) r(2) by (simp add: s1_def client_inv_def unlocked_def arrays_ok_def lists_ok_def heap_ok_def)
  show ?thesis
  proof (cases r)
    case (Inl rc)
    with r(1) inv1 show ?thesis
      by (simp add: cycle_for_read_def s1_def)
  next
    case (Inr type)
    have "packet_expected j type s1" "packet_in (read_buf s1)"
      using assms(3) r(1,3) Inr by (simp_all add: reads_expected_def s1_def)
    from dispatch_keeps [OF assms(1) inv1 this(2,1), of timer] obtain rc t s2
      where d: "dispatch_packet env j type timer s1 = Some (rc, t, s2)" and inv2: "client_inv s2"
      by blast
    obtain s3 where s3: "handle_pingresp_packet env s2 = Some s3" "client_inv s3"
      using pingresp_keeps [OF inv2] by blast
    have unl: "\<not> lock_generic s2"
      using inv2 by (simp add: client_inv_def unlocked_def)
    have inv4: "client_inv (s2\<lparr>is_ping_outstanding := 0\<rparr>)"
      using inv2 by (simp add: client_inv_def unlocked_def arrays_ok_def lists_ok_def heap_ok_def)
    show ?thesis
    proof (cases rc)
      case None
      then show ?thesis
        using r(1) Inr d inv2 by (simp add: cycle_for_read_def s1_def)
    next
      case (Some x)
      then show ?thesis
        using r(1) Inr d inv2 inv4 s3 unl by (simp add: cycle_for_read_def s1_def mutex_simps)
    qed
  qed
qed


section \<open>Properties\<close>

text \<open>An active subscription with a message handler gets the messages on its own topic.\<close>

lemma suback_active_delivers:
  assumes "suback_active h s s'" and "message_handler h \<noteq> None" and "str_at s (topic_filter h) = Some f"
    and "is_topic_equals (msg_topic msg) f = Some True"
  shows "delivery s' msg (sub_handles s') \<noteq> None"
proof -
  obtain h' where h': "h' \<in> set (sub_handles s')" "str_at s' (topic_filter h') = Some f" "message_handler h' \<noteq> None"
    using assms(1-3) by (auto simp: suback_active_def)
  then have "handle_matches s' msg h' \<and> message_handler h' \<noteq> None"
    using assms(4) by (simp add: handle_matches_def)
  with h'(1) show ?thesis
    by (auto simp: delivery_def find_None_iff)
qed

text \<open>
  C7: A SUBACK for a request that is waiting always is handled and keeps the invariant: its success puts the subscription into
  the table of handlers with the request's filter, handler and user data, marks exactly the requests of that packet id as
  done, and from then on a message on the filter's own topic finds a handler; an error is explained by a refusal of the
  server, an unknown packet id, a full table or a failed allocation.
\<close>

theorem suback_activates_subscription:
  assumes "client_inv s"
    and "deserialize_suback_packet 1 [QOS0, QOS0, QOS0] (read_buf s) (read_buf_size s) = Some (Inr (packet_id, count, g # gs))"
    and "g = 0x80 \<longrightarrow> event_handle s" and "not_acknowledged packet_id (list_sub_wait_ack s)"
  shows "\<exists>rc s'. handle_suback_packet env s = Some (rc, s') \<and> suback_effect env packet_id g s rc s' \<and>
    (\<forall>f msg. rc = QCLOUD_RET_SUCCESS \<longrightarrow> message_handler (acknowledged_handle packet_id s) \<noteq> None \<longrightarrow>
       str_at s (topic_filter (acknowledged_handle packet_id s)) = Some f \<longrightarrow>
       is_topic_equals (msg_topic msg) f = Some True \<longrightarrow> delivery s' msg (sub_handles s') \<noteq> None)"
proof -
  obtain rc s' where r: "handle_suback_packet env s = Some (rc, s')" "suback_effect env packet_id g s rc s'"
    using handle_suback_correct [OF assms, of env] by blast
  then have "rc = QCLOUD_RET_SUCCESS \<Longrightarrow> suback_active (acknowledged_handle packet_id s) s s'"
    by (simp add: suback_effect_def)
  with r show ?thesis
    using suback_active_delivers [of "acknowledged_handle packet_id s" s s'] by blast
qed

text \<open>A client with one pending request, with id 1, for the topic \<^verbatim>\<open>a\<close>, that has received its SUBACK.\<close>

definition pending_example :: "(byte list \<times> byte list) sys" where
  "pending_example = (client_example [])\<lparr>strings := [0 \<mapsto> [0x61]], next_addr := 2,
     list_sub_wait_ack := [(1, \<lparr>sub_type = SUBSCRIBE, sub_msg_id = 1, sub_start_time = timer_example,
       sub_node_state = MQTT_NODE_STATE_NORMANL,
       sub_handler = \<lparr>topic_filter = Some 0, message_handler = Some 1, sub_event_handler = Some 2,
         handler_user_data = 3, handle_qos = QOS1\<rparr>, sub_len = 0, sub_buf = []\<rparr>)],
     read_buf := [0x90, 3, 0, 1, 1] @ replicate 2043 0\<rparr>"

lemma pending_example_inv: "client_inv pending_example"
  by (simp add: client_inv_def unlocked_def arrays_ok_def lists_ok_def heap_ok_def pending_example_def
      client_example_def handle_filters_null MAX_MESSAGE_HANDLERS_def MQTT_MAX_REPEAT_BUF_LEN_def)

theorem suback_activates_subscription_witness:
  "\<exists>rc s'. handle_suback_packet stream_env pending_example = Some (rc, s') \<and> suback_effect stream_env 1 1 pending_example rc s' \<and>
    (\<forall>f msg. rc = QCLOUD_RET_SUCCESS \<longrightarrow> message_handler (acknowledged_handle 1 pending_example) \<noteq> None \<longrightarrow>
       str_at pending_example (topic_filter (acknowledged_handle 1 pending_example)) = Some f \<longrightarrow>
       is_topic_equals (msg_topic msg) f = Some True \<longrightarrow> delivery s' msg (sub_handles s') \<noteq> None)"
proof (rule suback_activates_subscription [where count = 1 and gs = "[0, 0]"])
  show "deserialize_suback_packet 1 [QOS0, QOS0, QOS0] (read_buf pending_example) (read_buf_size pending_example) =
      Some (Inr (1, 1, 1 # [0, 0]))"
    by code_simp
  show "not_acknowledged 1 (list_sub_wait_ack pending_example)"
    by (simp add: not_acknowledged_def pending_example_def)
qed (simp_all add: pending_example_inv)

text \<open>
  Reading and handling one packet returns and keeps the client's invariant, whatever arrives: a packet of any
  type, an incomplete or oversized one or none at all, as long as the packet meets the conditions of its handler.
\<close>

theorem cycle_for_read_preserves_client:
  assumes "env_ok env" and "client_inv s" and "reads_expected env j timer s"
  shows "\<exists>rc type t s'. cycle_for_read env j timer packet_type s = Some (rc, type, t, s') \<and> client_inv s'"
  using assms by (rule cycle_for_read_keeps)

theorem cycle_for_read_preserves_client_witness:
  "\<exists>rc type t s'. cycle_for_read stream_env \<lparr>junk_byte = 0, junk_handle = null_handle\<rparr> timer_example 0
     (client_example [0x40, 2, 0, 7]) = Some (rc, type, t, s') \<and> client_inv s'"
proof (rule cycle_for_read_preserves_client)
  show "reads_expected stream_env \<lparr>junk_byte = 0, junk_handle = null_handle\<rparr> timer_example (client_example [0x40, 2, 0, 7])"
    by code_simp
qed (simp_all add: stream_env_contracts client_example_inv)

end
