(* ===== verification/Mqtt_Expiry.thy ===== *)
theory Mqtt_Expiry
  imports Mqtt_Acks
begin

text \<open>
  What the main loop does with requests that wait for an acknowledgement: acknowledged ones are dropped,
  those that ran out of time are dropped with a notification, and the filter of a dropped subscription request
  is released.
\<close>

section \<open>Expiry of unacknowledged messages\<close>

text \<open>
  A clock reading in the world \<open>w\<close> finds the timer expired; the lists are swept node by node, each
  with a reading of its own, so the set \<open>E\<close> of the addresses that expire in a sweep is part of its result.
\<close>

definition timed_out :: "'w env \<Rightarrow> Timer \<Rightarrow> 'w \<Rightarrow> bool" where
  "timed_out env t w \<longleftrightarrow> HAL_Timer_remain (fst (gettimeofday env w)) t \<le> 0"

text \<open>The clock does not go back, neither between readings nor during an allocation.\<close>

definition later :: "'w env \<Rightarrow> 'w \<Rightarrow> 'w \<Rightarrow> bool" where
  "later env w w' \<longleftrightarrow> usecs (fst (gettimeofday env w)) \<le> usecs (fst (gettimeofday env w'))"

definition clock_advances :: "'w env \<Rightarrow> bool" where
  "clock_advances env \<longleftrightarrow> (\<forall>w. later env w (snd (gettimeofday env w)) \<and> later env w (snd (hal_malloc env w)))"

lemma later_refl [simp]: "later env w w"
  by (simp add: later_def)

lemma later_trans: "later env u v \<Longrightarrow> later env v w \<Longrightarrow> later env u w"
  by (simp add: later_def)

lemma later_gettimeofday: "clock_advances env \<Longrightarrow> later env u w \<Longrightarrow> later env u (snd (gettimeofday env w))"
  unfolding clock_advances_def by (blast intro: later_trans)

definition pub_waits :: "nat \<times> QcloudIotPubInfo \<Rightarrow> bool" where
  "pub_waits x \<longleftrightarrow> pub_node_state (snd x) = MQTT_NODE_STATE_NORMANL"

definition sub_waits :: "nat \<times> QcloudIotSubInfo \<Rightarrow> bool" where
  "sub_waits x \<longleftrightarrow> sub_node_state (snd x) = MQTT_NODE_STATE_NORMANL"

text \<open>
  Which waiting requests a sweep between the worlds \<open>w0\<close> and \<open>w1\<close> drops: only when connected, those that a
  reading of the clock in between finds out of time, and it keeps those that a reading in between finds in time.
\<close>

definition reading :: "'w env \<Rightarrow> Timer \<Rightarrow> 'w \<Rightarrow> 'w \<Rightarrow> bool \<Rightarrow> bool" where
  "reading env t w0 w1 b \<longleftrightarrow> (\<exists>w. later env w0 w \<and> later env w w1 \<and> timed_out env t w = b)"

definition expiry :: "'w env \<Rightarrow> ('a \<Rightarrow> Timer) \<Rightarrow> byte \<Rightarrow> 'w \<Rightarrow> 'w \<Rightarrow> (nat \<times> 'a) list \<Rightarrow> nat set \<Rightarrow> bool" where
  "expiry env start connected w0 w1 ns E \<longleftrightarrow> E \<subseteq> fst ` set ns \<and> later env w0 w1 \<and> (connected = 0 \<longrightarrow> E = {}) \<and>
     (connected \<noteq> 0 \<longrightarrow> (\<forall>x \<in> set ns. reading env (start (snd x)) w0 w1 (fst x \<in> E)))"

lemma expiry_Nil [simp]: "expiry env start c w w [] {}"
  by (simp add: expiry_def)

lemma reading_mono: "reading env t w0 w b \<Longrightarrow> later env u w0 \<Longrightarrow> later env w w1 \<Longrightarrow> reading env t u w1 b"
  unfolding reading_def by (blast intro: later_trans)

lemma readingI: "later env w0 w \<Longrightarrow> timed_out env t w = b \<Longrightarrow> reading env t w0 w b"
  unfolding reading_def by (intro exI [of _ w]) simp

lemma expiry_mono:
  assumes "expiry env start c w0 w ns E" and "later env u w0" and "later env w w1"
  shows "expiry env start c u w1 ns E"
  using assms(1) later_trans [OF later_trans [OF assms(2)] assms(3)] reading_mono [OF _ assms(2,3)]
  unfolding expiry_def by simp

lemma expiry_keep:
  assumes "expiry env start c w0 w ns E" and "fst x \<notin> fst ` set ns" and "c = 0 \<or> \<not> timed_out env (start (snd x)) w"
  shows "expiry env start c w0 w (x # ns) E"
  using assms unfolding expiry_def by (auto intro!: readingI)

lemma expiry_drop:
  assumes "expiry env start c w0 w ns E" and "fst x \<notin> fst ` set ns" and "c \<noteq> 0" and "timed_out env (start (snd x)) w"
  shows "expiry env start c w0 w (x # ns) (insert (fst x) E)"
proof -
  have "(fst y \<in> insert (fst x) E) = (fst y \<in> E)" if "y \<in> set ns" for y
    using assms(2) that by (metis image_eqI insert_iff)
  with assms show ?thesis
    unfolding expiry_def by (auto intro!: readingI)
qed

lemma left_ms_eq: "left_ms env t s =
  (HAL_Timer_remain (fst (gettimeofday env (world s))) t, s\<lparr>world := snd (gettimeofday env (world s))\<rparr>)"
  by (simp add: left_ms_def time_now_def split: prod.split)

lemma countdown_ms_eq: "countdown_ms env ms s =
  (HAL_Timer_countdown_ms (fst (gettimeofday env (world s))) ms, s\<lparr>world := snd (gettimeofday env (world s))\<rparr>)"
  by (simp add: countdown_ms_def time_now_def split: prod.split)

definition pub_timeouts :: "'w sys \<Rightarrow> nat set \<Rightarrow> (nat \<times> QcloudIotPubInfo) list \<Rightarrow> upcall list" where
  "pub_timeouts s E ns = (if event_handle s
     then map (\<lambda>x. Event MQTT_EVENT_PUBLISH_TIMEOUT (Some (pub_msg_id (snd x)))) (rev (filter (\<lambda>x. fst x \<in> E) ns)) else [])"

lemma filter_fst_insert:
  "a \<notin> fst ` set ns \<Longrightarrow> filter (\<lambda>x. P x \<and> fst x \<notin> insert a E) ns = filter (\<lambda>x. P x \<and> fst x \<notin> E) ns"
  "a \<notin> fst ` set ns \<Longrightarrow> filter (\<lambda>x. fst x \<in> insert a E) ns = filter (\<lambda>x. fst x \<in> E) ns"
  by (auto intro!: filter_cong)

lemma pub_proc_nodes_correct:
  assumes "clock_advances env" and "lock_list_pub s" and "distinct (map fst ns)"
  shows "\<exists>E w. pub_proc_nodes env ns s = Some (filter (\<lambda>x. pub_waits x \<and> fst x \<notin> E) ns,
      s\<lparr>trace := trace s @ pub_timeouts s E ns, world := w\<rparr>) \<and>
    expiry env pub_start_time (is_connected s) (world s) w (filter pub_waits ns) E"
  using assms(3)
proof (induction ns)
  case Nil
  then show ?case
    by (intro exI [of _ "{}"] exI [of _ "world s"]) (simp add: pub_timeouts_def)
next
  case (Cons x ns)
  obtain a i where x: "x = (a, i)" by (cases x)
  have new: "a \<notin> fst ` set ns" and "distinct (map fst ns)"
    using Cons.prems x by auto
  then obtain E w where
    IH: "pub_proc_nodes env ns s = Some (filter (\<lambda>x. pub_waits x \<and> fst x \<notin> E) ns,
      s\<lparr>trace := trace s @ pub_timeouts s E ns, world := w\<rparr>)" and
    E: "expiry env pub_start_time (is_connected s) (world s) w (filter pub_waits ns) E"
    using Cons.IH by blast
  note clock = later_gettimeofday [OF assms(1) later_refl]
  have aE: "a \<notin> E" and new': "fst x \<notin> fst ` set (filter pub_waits ns)"
    using E new x by (auto simp: expiry_def)
  have pw: "pub_node_state i = MQTT_NODE_STATE_INVALID \<longleftrightarrow> \<not> pub_waits (a, i)"
    by (cases "pub_node_state i") (simp_all add: pub_waits_def)
  let ?s = "s\<lparr>trace := trace s @ pub_timeouts s E ns, world := w\<rparr>"
  consider (acked) "\<not> pub_waits x" | (off) "pub_waits x" "is_connected s = 0"
    | (early) "pub_waits x" "is_connected s \<noteq> 0" "\<not> timed_out env (pub_start_time i) w"
    | (late) "pub_waits x" "is_connected s \<noteq> 0" "timed_out env (pub_start_time i) w"
    by blast
  then show ?case
  proof cases
    case acked
    then show ?thesis
      using IH E aE x by (intro exI [of _ E] exI [of _ w])
        (simp add: pw pub_timeouts_def)
  next
    case off
    then show ?thesis
      using IH aE x expiry_keep [OF E new']
      by (intro exI [of _ E] exI [of _ w]) (simp add: pw pub_timeouts_def)
  next
    case early
    then show ?thesis
      using IH aE x expiry_mono [OF expiry_keep [OF E new'] later_refl clock]
      by (intro exI [of _ E] exI [of _ "snd (gettimeofday env w)"])
        (simp add: pw pub_timeouts_def left_ms_eq timed_out_def)
  next
    case late
    let ?s1 = "?s\<lparr>world := snd (gettimeofday env w), lock_list_pub := False\<rparr>"
    obtain t w1 where t: "countdown_ms env (command_timeout_ms s) ?s1 = (t, ?s1\<lparr>world := w1\<rparr>)"
        "w1 = snd (gettimeofday env (snd (gettimeofday env w)))"
      by (simp add: countdown_ms_eq)
    have "later env w w1"
      unfolding t(2) by (intro later_gettimeofday [OF assms(1)] clock)
    then show ?thesis
      using late IH aE x t(1) expiry_mono [OF expiry_drop [OF E new'] later_refl, of w1] assms(2) filter_fst_insert [OF new]
      by (intro exI [of _ "insert a E"] exI [of _ w1])
        (simp add: pw pub_timeouts_def left_ms_eq timed_out_def mutex_simps notify_eq)
  qed
qed


text \<open>
  The effect of a sweep over the unacknowledged messages. Without memory for the iterator nothing happens.
\<close>

definition pub_swept :: "'w env \<Rightarrow> 'w sys \<Rightarrow> nat set \<Rightarrow> 'w sys \<Rightarrow> bool" where
  "pub_swept env s E s' \<longleftrightarrow> client_inv s' \<and> sub_handles s' = sub_handles s \<and> list_sub_wait_ack s' = list_sub_wait_ack s \<and>
     (if list_pub_wait_ack s \<noteq> [] \<and> \<not> fst (hal_malloc env (world s))
      then list_pub_wait_ack s' = list_pub_wait_ack s \<and> trace s' = trace s
      else list_pub_wait_ack s' = filter (\<lambda>x. pub_waits x \<and> fst x \<notin> E) (list_pub_wait_ack s) \<and>
        trace s' = trace s @ pub_timeouts s E (list_pub_wait_ack s) \<and>
        expiry env pub_start_time (is_connected s) (world s) (world s') (filter pub_waits (list_pub_wait_ack s)) E)"

lemma client_inv_pub_filter:
  assumes "client_inv s" and "next_addr s \<le> a"
  shows "client_inv (s\<lparr>trace := tr, list_pub_wait_ack := filter P (list_pub_wait_ack s), next_addr := a, world := w\<rparr>)"
proof -
  have inv: "client_inv (s\<lparr>trace := tr, next_addr := a, world := w\<rparr>)"
    using assms by (rule client_inv_idle)
  then have "heap_ok (s\<lparr>trace := tr, list_pub_wait_ack := filter P (list_pub_wait_ack s), next_addr := a, world := w\<rparr>)"
    unfolding client_inv_def by (auto simp: heap_ok_def)
  moreover have "lists_ok (s\<lparr>trace := tr, list_pub_wait_ack := filter P (list_pub_wait_ack s), next_addr := a, world := w\<rparr>)"
    using inv le_trans [OF length_filter_le] by (auto simp: client_inv_def lists_ok_def distinct_map_filter)
  ultimately show ?thesis
    using inv by (simp add: client_inv_def unlocked_def arrays_ok_def)
qed

lemma later_malloc: "clock_advances env \<Longrightarrow> HAL_Malloc env s = (p, s') \<Longrightarrow> later env (world s) (world s')"
  by (auto simp: HAL_Malloc_def clock_advances_def split: prod.splits if_splits) (metis snd_conv)+

lemma pub_info_proc_correct:
  assumes "clock_advances env" and "client_inv s"
  shows "\<exists>E s'. qcloud_iot_mqtt_pub_info_proc env s = Some (QCLOUD_RET_SUCCESS, s') \<and> pub_swept env s E s'"
proof -
  have unl: "\<not> lock_list_pub s" and d: "distinct (map fst (list_pub_wait_ack s))"
    using assms(2) by (simp_all add: client_inv_def unlocked_def lists_ok_def)
  let ?s = "s\<lparr>lock_list_pub := True\<rparr>"
  show ?thesis
  proof (cases "list_pub_wait_ack s = []")
    case True
    then show ?thesis
      using unl assms(2) by (intro exI [of _ "{}"] exI [of _ s])
        (simp add: qcloud_iot_mqtt_pub_info_proc_def mutex_simps pub_swept_def pub_timeouts_def)
  next
    case False
    show ?thesis
    proof (cases rule: HAL_Malloc_cases [of env ?s])
      case (fail w)
      then show ?thesis
        using unl False client_inv_idle [OF assms(2) order_refl, where tr = "trace s" and w = w]
        by (intro exI [of _ "{}"] exI [of _ "s\<lparr>world := w\<rparr>"])
          (simp add: qcloud_iot_mqtt_pub_info_proc_def mutex_simps pub_swept_def)
    next
      case (addr w)
      let ?s1 = "?s\<lparr>next_addr := next_addr s + 1, world := w\<rparr>"
      obtain E w' where p: "pub_proc_nodes env (list_pub_wait_ack s) ?s1 =
          Some (filter (\<lambda>x. pub_waits x \<and> fst x \<notin> E) (list_pub_wait_ack s),
            ?s1\<lparr>trace := trace s @ pub_timeouts ?s1 E (list_pub_wait_ack s), world := w'\<rparr>)"
        and E: "expiry env pub_start_time (is_connected ?s1) (world ?s1) w' (filter pub_waits (list_pub_wait_ack s)) E"
        using pub_proc_nodes_correct [OF assms(1), of ?s1 "list_pub_wait_ack s"] d by auto
      have "later env (world s) w"
        using later_malloc [OF assms(1) addr(1)] by simp
      then have E': "expiry env pub_start_time (is_connected s) (world s) w' (filter pub_waits (list_pub_wait_ack s)) E"
        using expiry_mono [OF E _ later_refl, of "world s"] by simp
      define s' where "s' = s\<lparr>trace := trace s @ pub_timeouts s E (list_pub_wait_ack s),
        list_pub_wait_ack := filter (\<lambda>x. pub_waits x \<and> fst x \<notin> E) (list_pub_wait_ack s),
        next_addr := next_addr s + 1, world := w'\<rparr>"
      have "pub_timeouts ?s1 E ns = pub_timeouts s E ns" for ns
        by (simp add: pub_timeouts_def)
      then have "qcloud_iot_mqtt_pub_info_proc env s = Some (QCLOUD_RET_SUCCESS, s')"
        using unl False addr(1) p by (simp add: qcloud_iot_mqtt_pub_info_proc_def mutex_simps s'_def)
      moreover have "client_inv s'"
        unfolding s'_def using assms(2) by (rule client_inv_pub_filter) simp
      ultimately show ?thesis
        using addr(2) E' by (intro exI [of _ E] exI [of _ s']) (simp add: pub_swept_def s'_def)
    qed
  qed
qed


section \<open>Expiry of subscription requests\<close>

definition sub_timeout_calls :: "bool \<Rightarrow> nat \<times> QcloudIotSubInfo \<Rightarrow> upcall list" where
  "sub_timeout_calls handled x = (let i = snd x; h = sub_handler i in
     if \<not> handled then []
     else if sub_type i = SUBSCRIBE then
       (case sub_event_handler h of None \<Rightarrow> [] | Some f \<Rightarrow> [SubEvent f MQTT_EVENT_SUBCRIBE_TIMEOUT (handler_user_data h)]) @
       [Event MQTT_EVENT_SUBCRIBE_TIMEOUT (Some (sub_msg_id i))]
     else [Event MQTT_EVENT_UNSUBCRIBE_TIMEOUT (Some (sub_msg_id i))])"

definition sub_timeouts :: "'w sys \<Rightarrow> nat set \<Rightarrow> (nat \<times> QcloudIotSubInfo) list \<Rightarrow> upcall list" where
  "sub_timeouts s E ns = concat (map (sub_timeout_calls (event_handle s)) (rev (filter (\<lambda>x. fst x \<in> E) ns)))"

text \<open>The filters of the requests that expire, which are released.\<close>

definition expired_filters :: "nat set \<Rightarrow> (nat \<times> QcloudIotSubInfo) list \<Rightarrow> nat set" where
  "expired_filters E ns = set (pending_filters (filter (\<lambda>x. fst x \<in> E) ns))"

lemma restrict_compl: "m |` UNIV = m" "m(f := None) = m |` (- {f})"
  by (auto simp: restrict_map_def)

lemma expired_filters_subset: "expired_filters E ns \<subseteq> set (pending_filters ns)"
  unfolding expired_filters_def pending_filters_concat by auto

lemma HAL_Free_filter:
  assumes "sub_waits (a, i)" and "set (filter_of (a, i)) \<subseteq> dom (strings s)"
  shows "HAL_Free (topic_filter (sub_handler i)) s = Some (s\<lparr>strings := strings s |` (- set (filter_of (a, i)))\<rparr>)"
proof (cases "topic_filter (sub_handler i)")
  case None
  then have "filter_of (a, i) = []"
    by (simp add: filter_of_def)
  with None show ?thesis
    by (simp add: HAL_Free_def restrict_compl(1))
next
  case (Some f)
  then have f: "filter_of (a, i) = [f]"
    using assms(1) by (simp add: filter_of_def sub_waits_def)
  with assms(2) have "strings s f \<noteq> None"
    by (simp add: domIff)
  with Some f show ?thesis
    by (simp add: HAL_Free_def restrict_compl(2))
qed

lemma sub_timeout_notified:
  "(if event_handle s then
      (if sub_type i = SUBSCRIBE
       then upcall (Event MQTT_EVENT_SUBCRIBE_TIMEOUT (Some (sub_msg_id i)))
              (notify_sub (sub_handler i) MQTT_EVENT_SUBCRIBE_TIMEOUT s)
       else upcall (Event MQTT_EVENT_UNSUBCRIBE_TIMEOUT (Some (sub_msg_id i))) s)
    else s) = s\<lparr>trace := trace s @ sub_timeout_calls (event_handle s) (a, i)\<rparr>"
  by (simp add: sub_timeout_calls_def Let_def upcall_def notify_sub_eq)

lemma sub_proc_late:
  assumes "set (filter_of (a, i)) \<subseteq> dom (strings s)" and "sub_waits (a, i)"
    and "is_connected s \<noteq> 0" and "timed_out env (sub_start_time i) (world s)"
    and "sub_proc_nodes env ns s0 = Some (ns', s)"
  shows "sub_proc_nodes env ((a, i) # ns) s0 = Some (ns',
    s\<lparr>trace := trace s @ sub_timeout_calls (event_handle s) (a, i), strings := strings s |` (- set (filter_of (a, i))),
      world := snd (gettimeofday env (world s))\<rparr>)"
proof -
  define s1 where "s1 = s\<lparr>world := snd (gettimeofday env (world s))\<rparr>"
  define s2 where "s2 = s1\<lparr>trace := trace s1 @ sub_timeout_calls (event_handle s1) (a, i)\<rparr>"
  obtain ms where ms: "left_ms env (sub_start_time i) s = (ms, s1)" "ms \<le> 0"
    using assms(4) by (simp add: left_ms_eq timed_out_def s1_def)
  have "HAL_Free (topic_filter (sub_handler i)) s2 = Some (s2\<lparr>strings := strings s2 |` (- set (filter_of (a, i)))\<rparr>)"
    using assms(1) by (intro HAL_Free_filter [OF assms(2)]) (simp add: s2_def s1_def)
  moreover have "sub_node_state i \<noteq> MQTT_NODE_STATE_INVALID"
    using assms(2) by (simp add: sub_waits_def)
  ultimately have "sub_proc_nodes env ((a, i) # ns) s0 = Some (ns', s2\<lparr>strings := strings s2 |` (- set (filter_of (a, i)))\<rparr>)"
    using assms(3,5) ms by (simp add: sub_timeout_notified [where a = a] s2_def [symmetric])
  then show ?thesis
    by (simp add: s2_def s1_def)
qed

lemma sub_proc_keep:
  assumes "\<not> (sub_waits (a, i) \<and> is_connected s \<noteq> 0 \<and> timed_out env (sub_start_time i) (world s))"
    and "sub_proc_nodes env ns s0 = Some (ns', s)"
  shows "\<exists>w \<in> {world s, snd (gettimeofday env (world s))}.
    sub_proc_nodes env ((a, i) # ns) s0 = Some ((if sub_waits (a, i) then [(a, i)] else []) @ ns', s\<lparr>world := w\<rparr>)"
proof -
  have sw: "sub_node_state i = MQTT_NODE_STATE_INVALID \<longleftrightarrow> \<not> sub_waits (a, i)"
    by (cases "sub_node_state i") (simp_all add: sub_waits_def)
  consider "\<not> sub_waits (a, i) \<or> is_connected s = 0"
    | "sub_waits (a, i)" "is_connected s \<noteq> 0" "0 < HAL_Timer_remain (fst (gettimeofday env (world s))) (sub_start_time i)"
    using assms(1) by (auto simp: timed_out_def not_le)
  then show ?thesis
  proof cases
    case 1
    then show ?thesis
      using assms(2) by (intro bexI [of _ "world s"]) (auto simp: sw)
  next
    case 2
    then show ?thesis
      using assms(2) by (intro bexI [of _ "snd (gettimeofday env (world s))"]) (simp_all add: sw left_ms_eq)
  qed
qed

lemma sub_proc_nodes_correct:
  assumes clock: "clock_advances env" and "distinct (map fst ns)" and "distinct (pending_filters ns)"
    and "set (pending_filters ns) \<subseteq> dom (strings s)"
  shows "\<exists>E w. sub_proc_nodes env ns s = Some (filter (\<lambda>x. sub_waits x \<and> fst x \<notin> E) ns,
      s\<lparr>trace := trace s @ sub_timeouts s E ns, strings := strings s |` (- expired_filters E ns), world := w\<rparr>) \<and>
    expiry env sub_start_time (is_connected s) (world s) w (filter sub_waits ns) E"
  using assms(2-)
proof (induction ns)
  case Nil
  show ?case
    by (intro exI [of _ "{}"] exI [of _ "world s"]) (simp add: sub_timeouts_def expired_filters_def restrict_compl)
next
  case (Cons x ns)
  obtain a i where x: "x = (a, i)" by (cases x)
  have pf: "pending_filters (x # ns) = filter_of x @ pending_filters ns"
    by (simp add: pending_filters_concat)
  have new: "a \<notin> fst ` set ns" and tl: "distinct (map fst ns)" "distinct (pending_filters ns)" "set (pending_filters ns) \<subseteq> dom (strings s)"
    and hd: "set (filter_of x) \<subseteq> dom (strings s)" "set (filter_of x) \<inter> set (pending_filters ns) = {}"
    using Cons.prems x unfolding pf by auto
  from Cons.IH [OF tl] obtain E w where
    IH: "sub_proc_nodes env ns s = Some (filter (\<lambda>x. sub_waits x \<and> fst x \<notin> E) ns,
      s\<lparr>trace := trace s @ sub_timeouts s E ns, strings := strings s |` (- expired_filters E ns), world := w\<rparr>)" and
    E: "expiry env sub_start_time (is_connected s) (world s) w (filter sub_waits ns) E"
    by blast
  have aE: "a \<notin> E" and new': "fst x \<notin> fst ` set (filter sub_waits ns)"
    using E new x by (auto simp: expiry_def)
  show ?case
  proof (cases "sub_waits x \<and> is_connected s \<noteq> 0 \<and> timed_out env (sub_start_time i) w")
    case False
    have "expired_filters E (x # ns) = expired_filters E ns" "sub_timeouts s E (x # ns) = sub_timeouts s E ns"
      using aE x by (simp_all add: expired_filters_def sub_timeouts_def)
    moreover have "filter (\<lambda>x. sub_waits x \<and> fst x \<notin> E) (x # ns) =
        (if sub_waits x then [x] else []) @ filter (\<lambda>x. sub_waits x \<and> fst x \<notin> E) ns"
      using aE x by simp
    moreover obtain w' where "w' = w \<or> w' = snd (gettimeofday env w)" "sub_proc_nodes env (x # ns) s = Some ((if sub_waits x then [x] else []) @
        filter (\<lambda>x. sub_waits x \<and> fst x \<notin> E) ns,
        s\<lparr>trace := trace s @ sub_timeouts s E ns, strings := strings s |` (- expired_filters E ns), world := w'\<rparr>)"
      using sub_proc_keep [OF _ IH, of a i] False x by auto
    moreover from this(1) have "expiry env sub_start_time (is_connected s) (world s) w' (filter sub_waits (x # ns)) E"
      using False x expiry_mono [OF E later_refl, of w'] expiry_mono [OF expiry_keep [OF E new'] later_refl, of w']
        later_gettimeofday [OF clock later_refl] by auto
    ultimately show ?thesis
      by (intro exI [of _ E] exI [of _ w']) simp
  next
    case True
    define s1 where "s1 = s\<lparr>trace := trace s @ sub_timeouts s E ns, strings := strings s |` (- expired_filters E ns), world := w\<rparr>"
    have ex: "expired_filters (insert a E) (x # ns) = set (filter_of x) \<union> expired_filters E ns"
        "sub_timeouts s (insert a E) (x # ns) = sub_timeouts s E ns @ sub_timeout_calls (event_handle s) x"
        "filter (\<lambda>x. sub_waits x \<and> fst x \<notin> insert a E) (x # ns) = filter (\<lambda>x. sub_waits x \<and> fst x \<notin> E) ns"
      using x filter_fst_insert [OF new] by (simp_all add: expired_filters_def sub_timeouts_def pending_filters_concat)
    have "set (filter_of x) \<subseteq> dom (strings s1)"
      using hd expired_filters_subset [of E ns] by (auto simp: s1_def)
    then have "sub_proc_nodes env (x # ns) s = Some (filter (\<lambda>x. sub_waits x \<and> fst x \<notin> E) ns,
        s1\<lparr>trace := trace s1 @ sub_timeout_calls (event_handle s1) x, strings := strings s1 |` (- set (filter_of x)),
          world := snd (gettimeofday env (world s1))\<rparr>)"
      unfolding x using True x IH by (intro sub_proc_late) (simp_all add: s1_def)
    moreover have "expiry env sub_start_time (is_connected s) (world s) (snd (gettimeofday env w)) (filter sub_waits (x # ns)) (insert a E)"
      using True x expiry_mono [OF expiry_drop [OF E new'] later_refl] later_gettimeofday [OF clock later_refl] by simp
    ultimately show ?thesis
      by (intro exI [of _ "insert a E"] exI [of _ "snd (gettimeofday env w)"], unfold ex)
        (simp add: s1_def Int_commute)
  qed
qed

text \<open>The effect of a sweep over the subscription requests.\<close>

definition sub_swept :: "'w env \<Rightarrow> 'w sys \<Rightarrow> nat set \<Rightarrow> 'w sys \<Rightarrow> bool" where
  "sub_swept env s E s' \<longleftrightarrow> client_inv s' \<and> sub_handles s' = sub_handles s \<and> list_pub_wait_ack s' = list_pub_wait_ack s \<and>
     (if list_sub_wait_ack s \<noteq> [] \<and> \<not> fst (hal_malloc env (world s))
      then list_sub_wait_ack s' = list_sub_wait_ack s \<and> trace s' = trace s \<and> strings s' = strings s
      else list_sub_wait_ack s' = filter (\<lambda>x. sub_waits x \<and> fst x \<notin> E) (list_sub_wait_ack s) \<and>
        trace s' = trace s @ sub_timeouts s E (list_sub_wait_ack s) \<and>
        strings s' = strings s |` (- expired_filters E (list_sub_wait_ack s)) \<and>
        expiry env sub_start_time (is_connected s) (world s) (world s') (filter sub_waits (list_sub_wait_ack s)) E)"

lemma client_inv_sub_filter:
  fixes ns
  assumes "client_inv s" and "next_addr s \<le> a"
  defines "ns \<equiv> list_sub_wait_ack s"
  shows "client_inv (s\<lparr>trace := tr, list_sub_wait_ack := filter (\<lambda>x. sub_waits x \<and> fst x \<notin> E) ns,
    strings := strings s |` (- expired_filters E ns), next_addr := a, world := w\<rparr>)" (is "client_inv ?s")
proof -
  have inv: "client_inv (s\<lparr>trace := tr, next_addr := a, world := w\<rparr>)"
    using assms(1,2) by (rule client_inv_idle)
  let ?P = "\<lambda>x. sub_waits x \<and> fst x \<notin> E"
  have heap: "heap_ok s" and bound: "\<forall>y \<in> dom (strings s). y < a"
    using assms(1) inv by (simp_all add: client_inv_def heap_ok_def)
  have d: "distinct (concat (map filter_of ns))"
    using heap by (simp add: heap_ok_def pending_filters_concat ns_def)
  note sub = concat_filter_distinct [OF d, of ?P, folded pending_filters_concat]
  have freed: "expired_filters E ns \<inter> set (pending_filters (filter ?P ns)) = {}"
  proof -
    have "set (filter_of x) \<inter> set (pending_filters (filter ?P ns)) = {}" if "x \<in> set ns" "fst x \<in> E" for x
      using sub that by blast
    then show ?thesis
      unfolding expired_filters_def pending_filters_concat by auto
  qed
  have "expired_filters E ns \<inter> set (handle_filters (sub_handles s)) = {}"
    using heap expired_filters_subset [of E ns] by (auto simp: heap_ok_def ns_def)
  then have "heap_ok ?s"
    using heap sub freed bound by (auto simp: heap_ok_def ns_def)
  moreover have "lists_ok ?s"
    using inv le_trans [OF length_filter_le] by (auto simp: client_inv_def lists_ok_def distinct_map_filter ns_def)
  ultimately show ?thesis
    using inv by (simp add: client_inv_def unlocked_def arrays_ok_def)
qed


lemma sub_info_proc_correct:
  assumes "clock_advances env" and "client_inv s"
  shows "\<exists>E s'. qcloud_iot_mqtt_sub_info_proc env s = Some (QCLOUD_RET_SUCCESS, s') \<and> sub_swept env s E s'"
proof -
  let ?ns = "list_sub_wait_ack s"
  have unl: "\<not> lock_list_sub s" and d: "distinct (map fst ?ns)" "distinct (pending_filters ?ns)"
      "set (pending_filters ?ns) \<subseteq> dom (strings s)"
    using assms(2) by (simp_all add: client_inv_def unlocked_def lists_ok_def heap_ok_def)
  let ?s = "s\<lparr>lock_list_sub := True\<rparr>"
  show ?thesis
  proof (cases "?ns = []")
    case True
    then show ?thesis
      using unl assms(2) by (intro exI [of _ "{}"] exI [of _ s])
        (simp add: qcloud_iot_mqtt_sub_info_proc_def mutex_simps sub_swept_def sub_timeouts_def expired_filters_def restrict_compl(1))
  next
    case False
    show ?thesis
    proof (cases rule: HAL_Malloc_cases [of env ?s])
      case (fail w)
      then show ?thesis
        using unl False client_inv_idle [OF assms(2) order_refl, where tr = "trace s" and w = w]
        by (intro exI [of _ "{}"] exI [of _ "s\<lparr>world := w\<rparr>"])
          (simp add: qcloud_iot_mqtt_sub_info_proc_def mutex_simps sub_swept_def)
    next
      case (addr w)
      define s1 where "s1 = ?s\<lparr>next_addr := next_addr s + 1, world := w\<rparr>"
      obtain E w' where p: "sub_proc_nodes env ?ns s1 = Some (filter (\<lambda>x. sub_waits x \<and> fst x \<notin> E) ?ns,
            s1\<lparr>trace := trace s1 @ sub_timeouts s1 E ?ns, strings := strings s1 |` (- expired_filters E ?ns), world := w'\<rparr>)"
        and E: "expiry env sub_start_time (is_connected s1) (world s1) w' (filter sub_waits ?ns) E"
        using sub_proc_nodes_correct [OF assms(1) d(1,2), of s1] d(3) by (auto simp: s1_def)
      have "later env (world s) w"
        using later_malloc [OF assms(1) addr(1)] by simp
      then have E': "expiry env sub_start_time (is_connected s) (world s) w' (filter sub_waits ?ns) E"
        using expiry_mono [OF E _ later_refl, of "world s"] by (simp add: s1_def)
      define s' where "s' = s\<lparr>trace := trace s @ sub_timeouts s E ?ns,
        list_sub_wait_ack := filter (\<lambda>x. sub_waits x \<and> fst x \<notin> E) ?ns,
        strings := strings s |` (- expired_filters E ?ns), next_addr := next_addr s + 1, world := w'\<rparr>"
      have "sub_timeouts s1 E ?ns = sub_timeouts s E ?ns"
        by (simp add: sub_timeouts_def s1_def)
      then have "qcloud_iot_mqtt_sub_info_proc env s = Some (QCLOUD_RET_SUCCESS, s')"
        using unl False addr(1) p by (simp add: qcloud_iot_mqtt_sub_info_proc_def mutex_simps s'_def s1_def)
      moreover have "client_inv s'"
        unfolding s'_def using assms(2) by (rule client_inv_sub_filter) simp
      ultimately show ?thesis
        using addr(2) E' by (intro exI [of _ E] exI [of _ s']) (simp add: sub_swept_def s'_def)
    qed
  qed
qed

section \<open>Properties\<close>

lemma stream_env_advances: "clock_advances stream_env"
  by (simp add: clock_advances_def later_def stream_env_def)

text \<open>
  C28: The sweep over unacknowledged messages returns and keeps the invariant. Acknowledged messages leave the list without a
  notification; of the waiting ones exactly those whose timer a reading of the clock found expired leave it while the client is connected,
  each with one timeout event, the latest message first; while disconnected none expires.
\<close>

theorem pub_expiry:
  assumes "clock_advances env" and "client_inv s"
  shows "\<exists>E s'. qcloud_iot_mqtt_pub_info_proc env s = Some (QCLOUD_RET_SUCCESS, s') \<and> pub_swept env s E s'"
  using assms by (rule pub_info_proc_correct)

text \<open>Three messages: one acknowledged, one out of time, one in time.\<close>

definition pub_node_example :: "u16 \<Rightarrow> MQTTNodeState \<Rightarrow> Timer \<Rightarrow> QcloudIotPubInfo" where
  "pub_node_example i st t = \<lparr>pub_start_time = t, pub_node_state = st, pub_msg_id = i, pub_len = 0, pub_buf = []\<rparr>"

definition waiting_example :: "(byte list \<times> byte list) sys" where
  "waiting_example = (client_example [])\<lparr>next_addr := 3, list_pub_wait_ack :=
     [(0, pub_node_example 1 MQTT_NODE_STATE_INVALID HAL_Timer_init),
      (1, pub_node_example 2 MQTT_NODE_STATE_NORMANL HAL_Timer_init),
      (2, pub_node_example 3 MQTT_NODE_STATE_NORMANL timer_example)]\<rparr>"

lemma waiting_example_inv: "client_inv waiting_example"
  by (simp add: client_inv_def unlocked_def arrays_ok_def lists_ok_def heap_ok_def waiting_example_def
      client_example_def handle_filters_null MAX_MESSAGE_HANDLERS_def MQTT_MAX_REPEAT_BUF_LEN_def MAX_REPUB_NUM_def)

theorem pub_expiry_witness:
  "\<exists>E s'. qcloud_iot_mqtt_pub_info_proc stream_env waiting_example = Some (QCLOUD_RET_SUCCESS, s') \<and>
     pub_swept stream_env waiting_example E s'"
  by (rule pub_expiry) (simp_all add: stream_env_advances waiting_example_inv)

text \<open>
  C29: The sweep over subscription requests returns and keeps the invariant: requests that were acknowledged leave the list,
  requests that expired leave it with their timeout events, and exactly the topic filters of the latter are released.
\<close>

theorem sub_expiry:
  assumes "clock_advances env" and "client_inv s"
  shows "\<exists>E s'. qcloud_iot_mqtt_sub_info_proc env s = Some (QCLOUD_RET_SUCCESS, s') \<and> sub_swept env s E s'"
  using assms by (rule sub_info_proc_correct)

theorem sub_expiry_witness:
  "\<exists>E s'. qcloud_iot_mqtt_sub_info_proc stream_env pending_example = Some (QCLOUD_RET_SUCCESS, s') \<and>
     sub_swept stream_env pending_example E s'"
  by (rule sub_expiry) (simp_all add: stream_env_advances pending_example_inv)

end
