(* ===== verification/Mqtt_Keepalive.thy ===== *)
theory Mqtt_Keepalive
  imports Mqtt_Expiry
begin

text \<open>
  The main loop of a connected client: losing the connection, keep-alive, and one whole iteration.
\<close>

section \<open>Losing the connection\<close>

text \<open>Fields outside the invariant.\<close>

lemma client_inv_conn [simp]:
  "client_inv (s\<lparr>is_connected := c\<rparr>) = client_inv s"
  "client_inv (s\<lparr>was_manually_disconnected := c\<rparr>) = client_inv s"
  "client_inv (s\<lparr>is_ping_outstanding := c\<rparr>) = client_inv s"
  "client_inv (s\<lparr>ping_timer := t\<rparr>) = client_inv s"
  "client_inv (s\<lparr>counter_network_disconnected := n\<rparr>) = client_inv s"
  "client_inv (s\<lparr>current_reconnect_wait_interval := n\<rparr>) = client_inv s"
  "client_inv (s\<lparr>reconnect_delay_timer := t\<rparr>) = client_inv s"
  "client_inv (s\<lparr>world := w\<rparr>) = client_inv s"
  by (simp_all add: client_inv_def unlocked_def arrays_ok_def lists_ok_def heap_ok_def)

lemma client_inv_write_buf: "client_inv s \<Longrightarrow> length b = 2048 \<Longrightarrow> client_inv (s\<lparr>write_buf := b\<rparr>)"
  by (simp add: client_inv_def unlocked_def arrays_ok_def lists_ok_def heap_ok_def)

lemma serialize_small:
  assumes "arrays_ok s" and "t \<in> {PINGREQ, DISCONNECT}"
  obtains b where "serialize_packet_with_zero_payload (write_buf s) (write_buf_size s) t = Some (Inr (b, 2))"
    and "length b = 2048" and "take 2 b = [if t = PINGREQ then 0xC0 else 0xE0, 0]"
proof -
  define h where "h = (if t = PINGREQ then 0xC0 else 0xE0 :: byte)"
  have h: "mqtt_init_packet_header t 0 0 0 = Inr h"
    using assms(2) by (auto simp: h_def mqtt_init_packet_header_def)
  have p: "mqtt_packet k [] = [k, 0]" for k :: byte
    by (simp add: mqtt_packet_def rem_len_bytes_small)
  show thesis
    by (rule that [of "put (write_buf s) (mqtt_packet h [])"])
      (use assms h serialize_packet_with_zero_payload_ok [of "write_buf_size s" "write_buf s" t h] in
        \<open>auto simp: arrays_ok_def p h_def put_def\<close>)
qed


definition disconnected_from :: "'w sys \<Rightarrow> 'w sys \<Rightarrow> bool" where
  "disconnected_from s s' \<longleftrightarrow> list_pub_wait_ack s' = list_pub_wait_ack s \<and> list_sub_wait_ack s' = list_sub_wait_ack s \<and>
     sub_handles s' = sub_handles s \<and> strings s' = strings s \<and> options s' = options s \<and> event_handle s' = event_handle s \<and>
     current_reconnect_wait_interval s' = current_reconnect_wait_interval s"

lemma disconnect_cases:
  assumes "env_ok env" and "client_inv s" and "is_connected s \<noteq> 0"
  obtains (fail) rc b w where "qcloud_iot_mqtt_disconnect env s = Some (rc, s\<lparr>write_buf := b, world := w\<rparr>)"
      and "rc < 0" and "length b = 2048"
  | (sent) b ms w w0 w1 where "qcloud_iot_mqtt_disconnect env s =
        Some (QCLOUD_RET_SUCCESS, s\<lparr>write_buf := b, world := w, is_connected := 0, was_manually_disconnected := 1\<rparr>)"
      and "length b = 2048" and "net_write env [0xE0, 0] ms w0 = (QCLOUD_RET_SUCCESS, 2, w1)" and "w = net_disconnect env w1"
proof -
  have inv: "arrays_ok s" "\<not> lock_generic s" "\<not> lock_write_buf s"
    using assms(2) by (simp_all add: client_inv_def unlocked_def)
  obtain b where b: "serialize_packet_with_zero_payload (write_buf s) (write_buf_size s) DISCONNECT = Some (Inr (b, 2))"
      "length b = 2048" "take 2 b = [0xE0, 0]"
    using serialize_small [OF inv(1), of DISCONNECT] by auto
  define s1 where "s1 = s\<lparr>lock_write_buf := True, write_buf := b\<rparr>"
  obtain t w0 where t: "countdown_ms env (command_timeout_ms s) s1 = (t, s1\<lparr>world := w0\<rparr>)"
    by (rule countdown_ms_frame)
  have arr: "arrays_ok (s1\<lparr>world := w0\<rparr>)"
    using inv(1) b(2) by (simp add: s1_def arrays_ok_def)
  from assms(1) arr show thesis
  proof (cases rule: send_mqtt_packet_cases [where len = 2 and timer = t])
    case (fail rc w)
    have "qcloud_iot_mqtt_disconnect env s = Some (rc, s\<lparr>write_buf := b, world := w\<rparr>)"
      using assms(3) inv(2,3) b(1) t fail
      by (simp add: qcloud_iot_mqtt_disconnect_def get_client_conn_state_ok mutex_simps s1_def)
    then show thesis
      using fail(2) b(2) by (rule that(1))
  next
    case (sent ms u w)
    have "qcloud_iot_mqtt_disconnect env s = Some (QCLOUD_RET_SUCCESS,
        s\<lparr>write_buf := b, world := net_disconnect env w, is_connected := 0, was_manually_disconnected := 1\<rparr>)"
      using assms(3) inv(2,3) b(1) t sent(1)
      by (simp add: qcloud_iot_mqtt_disconnect_def get_client_conn_state_ok set_client_conn_state_ok mutex_simps s1_def)
    moreover have "net_write env [0xE0, 0] ms u = (QCLOUD_RET_SUCCESS, 2, w)"
      using sent(2) b(3) by (simp add: s1_def)
    ultimately show thesis
      using b(2) by (intro that(2)) simp_all
  qed
qed

text \<open>
  Losing the connection ends in the disconnected state whether or not the DISCONNECT packet could be sent, with one
  event; waiting requests and subscriptions stay.
\<close>

lemma handle_disconnect_correct:
  assumes "env_ok env" and "client_inv s" and "is_connected s \<noteq> 0"
  shows "\<exists>s'. handle_disconnect env s = Some (QCLOUD_ERR_MQTT_NO_CONN, s') \<and> client_inv s' \<and> disconnected_from s s' \<and>
    is_connected s' = 0 \<and> was_manually_disconnected s' = 0 \<and>
    trace s' = trace s @ (if event_handle s then [Event MQTT_EVENT_DISCONNECT None] else [])"
proof -
  have unl: "\<not> lock_generic s"
    using assms(2) by (simp add: client_inv_def unlocked_def)
  have inv: "client_inv (s\<lparr>write_buf := b\<rparr>)" if "length b = 2048" for b
    using assms(2) that by (rule client_inv_write_buf)
  define tr where "tr = trace s @ (if event_handle s then [Event MQTT_EVENT_DISCONNECT None] else [])"
  from assms show ?thesis
  proof (cases rule: disconnect_cases)
    case (fail rc b w)
    define s' where "s' = s\<lparr>write_buf := b, world := net_disconnect env w, is_connected := 0, trace := tr, was_manually_disconnected := 0\<rparr>"
    have "handle_disconnect env s = Some (QCLOUD_ERR_MQTT_NO_CONN, s')"
      using assms(3) unl fail
      by (simp add: handle_disconnect_def get_client_conn_state_ok set_client_conn_state_ok iot_disconnect_callback_def
          notify_eq s'_def tr_def)
    moreover have "client_inv s'"
      unfolding s'_def using inv [OF fail(3)] by simp
    ultimately show ?thesis
      by (simp add: s'_def disconnected_from_def tr_def)
  next
    case (sent b ms w w0 w1)
    define s' where "s' = s\<lparr>write_buf := b, world := w, is_connected := 0, trace := tr, was_manually_disconnected := 0\<rparr>"
    have "handle_disconnect env s = Some (QCLOUD_ERR_MQTT_NO_CONN, s')"
      using assms(3) unl sent(1)
      by (simp add: handle_disconnect_def get_client_conn_state_ok iot_disconnect_callback_def notify_eq s'_def tr_def)
    moreover have "client_inv s'"
      unfolding s'_def using inv [OF sent(2)] by simp
    ultimately show ?thesis
      by (simp add: s'_def disconnected_from_def tr_def)
  qed
qed

section \<open>Keep-alive\<close>

lemma ping_loop_cases:
  assumes "env_ok env" and "arrays_ok s"
  obtains (fail) rc w where "ping_loop env n len s = Some (rc, s\<lparr>world := w\<rparr>)" and "rc < 0"
  | (sent) ms w0 w where "ping_loop env n len s = Some (QCLOUD_RET_SUCCESS, s\<lparr>world := w\<rparr>)"
      and "len = 0 \<or> net_write env (take len (write_buf s)) ms w0 = (QCLOUD_RET_SUCCESS, len, w)"
  using assms(2)
proof (induction n arbitrary: s thesis)
  case 0
  obtain t w0 where t: "countdown_ms env (command_timeout_ms s) s = (t, s\<lparr>world := w0\<rparr>)"
    by (rule countdown_ms_frame)
  have "arrays_ok (s\<lparr>world := w0\<rparr>)"
    using 0(3) by (simp add: arrays_ok_def)
  with assms(1) show ?case
  proof (cases rule: send_mqtt_packet_cases [where len = len and timer = t])
    case (fail rc w)
    then show ?thesis
      using t 0(1) [of rc w] by simp
  next
    case (sent ms u w)
    then show ?thesis
      using t 0(2) [of w ms u] by simp
  qed
next
  case (Suc n)
  obtain t w0 where t: "countdown_ms env (command_timeout_ms s) s = (t, s\<lparr>world := w0\<rparr>)"
    by (rule countdown_ms_frame)
  have arr: "arrays_ok (s\<lparr>world := w\<rparr>)" for w
    using Suc.prems(3) by (simp add: arrays_ok_def)
  from assms(1) arr show ?case
  proof (cases rule: send_mqtt_packet_cases [where len = len and timer = t and s = "s\<lparr>world := w0\<rparr>"])
    case (fail rc w)
    have run: "ping_loop env (Suc n) len s = ping_loop env n len (s\<lparr>world := w\<rparr>)"
      using t fail by simp
    show ?thesis
    proof (rule Suc.IH [OF _ _ arr [of w]])
      show thesis if "ping_loop env n len (s\<lparr>world := w\<rparr>) = Some (rc, s\<lparr>world := w\<rparr>\<lparr>world := w'\<rparr>)" "rc < 0" for rc w'
        using that run Suc.prems(1) [of rc w'] by simp
      show thesis if "ping_loop env n len (s\<lparr>world := w\<rparr>) = Some (QCLOUD_RET_SUCCESS, s\<lparr>world := w\<rparr>\<lparr>world := w'\<rparr>)"
          "len = 0 \<or> net_write env (take len (write_buf (s\<lparr>world := w\<rparr>))) ms u = (QCLOUD_RET_SUCCESS, len, w')" for ms u w'
        using that run Suc.prems(2) [of w' ms u] by simp
    qed
  next
    case (sent ms u w)
    then show ?thesis
      using t Suc.prems(2) [of w ms u] by simp
  qed
qed


text \<open>
  The three outcomes of a keep-alive check: nothing to do, a PINGREQ sent and counted, the connection given up.
\<close>

definition gave_up :: "'w sys \<Rightarrow> int \<Rightarrow> 'w sys \<Rightarrow> bool" where
  "gave_up s rc s' \<longleftrightarrow> rc = QCLOUD_ERR_MQTT_NO_CONN \<and> is_connected s' = 0 \<and> disconnected_from s s' \<and>
     (is_connected s \<noteq> 0 \<longrightarrow> was_manually_disconnected s' = 0) \<and>
     trace s' = trace s @ (if is_connected s \<noteq> 0 \<and> event_handle s then [Event MQTT_EVENT_DISCONNECT None] else [])"

definition pinged :: "'w env \<Rightarrow> 'w sys \<Rightarrow> int \<Rightarrow> 'w sys \<Rightarrow> bool" where
  "pinged env s rc s' \<longleftrightarrow> rc = QCLOUD_RET_SUCCESS \<and> is_ping_outstanding s' = is_ping_outstanding s + 1 \<and>
     is_connected s' = is_connected s \<and> disconnected_from s s' \<and> trace s' = trace s \<and>
     (\<exists>ms w0 w1. net_write env [0xC0, 0] ms w0 = (QCLOUD_RET_SUCCESS, 2, w1))"

definition keep_alive_effect :: "'w env \<Rightarrow> 'w sys \<Rightarrow> int \<Rightarrow> 'w sys \<Rightarrow> bool" where
  "keep_alive_effect env s rc s' \<longleftrightarrow>
     (if keep_alive_interval (options s) = 0 \<or> \<not> fst (expired env (ping_timer s) s)
      then rc = QCLOUD_RET_SUCCESS \<and> (\<exists>w. s' = s\<lparr>world := w\<rparr>)
      else if is_ping_outstanding s \<ge> MQTT_PING_RETRY_TIMES then gave_up s rc s'
      else pinged env s rc s' \<or> gave_up s rc s')"

lemma handle_disconnect_gave_up:
  assumes "env_ok env" and "client_inv s1" and "is_connected s1 = is_connected s" and "disconnected_from s s1"
    and "trace s1 = trace s"
  shows "\<exists>rc s'. handle_disconnect env s1 = Some (rc, s') \<and> client_inv s' \<and> gave_up s rc s'"
proof (cases "is_connected s1 = 0")
  case True
  moreover have "\<not> lock_generic s1"
    using assms(2) by (simp add: client_inv_def unlocked_def)
  ultimately show ?thesis
    using assms(2-5) by (simp add: handle_disconnect_def get_client_conn_state_ok gave_up_def)
next
  case False
  from handle_disconnect_correct [OF assms(1,2) this] show ?thesis
    using False assms(3-5) by (auto simp: gave_up_def disconnected_from_def)
qed

lemma keep_alive_pings:
  assumes "env_ok env" and "client_inv s" and "keep_alive_interval (options s) \<noteq> 0" and "expired env (ping_timer s) s = (True, s\<lparr>world := w\<rparr>)"
    and "\<not> is_ping_outstanding s \<ge> MQTT_PING_RETRY_TIMES"
  shows "\<exists>rc s'. mqtt_keep_alive env s = Some (rc, s') \<and> client_inv s' \<and> (pinged env s rc s' \<or> gave_up s rc s')"
proof -
  have inv: "arrays_ok s" "\<not> lock_generic s" "\<not> lock_write_buf s"
    using assms(2) by (simp_all add: client_inv_def unlocked_def)
  obtain b where b: "serialize_packet_with_zero_payload (write_buf s) (write_buf_size s) PINGREQ = Some (Inr (b, 2))"
      "length b = 2048" "take 2 b = [0xC0, 0]"
    using serialize_small [OF inv(1), of PINGREQ] by auto
  define s1 where "s1 = s\<lparr>world := w, lock_write_buf := True, write_buf := b\<rparr>"
  have arr: "arrays_ok s1"
    using inv(1) b(2) by (simp add: s1_def arrays_ok_def)
  have keep: "client_inv (s\<lparr>write_buf := b\<rparr>)"
    using assms(2) b(2) by (rule client_inv_write_buf)
  from assms(1) arr show ?thesis
  proof (cases rule: ping_loop_cases [where n = 3 and len = 2])
    case (fail rc w1)
    define s2 where "s2 = s\<lparr>write_buf := b, world := w1\<rparr>"
    have "mqtt_keep_alive env s = handle_disconnect env s2"
      using assms(3-5) inv(3) b(1) fail by (simp add: mqtt_keep_alive_def mutex_simps s1_def s2_def)
    then show ?thesis
      using handle_disconnect_gave_up [OF assms(1), of s2 s] keep by (auto simp: s2_def disconnected_from_def)
  next
    case (sent ms w0 w1)
    let ?s2 = "s\<lparr>write_buf := b, world := w1, lock_generic := True, is_ping_outstanding := is_ping_outstanding s + 1\<rparr>"
    obtain t w2 where t: "countdown env (min 5 (ucast (keep_alive_interval (options s) div 2))) ?s2 = (t, ?s2\<lparr>world := w2\<rparr>)"
      by (rule countdown_frame)
    define s' where "s' = s\<lparr>write_buf := b, is_ping_outstanding := is_ping_outstanding s + 1, ping_timer := t, world := w2\<rparr>"
    have "mqtt_keep_alive env s = Some (QCLOUD_RET_SUCCESS, s')"
      using assms(3-5) inv(2,3) b(1) sent(1) t by (simp add: mqtt_keep_alive_def mutex_simps s1_def s'_def)
    moreover have "client_inv s'"
      unfolding s'_def using keep by simp
    moreover have "net_write env [0xC0, 0] ms w0 = (QCLOUD_RET_SUCCESS, 2, w1)"
      using sent(2) b(3) by (simp add: s1_def)
    ultimately show ?thesis
      by (intro exI [of _ QCLOUD_RET_SUCCESS] exI [of _ s']) (auto simp: pinged_def s'_def disconnected_from_def)
  qed
qed

lemma keep_alive_correct:
  assumes "env_ok env" and "client_inv s"
  shows "\<exists>rc s'. mqtt_keep_alive env s = Some (rc, s') \<and> client_inv s' \<and> keep_alive_effect env s rc s'"
proof -
  have inv: "arrays_ok s" "\<not> lock_generic s" "\<not> lock_write_buf s"
    using assms(2) by (simp_all add: client_inv_def unlocked_def)
  obtain e w where e: "expired env (ping_timer s) s = (e, s\<lparr>world := w\<rparr>)"
    by (rule expired_frame)
  consider (idle) "keep_alive_interval (options s) = 0 \<or> \<not> e"
    | (dead) "keep_alive_interval (options s) \<noteq> 0" "e" "is_ping_outstanding s \<ge> MQTT_PING_RETRY_TIMES"
    | (ping) "keep_alive_interval (options s) \<noteq> 0" "e" "\<not> is_ping_outstanding s \<ge> MQTT_PING_RETRY_TIMES"
    by blast
  then show ?thesis
  proof cases
    case idle
    have "\<exists>w. mqtt_keep_alive env s = Some (QCLOUD_RET_SUCCESS, s\<lparr>world := w\<rparr>)"
    proof (cases "keep_alive_interval (options s) = 0")
      case True
      then show ?thesis
        by (intro exI [of _ "world s"]) (simp add: mqtt_keep_alive_def)
    next
      case False
      then show ?thesis
        using idle e by (intro exI [of _ w]) (simp add: mqtt_keep_alive_def)
    qed
    then obtain w1 where "mqtt_keep_alive env s = Some (QCLOUD_RET_SUCCESS, s\<lparr>world := w1\<rparr>)"
      by blast
    then show ?thesis
      using idle e assms(2) by (intro exI [of _ QCLOUD_RET_SUCCESS] exI [of _ "s\<lparr>world := w1\<rparr>"]) (auto simp: keep_alive_effect_def)
  next
    case dead
    define s1 where "s1 = s\<lparr>world := w\<rparr>"
    have "mqtt_keep_alive env s = handle_disconnect env s1"
      using dead e by (simp add: mqtt_keep_alive_def s1_def)
    moreover obtain rc s' where "handle_disconnect env s1 = Some (rc, s')" "client_inv s'" "gave_up s rc s'"
      using handle_disconnect_gave_up [OF assms(1), of s1 s] assms by (auto simp: s1_def disconnected_from_def)
    ultimately show ?thesis
      using dead e by (simp add: keep_alive_effect_def)
  next
    case ping
    then show ?thesis
      using keep_alive_pings [OF assms, of w] e by (simp add: keep_alive_effect_def)
  qed
qed


section \<open>The main loop\<close>

text \<open>One iteration for a connected client: every step of it keeps the invariant.\<close>

lemma keep_going_keeps:
  assumes "env_ok env" and "clock_advances env" and "client_inv s"
  shows "\<exists>rc s'. (do { (_, s) \<leftarrow> qcloud_iot_mqtt_pub_info_proc env s; (_, s) \<leftarrow> qcloud_iot_mqtt_sub_info_proc env s;
      mqtt_keep_alive env s }) = Some (rc, s') \<and> client_inv s'"
proof -
  obtain E1 s1 where 1: "qcloud_iot_mqtt_pub_info_proc env s = Some (QCLOUD_RET_SUCCESS, s1)" "client_inv s1"
    using pub_info_proc_correct [OF assms(2,3)] by (auto simp: pub_swept_def)
  obtain E2 s2 where 2: "qcloud_iot_mqtt_sub_info_proc env s1 = Some (QCLOUD_RET_SUCCESS, s2)" "client_inv s2"
    using sub_info_proc_correct [OF assms(2) 1(2)] by (auto simp: sub_swept_def)
  show ?thesis
    using keep_alive_correct [OF assms(1) 2(2)] 1(1) 2(1) by auto
qed

lemma yield_step_keeps:
  assumes "env_ok env" and "clock_advances env" and "client_inv s" and "reads_expected env j timer s"
  shows "\<exists>rc fin t p s'. yield_step env j timer packet_type s = Some (rc, fin, t, p, s') \<and> client_inv s'"
proof -
  obtain rc type t s1 where r: "cycle_for_read env j timer packet_type s = Some (rc, type, t, s1)" "client_inv s1"
    using cycle_for_read_keeps [OF assms(1,3,4)] by blast
  define m where "m = (if rc = QCLOUD_RET_SUCCESS then do {
          (_, s) \<leftarrow> qcloud_iot_mqtt_pub_info_proc env s1;
          (_, s) \<leftarrow> qcloud_iot_mqtt_sub_info_proc env s;
          mqtt_keep_alive env s
        } else if rc = QCLOUD_ERR_SSL_READ_TIMEOUT \<or> rc = QCLOUD_ERR_SSL_READ \<or>
                  rc = QCLOUD_ERR_TCP_PEER_SHUTDOWN \<or> rc = QCLOUD_ERR_TCP_READ_FAIL
        then handle_disconnect env s1
        else Some (rc, s1))"
  have "\<exists>rc' s2. handle_disconnect env s1 = Some (rc', s2) \<and> client_inv s2"
    using handle_disconnect_gave_up [OF assms(1) r(2), of s1] by (auto simp: disconnected_from_def)
  then have "\<exists>rc' s2. m = Some (rc', s2) \<and> client_inv s2"
    using keep_going_keeps [OF assms(1,2) r(2)] r(2) unfolding m_def by (cases "rc = QCLOUD_RET_SUCCESS") auto
  then obtain rc' s2 where m: "m = Some (rc', s2)" "client_inv s2"
    by blast
  let ?s3 = "s2\<lparr>counter_network_disconnected := counter_network_disconnected s2 + 1\<rparr>"
  obtain interval w where i: "get_random_interval env ?s3 = (interval, ?s3\<lparr>world := w\<rparr>)"
    by (cases "hal_rand env (world s2)") (simp add: get_random_interval_def)
  let ?s4 = "?s3\<lparr>world := w, current_reconnect_wait_interval := interval\<rparr>"
  obtain t' w' where t': "countdown_ms env interval ?s4 = (t', ?s4\<lparr>world := w'\<rparr>)"
    by (rule countdown_ms_frame)
  show ?thesis
    using r(1) m i t' unfolding yield_step_def by (auto simp: m_def [symmetric] Let_def)
qed


section \<open>Properties\<close>



end
