(* ===== verification/Mqtt_Handshake.thy ===== *)
theory Mqtt_Handshake
  imports Mqtt_Keepalive
begin

text \<open>
  Connecting and reconnecting: \<^verbatim>\<open>_mqtt_connect\<close> sends the CONNECT packet, waits for the CONNACK and looks at its answer.  Waiting is a loop
  without a bound of its own; that it ends follows from what a broker and a clock do.
\<close>

section \<open>The broker\<close>

text \<open>The time in microseconds.\<close>

definition now :: "'w env \<Rightarrow> 'w \<Rightarrow> int" where
  "now env w = usecs (fst (gettimeofday env w))"

text \<open>
  \<open>W\<close> is a set of states of the environment in which the connection is open and the broker has sent nothing yet; asking for time, memory or
  randomness and sending do not leave it.
\<close>

definition calm :: "'w env \<Rightarrow> 'w set \<Rightarrow> bool" where
  "calm env W \<longleftrightarrow> (\<forall>w \<in> W. snd (gettimeofday env w) \<in> W \<and> snd (hal_malloc env w) \<in> W \<and> snd (hal_rand env w) \<in> W \<and>
     (\<forall>bytes ms. snd (snd (net_write env bytes ms w)) \<in> W))"

text \<open>
  The first packet of the broker is a CONNACK (MQTT 3.1.1, 3.2.0-1), and a read that finds nothing has waited for some time.
\<close>

definition answers :: "'w env \<Rightarrow> 'w set \<Rightarrow> bool" where
  "answers env W \<longleftrightarrow> (\<forall>timer i s. world s \<in> W \<and> read_buf_size s = 2048 \<and> length (read_buf s) = 2048 \<longrightarrow>
     (case read_mqtt_packet env timer i s of
        Some (Inr type, s') \<Rightarrow> type = MessageTypes_val CONNACK
      | Some (Inl rc, s') \<Rightarrow> rc = QCLOUD_ERR_MQTT_NOTHING_TO_READ \<longrightarrow> world s' \<in> W \<and> now env (world s) < now env (world s')
      | None \<Rightarrow> True))"

text \<open>The clock delivers proper times of day.\<close>

definition clock_ok :: "'w env \<Rightarrow> bool" where
  "clock_ok env \<longleftrightarrow> (\<forall>w. timeval_ok (fst (gettimeofday env w)))"

text \<open>A failed read has an error code.\<close>

lemma decode_rem_len_net_error:
  "fst (decode_rem_len_net env n timeout i m v s) = Inl rc \<Longrightarrow> rc < 0"
  by (induction n arbitrary: i m v s) (auto simp: Let_def split: prod.splits if_splits)

lemma read_body_error: "read_mqtt_body env timer v s = Some (Inl rc, s') \<Longrightarrow> rc \<noteq> 0"
  by (auto simp: read_mqtt_body_def Let_def split: prod.splits if_splits bind_splits)

lemma read_error: "read_mqtt_packet env timer i s = Some (Inl rc, s') \<Longrightarrow> rc \<noteq> 0"
  using decode_rem_len_net_error [of env MAX_NO_OF_REMAINING_LENGTH_BYTES]
  by (auto simp: read_mqtt_packet_def Let_def decode_packet_rem_len_with_net_read_def
      split: prod.splits if_splits bind_splits sum.splits dest: read_body_error) (metis fst_conv less_irrefl)

section \<open>Waiting for the CONNACK\<close>

definition received :: "'w sys \<Rightarrow> 'w sys \<Rightarrow> bool" where
  "received s s' \<longleftrightarrow> (\<exists>b w. s' = s\<lparr>read_buf := b, world := w\<rparr> \<and> length b = 2048)"

lemma receivedI: "length b = 2048 \<Longrightarrow> received s (s\<lparr>read_buf := b, world := w\<rparr>)"
  unfolding received_def by blast

lemma received_world: "length (read_buf s) = 2048 \<Longrightarrow> received s (s\<lparr>world := w\<rparr>)"
  using receivedI [of "read_buf s" s w] by simp

lemma received_trans: "received s s' \<Longrightarrow> received s' s'' \<Longrightarrow> received s s''"
  by (auto simp: received_def [of s s'] received_def [of s' s''] intro: receivedI)

text \<open>
  The loop ends: each round either has an answer, an error or the end of the time allowed, or it has used up some of that time.
\<close>

lemma wait_loop_ends:
  assumes "env_ok env" and "clock_advances env" and "clock_ok env" and A: "answers env W"
    and T: "timeval_ok (end_time timer)" and "type \<noteq> MessageTypes_val CONNACK"
    and C: "calm env W"
  shows "read_buf_size s = 2048 \<Longrightarrow> length (read_buf s) = 2048 \<Longrightarrow> world s \<in> W \<Longrightarrow>
    ok (wait_loop env j (MessageTypes_val CONNACK) timer type s) (\<lambda>(rc, t, s'). t = timer \<and> received s s' \<and>
      (rc = QCLOUD_RET_SUCCESS \<longrightarrow> packet_in (read_buf s')))"
proof (induction "nat (usecs (end_time timer) - now env (world s))" arbitrary: s rule: less_induct)
  case less
  obtain t w where g: "gettimeofday env (world s) = (t, w)"
    by (cases "gettimeofday env (world s)")
  define s1 where "s1 = s\<lparr>world := w\<rparr>"
  have e: "expired env timer s = (HAL_Timer_expired t timer, s1)"
    by (simp add: expired_def time_now_def g s1_def)
  have s1: "read_buf_size s1 = 2048" "length (read_buf s1) = 2048" "world s1 \<in> W"
    using less.prems C g by (auto simp: s1_def calm_def dest: bspec)
  show ?case
  proof (cases "HAL_Timer_expired t timer")
    case True
    with less.prems(2) show ?thesis
      by (subst wait_loop.simps) (simp add: e s1_def received_world)
  next
    case False
    have "timeval_ok t"
      using assms(3) g by (metis clock_ok_def fst_conv)
    then have early: "now env (world s) < usecs (end_time timer)"
      using False T g by (simp add: now_def expired_usecs)
    have now1: "now env (world s) \<le> now env (world s1)"
      using assms(2) [unfolded clock_advances_def later_def, rule_format, of "world s"] g by (simp add: now_def s1_def)
    obtain r b v where r: "read_mqtt_packet env timer (junk_byte j) s1 = Some (r, s1\<lparr>read_buf := b, world := v\<rparr>)"
        "length b = 2048" "\<forall>t. r = Inr t \<longrightarrow> packet_in b"
      using read_mqtt_packet_total [of env s1 timer "junk_byte j"] s1 assms(1) by (auto simp: read_result_ok_def env_ok_def)
    define s2 where "s2 = s1\<lparr>read_buf := b, world := v\<rparr>"
    have rec: "received s s2"
      using receivedI [OF r(2), of s v] by (simp add: s2_def s1_def)
    note a = A [unfolded answers_def, rule_format, of s1 timer "junk_byte j", OF conjI [OF s1(3) conjI [OF s1(1,2)]]]
    consider (silent) "r = Inl QCLOUD_ERR_MQTT_NOTHING_TO_READ" | (err) rc where "r = Inl rc" "rc \<noteq> QCLOUD_ERR_MQTT_NOTHING_TO_READ"
      | (packet) p where "r = Inr p"
      by (cases r) auto
    then show ?thesis
    proof cases
      case silent
      have W: "world s2 \<in> W" "now env (world s1) < now env (world s2)"
        using a by (simp_all add: r(1) silent s2_def)
      have s2: "read_buf_size s2 = 2048" "length (read_buf s2) = 2048"
        using s1 r(2) by (simp_all add: s2_def)
      have "nat (usecs (end_time timer) - now env (world s2)) < nat (usecs (end_time timer) - now env (world s))"
        using early now1 W(2) by linarith
      from less.hyps [OF this s2 W(1)] have "ok (wait_loop env j (MessageTypes_val CONNACK) timer type s2) (\<lambda>(rc, t, s'). t = timer \<and> received s s' \<and>
          (rc = QCLOUD_RET_SUCCESS \<longrightarrow> packet_in (read_buf s')))"
        by (rule ok_mono) (auto intro: received_trans [OF rec])
      then show ?thesis
        using False silent r(1) assms(6) by (subst wait_loop.simps) (simp add: e cycle_for_read_def s2_def)
    next
      case (err rc)
      then have "rc \<noteq> 0"
        using r(1) by (auto dest: read_error)
      with err show ?thesis
        using False r(1) rec by (subst wait_loop.simps) (simp add: e cycle_for_read_def s2_def)
    next
      case (packet p)
      then have "p = MessageTypes_val CONNACK"
        using a r(1) by simp
      with packet show ?thesis
        using False r rec by (subst wait_loop.simps) (simp add: e cycle_for_read_def dispatch_packet_def s2_def)
    qed
  qed
qed


section \<open>Sending the CONNECT packet\<close>

text \<open>Parameters of a connection with MQTT 3.1.1 and a client id of a device.\<close>

definition connect_ready :: "MQTTConnectParams \<Rightarrow> bool" where
  "connect_ready p \<longleftrightarrow> mqtt_version p = 4 \<and> password p = None \<and>
     (case client_id p of None \<Rightarrow> False | Some cid \<Rightarrow> 0 < length cid \<and> length cid \<le> 80)"

definition connect_packet :: "MQTTConnectParams \<Rightarrow> cstr \<Rightarrow> byte list" where
  "connect_packet p conn = mqtt_packet 0x10 (connect_body p (the (client_id p)) (username_full (the (client_id p)) conn LONG_MAX))"

lemma timesec_max: "connect_timesec sec = LONG_MAX"
  by (simp add: connect_timesec_def MAX_ACCESS_EXPIRE_TIMEOUT_def)

lemma length_username:
  "length (username_full cid (get_next_conn_id rand) LONG_MAX) = length cid + 35"
proof -
  have "digits_len (nat LONG_MAX) = 19"
    by (simp add: LONG_MAX_def) (simp add: digits_len.simps)
  then show ?thesis
    by (simp add: username_full_def length_dec_string QCLOUD_IOT_DEVICE_SDK_APPID_def LONG_MAX_def)
qed

lemma serialize_connect_cases:
  assumes "connect_ready p" and "length buf = 2048"
  shows "serialize_connect_packet sec mem rand buf 2048 p =
    (if mem then Some (Inr (put buf (connect_packet p (get_next_conn_id rand)), length (connect_packet p (get_next_conn_id rand))),
        p\<lparr>conn_id := get_next_conn_id rand, username := None, password := None\<rparr>)
     else Some (Inl QCLOUD_ERR_MALLOC, p\<lparr>username := None, password := None\<rparr>))"
    and "0 < length (connect_packet p (get_next_conn_id rand))" and "length (connect_packet p (get_next_conn_id rand)) < 2048"
proof -
  obtain cid where cid: "client_id p = Some cid" "cid \<noteq> []" "length cid \<le> 80" and p: "mqtt_version p = 4" "password p = None"
    using assms(1) by (auto simp: connect_ready_def split: option.splits)
  define user where "user = username_full cid (get_next_conn_id rand) LONG_MAX"
  have h: "mqtt_init_packet_header CONNECT 0 0 0 = Inr 0x10"
    by (simp add: mqtt_init_packet_header_def)
  have user: "length user = length cid + 35"
    by (simp add: user_def length_username)
  have body: "length (connect_body p cid user) = 49 + 2 * length cid"
    using p user by (simp add: connect_body_def STR_MQTT_def)
  have fit: "get_mqtt_packet_len (length (connect_body p cid user)) \<le> 300"
    using cid(3) by (simp add: body get_mqtt_packet_len_def Let_def)
  have pkt: "connect_packet p (get_next_conn_id rand) = mqtt_packet 0x10 (connect_body p cid user)"
    by (simp add: connect_packet_def cid(1) user_def)
  have "length (mqtt_packet 0x10 (connect_body p cid user)) \<le> 300"
    using get_mqtt_packet_len_ge [of "length (connect_body p cid user)"] fit cid(3) by (simp add: mqtt_packet_def body)
  then show "0 < length (connect_packet p (get_next_conn_id rand))" "length (connect_packet p (get_next_conn_id rand)) < 2048"
    by (simp_all add: pkt mqtt_packet_def)
  show "serialize_connect_packet sec mem rand buf 2048 p =
    (if mem then Some (Inr (put buf (connect_packet p (get_next_conn_id rand)), length (connect_packet p (get_next_conn_id rand))),
        p\<lparr>conn_id := get_next_conn_id rand, username := None, password := None\<rparr>)
     else Some (Inl QCLOUD_ERR_MALLOC, p\<lparr>username := None, password := None\<rparr>))"
  proof (cases mem)
    case True
    then show ?thesis
      using serialize_connect_packet_ok [OF disjI2 [OF p(1)] p(2) cid(1,2) h, of rand sec 2048 buf] cid(3) fit user assms(2)
      by (simp add: timesec_max user_def pkt)
  qed (use cid in \<open>simp add: serialize_connect_packet_def\<close>)
qed


lemma calm_time:
  assumes "calm env W" and "world s \<in> W"
  shows "expired env timer s = (e, s') \<Longrightarrow> world s' \<in> W" and "left_ms env timer s = (ms, s') \<Longrightarrow> world s' \<in> W"
  using assms by (auto simp: expired_def left_ms_def time_now_def calm_def Let_def split: prod.splits dest!: bspec)

text \<open>Sending does not leave the set \<open>W\<close>.\<close>

lemma send_loop_calm:
  "send_loop env len timer rc sent s = Some y \<Longrightarrow> calm env W \<and> world s \<in> W \<longrightarrow> world (snd (snd y)) \<in> W"
proof (erule send_loop.raw_induct [rotated], intro impI)
  fix f :: "'a env \<Rightarrow> nat \<Rightarrow> Timer \<Rightarrow> int \<Rightarrow> nat \<Rightarrow> 'a sys \<Rightarrow> (int \<times> nat \<times> 'a sys) option" and env len timer rc sent s y
  assume IH: "\<And>env len timer rc sent s y. f env len timer rc sent s = Some y \<Longrightarrow> calm env W \<and> world s \<in> W \<longrightarrow> world (snd (snd y)) \<in> W"
    and step: "(if sent < len then
        (let (e, s) = expired env timer s in
         if \<not> e then
           (let (ms, s) = left_ms env timer s in
            do {
              bytes \<leftarrow> rd_bytes (write_buf s) sent len;
              let (rc, sentLen, w) = net_write env bytes ms (world s);
              let s = s\<lparr>world := w\<rparr>;
              if rc \<noteq> QCLOUD_RET_SUCCESS then Some (rc, sent, s)
              else f env len timer rc (sent + sentLen) s
            })
         else Some (rc, sent, s))
      else Some (rc, sent, s)) = Some y"
    and c: "calm env W \<and> world s \<in> W"
  obtain e s1 where e: "expired env timer s = (e, s1)"
    by (cases "expired env timer s")
  obtain ms s2 where l: "left_ms env timer s1 = (ms, s2)"
    by (cases "left_ms env timer s1")
  have W: "world s1 \<in> W" "world s2 \<in> W"
    using calm_time [of env W s] calm_time [of env W s1] c e l by blast+
  have wr: "w \<in> W" if "net_write env bytes ms (world s2) = (rc', n, w)" for bytes rc' n w
    using c W(2) that by (metis calm_def snd_conv)
  show "world (snd (snd y)) \<in> W"
    using step c W by (auto simp: e l Let_def split: if_splits prod.splits bind_splits dest: wr dest!: IH)
qed


lemma send_calm:
  assumes "calm env W" and "world s \<in> W" and "send_mqtt_packet env len timer s = Some (rc, s')"
  shows "world s' \<in> W"
proof -
  obtain e s1 where e: "expired env timer s = (e, s1)"
    by (cases "expired env timer s")
  have W: "world s1 \<in> W"
    using calm_time [OF assms(1,2)] e by blast
  have loop: "world (snd (snd y)) \<in> W" if "send_loop env len timer QCLOUD_RET_SUCCESS 0 s1 = Some y" for y
    using send_loop_calm [OF that, of W] assms(1) W by blast
  show ?thesis
    using assms W
    by (fastforce simp: send_mqtt_packet_def e Let_def split: if_splits prod.splits bind_splits dest: loop calm_time(1) [OF assms(1), rotated])
qed

lemma connect_inputs_calm:
  assumes "connect_ready (options s)"
  obtains sec mem rand n w where "connect_inputs env s = ((sec, mem, rand), s\<lparr>next_addr := n, world := w\<rparr>)" and "next_addr s \<le> n"
    and "calm env W \<Longrightarrow> world s \<in> W \<Longrightarrow> w \<in> W"
proof -
  obtain cid where cid: "client_id (options s) = Some cid" "cid \<noteq> []"
    using assms by (auto simp: connect_ready_def split: option.splits)
  obtain t w1 where g: "gettimeofday env (world s) = (t, w1)"
    by (cases "gettimeofday env (world s)")
  obtain b w2 where m: "hal_malloc env w1 = (b, w2)"
    by (cases "hal_malloc env w1")
  obtain r w3 where r: "hal_rand env w2 = (r, w3)"
    by (cases "hal_rand env w2")
  have W: "w2 \<in> W \<and> w3 \<in> W" if "calm env W" "world s \<in> W"
    using that g m r unfolding calm_def by (metis snd_conv)
  show thesis
  proof (cases b)
    case True
    then show thesis
      using cid g m r W by (intro that [where sec = "tv_sec t" and mem = True and rand = r and n = "next_addr s + 1" and w = w3]) (simp_all add: connect_inputs_def time_now_def HAL_Malloc_def)
  next
    case False
    then show thesis
      using cid g m W by (intro that [where sec = "tv_sec t" and mem = False and rand = "\<lambda>k. 0" and n = "next_addr s" and w = w2]) (simp_all add: connect_inputs_def time_now_def HAL_Malloc_def)
  qed
qed

lemma connack_error:
  "deserialize_connack_packet buf n = Some (Inl rc) \<Longrightarrow> rc \<noteq> 0"
proof -
  have dec: "rc' \<noteq> 0" if "decode_packet_rem_len_from_buf_read k buf ptr m v c = Some (Inl rc')" for k ptr m v c rc'
    using that by (induction k arbitrary: ptr m v c) (auto simp: Let_def split: if_splits bind_splits)
  assume "deserialize_connack_packet buf n = Some (Inl rc)"
  then show ?thesis
    by (auto simp: deserialize_connack_packet_def mqtt_read_packet_rem_len_form_buf_def Let_def
        split: if_splits bind_splits sum.splits prod.splits dest: dec)
qed

lemma connack_refused: "connack_return_code c \<noteq> 0"
  by (simp add: connack_return_code_def)


section \<open>The handshake\<close>

text \<open>All that is asked of the environment for connecting.\<close>

definition broker_ok :: "'w env \<Rightarrow> 'w set \<Rightarrow> bool" where
  "broker_ok env W \<longleftrightarrow> env_ok env \<and> clock_advances env \<and> clock_ok env \<and> calm env W \<and> answers env W \<and>
     (\<forall>w. fst (net_connect env w) = QCLOUD_RET_SUCCESS \<longrightarrow> snd (net_connect env w) \<in> W)"

text \<open>What connecting does not change, and the parameters it stores.\<close>

definition same_client :: "MQTTConnectParams \<Rightarrow> 'w sys \<Rightarrow> 'w sys \<Rightarrow> bool" where
  "same_client p s s' \<longleftrightarrow> list_pub_wait_ack s' = list_pub_wait_ack s \<and> list_sub_wait_ack s' = list_sub_wait_ack s \<and>
     sub_handles s' = sub_handles s \<and> strings s' = strings s \<and> trace s' = trace s \<and> event_handle s' = event_handle s \<and>
     next_packet_id s' = next_packet_id s \<and> command_timeout_ms s' = command_timeout_ms s \<and> thread_running s' = thread_running s \<and>
     current_reconnect_wait_interval s' = current_reconnect_wait_interval s \<and>
     (\<exists>conn user. options s' = p\<lparr>conn_id := conn, username := user\<rparr>)"

text \<open>
  A connection in the sense of MQTT: the CONNECT packet was written to the network and an accepting CONNACK was received.
\<close>

definition connected_by :: "'w env \<Rightarrow> MQTTConnectParams \<Rightarrow> 'w sys \<Rightarrow> bool" where
  "connected_by env p s \<longleftrightarrow> is_connected s = CONNECTED \<and> was_manually_disconnected s = 0 \<and> is_ping_outstanding s = 0 \<and>
     (\<exists>present. deserialize_connack_packet (read_buf s) (read_buf_size s) = Some (Inr (present, QCLOUD_RET_MQTT_CONNACK_CONNECTION_ACCEPTED))) \<and>
     (\<exists>conn ms w w'. list_all alnum conn \<and> net_write env (connect_packet p conn) ms w = (QCLOUD_RET_SUCCESS, length (connect_packet p conn), w'))"

lemma client_inv_connecting:
  assumes "client_inv s" and "next_addr s \<le> n" and "length b = 2048" and "length rb = 2048"
  shows "client_inv (s\<lparr>next_addr := n, options := p, write_buf := b, read_buf := rb, world := w\<rparr>)"
proof -
  have less: "(\<forall>a \<in> A. a < next_addr s) \<Longrightarrow> \<forall>a \<in> A. a < n" for A
    using assms(2) by (meson less_le_trans)
  show ?thesis
    using assms(1,3,4) less [of "fst ` set (list_pub_wait_ack s) \<union> fst ` set (list_sub_wait_ack s)"] less [of "dom (strings s)"]
    unfolding client_inv_def unlocked_def arrays_ok_def lists_ok_def heap_ok_def by simp
qed

definition sent_connect :: "MQTTConnectParams \<Rightarrow> nat \<Rightarrow> byte list \<Rightarrow> byte list \<Rightarrow> 'w \<Rightarrow> 'w sys \<Rightarrow> 'w sys" where
  "sent_connect p n b rb w s = s\<lparr>next_addr := n, options := p, write_buf := b, read_buf := rb, world := w\<rparr>"

lemma connecting_result:
  assumes "client_inv s" and "next_addr s \<le> n" and "length b = 2048" and "length rb = 2048"
    and "p' = p\<lparr>conn_id := conn, username := user\<rparr>"
  shows "client_inv (sent_connect p' n b rb w s)" and "same_client p s (sent_connect p' n b rb w s)"
    and "is_connected (sent_connect p' n b rb w s) = is_connected s"
  using client_inv_connecting [OF assms(1-4)] assms(5) by (auto simp: sent_connect_def same_client_def)

lemma countdown_ms_ok:
  assumes "clock_ok env"
  obtains t w where "countdown_ms env ms s = (t, s\<lparr>world := w\<rparr>)" and "timeval_ok (end_time t)"
proof -
  obtain n w where g: "gettimeofday env (world s) = (n, w)"
    by (cases "gettimeofday env (world s)")
  then have "timeval_ok n"
    using assms by (metis clock_ok_def fst_conv)
  with g show thesis
    using countdown_ms_usecs [of n ms] by (intro that [of "HAL_Timer_countdown_ms n ms" w]) (simp_all add: countdown_ms_def time_now_def)
qed

text \<open>After the CONNECT packet has been sent.\<close>

lemma wait_connack:
  assumes B: "broker_ok env W" and inv: "client_inv s" and W: "world s \<in> W" and T: "timeval_ok (end_time t)"
  obtains rc rb w where "wait_for_read env j (MessageTypes_val CONNACK) t s = Some (rc, t, s\<lparr>read_buf := rb, world := w\<rparr>)"
    and "length rb = 2048"
proof -
  have rb: "read_buf_size s = 2048" "length (read_buf s) = 2048"
    using inv by (simp_all add: client_inv_def arrays_ok_def)
  have "ok (wait_loop env j (MessageTypes_val CONNACK) t 0 s) (\<lambda>(rc, t', s'). t' = t \<and> received s s' \<and>
      (rc = QCLOUD_RET_SUCCESS \<longrightarrow> packet_in (read_buf s')))"
    using B W T rb by (intro wait_loop_ends [where W = W]) (simp_all add: broker_ok_def)
  then show thesis
    using that by (auto simp: wait_for_read_def received_def dest!: ok_D)
qed


lemma connack_code_nonzero:
  "deserialize_connack_packet buf n = Some (Inr (present, rc)) \<Longrightarrow> rc \<noteq> 0"
  by (auto simp: deserialize_connack_packet_def Let_def connack_refused split: if_splits bind_splits sum.splits prod.splits)

lemma finish_connect_cases:
  assumes "client_inv s"
  obtains (refused) rc where "finish_connect env s = Some (rc, s)" and "rc \<noteq> 0"
  | (accepted) present t w where "deserialize_connack_packet (read_buf s) (read_buf_size s) =
        Some (Inr (present, QCLOUD_RET_MQTT_CONNACK_CONNECTION_ACCEPTED))"
      and "finish_connect env s = Some (QCLOUD_RET_SUCCESS, s\<lparr>is_connected := CONNECTED, was_manually_disconnected := 0,
        is_ping_outstanding := 0, world := w, ping_timer := t\<rparr>)"
proof -
  have s: "\<not> lock_generic s" "7 \<le> length (read_buf s)"
    using assms by (simp_all add: client_inv_def unlocked_def arrays_ok_def)
  obtain c where c: "deserialize_connack_packet (read_buf s) (read_buf_size s) = Some c"
    using deserialize_connack_packet_safe [OF s(2)] by blast
  show thesis
  proof (cases c)
    case (Inl rc)
    then show thesis
      using c connack_error by (intro refused [of rc]) (auto simp: finish_connect_def)
  next
    case (Inr x)
    obtain present rc where x: "x = (present, rc)"
      by (cases x)
    show thesis
    proof (cases "rc = QCLOUD_RET_MQTT_CONNACK_CONNECTION_ACCEPTED")
      case True
      let ?s = "s\<lparr>is_connected := CONNECTED, lock_generic := True, was_manually_disconnected := 0, is_ping_outstanding := 0\<rparr>"
      obtain t w where t: "countdown env (ucast (keep_alive_interval (options s))) ?s = (t, ?s\<lparr>world := w\<rparr>)"
        by (rule countdown_frame)
      show thesis
        using c Inr x True s(1) t by (intro accepted [where present = present and w = w and t = t]) (simp_all add: finish_connect_def set_client_conn_state_ok mutex_simps)
    next
      case False
      then show thesis
        using c Inr x connack_code_nonzero by (intro refused [of rc]) (auto simp: finish_connect_def)
    qed
  qed
qed

text \<open>Up to sending the packet: an error, or the rest of the function remains.\<close>

lemma mqtt_connect_cases:
  assumes B: "broker_ok env W" and inv: "client_inv s" and ready: "connect_ready p" and p: "p = options (apply_params params s)"
  obtains (fail) rc conn user n b w where "mqtt_connect env j params s = Some (rc, sent_connect (p\<lparr>conn_id := conn, username := user\<rparr>) n b (read_buf s) w s)"
      and "rc \<noteq> QCLOUD_RET_SUCCESS" and "next_addr s \<le> n" and "length b = 2048"
  | (sent) conn n b t w ms w0 where "mqtt_connect env j params s = do {
        (rc, t, s) \<leftarrow> wait_for_read env j (MessageTypes_val CONNACK) t (sent_connect (p\<lparr>conn_id := conn, username := None\<rparr>) n b (read_buf s) w s);
        if rc \<noteq> QCLOUD_RET_SUCCESS then Some (rc, s) else finish_connect env s }"
      and "next_addr s \<le> n" and "length b = 2048" and "w \<in> W" and "timeval_ok (end_time t)" and "list_all alnum conn"
      and "net_write env (connect_packet p conn) ms w0 = (QCLOUD_RET_SUCCESS, length (connect_packet p conn), w)"
proof -
  have arr: "write_buf_size s = 2048" "length (write_buf s) = 2048" "\<not> lock_write_buf s"
    and bo: "env_ok env" "clock_ok env" "calm env W"
    using inv B by (simp_all add: client_inv_def arrays_ok_def unlocked_def broker_ok_def)
  obtain t w1 where t: "countdown_ms env (command_timeout_ms s) s = (t, s\<lparr>world := w1\<rparr>)" "timeval_ok (end_time t)"
    by (rule countdown_ms_ok [OF bo(2)])
  have app: "apply_params params (s\<lparr>world := w1\<rparr>) = s\<lparr>options := p, world := w1\<rparr>"
    by (cases params) (simp_all add: p)
  obtain rc2 w2 where conn: "net_connect env w1 = (rc2, w2)"
    by (cases "net_connect env w1")
  show thesis
  proof (cases "rc2 = 0")
    case False
    then show thesis
      using t app conn arr
      by (intro fail [where rc = rc2 and conn = "conn_id p" and user = "username p" and n = "next_addr s" and b = "write_buf s" and w = w2]) (simp_all add: mqtt_connect_def sent_connect_def)
  next
    case True
    define s2 where "s2 = s\<lparr>options := p, world := w2, lock_write_buf := True\<rparr>"
    have s2: "connect_ready (options s2)" "world s2 \<in> W"
      using ready B conn True unfolding broker_ok_def by (simp_all add: s2_def) (metis fst_conv snd_conv)
    obtain sec mem rand n w3 where inp: "connect_inputs env s2 = ((sec, mem, rand), s2\<lparr>next_addr := n, world := w3\<rparr>)"
        "next_addr s \<le> n" "w3 \<in> W"
      using s2(2) bo(3) by (auto simp: s2_def intro: connect_inputs_calm [OF s2(1), where W = W and env = env])
    let ?conn = "get_next_conn_id rand"
    define pkt where "pkt = connect_packet p ?conn"
    define b where "b = put (write_buf s) pkt"
    note ser = serialize_connect_cases(1) [OF ready arr(2), of sec mem rand, folded pkt_def b_def]
      serialize_connect_cases(2,3) [OF ready arr(2), of rand, folded pkt_def]
    have pw: "p\<lparr>conn_id := c, username := u, password := None\<rparr> = p\<lparr>conn_id := c, username := u\<rparr>"
        "p\<lparr>username := u, password := None\<rparr> = p\<lparr>username := u\<rparr>" for c u
      using ready by (cases p; simp add: connect_ready_def)+
    note start = mqtt_connect_def t(1) app conn True inp(1) [unfolded s2_def] arr ser(1) pw mutex_simps sent_connect_def s2_def
    show thesis
    proof (cases mem)
      case False
      with inp(1) ser(1) show thesis
        using inp(2) arr(2) by (intro fail [where rc = QCLOUD_ERR_MALLOC and conn = "conn_id p" and user = None and n = n and b = "write_buf s" and w = w3]) (simp_all add: start)
    next
      case mem: True
      have pkt: "0 < length pkt" "length pkt < 2048" "take (length pkt) b = pkt" "length b = 2048"
        using ser(2,3) arr(2) by (simp_all add: b_def put_def)
      have ser1: "serialize_connect_packet sec True rand (write_buf s) 2048 p = Some (Inr (b, length pkt), p\<lparr>conn_id := ?conn, username := None\<rparr>)"
        using ser(1) mem pw by (simp add: b_def)
      define s3 where "s3 = s2\<lparr>next_addr := n, world := w3, options := p\<lparr>conn_id := ?conn, username := None\<rparr>, write_buf := b\<rparr>"
      have s3: "arrays_ok s3" "world s3 \<in> W"
        using inv pkt(4) inp(3) by (simp_all add: s3_def s2_def client_inv_def arrays_ok_def)
      from bo(1) s3(1) show thesis
      proof (cases rule: send_mqtt_packet_cases [where len = "length pkt" and timer = t])
        case (fail rc w)
        then show thesis
          using inp(2) pkt(1,4) mem by (intro that(1) [where rc = rc and conn = ?conn and user = None and n = n and b = b and w = w]) (simp_all add: start ser1 s3_def)
      next
        case (sent ms w0 w)
        have "w \<in> W"
          using send_calm [OF bo(3) s3(2) sent(1)] by simp
        moreover have "net_write env pkt ms w0 = (QCLOUD_RET_SUCCESS, length pkt, w)"
          using sent(2) pkt by (simp add: s3_def)
        ultimately show thesis
          using inp(2) pkt(1,4) mem sent(1) t(2) get_next_conn_id_alnum
          by (intro that(2) [where conn = ?conn and n = n and b = b and t = t and w = w and ms = ms and ?w0.0 = w0])
            (simp_all add: start ser1 s3_def pkt_def)
      qed
    qed
  qed
qed


lemma mqtt_connect_result:
  assumes B: "broker_ok env W" and inv: "client_inv s" and ready: "connect_ready p" and p: "p = options (apply_params params s)"
  shows "\<exists>rc s'. mqtt_connect env j params s = Some (rc, s') \<and> client_inv s' \<and> same_client p s s' \<and>
    (if rc = QCLOUD_RET_SUCCESS then connected_by env p s' else is_connected s' = is_connected s)"
  using B inv ready p
proof (cases rule: mqtt_connect_cases [where j = j])
  case (fail rc conn user n b w)
  have "length (read_buf s) = 2048"
    using inv by (simp add: client_inv_def arrays_ok_def)
  with fail show ?thesis
    using connecting_result [OF inv fail(3,4) _ refl] by auto
next
  case (sent conn n b t w ms w0)
  define p' where "p' = p\<lparr>conn_id := conn, username := None\<rparr>"
  have rb: "length (read_buf s) = 2048"
    using inv by (simp add: client_inv_def arrays_ok_def)
  note res = connecting_result [OF inv sent(2,3) _ p'_def]
  obtain rc rb' w' where r: "wait_for_read env j (MessageTypes_val CONNACK) t (sent_connect p' n b (read_buf s) w s) =
      Some (rc, t, sent_connect p' n b rb' w' s)" "length rb' = 2048"
    by (rule wait_connack [OF B res(1) [OF rb] _ sent(5), of w j]) (use sent(4) in \<open>simp_all add: sent_connect_def\<close>)
  show ?thesis
  proof (cases "rc = 0")
    case False
    then show ?thesis
      using sent(1) r res [OF r(2)] by (simp add: p'_def [symmetric])
  next
    case True
    then have start: "mqtt_connect env j params s = finish_connect env (sent_connect p' n b rb' w' s)"
      using sent(1) r by (simp add: p'_def [symmetric])
    from res(1) [OF r(2), of w'] show ?thesis
    proof (cases rule: finish_connect_cases [where env = env])
      case (refused rc')
      then show ?thesis
        using start res [OF r(2)] by simp
    next
      case (accepted present t' w'')
      then show ?thesis
        using start res(1,2) [OF r(2)] sent(6,7) unfolding connected_by_def by (auto simp: same_client_def)
    qed
  qed
qed


lemma connect_result:
  assumes "broker_ok env W" and inv: "client_inv s" and "connect_ready p" and "p = options (apply_params params s)"
  shows "\<exists>rc s'. qcloud_iot_mqtt_connect env j (Some params) s = Some (rc, s') \<and> client_inv s' \<and>
    (if is_connected s \<noteq> 0 then rc = QCLOUD_RET_MQTT_ALREADY_CONNECTED \<and> s' = s
     else same_client p s s' \<and> (if rc = QCLOUD_RET_SUCCESS then connected_by env p s' else is_connected s' = NOTCONNECTED))"
proof -
  have unl: "\<not> lock_generic s"
    using inv by (simp add: client_inv_def unlocked_def)
  obtain rc s' where r: "mqtt_connect env j params s = Some (rc, s')" "client_inv s'" "same_client p s s'"
      "if rc = QCLOUD_RET_SUCCESS then connected_by env p s' else is_connected s' = is_connected s"
    using mqtt_connect_result [OF assms, of j] by blast
  show ?thesis
  proof (cases "is_connected s = 0")
    case True
    then show ?thesis
      using r unl by (cases "rc = 0") (simp_all add: qcloud_iot_mqtt_connect_def get_client_conn_state_ok, simp add: same_client_def)
  qed (use inv unl in \<open>simp add: qcloud_iot_mqtt_connect_def get_client_conn_state_ok\<close>)
qed

section \<open>Reconnecting\<close>

lemma client_inv_notify: "client_inv (notify c s) = client_inv s"
  by (simp add: notify_def upcall_def)

lemma subscribe_keeps:
  assumes "env_ok env" and "client_inv s"
  shows "\<exists>rc s'. qcloud_iot_mqtt_subscribe env (Some topic) (Some p) s = Some (rc, s') \<and> client_inv s'"
proof (cases "topic = [] \<or> MAX_SIZE_OF_CLOUD_TOPIC < length topic \<or> sp_qos p = QOS2 \<or> is_connected s = 0")
  case True
  have "\<not> lock_generic s"
    using assms(2) by (simp add: client_inv_def unlocked_def)
  with True assms(2) show ?thesis
    by (auto simp: qcloud_iot_mqtt_subscribe_def get_client_conn_state_ok)
next
  case False
  with subscribe_correct [OF assms, of topic p] show ?thesis
    by (auto simp: request_result_def)
qed

lemma filter_allocated:
  assumes "client_inv s" and "i < MAX_MESSAGE_HANDLERS"
  shows "rd (sub_handles s) i = Some (sub_handles s ! i)"
    and "topic_filter (sub_handles s ! i) = Some a \<Longrightarrow> \<exists>topic. str_at s (Some a) = Some topic"
proof -
  have len: "length (sub_handles s) = MAX_MESSAGE_HANDLERS" and own: "set (handle_filters (sub_handles s)) \<subseteq> dom (strings s)"
    using assms(1) by (simp_all add: client_inv_def arrays_ok_def heap_ok_def)
  show "rd (sub_handles s) i = Some (sub_handles s ! i)"
    using assms(2) len by (simp add: rd_def)
  assume "topic_filter (sub_handles s ! i) = Some a"
  then have "a \<in> set (handle_filters (sub_handles s))"
    using assms(2) len nth_mem [of i "sub_handles s"] by (auto simp: set_handle_filters)
  with own show "\<exists>topic. str_at s (Some a) = Some topic"
    by (auto simp: str_at_def)
qed

lemma resubscribe_loop_keeps:
  assumes "env_ok env"
  shows "client_inv s \<Longrightarrow> i + n \<le> MAX_MESSAGE_HANDLERS \<Longrightarrow> \<exists>rc s'. resubscribe_loop env n i s = Some (rc, s') \<and> client_inv s'"
proof (induction n arbitrary: i s)
  case (Suc n)
  have h: "rd (sub_handles s) i = Some (sub_handles s ! i)"
    using Suc.prems by (intro filter_allocated) simp_all
  show ?case
  proof (cases "topic_filter (sub_handles s ! i)")
    case None
    with Suc h show ?thesis by simp
  next
    case (Some a)
    then obtain topic where t: "str_at s (Some a) = Some topic"
      using filter_allocated(2) [of s i a] Suc.prems by auto
    obtain rc s1 where "qcloud_iot_mqtt_subscribe env (Some topic)
        (Some \<lparr>sp_qos = handle_qos (sub_handles s ! i), on_message_handler = message_handler (sub_handles s ! i),
           on_sub_event_handler = sub_event_handler (sub_handles s ! i), user_data = handler_user_data (sub_handles s ! i)\<rparr>) s = Some (rc, s1)"
      "client_inv s1"
      using subscribe_keeps [OF assms Suc.prems(1)] by blast
    with Suc.IH [of s1 "i + 1"] Suc.prems(2) show ?thesis
      by (simp add: h t Some)
  qed
qed simp

lemma reconnect_keeps:
  assumes "broker_ok env W" and "client_inv s" and "connect_ready (options s)"
  shows "\<exists>rc s'. qcloud_iot_mqtt_attempt_reconnect env j s = Some (rc, s') \<and> client_inv s' \<and>
    (rc = QCLOUD_RET_MQTT_RECONNECTED \<longrightarrow> is_connected s = 0)"
proof -
  have unl: "\<not> lock_generic t" if "client_inv t" for t :: "'a sys"
    using that by (simp add: client_inv_def unlocked_def)
  have o: "options s = options (apply_params OwnOptions s)"
    by (simp add: copy_connect_params_def)
  obtain rc s1 where c: "qcloud_iot_mqtt_connect env j (Some OwnOptions) s = Some (rc, s1)" "client_inv s1"
    using connect_result [OF assms o, of j] by blast
  obtain rc2 s2 where r: "resubscribe_loop env MAX_MESSAGE_HANDLERS 0 s1 = Some (rc2, s2)" "client_inv s2"
    using resubscribe_loop_keeps [of env s1 0 MAX_MESSAGE_HANDLERS] assms(1) c(2) by (auto simp: broker_ok_def)
  show ?thesis
    using c r unl assms(2)
    by (simp add: qcloud_iot_mqtt_attempt_reconnect_def qcloud_iot_mqtt_resubscribe_def get_client_conn_state_ok)
qed

text \<open>What follows a failed attempt: the delay is doubled, up to its limit.\<close>

definition reconnect_delay :: "'w env \<Rightarrow> int \<Rightarrow> 'w sys \<Rightarrow> (int \<times> 'w sys) option" where
  "reconnect_delay env rc s = do {
     let s = s\<lparr>current_reconnect_wait_interval := current_reconnect_wait_interval s * 2\<rparr>;
     if MAX_RECONNECT_WAIT_INTERVAL < current_reconnect_wait_interval s
     then Some (QCLOUD_ERR_MQTT_RECONNECT_TIMEOUT, s)
     else do {
       let (t, s) = countdown_ms env (current_reconnect_wait_interval s) s;
       Some (rc, s\<lparr>reconnect_delay_timer := t\<rparr>)
     }
   }"

lemma handle_reconnect_eq:
  "handle_reconnect env j s =
     (let (e, s) = expired env (reconnect_delay_timer s) s in
      if \<not> e then Some (QCLOUD_ERR_MQTT_ATTEMPTING_RECONNECT, s)
      else
        let (up, w) = net_is_connected env (world s);
            s = s\<lparr>world := w\<rparr>
        in if \<not> up then reconnect_delay env QCLOUD_RET_MQTT_RECONNECTED s
           else do {
             (rc, s) \<leftarrow> qcloud_iot_mqtt_attempt_reconnect env j s;
             if rc = QCLOUD_RET_MQTT_RECONNECTED then Some (rc, reconnect_callback s)
             else reconnect_delay env QCLOUD_ERR_MQTT_ATTEMPTING_RECONNECT s
           })"
  unfolding handle_reconnect_def reconnect_delay_def Let_def by (auto split: prod.split)

lemma reconnect_delay_keeps:
  assumes "client_inv s"
  obtains rc' s' where "reconnect_delay env rc s = Some (rc', s')" and "client_inv s'"
proof -
  let ?v = "current_reconnect_wait_interval s * 2"
  obtain t u where "countdown_ms env ?v (s\<lparr>current_reconnect_wait_interval := ?v\<rparr>) = (t, s\<lparr>current_reconnect_wait_interval := ?v, world := u\<rparr>)"
    by (rule countdown_ms_frame)
  with assms show thesis
    by (cases "MAX_RECONNECT_WAIT_INTERVAL < ?v") (auto simp: reconnect_delay_def intro: that)
qed

lemma handle_reconnect_keeps:
  assumes "broker_ok env W" and "client_inv s" and "connect_ready (options s)"
  shows "\<exists>rc s'. handle_reconnect env j s = Some (rc, s') \<and> client_inv s'"
proof -
  obtain e w where e: "expired env (reconnect_delay_timer s) s = (e, s\<lparr>world := w\<rparr>)"
    by (rule expired_frame)
  obtain up w' where up: "net_is_connected env w = (up, w')"
    by (cases "net_is_connected env w")
  obtain rc s1 where a: "qcloud_iot_mqtt_attempt_reconnect env j (s\<lparr>world := w'\<rparr>) = Some (rc, s1)" "client_inv s1"
    using reconnect_keeps [of env W "s\<lparr>world := w'\<rparr>" j] assms by auto
  have "\<exists>rc s'. reconnect_delay env rc' t = Some (rc, s') \<and> client_inv s'" if "client_inv t" for rc' t
    using reconnect_delay_keeps [OF that, of env rc'] by blast
  then show ?thesis
    using a assms(2) by (cases up) (auto simp: handle_reconnect_eq e up reconnect_callback_def client_inv_notify)
qed


section \<open>Properties\<close>

text \<open>A broker that accepts every connection.\<close>

definition connack_env :: "(byte list \<times> byte list) env" where
  "connack_env = stream_env\<lparr>net_connect := (\<lambda>w. (QCLOUD_RET_SUCCESS, ([0x20, 2, 0, 0], snd w)))\<rparr>"

definition connack_worlds :: "(byte list \<times> byte list) set" where
  "connack_worlds = {w. fst w = [0x20, 2, 0, 0]}"

lemma connack_left:
  "timer_left_ms connack_env timer s =
    (if HAL_Timer_remain \<lparr>tv_sec = 0, tv_usec = 0\<rparr> timer \<le> 0 then 1 else HAL_Timer_remain \<lparr>tv_sec = 0, tv_usec = 0\<rparr> timer, s)"
  by (simp add: timer_left_ms_def left_ms_def time_now_def connack_env_def stream_env_def)

lemma connack_read_buf:
  "fst (world s) = bs @ rest \<Longrightarrow> off + length bs \<le> length (read_buf s) \<Longrightarrow> net_read_buf connack_env off (length bs) ms s =
    Some (QCLOUD_RET_SUCCESS, length bs, s\<lparr>read_buf := take off (read_buf s) @ bs @ drop (off + length bs) (read_buf s), world := (rest, snd (world s))\<rparr>)"
  by (simp add: net_read_buf_def connack_env_def stream_env_def wr_bytes_def)

lemma connack_rem_len:
  "fst (world s) = 2 # rest \<Longrightarrow> decode_packet_rem_len_with_net_read connack_env i ms s = (Inr 2, s\<lparr>world := (rest, snd (world s))\<rparr>)"
proof -
  have four: "MAX_NO_OF_REMAINING_LENGTH_BYTES = Suc 3"
    by (simp add: MAX_NO_OF_REMAINING_LENGTH_BYTES_def)
  show "fst (world s) = 2 # rest \<Longrightarrow> ?thesis"
    unfolding decode_packet_rem_len_with_net_read_def four decode_rem_len_net.simps(2) by (simp add: connack_env_def stream_env_def Let_def)
qed

lemma connack_body:
  assumes "fst (world s) = [0, 0]" and "read_buf_size s = 2048" and "read_buf s = 0x20 # bs" and "length bs = 2047"
  shows "\<exists>s'. read_mqtt_body connack_env timer 2 s = Some (Inr 2, s')"
proof -
  have w: "mqtt_write_packet_rem_len (0x20 # bs) (Suc 0) 2 = Some (0x20 # 2 # drop 1 bs, Suc 0)"
    using assms(4) by (simp add: mqtt_write_packet_rem_len_eq wr_bytes_def rem_len_bytes_small)
  show ?thesis
    using connack_read_buf [of "s\<lparr>read_buf := 0x20 # 2 # drop 1 bs\<rparr>" "[0, 0]" "[]" 2] assms
    by (simp add: read_mqtt_body_def w connack_left rd_def header_type_def Let_def numeral_2_eq_2 [symmetric])
qed

lemma connack_read:
  assumes "fst (world s) = [0x20, 2, 0, 0]" and "read_buf_size s = 2048" and "length (read_buf s) = 2048"
  shows "\<exists>s'. read_mqtt_packet connack_env timer i s = Some (Inr 2, s')"
proof -
  let ?s1 = "s\<lparr>read_buf := 0x20 # drop 1 (read_buf s), world := ([2, 0, 0], snd (world s))\<rparr>"
  have "net_read_buf connack_env 0 1 ms s = Some (QCLOUD_RET_SUCCESS, 1, ?s1)" for ms
    using connack_read_buf [of s "[0x20]" "[2, 0, 0]" 0 ms] assms by simp
  moreover have "decode_packet_rem_len_with_net_read connack_env i ms ?s1 = (Inr 2, s\<lparr>read_buf := 0x20 # drop 1 (read_buf s), world := ([0, 0], snd (world s))\<rparr>)" for ms
    by (simp add: connack_rem_len)
  moreover obtain s' where "read_mqtt_body connack_env timer 2 (s\<lparr>read_buf := 0x20 # drop 1 (read_buf s), world := ([0, 0], snd (world s))\<rparr>) = Some (Inr 2, s')"
    using connack_body [of "s\<lparr>read_buf := 0x20 # drop 1 (read_buf s), world := ([0, 0], snd (world s))\<rparr>" "drop 1 (read_buf s)" timer] assms by auto
  ultimately show ?thesis
    by (simp add: read_mqtt_packet_def connack_left Let_def)
qed

lemma connack_broker: "broker_ok connack_env connack_worlds"
  unfolding broker_ok_def
proof (intro conjI allI impI)
  show "env_ok connack_env"
    using stream_env_ok by (simp add: env_ok_def net_read_full_def net_write_full_def clock_monotonic_def connack_env_def)
  show "answers connack_env connack_worlds"
    unfolding answers_def
  proof (intro allI impI)
    fix timer i and s :: "(byte list \<times> byte list) sys"
    assume s: "world s \<in> connack_worlds \<and> read_buf_size s = 2048 \<and> length (read_buf s) = 2048"
    then obtain s' where "read_mqtt_packet connack_env timer i s = Some (Inr 2, s')"
      using connack_read [of s timer i] by (auto simp: connack_worlds_def)
    then show "case read_mqtt_packet connack_env timer i s of
        Some (Inr type, s') \<Rightarrow> type = MessageTypes_val CONNACK
      | Some (Inl rc, s') \<Rightarrow> rc = QCLOUD_ERR_MQTT_NOTHING_TO_READ \<longrightarrow>
          world s' \<in> connack_worlds \<and> now connack_env (world s) < now connack_env (world s')
      | None \<Rightarrow> True"
      by simp
  qed
qed (simp_all add: clock_advances_def later_def clock_ok_def timeval_ok_def calm_def connack_env_def stream_env_def connack_worlds_def)

text \<open>A client that is not connected.\<close>

definition offline_example :: "(byte list \<times> byte list) sys" where
  "offline_example = (client_example [])\<lparr>is_connected := 0\<rparr>"

lemma offline_ready: "connect_ready (options offline_example)" "client_inv offline_example"
  by (simp_all add: offline_example_def client_example_inv)
    (simp add: client_example_def connect_ready_def connect_params_example_def DEFAULT_MQTTCONNECT_PARAMS_def)



end
