(* ===== verification/Mqtt_Run.thy ===== *)
theory Mqtt_Run
  imports Mqtt_Handshake Step_Machine
begin

text \<open>
  The client as a machine: the operations of the application and of the main loop in any order, and the
  environment between them. The client's invariant discharges the law of the locale \<open>machine\<close>.
\<close>

section \<open>The client's operations\<close>

text \<open>
  What the application and the main loop call, and what happens outside: time passes, packets arrive, the
  network changes.
\<close>

datatype 'w client_op = Publish cstr PublishParams | Subscribe cstr SubscribeParams | Unsubscribe cstr
  | Iterate Timer byte | Connect params_arg | Reconnect | Disconnect | Outside 'w

fun client_step :: "'w env \<Rightarrow> junk \<Rightarrow> 'w client_op \<Rightarrow> 'w sys \<Rightarrow> 'w sys option" where
  "client_step env j (Publish topic p) s =
     map_option (\<lambda>(rc, p, s). s) (qcloud_iot_mqtt_publish env (Some topic) (Some p) s)"
| "client_step env j (Subscribe topic p) s =
     map_option (\<lambda>(rc, s). s) (qcloud_iot_mqtt_subscribe env (Some topic) (Some p) s)"
| "client_step env j (Unsubscribe topic) s =
     map_option (\<lambda>(rc, s). s) (qcloud_iot_mqtt_unsubscribe env j (Some topic) s)"
| "client_step env j (Iterate timer packet_type) s =
     map_option (\<lambda>(rc, fin, timer, packet_type, s). s) (yield_step env j timer packet_type s)"
| "client_step env j (Connect params) s = map_option (\<lambda>(rc, s). s) (qcloud_iot_mqtt_connect env j (Some params) s)"
| "client_step env j Reconnect s = map_option (\<lambda>(rc, s). s) (handle_reconnect env j s)"
| "client_step env j Disconnect s = map_option (\<lambda>(rc, s). s) (qcloud_iot_mqtt_disconnect env s)"
| "client_step env j (Outside w) s = Some (s\<lparr>world := w\<rparr>)"

text \<open>
  The preconditions: the application's payload is there and has the announced length, packets that arrive
  meet the conditions of their handlers, and connections are made with a client id to a broker that answers.
\<close>

fun client_ok :: "'w env \<Rightarrow> junk \<Rightarrow> 'w client_op \<Rightarrow> 'w sys \<Rightarrow> bool" where
  "client_ok env j (Publish topic p) s \<longleftrightarrow> pp_qos p \<in> {QOS0, QOS1, QOS2} \<and>
     (case pp_payload p of None \<Rightarrow> False
      | Some payload \<Rightarrow> pp_payload_len p = of_nat (length payload) \<and> length payload < 2 ^ 20)"
| "client_ok env j (Iterate timer packet_type) s \<longleftrightarrow> reads_expected env j timer s"
| "client_ok env j (Connect params) s \<longleftrightarrow> (\<exists>W. broker_ok env W) \<and> connect_ready (options (apply_params params s))"
| "client_ok env j Reconnect s \<longleftrightarrow> (\<exists>W. broker_ok env W) \<and> connect_ready (options s)"
| "client_ok env j op s \<longleftrightarrow> True"

lemma publish_step:
  assumes "env_ok env" and "client_inv s" and "client_ok env j (Publish topic p) s"
  shows "\<exists>s'. client_step env j (Publish topic p) s = Some s' \<and> client_inv s'"
proof (cases "topic = [] \<or> MAX_SIZE_OF_CLOUD_TOPIC < length topic \<or> pp_qos p = QOS2 \<or> is_connected s = 0")
  case True
  have "\<not> lock_generic s"
    using assms(2) by (simp add: client_inv_def unlocked_def)
  with True assms(2) show ?thesis
    by (auto simp: qcloud_iot_mqtt_publish_def get_client_conn_state_ok)
next
  case False
  obtain payload where "pp_payload p = Some payload" "pp_payload_len p = of_nat (length payload)" "length payload < 2 ^ 20"
    using assms(3) by (auto split: option.splits)
  with False assms publish_correct [OF assms(1,2), of topic p payload] show ?thesis
    by auto
qed

lemma subscribe_step:
  assumes "env_ok env" and "client_inv s"
  shows "\<exists>s'. client_step env j (Subscribe topic p) s = Some s' \<and> client_inv s'"
  using subscribe_keeps [OF assms, of topic p] by auto

lemma connect_step:
  assumes "client_inv s" and "client_ok env j (Connect params) s"
  shows "\<exists>s'. client_step env j (Connect params) s = Some s' \<and> client_inv s'"
proof -
  obtain W where "broker_ok env W" "connect_ready (options (apply_params params s))"
    using assms(2) by auto
  from connect_result [OF this(1) assms(1) this(2) refl, of j] show ?thesis
    by auto
qed

lemma reconnect_step:
  assumes "client_inv s" and "client_ok env j Reconnect s"
  shows "\<exists>s'. client_step env j Reconnect s = Some s' \<and> client_inv s'"
proof -
  obtain W where "broker_ok env W" "connect_ready (options s)"
    using assms(2) by auto
  from handle_reconnect_keeps [OF this(1) assms(1) this(2), of j] show ?thesis
    by auto
qed

lemma unsubscribe_step:
  assumes "env_ok env" and "client_inv s"
  shows "\<exists>s'. client_step env j (Unsubscribe topic) s = Some s' \<and> client_inv s'"
proof (cases "topic = [] \<or> MAX_SIZE_OF_CLOUD_TOPIC < length topic")
  case True
  with assms(2) show ?thesis
    by (auto simp: qcloud_iot_mqtt_unsubscribe_def)
next
  case False
  with unsubscribe_correct [OF assms, of topic j] assms(2) show ?thesis
    by (auto simp: request_result_def split: if_splits)
qed

lemma disconnect_step:
  assumes "env_ok env" and "client_inv s"
  shows "\<exists>s'. client_step env j Disconnect s = Some s' \<and> client_inv s'"
proof (cases "is_connected s = 0")
  case True
  moreover have "\<not> lock_generic s"
    using assms(2) by (simp add: client_inv_def unlocked_def)
  ultimately show ?thesis
    using assms(2) by (simp add: qcloud_iot_mqtt_disconnect_def get_client_conn_state_ok)
next
  case False
  from assms False show ?thesis
    by (cases rule: disconnect_cases) (simp_all add: client_inv_write_buf [OF assms(2)])
qed


section \<open>The client and its environment as a machine\<close>

text \<open>
  The state of the machine is the client together with the environment it runs in, which keeps its contracts.
\<close>

definition system_inv :: "'w env \<times> junk \<times> 'w sys \<Rightarrow> bool" where
  "system_inv = (\<lambda>(env, j, s). env_ok env \<and> clock_advances env \<and> client_inv s)"

definition system_ok :: "'w client_op \<Rightarrow> 'w env \<times> junk \<times> 'w sys \<Rightarrow> bool" where
  "system_ok op = (\<lambda>(env, j, s). client_ok env j op s)"

definition system_step :: "'w client_op \<Rightarrow> 'w env \<times> junk \<times> 'w sys \<Rightarrow> ('w env \<times> junk \<times> 'w sys) option" where
  "system_step op = (\<lambda>(env, j, s). map_option (\<lambda>s. (env, j, s)) (client_step env j op s))"

lemma client_step_preserves:
  assumes "env_ok env" and "clock_advances env" and "client_inv s" and "client_ok env j op s"
  shows "\<exists>s'. client_step env j op s = Some s' \<and> client_inv s'"
proof (cases op)
  case (Publish topic p)
  with publish_step [OF assms(1,3)] assms(4) show ?thesis by blast
next
  case (Iterate timer packet_type)
  then show ?thesis
    using yield_step_keeps [OF assms(1-3), of j timer packet_type] assms(4) by auto
next
  case (Connect params)
  with connect_step [OF assms(3)] assms(4) show ?thesis by blast
next
  case Reconnect
  with reconnect_step [OF assms(3)] assms(4) show ?thesis by blast
qed (use assms(1,3) subscribe_step unsubscribe_step disconnect_step in \<open>simp_all del: client_step.simps(2,3,7)\<close>)

interpretation client: machine system_inv system_ok system_step
proof
  fix st and op :: "'a client_op"
  assume "system_inv st" "system_ok op st"
  then show "\<exists>st'. system_step op st = Some st' \<and> system_inv st'"
    using client_step_preserves [of "fst st" "snd (snd st)" "fst (snd st)" op]
    by (auto simp: system_inv_def system_ok_def system_step_def split: prod.splits)
qed

lemma reaches_environment:
  "reaches system_ok system_step st st' \<Longrightarrow> fst st' = fst st \<and> fst (snd st') = fst (snd st)"
  by (induction rule: reaches.induct) (auto simp: system_step_def split: prod.splits)

section \<open>Properties\<close>



end
