(* ===== verification/Mqtt_Lifecycle.thy ===== *)
theory Mqtt_Lifecycle
  imports Mqtt_Run Utils_Base64 Iot_Device
begin

text \<open>
  The life of a client, \<^verbatim>\<open>mqtt_client.c\<close>: construction, destruction, the yield thread and the small accessors.  The parts of the client
  structure that only matter here (device, host, key, and which objects exist) are a record of their own, \<open>client_setup\<close>; \<open>os\<close> is what is
  needed of the operating system besides \<open>env\<close>.
\<close>

section \<open>Objects\<close>

text \<open>What is created with a client: its structure, the mutexes, and the two waiting lists.\<close>

datatype resource = ClientStruct | MutexOf mutex | PubList | SubList

record client_setup =
  device :: DeviceInfo
  host_addr :: cstr
  psk_key :: "byte list"
  ssl_psk_length :: nat
  ssl_psk_id :: "cstr option"
  ssl_timeout_ms :: u32
  network_host :: "cstr option"
  network_port :: nat
  resources :: "resource set"

record 'w os =
  mutex_create :: "'w \<Rightarrow> bool \<times> 'w"
  thread_create :: "'w \<Rightarrow> int \<times> 'w"
  sleep_ms :: "u32 \<Rightarrow> 'w \<Rightarrow> 'w"

definition acquire :: "resource \<Rightarrow> bool \<Rightarrow> client_setup \<Rightarrow> client_setup" where
  "acquire r success c = (if success then c\<lparr>resources := insert r (resources c)\<rparr> else c)"

text \<open>Destroying an object that does not exist (any more) goes wrong.\<close>

definition release :: "resource \<Rightarrow> client_setup \<Rightarrow> client_setup option" where
  "release r c = (if r \<in> resources c then Some (c\<lparr>resources := resources c - {r}\<rparr>) else None)"

definition HAL_MutexCreate :: "'w os \<Rightarrow> mutex \<Rightarrow> client_setup \<Rightarrow> 'w sys \<Rightarrow> bool \<times> client_setup \<times> 'w sys" where
  "HAL_MutexCreate os m c s =
     (let (ok, w) = mutex_create os (world s)
      in (ok, acquire (MutexOf m) ok c, (if ok then set_lock m False s else s)\<lparr>world := w\<rparr>))"

text \<open>\<^verbatim>\<open>list_new\<close> for one of the two lists, which is empty then.\<close>

definition list_create :: "'w env \<Rightarrow> resource \<Rightarrow> client_setup \<Rightarrow> 'w sys \<Rightarrow> bool \<times> client_setup \<times> 'w sys" where
  "list_create env r c s = (let (p, s) = HAL_Malloc env s in (p \<noteq> None, acquire r (p \<noteq> None) c, s))"

section \<open>Initialisation\<close>

definition HOST_STR_LENGTH :: nat where "HOST_STR_LENGTH = 64"
definition DECODE_PSK_LENGTH :: nat where "DECODE_PSK_LENGTH = 48"
definition QCLOUD_IOT_MQTT_DIRECT_DOMAIN :: cstr where "QCLOUD_IOT_MQTT_DIRECT_DOMAIN = chars ''iotcloud.tencentdevices.com''"
definition MIN_COMMAND_TIMEOUT :: u32 where "MIN_COMMAND_TIMEOUT = 500"
definition MAX_COMMAND_TIMEOUT :: u32 where "MAX_COMMAND_TIMEOUT = 20000"
definition QCLOUD_IOT_TLS_HANDSHAKE_TIMEOUT :: u32 where "QCLOUD_IOT_TLS_HANDSHAKE_TIMEOUT = 5000"
abbreviation (input) QCLOUD_IOT_MQTT_TX_BUF_LEN :: nat where "QCLOUD_IOT_MQTT_TX_BUF_LEN \<equiv> 2048"
definition MQTT_SERVER_PORT_TLS :: nat where "MQTT_SERVER_PORT_TLS = 8883"

text \<open>NULL and the empty string are the same for the ids; \<open>ip_event_handle\<close> tells whether there is a handler.\<close>

record MQTTInitParams =
  ip_product_id :: cstr
  ip_device_name :: cstr
  ip_device_secret :: "cstr option"
  ip_command_timeout :: u32
  ip_keep_alive_interval_ms :: u32
  ip_clean_session :: byte
  ip_auto_connect_enable :: byte
  ip_event_handle :: bool
  ip_err_code :: int

text \<open>The structure after \<^verbatim>\<open>memset(pClient, 0x0, sizeof(Qcloud_IoT_Client))\<close>; the heap is not touched.\<close>

definition zero_params :: MQTTConnectParams where
  "zero_params = \<lparr>client_id = None, username = None, password = None, conn_id = [], struct_id = replicate 4 0, struct_version = 0,
     mqtt_version = 0, keep_alive_interval = 0, clean_session = 0, auto_connect_enable = 0\<rparr>"

definition zero_client :: "'w sys \<Rightarrow> 'w sys" where
  "zero_client s = s\<lparr>is_connected := 0, was_manually_disconnected := 0, is_ping_outstanding := 0, next_packet_id := 0,
     command_timeout_ms := 0, current_reconnect_wait_interval := 0, counter_network_disconnected := 0, write_buf_size := 0,
     read_buf_size := 0, write_buf := replicate QCLOUD_IOT_MQTT_TX_BUF_LEN 0, read_buf := replicate QCLOUD_IOT_MQTT_RX_BUF_LEN 0,
     lock_generic := False, lock_write_buf := False, lock_list_pub := False, lock_list_sub := False, list_pub_wait_ack := [],
     list_sub_wait_ack := [], event_handle := False, options := zero_params, ping_timer := HAL_Timer_init,
     reconnect_delay_timer := HAL_Timer_init, sub_handles := replicate MAX_MESSAGE_HANDLERS null_handle,
     repeat_packet_id_buf := replicate MQTT_MAX_REPEAT_BUF_LEN 0, current_packet_id_cnt := 0, thread_running := False, thread_exit_code := 0\<rparr>"

definition zero_setup :: "client_setup \<Rightarrow> client_setup" where
  "zero_setup c = \<lparr>device = empty_device_info, host_addr = [], psk_key = replicate DECODE_PSK_LENGTH 0, ssl_psk_length = 0,
     ssl_psk_id = None, ssl_timeout_ms = 0, network_host = None, network_port = 0, resources = resources c\<rparr>"

text \<open>\<^verbatim>\<open>rand() % 65536 + 1\<close> as a \<^verbatim>\<open>uint16_t\<close>.\<close>

definition get_random_start_packet_id :: "'w env \<Rightarrow> 'w sys \<Rightarrow> u16 \<times> 'w sys" where
  "get_random_start_packet_id env s = (let (rand, w) = hal_rand env (world s) in (of_nat (rand 0 mod 65536 + 1), s\<lparr>world := w\<rparr>))"

definition limit_timeout :: "u32 \<Rightarrow> u32" where
  "limit_timeout t =
     (let t = (if t < MIN_COMMAND_TIMEOUT then MIN_COMMAND_TIMEOUT else t)
      in if t > MAX_COMMAND_TIMEOUT then MAX_COMMAND_TIMEOUT else t)"

text \<open>The fields that are set before the first mutex is created.\<close>

definition init_fields :: "'w env \<Rightarrow> MQTTInitParams \<Rightarrow> 'w sys \<Rightarrow> 'w sys" where
  "init_fields env p s =
     (let s = s\<lparr>sub_handles := replicate MAX_MESSAGE_HANDLERS null_handle, command_timeout_ms := ip_command_timeout p\<rparr>;
          (pid, s) = get_random_start_packet_id env s
      in s\<lparr>next_packet_id := pid, write_buf_size := QCLOUD_IOT_MQTT_TX_BUF_LEN, read_buf_size := QCLOUD_IOT_MQTT_RX_BUF_LEN,
           is_ping_outstanding := 0, was_manually_disconnected := 0, counter_network_disconnected := 0, event_handle := ip_event_handle p\<rparr>)"

definition create :: "'w env \<Rightarrow> 'w os \<Rightarrow> resource \<Rightarrow> client_setup \<Rightarrow> 'w sys \<Rightarrow> bool \<times> client_setup \<times> 'w sys" where
  "create env os r c s = (case r of MutexOf m \<Rightarrow> HAL_MutexCreate os m c s | _ \<Rightarrow> list_create env r c s)"

text \<open>Creating one object after the other, up to the first that fails.\<close>

fun create_all :: "'w env \<Rightarrow> 'w os \<Rightarrow> resource list \<Rightarrow> client_setup \<Rightarrow> 'w sys \<Rightarrow> bool \<times> client_setup \<times> 'w sys" where
  "create_all env os [] c s = (True, c, s)"
| "create_all env os (r # rs) c s =
     (let (created, c, s) = create env os r c s in if \<not> created then (False, c, s) else create_all env os rs c s)"

definition init_objects :: "'w env \<Rightarrow> 'w os \<Rightarrow> client_setup \<Rightarrow> 'w sys \<Rightarrow> bool \<times> client_setup \<times> 'w sys" where
  "init_objects env os = create_all env os [MutexOf WriteBuf, MutexOf ListSub, MutexOf ListPub, PubList, SubList]"

text \<open>The label \<^verbatim>\<open>error\<close>: whatever exists is destroyed.\<close>

definition release_existing :: "resource \<Rightarrow> client_setup \<Rightarrow> client_setup" where
  "release_existing r c = (if r \<in> resources c then c\<lparr>resources := resources c - {r}\<rparr> else c)"

definition init_error :: "client_setup \<Rightarrow> client_setup" where
  "init_error c = release_existing (MutexOf WriteBuf) (release_existing (MutexOf ListPub) (release_existing (MutexOf ListSub)
     (release_existing (MutexOf Generic) (release_existing SubList (release_existing PubList c)))))"

text \<open>
  TLS with a pre-shared key: the result of decoding the secret is not looked at, so that the length may be the one of an
  uninitialised variable, \<open>junk\<close>.  The pointers of the network handle to its functions are not part of the model.
\<close>

definition init_network :: "nat \<Rightarrow> MQTTInitParams \<Rightarrow> client_setup \<Rightarrow> 'w sys \<Rightarrow> (int \<times> client_setup \<times> 'w sys) option" where
  "init_network junk p c s =
     (case ip_device_secret p of
        None \<Rightarrow> Some (QCLOUD_ERR_INVAL, c, s)
      | Some secret \<Rightarrow> do {
          (rc, len, psk) \<leftarrow> qcloud_iot_utils_base64decode (Some (replicate DECODE_PSK_LENGTH 0)) DECODE_PSK_LENGTH secret (length secret);
          psk \<leftarrow> psk;
          let c = c\<lparr>psk_key := psk, ssl_psk_length := (case len of None \<Rightarrow> junk | Some len \<Rightarrow> len)\<rparr>;
          if dev_client_id (device c) = [] then Some (QCLOUD_ERR_INVAL, c, s)
          else Some (QCLOUD_RET_SUCCESS,
            c\<lparr>ssl_psk_id := Some (dev_client_id (device c)), network_host := Some (host_addr c), network_port := MQTT_SERVER_PORT_TLS,
              ssl_timeout_ms := (if command_timeout_ms s > QCLOUD_IOT_TLS_HANDSHAKE_TIMEOUT then command_timeout_ms s
                                 else QCLOUD_IOT_TLS_HANDSHAKE_TIMEOUT)\<rparr>,
            s\<lparr>ping_timer := HAL_Timer_init, reconnect_delay_timer := HAL_Timer_init, thread_running := False\<rparr>)
        })"

text \<open>From the first mutex on.\<close>

definition init_rest ::
  "'w env \<Rightarrow> 'w os \<Rightarrow> nat \<Rightarrow> MQTTInitParams \<Rightarrow> client_setup \<Rightarrow> 'w sys \<Rightarrow> (int \<times> MQTTInitParams \<times> client_setup \<times> 'w sys) option" where
  "init_rest env os junk p c s = do {
     let (created, c, s) = create env os (MutexOf Generic) c s;
     if \<not> created then Some (QCLOUD_ERR_FAILURE, p, c, s)
     else do {
       s \<leftarrow> set_client_conn_state NOTCONNECTED s;
       let (created, c, s) = init_objects env os c s;
       if \<not> created then Some (QCLOUD_ERR_FAILURE, p, init_error c, s)
       else do {
         (rc, c, s) \<leftarrow> init_network junk p c s;
         Some (rc, p, c, s)
       }
     }
   }"

text \<open>The parameters are returned because the timeout is limited in them as well.\<close>

definition qcloud_iot_mqtt_init ::
  "'w env \<Rightarrow> 'w os \<Rightarrow> nat \<Rightarrow> MQTTInitParams \<Rightarrow> client_setup \<Rightarrow> 'w sys \<Rightarrow> (int \<times> MQTTInitParams \<times> client_setup \<times> 'w sys) option" where
  "qcloud_iot_mqtt_init env os junk p c s = do {
     let c = zero_setup c;
     let s = zero_client s;
     let (rc, dev) = iot_device_info_set (ip_product_id p) (ip_device_name p);
     let c = c\<lparr>device := dev\<rparr>;
     if rc \<noteq> QCLOUD_RET_SUCCESS then Some (rc, p, c, s)
     else do {
       let (host, size) = HAL_Snprintf HOST_STR_LENGTH (ip_product_id p @ chars ''.'' @ QCLOUD_IOT_MQTT_DIRECT_DOMAIN);
       let c = c\<lparr>host_addr := host\<rparr>;
       if size < 0 \<or> size > int HOST_STR_LENGTH - 1 then Some (QCLOUD_ERR_FAILURE, p, c, s)
       else do {
         let p = p\<lparr>ip_command_timeout := limit_timeout (ip_command_timeout p)\<rparr>;
         init_rest env os junk p c (init_fields env p s)
       }
     }
   }"

section \<open>Construction and destruction\<close>

definition release_objects :: "client_setup \<Rightarrow> client_setup option" where
  "release_objects c = do {
     c \<leftarrow> release (MutexOf Generic) c;
     c \<leftarrow> release (MutexOf WriteBuf) c;
     c \<leftarrow> release (MutexOf ListSub) c;
     c \<leftarrow> release (MutexOf ListPub) c;
     c \<leftarrow> release PubList c;
     release SubList c
   }"

text \<open>\<^verbatim>\<open>list_destroy\<close> releases the nodes and their values, not what the values point to.\<close>

definition qcloud_iot_mqtt_fini :: "client_setup \<Rightarrow> 'w sys \<Rightarrow> (int \<times> client_setup \<times> 'w sys) option" where
  "qcloud_iot_mqtt_fini c s = do {
     c \<leftarrow> release_objects c;
     Some (QCLOUD_RET_SUCCESS, c, s\<lparr>list_pub_wait_ack := [], list_sub_wait_ack := []\<rparr>)
   }"

text \<open>At most 690 seconds.\<close>

definition construct_params :: "MQTTInitParams \<Rightarrow> client_setup \<Rightarrow> MQTTConnectParams" where
  "construct_params p c = DEFAULT_MQTTCONNECT_PARAMS\<lparr>client_id := Some (dev_client_id (device c)),
     keep_alive_interval := ucast (min (ip_keep_alive_interval_ms p div 1000) 690), clean_session := ip_clean_session p,
     auto_connect_enable := ip_auto_connect_enable p\<rparr>"

text \<open>The first connection; when it fails, everything is released again.  The result says whether a client is returned.\<close>

definition construct_connection ::
  "'w env \<Rightarrow> junk \<Rightarrow> MQTTInitParams \<Rightarrow> client_setup \<Rightarrow> 'w sys \<Rightarrow> (bool \<times> MQTTInitParams \<times> client_setup \<times> 'w sys) option" where
  "construct_connection env j p c s = do {
     (rc, s) \<leftarrow> qcloud_iot_mqtt_connect env j (Some (Params (construct_params p c))) s;
     if rc \<noteq> QCLOUD_RET_SUCCESS then do {
       (_, c, s) \<leftarrow> qcloud_iot_mqtt_fini c s;
       c \<leftarrow> release ClientStruct c;
       Some (False, p\<lparr>ip_err_code := rc\<rparr>, c, s)
     } else Some (True, p, c, s)
   }"

text \<open>An error code is left in the parameters.\<close>

definition IOT_MQTT_Construct ::
  "'w env \<Rightarrow> 'w os \<Rightarrow> junk \<Rightarrow> nat \<Rightarrow> MQTTInitParams \<Rightarrow> client_setup \<Rightarrow> 'w sys \<Rightarrow> (bool \<times> MQTTInitParams \<times> client_setup \<times> 'w sys) option" where
  "IOT_MQTT_Construct env os j junk p c s =
     (if ip_product_id p = [] \<or> ip_device_name p = [] then Some (False, p, c, s)
      else do {
        let (mem, s) = HAL_Malloc env s;
        let c = acquire ClientStruct (mem \<noteq> None) c;
        if mem = None then Some (False, p\<lparr>ip_err_code := QCLOUD_ERR_MALLOC\<rparr>, c, s)
        else do {
          (rc, p, c, s) \<leftarrow> qcloud_iot_mqtt_init env os junk p c s;
          if rc \<noteq> QCLOUD_RET_SUCCESS then do {
            c \<leftarrow> release ClientStruct c;
            Some (False, p\<lparr>ip_err_code := rc\<rparr>, c, s)
          } else construct_connection env j p c s
        }
      })"

text \<open>The loop over the table: subscribers are told, their filters released.\<close>

fun destroy_loop :: "nat \<Rightarrow> nat \<Rightarrow> 'w sys \<Rightarrow> 'w sys option" where
  "destroy_loop 0 i s = Some s"
| "destroy_loop (Suc n) i s = do {
     h \<leftarrow> rd (sub_handles s) i;
     s \<leftarrow>
       (case topic_filter h of
          None \<Rightarrow> Some s
        | Some a \<Rightarrow> do {
            s \<leftarrow> HAL_Free (Some a) (notify_sub h MQTT_EVENT_CLIENT_DESTROY s);
            Some (s\<lparr>sub_handles := (sub_handles s)[i := h\<lparr>topic_filter := None\<rparr>]\<rparr>)
          });
     destroy_loop n (i + 1) s
   }"

definition destroy_rest :: "client_setup \<Rightarrow> 'w sys \<Rightarrow> (client_setup \<times> 'w sys) option" where
  "destroy_rest c s = do {
     s \<leftarrow> destroy_loop MAX_MESSAGE_HANDLERS 0 s;
     let s = reset_repeat_packet_id_buffer s;
     c \<leftarrow> release_objects c;
     c \<leftarrow> release ClientStruct c;
     Some (c, s\<lparr>list_pub_wait_ack := [], list_sub_wait_ack := []\<rparr>)
   }"

text \<open>The network is disconnected by force if the DISCONNECT packet could not be sent.\<close>

definition IOT_MQTT_Destroy :: "'w env \<Rightarrow> client_setup \<Rightarrow> 'w sys \<Rightarrow> (int \<times> client_setup \<times> 'w sys) option" where
  "IOT_MQTT_Destroy env c s = do {
     (rc, s) \<leftarrow> qcloud_iot_mqtt_disconnect env s;
     s \<leftarrow> (if rc \<noteq> QCLOUD_RET_SUCCESS
           then set_client_conn_state NOTCONNECTED (s\<lparr>world := net_disconnect env (world s)\<rparr>) else Some s);
     (c, s) \<leftarrow> destroy_rest c s;
     Some (rc, c, s)
   }"

section \<open>The yield thread\<close>

definition HAL_SleepMs :: "'w os \<Rightarrow> u32 \<Rightarrow> 'w sys \<Rightarrow> 'w sys" where
  "HAL_SleepMs os ms s = s\<lparr>world := sleep_ms os ms (world s)\<rparr>"

definition IOT_MQTT_Yield :: "'w env \<Rightarrow> 'w os \<Rightarrow> junk \<Rightarrow> u32 \<Rightarrow> 'w sys \<Rightarrow> (int \<times> 'w sys) option" where
  "IOT_MQTT_Yield env os j timeout_ms s =
     (if thread_running s then Some (QCLOUD_RET_SUCCESS, HAL_SleepMs os timeout_ms s)
      else qcloud_iot_mqtt_yield env j timeout_ms s)"

text \<open>The loop of the thread; not ending is \<open>None\<close>.  The variable \<^verbatim>\<open>rc\<close> of the loop is not the one that is stored at the end.\<close>

partial_function (option) yield_thread_loop :: "'w env \<Rightarrow> 'w os \<Rightarrow> junk \<Rightarrow> 'w sys \<Rightarrow> 'w sys option" where
  "yield_thread_loop env os j s =
     (if thread_running s then do {
        (rc, s) \<leftarrow> qcloud_iot_mqtt_yield env j 500 s;
        if rc = QCLOUD_ERR_MQTT_ATTEMPTING_RECONNECT then yield_thread_loop env os j (HAL_SleepMs os 500 s)
        else if rc = QCLOUD_RET_MQTT_MANUALLY_DISCONNECTED \<or> rc = QCLOUD_ERR_MQTT_RECONNECT_TIMEOUT then Some s
        else yield_thread_loop env os j (HAL_SleepMs os 200 s)
      } else Some s)"

definition mqtt_yield_thread :: "'w env \<Rightarrow> 'w os \<Rightarrow> junk \<Rightarrow> 'w sys \<Rightarrow> 'w sys option" where
  "mqtt_yield_thread env os j s = do {
     let rc = QCLOUD_RET_SUCCESS;
     s \<leftarrow> yield_thread_loop env os j s;
     Some (s\<lparr>thread_running := False, thread_exit_code := rc\<rparr>)
   }"

definition IOT_MQTT_StartLoop :: "'w os \<Rightarrow> 'w sys \<Rightarrow> int \<times> 'w sys" where
  "IOT_MQTT_StartLoop os s =
     (let s = s\<lparr>thread_running := True\<rparr>;
          (rc, w) = thread_create os (world s);
          s = s\<lparr>world := w\<rparr>
      in if rc \<noteq> 0 then (QCLOUD_ERR_FAILURE, s) else (QCLOUD_RET_SUCCESS, HAL_SleepMs os 500 s))"

definition IOT_MQTT_StopLoop :: "'w os \<Rightarrow> 'w sys \<Rightarrow> 'w sys" where
  "IOT_MQTT_StopLoop os s = HAL_SleepMs os 1000 (s\<lparr>thread_running := False\<rparr>)"

definition IOT_MQTT_GetLoopStatus :: "'w sys \<Rightarrow> bool \<times> int" where
  "IOT_MQTT_GetLoopStatus s = (thread_running s, thread_exit_code s)"

definition IOT_MQTT_SetLoopStatus :: "bool \<Rightarrow> 'w sys \<Rightarrow> 'w sys" where
  "IOT_MQTT_SetLoopStatus loop_status s = s\<lparr>thread_running := loop_status\<rparr>"

section \<open>Wrappers and accessors\<close>

text \<open>The calls of the application that only pass their arguments on.\<close>

definition IOT_MQTT_Publish ::
  "'w env \<Rightarrow> cstr option \<Rightarrow> PublishParams option \<Rightarrow> 'w sys \<Rightarrow> (int \<times> PublishParams option \<times> 'w sys) option" where
  "IOT_MQTT_Publish env topicName pParams s = qcloud_iot_mqtt_publish env topicName pParams s"

definition IOT_MQTT_Subscribe :: "'w env \<Rightarrow> cstr option \<Rightarrow> SubscribeParams option \<Rightarrow> 'w sys \<Rightarrow> (int \<times> 'w sys) option" where
  "IOT_MQTT_Subscribe env topicFilter pParams s = qcloud_iot_mqtt_subscribe env topicFilter pParams s"

definition IOT_MQTT_Unsubscribe :: "'w env \<Rightarrow> junk \<Rightarrow> cstr option \<Rightarrow> 'w sys \<Rightarrow> (int \<times> 'w sys) option" where
  "IOT_MQTT_Unsubscribe env j topicFilter s = qcloud_iot_mqtt_unsubscribe env j topicFilter s"

definition IOT_MQTT_IsSubReady :: "cstr option \<Rightarrow> 'w sys \<Rightarrow> (bool \<times> 'w sys) option" where
  "IOT_MQTT_IsSubReady topicFilter s = qcloud_iot_mqtt_is_sub_ready topicFilter s"

definition IOT_MQTT_GetDeviceInfo :: "client_setup \<Rightarrow> DeviceInfo" where
  "IOT_MQTT_GetDeviceInfo c = device c"

definition IOT_MQTT_GetErrCode :: int where "IOT_MQTT_GetErrCode = QCLOUD_ERR_FAILURE"

text \<open>A NULL client is answered with \<^verbatim>\<open>QCLOUD_ERR_INVAL\<close>, which is true as a \<^verbatim>\<open>bool\<close>.\<close>

definition IOT_MQTT_IsConnected :: "'w sys option \<Rightarrow> (bool \<times> 'w sys option) option" where
  "IOT_MQTT_IsConnected pClient =
     (case pClient of
        None \<Rightarrow> Some (QCLOUD_ERR_INVAL \<noteq> 0, None)
      | Some s \<Rightarrow> do { (c, s) \<leftarrow> get_client_conn_state s; Some (c = 1, Some s) })"

definition qcloud_iot_mqtt_set_autoreconnect :: "bool \<Rightarrow> 'w sys \<Rightarrow> int \<times> 'w sys" where
  "qcloud_iot_mqtt_set_autoreconnect v s =
     (QCLOUD_RET_SUCCESS, s\<lparr>options := (options s)\<lparr>auto_connect_enable := (if v then 1 else 0)\<rparr>\<rparr>)"

definition qcloud_iot_mqtt_is_autoreconnect_enabled :: "'w sys \<Rightarrow> bool" where
  "qcloud_iot_mqtt_is_autoreconnect_enabled s \<longleftrightarrow> auto_connect_enable (options s) = 1"

definition qcloud_iot_mqtt_get_network_disconnected_count :: "'w sys \<Rightarrow> int" where
  "qcloud_iot_mqtt_get_network_disconnected_count s = sint (counter_network_disconnected s)"

definition qcloud_iot_mqtt_reset_network_disconnected_count :: "'w sys \<Rightarrow> int \<times> 'w sys" where
  "qcloud_iot_mqtt_reset_network_disconnected_count s = (QCLOUD_RET_SUCCESS, s\<lparr>counter_network_disconnected := 0\<rparr>)"


section \<open>What initialisation creates\<close>

definition objects :: "resource set" where
  "objects = {MutexOf Generic, MutexOf WriteBuf, MutexOf ListSub, MutexOf ListPub, PubList, SubList}"

lemma release_existing_eq: "release_existing r c = c\<lparr>resources := resources c - {r}\<rparr>"
  by (simp add: release_existing_def)

lemma init_error_eq: "init_error c = c\<lparr>resources := resources c - objects\<rparr>"
  by (simp add: init_error_def release_existing_eq objects_def) (rule arg_cong [of _ _ "\<lambda>R. c\<lparr>resources := R\<rparr>"], auto)

lemma release_objects_eq: "objects \<subseteq> resources c \<Longrightarrow> release_objects c = Some (c\<lparr>resources := resources c - objects\<rparr>)"
  by (simp add: release_objects_def release_def objects_def) (rule arg_cong [of _ _ "\<lambda>R. c\<lparr>resources := R\<rparr>"], auto)

lemma release_all:
  assumes "resources c = insert ClientStruct objects"
  shows "release_objects c = Some (c\<lparr>resources := {ClientStruct}\<rparr>)"
proof -
  have "insert ClientStruct objects - objects = {ClientStruct}"
    by (auto simp: objects_def)
  then show ?thesis
    using release_objects_eq [of c] assms by auto
qed

text \<open>Creating an object changes the state of the environment and, for a list, takes an address; the object is there on success.\<close>

lemma create_frame:
  assumes "unlocked s"
  obtains b n w where "create env os r c s = (b, if b then c\<lparr>resources := insert r (resources c)\<rparr> else c, s\<lparr>next_addr := n, world := w\<rparr>)"
    and "next_addr s \<le> n"
proof -
  obtain b1 w1 where m: "mutex_create os (world s) = (b1, w1)"
    by (cases "mutex_create os (world s)")
  obtain b2 w2 where l: "hal_malloc env (world s) = (b2, w2)"
    by (cases "hal_malloc env (world s)")
  show thesis
  proof (cases "\<exists>m. r = MutexOf m")
    case True
    then obtain k where "r = MutexOf k" ..
    with assms m show thesis
      by (intro that [where b = b1 and n = "next_addr s" and w = w1])
        (cases k; simp add: create_def HAL_MutexCreate_def acquire_def unlocked_def)+
  next
    case False
    then show thesis
      by (intro that [where b = b2 and n = "if b2 then next_addr s + 1 else next_addr s" and w = w2])
        (cases r; simp add: create_def list_create_def HAL_Malloc_def acquire_def l)+
  qed
qed

lemma create_all_frame:
  assumes "unlocked s"
  shows "\<exists>b R n w. create_all env os rs c s = (b, c\<lparr>resources := resources c \<union> R\<rparr>, s\<lparr>next_addr := n, world := w\<rparr>) \<and>
    R \<subseteq> set rs \<and> (b \<longrightarrow> R = set rs) \<and> next_addr s \<le> n"
  using assms
proof (induction rs arbitrary: c s)
  case Nil
  show ?case
    by (intro exI [of _ True] exI [of _ "{}"] exI [of _ "next_addr s"] exI [of _ "world s"]) simp
next
  case (Cons r rs)
  obtain b n w where c: "create env os r c s = (b, if b then c\<lparr>resources := insert r (resources c)\<rparr> else c, s\<lparr>next_addr := n, world := w\<rparr>)"
      "next_addr s \<le> n"
    using Cons.prems by (rule create_frame)
  show ?case
  proof (cases b)
    case True
    obtain b' R k v where "create_all env os rs (c\<lparr>resources := insert r (resources c)\<rparr>) (s\<lparr>next_addr := n, world := w\<rparr>) =
        (b', c\<lparr>resources := insert r (resources c) \<union> R\<rparr>, s\<lparr>next_addr := k, world := v\<rparr>)" "R \<subseteq> set rs" "b' \<longrightarrow> R = set rs" "n \<le> k"
      using Cons.IH [of "s\<lparr>next_addr := n, world := w\<rparr>" "c\<lparr>resources := insert r (resources c)\<rparr>"] Cons.prems
      by (auto simp: unlocked_def)
    with True c show ?thesis
      by (intro exI [of _ b'] exI [of _ "insert r R"] exI [of _ k] exI [of _ v]) auto
  next
    case False
    with c show ?thesis
      by (intro exI [of _ False] exI [of _ "{}"] exI [of _ n] exI [of _ w]) simp
  qed
qed


lemma client_inv_thread [simp]:
  "client_inv (s\<lparr>thread_running := b\<rparr>) = client_inv s" "client_inv (s\<lparr>thread_exit_code := x\<rparr>) = client_inv s"
  by (simp_all add: client_inv_def unlocked_def arrays_ok_def lists_ok_def heap_ok_def)

lemma client_inv_alloc: "client_inv s \<Longrightarrow> next_addr s \<le> n \<Longrightarrow> client_inv (s\<lparr>next_addr := n, world := w\<rparr>)"
  using client_inv_connecting [where s = s and n = n and b = "write_buf s" and rb = "read_buf s" and p = "options s" and w = w] by (simp add: client_inv_def arrays_ok_def)

text \<open>A client without connection, requests and subscriptions, which has touched nothing on the heap.\<close>

definition fresh_client :: "'w sys \<Rightarrow> 'w sys \<Rightarrow> bool" where
  "fresh_client s s' \<longleftrightarrow> client_inv s' \<and> is_connected s' = NOTCONNECTED \<and> options s' = zero_params \<and> list_pub_wait_ack s' = [] \<and>
     list_sub_wait_ack s' = [] \<and> handle_filters (sub_handles s') = [] \<and> \<not> thread_running s' \<and> strings s' = strings s \<and> trace s' = trace s"

lemma init_fields_fresh:
  assumes "\<forall>a \<in> dom (strings s). a < next_addr s"
  shows "fresh_client s (init_fields env p (zero_client s))"
    and "command_timeout_ms (init_fields env p (zero_client s)) = ip_command_timeout p"
proof -
  obtain rand w where r: "hal_rand env (world s) = (rand, w)"
    by (cases "hal_rand env (world s)")
  note f = init_fields_def get_random_start_packet_id_def zero_client_def r
  show "fresh_client s (init_fields env p (zero_client s))"
    using assms by (simp add: f fresh_client_def client_inv_def unlocked_def arrays_ok_def lists_ok_def heap_ok_def handle_filters_null
        MQTT_MAX_REPEAT_BUF_LEN_def)
  show "command_timeout_ms (init_fields env p (zero_client s)) = ip_command_timeout p"
    by (simp add: f)
qed

lemma fresh_client_alloc: "fresh_client s s' \<Longrightarrow> next_addr s' \<le> n \<Longrightarrow> fresh_client s (s'\<lparr>next_addr := n, world := w\<rparr>)"
  using client_inv_alloc [of s' n w] by (simp add: fresh_client_def)

lemma fresh_unlocked: "fresh_client s s' \<Longrightarrow> unlocked s' \<and> \<not> lock_generic s'"
  by (simp add: fresh_client_def client_inv_def unlocked_def)

lemma init_network_cases:
  obtains (none) "ip_device_secret p = None" and "init_network junk p c s = Some (QCLOUD_ERR_INVAL, c, s)"
  | (empty) c' where "init_network junk p c s = Some (QCLOUD_ERR_INVAL, c', s)" and "dev_client_id (device c) = []" and "resources c' = resources c"
  | (ready) c' where "ip_device_secret p \<noteq> None" and "device c' = device c" and "resources c' = resources c"
      and "init_network junk p c s = Some (QCLOUD_RET_SUCCESS, c', s\<lparr>ping_timer := HAL_Timer_init, reconnect_delay_timer := HAL_Timer_init, thread_running := False\<rparr>)"
proof (cases "ip_device_secret p")
  case None
  then show thesis by (intro none) (simp_all add: init_network_def)
next
  case (Some secret)
  obtain rc olen d where d: "qcloud_iot_utils_base64decode (Some (replicate DECODE_PSK_LENGTH 0)) DECODE_PSK_LENGTH secret (length secret) = Some (rc, olen, Some d)"
    by (rule base64decode_cases [of "length secret" secret DECODE_PSK_LENGTH "replicate DECODE_PSK_LENGTH 0"]) auto
  show thesis
  proof (cases "dev_client_id (device c) = []")
    case True
    show thesis
      by (rule empty [OF _ True, of "c\<lparr>psk_key := d, ssl_psk_length := (case olen of None \<Rightarrow> junk | Some len \<Rightarrow> len)\<rparr>"])
        (simp_all add: init_network_def Some d True)
  next
    case False
    with Some d show thesis
      by (intro ready [of "c\<lparr>psk_key := d, ssl_psk_length := (case olen of None \<Rightarrow> junk | Some len \<Rightarrow> len), ssl_psk_id := Some (dev_client_id (device c)),
          network_host := Some (host_addr c), network_port := MQTT_SERVER_PORT_TLS,
          ssl_timeout_ms := (if command_timeout_ms s > QCLOUD_IOT_TLS_HANDSHAKE_TIMEOUT then command_timeout_ms s
            else QCLOUD_IOT_TLS_HANDSHAKE_TIMEOUT)\<rparr>"]) (simp_all add: init_network_def)
  qed
qed


lemma init_objects_frame:
  assumes "unlocked s"
  obtains b R n w where "init_objects env os c s = (b, c\<lparr>resources := resources c \<union> R\<rparr>, s\<lparr>next_addr := n, world := w\<rparr>)"
    and "R \<subseteq> objects" and "b \<longrightarrow> insert (MutexOf Generic) R = objects" and "next_addr s \<le> n"
proof -
  let ?rs = "[MutexOf WriteBuf, MutexOf ListSub, MutexOf ListPub, PubList, SubList]"
  obtain b R n w where f: "create_all env os ?rs c s = (b, c\<lparr>resources := resources c \<union> R\<rparr>, s\<lparr>next_addr := n, world := w\<rparr>)"
      "R \<subseteq> set ?rs" "b \<longrightarrow> R = set ?rs" "next_addr s \<le> n"
    using create_all_frame [OF assms, of env os ?rs c] by blast
  have obj: "objects = insert (MutexOf Generic) (set ?rs)"
    by (auto simp: objects_def)
  show thesis
    by (rule that [where b = b and R = R and n = n and w = w]) (use f in \<open>auto simp only: init_objects_def obj\<close>)
qed

text \<open>
  The result of initialisation: a fresh client with all its objects, or an error after which what was created is destroyed again, except
  when there is no device secret.
\<close>

definition init_outcome :: "MQTTInitParams \<Rightarrow> client_setup \<Rightarrow> 'w sys \<Rightarrow> int \<Rightarrow> MQTTInitParams \<Rightarrow> client_setup \<Rightarrow> 'w sys \<Rightarrow> bool" where
  "init_outcome p c s rc p' c' s' \<longleftrightarrow> p' = p\<lparr>ip_command_timeout := ip_command_timeout p'\<rparr> \<and> strings s' = strings s \<and>
     (if rc = QCLOUD_RET_SUCCESS
      then fresh_client s s' \<and> resources c' = resources c \<union> objects \<and> ip_device_secret p \<noteq> None \<and>
        command_timeout_ms s' = limit_timeout (ip_command_timeout p) \<and>
        dev_client_id (device c') = ip_product_id p @ ip_device_name p \<and> length (ip_product_id p) \<le> 10 \<and> length (ip_device_name p) \<le> 48
      else resources c' = resources c \<or> ip_device_secret p = None \<and> resources c' = resources c \<union> objects)"

lemma init_tail:
  assumes "objects \<inter> resources c = {}" and "fresh_client s t" and "dev_client_id (device c) = ip_product_id p @ ip_device_name p"
    and "ip_product_id p \<noteq> []" and "length (ip_product_id p) \<le> 10" and "length (ip_device_name p) \<le> 48"
    and "command_timeout_ms t = limit_timeout (ip_command_timeout p)" and p': "p' = p\<lparr>ip_command_timeout := limit_timeout (ip_command_timeout p)\<rparr>"
  shows "\<exists>rc c' s'. init_rest env os junk p' c t = Some (rc, p', c', s') \<and> init_outcome p c s rc p' c' s'"
proof -
  have "unlocked t"
    using fresh_unlocked [OF assms(2)] by simp
  then obtain b n w where m: "create env os (MutexOf Generic) c t =
      (b, if b then c\<lparr>resources := insert (MutexOf Generic) (resources c)\<rparr> else c, t\<lparr>next_addr := n, world := w\<rparr>)" "next_addr t \<le> n"
    by (rule create_frame)
  let ?c1 = "c\<lparr>resources := insert (MutexOf Generic) (resources c)\<rparr>" and ?t1 = "t\<lparr>next_addr := n, world := w\<rparr>"
  have t1: "fresh_client s ?t1" "set_client_conn_state NOTCONNECTED ?t1 = Some ?t1"
    using fresh_client_alloc [OF assms(2) m(2), of w] assms(2)
    by (simp_all add: set_client_conn_state_def mutex_simps fresh_client_def client_inv_def unlocked_def)
  have "unlocked ?t1"
    using fresh_unlocked [OF t1(1)] by simp
  then obtain b' R k v where o: "init_objects env os ?c1 ?t1 = (b', ?c1\<lparr>resources := resources ?c1 \<union> R\<rparr>, ?t1\<lparr>next_addr := k, world := v\<rparr>)"
      "R \<subseteq> objects" "b' \<longrightarrow> insert (MutexOf Generic) R = objects" "next_addr ?t1 \<le> k"
    by (rule init_objects_frame)
  have o: "init_objects env os ?c1 ?t1 = (b', c\<lparr>resources := insert (MutexOf Generic) (resources c) \<union> R\<rparr>, t\<lparr>next_addr := k, world := v\<rparr>)"
      "R \<subseteq> objects" "b' \<longrightarrow> insert (MutexOf Generic) R = objects" "n \<le> k"
    using o by simp_all
  let ?t2 = "t\<lparr>next_addr := k, world := v\<rparr>" and ?c2 = "c\<lparr>resources := insert (MutexOf Generic) (resources c) \<union> R\<rparr>"
  have t2: "fresh_client s ?t2" "fresh_client s (?t2\<lparr>ping_timer := HAL_Timer_init, reconnect_delay_timer := HAL_Timer_init, thread_running := False\<rparr>)"
    using fresh_client_alloc [OF assms(2), of k v] m(2) o(4) by (simp_all add: fresh_client_def)
  consider (no_mutex) "\<not> b" | (no_objects) "b" "\<not> b'" | (network) "b" "b'"
    by blast
  then show ?thesis
  proof cases
    case no_mutex
    then show ?thesis
      using t1(1) m(1) p' by (simp add: init_rest_def init_outcome_def fresh_client_def)
  next
    case no_objects
    then have "resources (init_error ?c2) = resources c"
      using o(2) assms(1) by (auto simp: init_error_eq objects_def)
    with no_objects show ?thesis
      using t1 t2(1) m(1) o(1) p' by (simp add: init_rest_def init_outcome_def fresh_client_def)
  next
    case network
    then have res: "resources ?c2 = resources c \<union> objects"
      using o(3) by auto
    have start: "init_rest env os junk p' c t = init_network junk p' ?c2 ?t2 \<bind> (\<lambda>(rc, c, s). Some (rc, p', c, s))"
      using network t1(2) m(1) o(1) by (simp add: init_rest_def)
    show ?thesis
    proof (cases rule: init_network_cases [of p' junk ?c2 ?t2])
      case none
      then show ?thesis
        using start res t2(1) p' by (simp add: init_outcome_def fresh_client_def)
    next
      case (empty c')
      then show ?thesis
        using assms(3,4) by simp
    next
      case (ready c')
      then show ?thesis
        using start res t2(2) assms(2-7) p' by (simp add: init_outcome_def) (simp add: fresh_client_def)
    qed
  qed
qed


lemma init_outcome_cong: "resources c1 = resources c \<Longrightarrow> init_outcome p c1 = init_outcome p c"
  by (intro ext) (simp add: init_outcome_def)

lemma init_result:
  assumes heap: "\<forall>a \<in> dom (strings s). a < next_addr s" and "objects \<inter> resources c = {}" and "ip_product_id p \<noteq> []"
  shows "\<exists>rc p' c' s'. qcloud_iot_mqtt_init env os junk p c s = Some (rc, p', c', s') \<and> init_outcome p c s rc p' c' s'"
proof (cases "length (ip_product_id p) \<le> 10 \<and> length (ip_device_name p) \<le> 48")
  case False
  then have "iot_device_info_set (ip_product_id p) (ip_device_name p) = (QCLOUD_ERR_FAILURE, empty_device_info)"
    by (subst device_info_set) simp
  then show ?thesis
    by (simp add: qcloud_iot_mqtt_init_def init_outcome_def zero_setup_def zero_client_def)
next
  case True
  define p' where "p' = p\<lparr>ip_command_timeout := limit_timeout (ip_command_timeout p)\<rparr>"
  define host where "host = ip_product_id p @ chars ''.'' @ QCLOUD_IOT_MQTT_DIRECT_DOMAIN"
  define c1 where "c1 = (zero_setup c)\<lparr>device := \<lparr>product_id = ip_product_id p, device_name = ip_device_name p,
    dev_client_id = ip_product_id p @ ip_device_name p\<rparr>, host_addr := host\<rparr>"
  have len: "length host \<le> 38"
    using True by (simp add: host_def chars_def QCLOUD_IOT_MQTT_DIRECT_DOMAIN_def)
  then have "HAL_Snprintf HOST_STR_LENGTH host = (host, int (length host))"
    by (simp add: HAL_Snprintf_def HOST_STR_LENGTH_def)
  then have start: "qcloud_iot_mqtt_init env os junk p c s = init_rest env os junk p' c1 (init_fields env p' (zero_client s))"
    using True len by (simp add: qcloud_iot_mqtt_init_def device_info_set host_def [symmetric] c1_def p'_def HOST_STR_LENGTH_def Let_def)
  have "\<exists>rc c' s'. init_rest env os junk p' c1 (init_fields env p' (zero_client s)) = Some (rc, p', c', s') \<and> init_outcome p c1 s rc p' c' s'"
    by (rule init_tail [OF _ init_fields_fresh(1) [OF heap]])
      (use True assms(2,3) init_fields_fresh(2) [OF heap, of env p'] in \<open>simp_all add: c1_def zero_setup_def p'_def\<close>)
  moreover have "resources c1 = resources c"
    by (simp add: c1_def zero_setup_def)
  ultimately show ?thesis
    unfolding start using init_outcome_cong [of c1 c p] by metis
qed

section \<open>Construction\<close>

text \<open>The parameters of the first connection.\<close>

definition first_options :: "MQTTInitParams \<Rightarrow> MQTTConnectParams" where
  "first_options p = zero_params\<lparr>mqtt_version := 4, client_id := Some (ip_product_id p @ ip_device_name p),
     keep_alive_interval := ucast (min (ip_keep_alive_interval_ms p div 1000) 690), clean_session := ip_clean_session p,
     auto_connect_enable := ip_auto_connect_enable p\<rparr>"

lemma first_options_ready:
  assumes "ip_product_id p \<noteq> []" and "length (ip_product_id p) \<le> 10" and "length (ip_device_name p) \<le> 48"
  shows "connect_ready (first_options p)"
  using assms by (simp add: connect_ready_def first_options_def zero_params_def)

lemma apply_first:
  assumes "options s = zero_params" and "dev_client_id (device c) = ip_product_id p @ ip_device_name p" and "p' = p\<lparr>ip_command_timeout := t\<rparr>"
  shows "first_options p = options (apply_params (Params (construct_params p' c)) s)"
  using assms by (simp add: first_options_def construct_params_def copy_connect_params_def DEFAULT_MQTTCONNECT_PARAMS_def zero_params_def)


text \<open>
  A connected client with all its objects, or an error code and nothing left behind but, without a device secret, the mutexes and lists.
\<close>

definition construct_outcome :: "'w env \<Rightarrow> MQTTInitParams \<Rightarrow> 'w sys \<Rightarrow> bool \<Rightarrow> MQTTInitParams \<Rightarrow> client_setup \<Rightarrow> 'w sys \<Rightarrow> bool" where
  "construct_outcome env p s success p' c' s' \<longleftrightarrow> strings s' = strings s \<and>
     (if success
      then client_inv s' \<and> connected_by env (first_options p) s' \<and> resources c' = insert ClientStruct objects \<and>
        list_pub_wait_ack s' = [] \<and> list_sub_wait_ack s' = [] \<and> handle_filters (sub_handles s') = []
      else (resources c' = {} \<or> ip_device_secret p = None \<and> resources c' = objects) \<and>
        (ip_product_id p \<noteq> [] \<and> ip_device_name p \<noteq> [] \<longrightarrow> ip_err_code p' \<noteq> QCLOUD_RET_SUCCESS))"

lemma construct_connection_result:
  assumes B: "broker_ok env W" and i: "init_outcome p c s0 QCLOUD_RET_SUCCESS p2 c2 s2" and res: "resources c = {ClientStruct}"
    and "ip_product_id p \<noteq> []"
  shows "\<exists>success p' c' s'. construct_connection env j p2 c2 s2 = Some (success, p', c', s') \<and> construct_outcome env p s0 success p' c' s'"
proof -
  have s2: "client_inv s2" "is_connected s2 = 0" "options s2 = zero_params" "list_pub_wait_ack s2 = []" "list_sub_wait_ack s2 = []"
      "handle_filters (sub_handles s2) = []" "strings s2 = strings s0"
    and c2: "resources c2 = insert ClientStruct objects" "dev_client_id (device c2) = ip_product_id p @ ip_device_name p"
    and ready: "connect_ready (first_options p)"
    using i res first_options_ready [OF assms(4)] by (auto simp: init_outcome_def fresh_client_def)
  have opts: "first_options p = options (apply_params (Params (construct_params p2 c2)) s2)"
    by (rule apply_first [OF s2(3) c2(2), of _ "ip_command_timeout p2"]) (use i in \<open>simp add: init_outcome_def\<close>)
  obtain rc s' where r: "qcloud_iot_mqtt_connect env j (Some (Params (construct_params p2 c2))) s2 = Some (rc, s')" "client_inv s'"
      "same_client (first_options p) s2 s'" "rc = QCLOUD_RET_SUCCESS \<Longrightarrow> connected_by env (first_options p) s'"
    using connect_result [OF B s2(1) ready opts, of j] s2(2) by (auto split: if_splits)
  show ?thesis
  proof (cases "rc = QCLOUD_RET_SUCCESS")
    case True
    with r s2 c2 show ?thesis
      by (intro exI [of _ True]) (simp add: construct_connection_def construct_outcome_def same_client_def)
  next
    case False
    with r s2 release_all [OF c2(1)] show ?thesis
      by (intro exI [of _ False])
        (simp add: construct_connection_def construct_outcome_def qcloud_iot_mqtt_fini_def release_def same_client_def)
  qed
qed

lemma construct_result:
  assumes B: "broker_ok env W" and heap: "\<forall>a \<in> dom (strings s). a < next_addr s" and res: "resources c = {}"
  shows "\<exists>success p' c' s'. IOT_MQTT_Construct env os j junk p c s = Some (success, p', c', s') \<and> construct_outcome env p s success p' c' s'"
proof (cases "ip_product_id p = [] \<or> ip_device_name p = []")
  case True
  then show ?thesis
    using res by (auto simp: IOT_MQTT_Construct_def construct_outcome_def)
next
  case ids: False
  obtain b w where m: "hal_malloc env (world s) = (b, w)"
    by (cases "hal_malloc env (world s)")
  show ?thesis
  proof (cases b)
    case False
    then show ?thesis
      using ids m res by (intro exI [of _ False]) (simp add: IOT_MQTT_Construct_def HAL_Malloc_def acquire_def construct_outcome_def)
  next
    case True
    define s1 where "s1 = s\<lparr>next_addr := next_addr s + 1, world := w\<rparr>"
    define c1 where "c1 = c\<lparr>resources := {ClientStruct}\<rparr>"
    have pre: "\<forall>a \<in> dom (strings s1). a < next_addr s1" "objects \<inter> resources c1 = {}" "ip_product_id p \<noteq> []"
      using heap ids by (auto simp: s1_def c1_def objects_def less_SucI)
    obtain rc p2 c2 s2 where i: "qcloud_iot_mqtt_init env os junk p c1 s1 = Some (rc, p2, c2, s2)" "init_outcome p c1 s1 rc p2 c2 s2"
      using init_result [OF pre, of env os junk] by blast
    have start: "IOT_MQTT_Construct env os j junk p c s = (if rc \<noteq> QCLOUD_RET_SUCCESS then do {
          c \<leftarrow> release ClientStruct c2;
          Some (False, p2\<lparr>ip_err_code := rc\<rparr>, c, s2)
        } else construct_connection env j p2 c2 s2)"
      using ids True m i(1) res by (simp add: IOT_MQTT_Construct_def HAL_Malloc_def acquire_def s1_def c1_def)
    show ?thesis
    proof (cases "rc = QCLOUD_RET_SUCCESS")
      case rc: True
      then have "\<exists>success p' c' s'. construct_connection env j p2 c2 s2 = Some (success, p', c', s') \<and> construct_outcome env p s1 success p' c' s'"
        using construct_connection_result [OF B _ _ pre(3), of c1 s1 p2 c2 s2 j] i(2) by (simp add: c1_def)
      then show ?thesis
        using start rc by (simp add: construct_outcome_def s1_def)
    next
      case False
      then have "resources c2 = {ClientStruct} \<or> ip_device_secret p = None \<and> resources c2 = insert ClientStruct objects" "strings s2 = strings s"
        using i(2) by (auto simp: init_outcome_def c1_def s1_def)
      moreover have "insert ClientStruct objects - {ClientStruct} = objects"
        by (auto simp: objects_def)
      ultimately show ?thesis
        using start False by (intro exI [of _ False]) (auto simp: release_def construct_outcome_def)
    qed
  qed
qed


section \<open>Destruction\<close>

text \<open>What a subscriber is told.\<close>

definition destroy_notice :: "SubTopicHandle \<Rightarrow> upcall list" where
  "destroy_notice h =
     (case topic_filter h of None \<Rightarrow> [] | Some a \<Rightarrow>
        (case sub_event_handler h of None \<Rightarrow> [] | Some f \<Rightarrow> [SubEvent f MQTT_EVENT_CLIENT_DESTROY (handler_user_data h)]))"

lemma destroy_loop_eq:
  assumes "distinct (handle_filters hs)" and "set (handle_filters hs) \<subseteq> dom (strings s)" and "sub_handles s = ps @ hs"
  shows "destroy_loop (length hs) (length ps) s =
    Some (s\<lparr>sub_handles := ps @ map (\<lambda>h. h\<lparr>topic_filter := None\<rparr>) hs, strings := strings s |` (- set (handle_filters hs)),
      trace := trace s @ concat (map destroy_notice hs)\<rparr>)"
  using assms
proof (induction hs arbitrary: ps s)
  case Nil
  then show ?case by simp
next
  case (Cons h hs)
  have rd: "rd (ps @ h # hs) (length ps) = Some h"
    by (simp add: rd_def)
  show ?case
  proof (cases "topic_filter h")
    case None
    then have h: "h\<lparr>topic_filter := None\<rparr> = h" "destroy_notice h = []"
      by (simp_all add: destroy_notice_def)
    show ?thesis
      using Cons.IH [of s "ps @ [h]"] Cons.prems by (simp add: rd h None)
  next
    case (Some a)
    let ?h = "h\<lparr>topic_filter := None\<rparr>"
    let ?s = "s\<lparr>trace := trace s @ destroy_notice h, strings := (strings s)(a := None), sub_handles := ps @ ?h # hs\<rparr>"
    have a: "strings s a \<noteq> None" "a \<notin> set (handle_filters hs)"
      using Cons.prems(1,2) Some by auto
    have free: "HAL_Free (Some a) (notify_sub h MQTT_EVENT_CLIENT_DESTROY s) =
        Some (s\<lparr>trace := trace s @ destroy_notice h, strings := (strings s)(a := None)\<rparr>)"
      using a(1) Some by (cases "sub_event_handler h") (auto simp: HAL_Free_def notify_sub_def upcall_def destroy_notice_def)
    have "destroy_loop (Suc (length hs)) (length ps) s = destroy_loop (length hs) (length (ps @ [?h])) ?s"
      using Cons.prems(3) by (simp add: rd Some free)
    also have "\<dots> = Some (?s\<lparr>sub_handles := (ps @ [?h]) @ map (\<lambda>h. h\<lparr>topic_filter := None\<rparr>) hs,
        strings := strings ?s |` (- set (handle_filters hs)), trace := trace ?s @ concat (map destroy_notice hs)\<rparr>)"
      using Cons.prems a(2) Some by (intro Cons.IH) auto
    also have "strings ?s |` (- set (handle_filters hs)) = strings s |` (- set (handle_filters (h # hs)))"
      using Some by (auto simp: restrict_map_def fun_eq_iff)
    finally show ?thesis by simp
  qed
qed

text \<open>All objects and the filters of the subscriptions are released, the subscribers are told.\<close>

definition destroyed :: "'w sys \<Rightarrow> client_setup \<Rightarrow> 'w sys \<Rightarrow> bool" where
  "destroyed s c' s' \<longleftrightarrow> resources c' = {} \<and> is_connected s' = NOTCONNECTED \<and> list_pub_wait_ack s' = [] \<and> list_sub_wait_ack s' = [] \<and>
     handle_filters (sub_handles s') = [] \<and> strings s' = strings s |` (- set (handle_filters (sub_handles s))) \<and>
     trace s' = trace s @ concat (map destroy_notice (sub_handles s))"

lemma handle_filters_cleared: "handle_filters (map (\<lambda>h. h\<lparr>topic_filter := None\<rparr>) hs) = []"
  by (induction hs) simp_all

lemma destroy_rest_result:
  assumes "client_inv s" and "resources c = insert ClientStruct objects" and "is_connected s = NOTCONNECTED"
  obtains c' s' where "destroy_rest c s = Some (c', s')" and "destroyed s c' s'"
proof -
  have len: "length (sub_handles s) = MAX_MESSAGE_HANDLERS" and own: "distinct (handle_filters (sub_handles s))"
      "set (handle_filters (sub_handles s)) \<subseteq> dom (strings s)"
    using assms(1) by (simp_all add: client_inv_def arrays_ok_def heap_ok_def)
  define s' where "s' = s\<lparr>sub_handles := map (\<lambda>h. h\<lparr>topic_filter := None\<rparr>) (sub_handles s), strings := strings s |` (- set (handle_filters (sub_handles s))),
    trace := trace s @ concat (map destroy_notice (sub_handles s)), repeat_packet_id_buf := replicate MQTT_MAX_REPEAT_BUF_LEN 0, current_packet_id_cnt := 0,
    list_pub_wait_ack := [], list_sub_wait_ack := []\<rparr>"
  have "destroy_rest c s = Some (c\<lparr>resources := {}\<rparr>, s')"
    using destroy_loop_eq [OF own, of "[]"]
    by (simp add: destroy_rest_def len release_all [OF assms(2)] release_def reset_repeat_packet_id_buffer_def s'_def)
  moreover have "destroyed s (c\<lparr>resources := {}\<rparr>) s'"
    using assms(3) by (simp add: destroyed_def s'_def handle_filters_cleared)
  ultimately show thesis by (rule that)
qed

lemma destroy_result:
  assumes "env_ok env" and "client_inv s" and "resources c = insert ClientStruct objects"
  shows "\<exists>rc c' s'. IOT_MQTT_Destroy env c s = Some (rc, c', s') \<and> destroyed s c' s'"
proof -
  have unl: "\<not> lock_generic s"
    using assms(2) by (simp add: client_inv_def unlocked_def)
  have rest: "\<exists>c' s'. destroy_rest c t = Some (c', s') \<and> destroyed s c' s'"
    if "client_inv t" "is_connected t = NOTCONNECTED" "sub_handles t = sub_handles s" "strings t = strings s" "trace t = trace s" for t
    using destroy_rest_result [OF that(1) assms(3) that(2)] that(3-5) unfolding destroyed_def by metis
  show ?thesis
  proof (cases "is_connected s = 0")
    case True
    with rest [of "s\<lparr>world := net_disconnect env (world s), is_connected := 0\<rparr>"] unl assms(2) show ?thesis
      by (simp add: IOT_MQTT_Destroy_def qcloud_iot_mqtt_disconnect_def get_client_conn_state_ok set_client_conn_state_ok) fastforce
  next
    case False
    note inv = client_inv_write_buf [OF assms(2)]
    from assms(1,2) False show ?thesis
    proof (cases rule: disconnect_cases)
      case (fail rc b w)
      with rest [of "s\<lparr>write_buf := b, world := net_disconnect env w, is_connected := 0\<rparr>"] unl inv [OF fail(3)] show ?thesis
        by (simp add: IOT_MQTT_Destroy_def set_client_conn_state_ok) fastforce
    next
      case (sent b ms w w0 w1)
      with rest [of "s\<lparr>write_buf := b, world := w, is_connected := 0, was_manually_disconnected := 1\<rparr>"] inv [OF sent(2)] show ?thesis
        by (simp add: IOT_MQTT_Destroy_def) fastforce
    qed
  qed
qed


section \<open>Properties\<close>

definition os_example :: "'w os" where
  "os_example = \<lparr>mutex_create = (\<lambda>w. (True, w)), thread_create = (\<lambda>w. (QCLOUD_ERR_FAILURE, w)), sleep_ms = (\<lambda>ms w. w)\<rparr>"

definition setup_example :: client_setup where
  "setup_example = \<lparr>device = empty_device_info, host_addr = [], psk_key = [], ssl_psk_length = 0, ssl_psk_id = None, ssl_timeout_ms = 0,
     network_host = None, network_port = 0, resources = {}\<rparr>"

definition init_params_example :: MQTTInitParams where
  "init_params_example = \<lparr>ip_product_id = [0x50], ip_device_name = [0x64], ip_device_secret = Some [0x51, 0x51, 0x3D, 0x3D], ip_command_timeout = 5000,
     ip_keep_alive_interval_ms = 240000, ip_clean_session = 1, ip_auto_connect_enable = 1, ip_event_handle = False, ip_err_code = 0\<rparr>"



text \<open>
  C10: Destroying a client, connected or not, always returns.  The connection is closed, by force if DISCONNECT cannot be sent; every
  subscriber with an event handler is told once, in the order of the table; the filter of every subscription and all objects are released exactly
  once.  The filters of subscription requests that still wait for their acknowledgement are not released: they stay allocated although
  nothing refers to them any more.
\<close>

theorem mqtt_destroy_releases:
  assumes "env_ok env" and "client_inv s" and "resources c = insert ClientStruct objects"
  shows "\<exists>rc c' s'. IOT_MQTT_Destroy env c s = Some (rc, c', s') \<and> destroyed s c' s' \<and>
    (\<forall>a \<in> set (pending_filters (list_sub_wait_ack s)). \<exists>topic. strings s a = Some topic \<and> strings s' a = Some topic)"
proof -
  obtain rc c' s' where d: "IOT_MQTT_Destroy env c s = Some (rc, c', s')" "destroyed s c' s'"
    using destroy_result [OF assms] by blast
  have "strings s a \<noteq> None \<and> a \<notin> set (handle_filters (sub_handles s))" if "a \<in> set (pending_filters (list_sub_wait_ack s))" for a
    using assms(2) that by (auto simp: client_inv_def heap_ok_def)
  with d show ?thesis
    by (fastforce simp: destroyed_def)
qed

theorem mqtt_destroy_releases_witness:
  "\<exists>rc c' s'. IOT_MQTT_Destroy stream_env (setup_example\<lparr>resources := insert ClientStruct objects\<rparr>) pending_example = Some (rc, c', s') \<and>
    destroyed pending_example c' s' \<and>
    (\<forall>a \<in> set (pending_filters (list_sub_wait_ack pending_example)). \<exists>topic. strings pending_example a = Some topic \<and> strings s' a = Some topic)"
  by (rule mqtt_destroy_releases [OF stream_env_contracts pending_example_inv]) (simp add: setup_example_def)

text \<open>
  From a state on, whatever the application, the broker and the clock do: no operation goes wrong, and the client can be destroyed at any
  time, which releases all its objects and the filters of its subscriptions.
\<close>

definition safe_life :: "'w env \<Rightarrow> junk \<Rightarrow> client_setup \<Rightarrow> 'w sys \<Rightarrow> bool" where
  "safe_life env j c s \<longleftrightarrow> (\<forall>env' j' s'. reaches system_ok system_step (env, j, s) (env', j', s') \<longrightarrow>
     \<not> (\<exists>op. client_ok env j op s' \<and> client_step env j op s' = None) \<and>
     (\<exists>rc c' s''. IOT_MQTT_Destroy env c s' = Some (rc, c', s'') \<and> destroyed s' c' s''))"

lemma safe_lifeI:
  assumes "env_ok env" and "clock_advances env" and "client_inv s" and "resources c = insert ClientStruct objects"
  shows "safe_life env j c s"
  unfolding safe_life_def
proof (intro allI impI conjI)
  fix env' j' s'
  assume r: "reaches system_ok system_step (env, j, s) (env', j', s')"
  have inv: "system_inv (env, j, s)"
    using assms(1-3) by (simp add: system_inv_def)
  have same: "env' = env" "j' = j"
    using reaches_environment [OF r] by simp_all
  show "\<not> (\<exists>op. client_ok env j op s' \<and> client_step env j op s' = None)"
  proof
    assume "\<exists>op. client_ok env j op s' \<and> client_step env j op s' = None"
    then obtain op where "client_ok env j op s'" "client_step env j op s' = None" by blast
    then show False
      using client.never_stuck [OF r inv, of op] by (auto simp: system_ok_def system_step_def same)
  qed
  have "client_inv s'"
    using client.reaches_inv [OF r inv] by (simp add: system_inv_def)
  then show "\<exists>rc c' s''. IOT_MQTT_Destroy env c s' = Some (rc, c', s'') \<and> destroyed s' c' s''"
    using assms(1,4) by (intro destroy_result)
qed



text \<open>
  Two consequences for the yield thread: whatever ends it, its exit code says success; and if it cannot be started, the client
  still counts as running, so that yielding only sleeps.
\<close>

lemma yield_thread_exit_code:
  "mqtt_yield_thread env os j s = Some s' \<Longrightarrow> IOT_MQTT_GetLoopStatus s' = (False, QCLOUD_RET_SUCCESS)"
  by (auto simp: mqtt_yield_thread_def IOT_MQTT_GetLoopStatus_def split: bind_splits)

lemma start_loop_failure:
  assumes "thread_create os (world s) = (rc, w)" and "rc \<noteq> 0" and "IOT_MQTT_StartLoop os s = (rc', s')"
  shows "rc' = QCLOUD_ERR_FAILURE \<and> IOT_MQTT_Yield env os j ms s' = Some (QCLOUD_RET_SUCCESS, HAL_SleepMs os ms s')"
  using assms by (auto simp: IOT_MQTT_StartLoop_def IOT_MQTT_Yield_def)

end
