(* ===== verification/Spec2Isabelle.thy ===== *)
theory Spec2Isabelle
  imports Ring_Buffer Utils_Hmac Coap_Run Mqtt_Lifecycle
begin

text \<open>
  A verification of the Tencent IoT Hub SDK for embedded C: its MQTT client with the containers, timers, codecs and hashes
  that the client and the services on top of it rest on.

  \<^bold>\<open>The program.\<close> The SDK (\<^verbatim>\<open>src/sdk_src\<close>) connects a device to a message broker.  At its centre is the MQTT client of
  \<^verbatim>\<open>protocol/mqtt\<close>: one structure \<^verbatim>\<open>Qcloud_IoT_Client\<close> with a send and a receive buffer, a table of subscriptions, two lists of
  requests that wait for their acknowledgement, timers, four mutexes and the handle of the network.  An application calls connect,
  publish, subscribe and unsubscribe, which serialize a packet into the send buffer, send it and queue what waits for an answer; the
  main loop \<^verbatim>\<open>yield\<close> reads packets, dispatches them to their handlers (which call the application back), expires requests, keeps the
  connection alive and reconnects.  Below it lie \<^verbatim>\<open>utils\<close> (doubly linked list, timers, ring buffer, Base64, MD5, SHA-1, HMAC) and the platform
  layer; above it the services (shadow, OTA, gateway and others), each a user of the client.

  \<^bold>\<open>How C becomes HOL.\<close> A function that touches memory is a function into \<open>option\<close>: \<open>None\<close> is undefined behaviour (an access
  outside an object, a null dereference, a second release, a lock taken twice) or, for the loops that are partial functions, not
  returning.  A return code with out-parameters is a sum: \<open>Inl rc\<close> the error, \<open>Inr x\<close> success.  Machine integers are words of
  their width where they can wrap, buffers are byte lists with checked access, pointers into a buffer are offsets, heap strings
  have addresses.  The client state is passed explicitly.  The network, the clock, \<^verbatim>\<open>malloc\<close> and \<^verbatim>\<open>rand\<close> are the functions of a
  record \<open>env\<close> over an arbitrary state \<open>'w\<close>; what the client relies on is named: \<open>env_ok\<close> (a read returns at most what was asked for, a
  successful read all of it, a successful write all bytes) and \<open>clock_advances\<close>, and for
  connecting \<open>broker_ok\<close> (the first packet of the broker is a CONNACK, a read without result takes time).  Calls of the application are recorded in a trace and
  change no client state.  Readings of the clock that only feed a log message are left out.  The configuration is that of
  \<^verbatim>\<open>include/config.h\<close>: TLS with a pre-shared key, buffers of 2048 bytes, multi-threading and duplicate removal on, log upload off.

  \<^bold>\<open>The theories\<close>, from the bottom up:

  \<^item> \<open>Prelude\<close>: machine types, return codes (\<^verbatim>\<open>qcloud_iot_export_error.h\<close>), checked buffers, option and word lemmas.
  \<^item> \<open>Utils_List\<close> (\<^verbatim>\<open>utils/utils_list.c\<close>): the linked list on an explicit heap of nodes.  The locale \<open>wait_list\<close> states what the
    client needs of it, a sequence that is appended to and unlinked from; its interpretation discharges it for the pointers.
  \<^item> \<open>Ring_Buffer\<close> (\<^verbatim>\<open>utils/utils_ringbuff.c\<close>): refines a bounded queue (locale \<open>fifo\<close>).
  \<^item> \<open>Hal_Timer\<close> (\<^verbatim>\<open>HAL_Timer_linux.c\<close>): countdown timers over \<^verbatim>\<open>struct timeval\<close>.
  \<^item> \<open>Utils_Base64\<close>, \<open>Utils_Digest\<close>, \<open>Utils_Md5\<close>, \<open>Utils_Sha1\<close>, \<open>Utils_Hmac\<close> (\<^verbatim>\<open>utils/\<close>, files of these names): the codec and the
    hashes, each beside a definition that follows its standard.  The locale \<open>block_hash\<close> proves the buffering of a hash once, the
    locale \<open>hash_stream\<close> states what users rely on (an update appends, finish writes the digest) and proves HMAC once; MD5 and
    SHA-1 interpret both.
  \<^item> \<open>Coap_Codec\<close>, \<open>Coap_Messages\<close> (\<^verbatim>\<open>protocol/coap\<close>, \<^verbatim>\<open>coap_client_common.c\<close>, \<^verbatim>\<open>_serialize.c\<close>, \<^verbatim>\<open>_deserialize.c\<close>): the CoAP
    message, its encoder, decoder and builders; round trip, safety of the decoder, well-formedness of every message that is built.
  \<^item> \<open>Iot_Device\<close> (\<^verbatim>\<open>utils/qcloud_iot_device.c\<close>), \<open>Coap_Client\<close> (\<^verbatim>\<open>coap_client_message.c\<close>), \<open>Coap_Api\<close> (\<^verbatim>\<open>coap_client_auth.c\<close>,
    \<^verbatim>\<open>coap_client.c\<close>): the CoAP client, with its own environment \<open>coap_env\<close>; \<open>Coap_Requests\<close>: its invariant \<open>coap_inv\<close> and an equation for each
    operation; \<open>Coap_Timeout\<close>: retransmission; \<open>Coap_Run\<close>: the properties of the whole client.
  \<^item> \<open>Mqtt_Codec\<close>, \<open>Mqtt_Packets\<close>, \<open>Mqtt_Connect_Packet\<close> (serializers and deserializers of \<^verbatim>\<open>mqtt_client_common.c\<close>,
    \<^verbatim>\<open>_publish.c\<close>, \<^verbatim>\<open>_subscribe.c\<close>, \<^verbatim>\<open>_unsubscribe.c\<close>, \<^verbatim>\<open>_connect.c\<close>): definitions in the first, round trips, exact output and bounds in the others.
  \<^item> \<open>Mqtt_Topic\<close> (\<^verbatim>\<open>_is_topic_matched\<close>): compared with the matching rules of MQTT.
  \<^item> \<open>Mqtt_State\<close> (\<^verbatim>\<open>internal_inc/mqtt_client.h\<close>): the client structure, the environment, mutexes, packet ids, duplicate memory.
  \<^item> \<open>Mqtt_Net\<close> (sending and reading packets), \<open>Mqtt_Handlers\<close> (one handler per packet type, \<^verbatim>\<open>cycle_for_read\<close>), \<open>Mqtt_Api\<close> (connect,
    disconnect, publish, subscribe, unsubscribe), \<open>Mqtt_Yield\<close> (\<^verbatim>\<open>mqtt_client_yield.c\<close>): the operations.
  \<^item> \<open>Mqtt_Invariant\<close>, \<open>Mqtt_Publish\<close>, \<open>Mqtt_Subscribe\<close>, \<open>Mqtt_Receive\<close>, \<open>Mqtt_Acks\<close>, \<open>Mqtt_Expiry\<close>, \<open>Mqtt_Keepalive\<close>: the invariant
    \<open>client_inv\<close> (no lock held, arrays of their size, bounded waiting lists, every topic filter allocated and owned once) and, operation
    by operation, that it is kept and what the operation does on every branch.
  \<^item> \<open>Mqtt_Handshake\<close>: connecting and reconnecting return, and what they establish; the broker's part is the named hypothesis \<open>broker_ok\<close>.
  \<^item> \<open>Mqtt_Lifecycle\<close> (\<^verbatim>\<open>mqtt_client.c\<close>): initialisation, construction, destruction and the yield thread, with the objects (structure, mutexes,
    lists) that exist; the life of a client from construction through any operations to its destruction.
  \<^item> \<open>Step_Machine\<close>: the locale \<open>machine\<close> (an invariant that every operation keeps holds in all reachable states, and none of them is
    stuck), interpreted in \<open>Mqtt_Run\<close> and \<open>Coap_Run\<close> for the two clients with their operations in any order and an arbitrary environment in
    between.

  \<^bold>\<open>What is shown.\<close> Codecs: decoding inverts encoding, serializers write exactly the packet or report a short buffer,
  deserializers stay in the buffer for any input.  Containers: refinement of sequences and queues.  Hashes: equality with FIPS 180-4,
  RFC 1321 and RFC 2104 for every cutting of the message into updates.  Client: each operation and handler keeps the invariant and has the stated
  effect; reading a packet, sending one and connecting always return; from construction to destruction the client never gets stuck, and
  what it owns is released.  Error theorems record, with concrete
  inputs, where the code departs from its intention (topic matching, a PUBLISH without room for its packet id, partial writes, the size check of a CoAP option).

  \<^bold>\<open>Loops.\<close> Loops over arrays are structural or have a measure.  Loops that wait for the clock (sending, waiting for a packet, the
  main loop, the yield thread) are partial functions into \<open>option\<close>; that sending and waiting for the CONNACK return is proved.

  \<^bold>\<open>Not modelled.\<close> Concurrency of several threads inside the client (the mutexes are modelled, their contention is not); the
  sockets, TLS (mbed TLS is third-party code) and the AT modem layer, which are input and output behind \<open>env\<close>; logging; the services on top
  of MQTT, JSON, HTTP and AES; the ports to other systems than Linux; the samples.
\<close>

end
